(* ===== verification/Base.thy ===== *)
theory Base
  imports Main "HOL-Library.Word"
begin

text \<open>
  The prelude of the development: the machine types of the C++ code (bytes and 16-bit lengths),
  the byte order conversions it calls (\<open>htons\<close>/\<open>ntohs\<close> on a little-endian host), the value of a
  frame, the faults an operation can end with, and the list lemmas the components share.
\<close>

unbundle bit_operations_syntax

named_theorems word_bytes \<open>splitting a 16-bit word into its bytes and back\<close>
named_theorems buf_simps \<open>overwriting a part of a buffer\<close>

section \<open>Bytes and 16-bit words\<close>

type_synonym byte = "8 word"
type_synonym u16 = "16 word"
type_synonym bytes = "byte list"

text \<open>The two bytes a \<open>uint16_t\<close> occupies in memory on a little-endian host, low address first.\<close>

definition lo_byte :: "u16 \<Rightarrow> byte" where
  "lo_byte w = ucast w"

definition hi_byte :: "u16 \<Rightarrow> byte" where
  "hi_byte w = ucast (drop_bit 8 w)"

definition join_bytes :: "byte \<Rightarrow> byte \<Rightarrow> u16" where
  "join_bytes lo hi = push_bit 8 (ucast hi) OR ucast lo"

text \<open>\<open>htons\<close> and \<open>ntohs\<close> of \<open><netinet/in.h>\<close> on a little-endian host: the bytes change places.\<close>

definition ntohs :: "u16 \<Rightarrow> u16" where
  "ntohs w = join_bytes (hi_byte w) (lo_byte w)"

definition htons :: "u16 \<Rightarrow> u16" where
  "htons w = join_bytes (hi_byte w) (lo_byte w)"

lemma lo_byte_join [simp, word_bytes]: "lo_byte (join_bytes lo hi) = lo"
  unfolding lo_byte_def join_bytes_def by (rule bit_word_eqI) (auto simp: bit_simps)

lemma hi_byte_join [simp, word_bytes]: "hi_byte (join_bytes lo hi) = hi"
  unfolding hi_byte_def join_bytes_def by (rule bit_word_eqI) (auto simp: bit_simps dest: bit_imp_le_length)

lemma join_lo_hi [simp, word_bytes]: "join_bytes (lo_byte w) (hi_byte w) = w"
  unfolding lo_byte_def hi_byte_def join_bytes_def
  by (rule bit_word_eqI) (auto simp: bit_simps)

lemma ntohs_join [simp, word_bytes]: "ntohs (join_bytes a b) = join_bytes b a"
  by (simp add: ntohs_def)

lemma htons_join [simp, word_bytes]: "htons (join_bytes a b) = join_bytes b a"
  by (simp add: htons_def)

lemma ntohs_htons [simp, word_bytes]: "ntohs (htons w) = w"
  by (simp add: ntohs_def htons_def)

lemma ntohs_ntohs [simp, word_bytes]: "ntohs (ntohs w) = w"
  by (simp add: ntohs_def)

lemma htons_htons [simp, word_bytes]: "htons (htons w) = w"
  by (simp add: htons_def)

lemma join_bytes_eq_iff [simp]: "join_bytes a b = join_bytes c d \<longleftrightarrow> a = c \<and> b = d"
  by (metis lo_byte_join hi_byte_join)

lemma ntohs_0 [simp]: "ntohs 0 = 0"
  by (simp add: ntohs_def join_bytes_def lo_byte_def hi_byte_def)

lemma htons_0 [simp]: "htons 0 = 0"
  by (simp add: htons_def join_bytes_def lo_byte_def hi_byte_def)

lemma unat_byte_lt: "unat (b :: byte) < 256"
  using unsigned_less [where ?'a = nat, of b] by simp

lemma unat_join_bytes: "unat (join_bytes lo hi) = 256 * unat hi + unat lo"
proof -
  have "join_bytes lo hi = push_bit 8 (ucast hi) + ucast lo"
    unfolding join_bytes_def
    by (subst disjunctive_add) (auto simp: bit_simps dest: bit_imp_le_length)
  moreover have "push_bit 8 (ucast hi) = (word_of_nat (256 * unat hi) :: u16)"
    by (simp add: push_bit_eq_mult)
  moreover have "ucast lo = (word_of_nat (unat lo) :: u16)"
    by simp
  ultimately have "join_bytes lo hi = word_of_nat (256 * unat hi + unat lo)"
    by (simp only: of_nat_add)
  then have "unat (join_bytes lo hi) = (256 * unat hi + unat lo) mod 65536"
    by (simp only: unat_of_nat) simp
  moreover have "256 * unat hi + unat lo < 65536"
    using unat_byte_lt [of hi] unat_byte_lt [of lo] by simp
  ultimately show ?thesis
    by (simp only: mod_less)
qed

lemma unat_u16_lt: "unat (w :: u16) < 65536"
  using unsigned_less [where ?'a = nat, of w] by simp

section \<open>Overwriting a part of a buffer\<close>

text \<open>\<open>write_at off xs buf\<close> stores \<open>xs\<close> into \<open>buf\<close> from offset \<open>off\<close> on; the callers check the bounds.\<close>

definition write_at :: "nat \<Rightarrow> 'a list \<Rightarrow> 'a list \<Rightarrow> 'a list" where
  "write_at off xs buf = take off buf @ xs @ drop (off + length xs) buf"

lemma write_at_Nil [simp, buf_simps]: "write_at off [] buf = buf"
  by (simp add: write_at_def)

lemma length_write_at [buf_simps]:
  "off + length xs \<le> length buf \<Longrightarrow> length (write_at off xs buf) = length buf"
  by (simp add: write_at_def)

lemma take_write_at [buf_simps]:
  "off + length xs \<le> length buf \<Longrightarrow>
     take (off + length xs) (write_at off xs buf) = take off buf @ xs"
  by (cases xs) (auto simp: write_at_def min_def)

lemma write_at_whole [buf_simps]: "length xs = length buf \<Longrightarrow> write_at 0 xs buf = xs"
  by (simp add: write_at_def)

text \<open>\<open>std::vector::resize(n)\<close>: cut, or extended with zero bytes.\<close>

definition resize :: "nat \<Rightarrow> bytes \<Rightarrow> bytes" where
  "resize n bs = take n bs @ replicate (n - length bs) 0"

lemma length_resize [simp]: "length (resize n bs) = n"
  by (simp add: resize_def)

section \<open>Values of frames, faults\<close>

text \<open>
  What a \<open>PFrame\<close> means to its reader: the header byte, the declared length and the message bytes.
  The ownership of the bytes is the subject of theory \<open>PFrame\<close>.
\<close>

record frame =
  fr_header :: byte
  fr_len :: u16
  fr_msg :: bytes

definition frame_wf :: "frame \<Rightarrow> bool" where
  "frame_wf f \<longleftrightarrow> length (fr_msg f) = unat (fr_len f)"

text \<open>The header check of \<open>PFramer::tryRead\<close> and \<open>IOFrameSocket::recvFrame\<close>.\<close>

definition header_ok :: "byte \<Rightarrow> bool" where
  "header_ok h \<longleftrightarrow> h AND 0xF0 = 0xF0"

text \<open>The bytes of a frame on the wire: header, length in network order, message.\<close>

definition wire :: "frame \<Rightarrow> bytes" where
  "wire f = fr_header f # hi_byte (fr_len f) # lo_byte (fr_len f) # fr_msg f"

lemma length_wire [simp]: "length (wire f) = 3 + length (fr_msg f)"
  by (simp add: wire_def)

datatype errno = EAGAIN | EINTR | ECONNABORTED | EBADF | EOTHER nat

text \<open>
  How an operation can end other than by returning: the exceptions the code throws, and the
  undefined behaviour it can run into (a read or write out of bounds, a use of freed memory, a
  second free of a block, a scalar \<open>delete\<close> of an array).
\<close>

datatype fault =
    SystemError errno
  | RuntimeError string
  | CancelledException
  | OutOfBounds
  | UseAfterFree
  | BadFree
  | MismatchedDelete
  | NullDereference

lemma header_ok_cases: "header_ok 0xF0" "header_ok 0xF1" "\<not> header_ok 0" "\<not> header_ok 0x7F"
  by (simp_all add: header_ok_def)

end
