(* ===== verification/PFrames.thy ===== *)
theory PFrames
  imports Base
begin

text \<open>
  \<open>struct PFrame\<close> (\<open>protocom/IFrameIO.h\<close>, \<open>IFrameIO.cpp\<close>) with its manual memory: the message is
  a raw pointer that the frame owns when \<open>hasDynamicData\<close> is set. The store holds the arrays of
  \<open>new uint8_t[n]\<close> by address; a byte that was never written is \<open>None\<close>. Every special member is one
  definition; undefined behaviour (a free of memory that is not allocated, a scalar \<open>delete\<close> of an
  array, a \<open>memcpy\<close> from or to memory that is gone or too small) is a value of \<open>fault\<close>.

  The second half runs sequences of these operations on named frame objects and shows that
  ownership stays exclusive, so that no block is freed twice, none is lost, and a copy or a move
  means what a value copy or a value move would.
\<close>

section \<open>The store\<close>

type_synonym addr = nat
type_synonym block = "byte option list"

record heap =
  blocks :: "addr \<rightharpoonup> block"
  brk :: addr

definition empty_heap :: heap where
  "empty_heap = \<lparr>blocks = Map.empty, brk = 0\<rparr>"

definition new_array :: "nat \<Rightarrow> heap \<Rightarrow> addr \<times> heap" where
  "new_array n h =
     (brk h, h\<lparr>blocks := (blocks h)(brk h \<mapsto> replicate n None), brk := Suc (brk h)\<rparr>)"

definition delete_array :: "addr option \<Rightarrow> heap \<Rightarrow> fault + heap" where
  "delete_array p h =
     (case p of
        None \<Rightarrow> Inr h
      | Some a \<Rightarrow>
          (case blocks h a of
             None \<Rightarrow> Inl BadFree
           | Some _ \<Rightarrow> Inr (h\<lparr>blocks := (blocks h)(a := None)\<rparr>)))"

definition memcpy :: "addr \<Rightarrow> addr option \<Rightarrow> nat \<Rightarrow> heap \<Rightarrow> fault + heap" where
  "memcpy dst src n h =
     (if n = 0 then Inr h
      else case src of
        None \<Rightarrow> Inl NullDereference
      | Some s \<Rightarrow>
          (case (blocks h dst, blocks h s) of
             (Some d, Some b) \<Rightarrow>
               if n \<le> length d \<and> n \<le> length b
               then Inr (h\<lparr>blocks := (blocks h)(dst \<mapsto> write_at 0 (take n b) d)\<rparr>)
               else Inl OutOfBounds
           | _ \<Rightarrow> Inl UseAfterFree))"

section \<open>The frame object and its special members\<close>

record pframe =
  pf_header :: byte
  pf_len :: u16
  pf_msg :: "addr option"
  hasDynamicData :: bool

definition PFrame_default :: pframe where
  "PFrame_default = \<lparr>pf_header = 0, pf_len = 0, pf_msg = None, hasDynamicData = False\<rparr>"

text \<open>\<open>PFrame(const PFrame&)\<close>: a fresh array, the source's bytes copied into it.\<close>

definition PFrame_copy :: "pframe \<Rightarrow> heap \<Rightarrow> fault + (pframe \<times> heap)" where
  "PFrame_copy other h =
     (let (a, h1) = new_array (unat (pf_len other)) h
      in case memcpy a (pf_msg other) (unat (pf_len other)) h1 of
           Inl e \<Rightarrow> Inl e
         | Inr h2 \<Rightarrow>
             Inr (\<lparr>pf_header = pf_header other, pf_len = pf_len other, pf_msg = Some a,
                   hasDynamicData = True\<rparr>, h2))"

text \<open>\<open>~PFrame()\<close>.\<close>

definition PFrame_destroy :: "pframe \<Rightarrow> heap \<Rightarrow> fault + heap" where
  "PFrame_destroy f h = (if hasDynamicData f then delete_array (pf_msg f) h else Inr h)"

text \<open>
  \<open>operator=(const PFrame&)\<close> for two different objects: the old array of the target is freed before
  the source is read. (\<open>this == &other\<close> returns at once; it is a case of the caller below.)
\<close>

definition PFrame_assign_copy :: "pframe \<Rightarrow> pframe \<Rightarrow> heap \<Rightarrow> fault + (pframe \<times> heap)" where
  "PFrame_assign_copy this other h =
     (case PFrame_destroy this h of
        Inl e \<Rightarrow> Inl e
      | Inr h1 \<Rightarrow> PFrame_copy other h1)"

text \<open>\<open>PFrame(PFrame&&)\<close>: the new frame, and what is left of the source (its pointer stays).\<close>

definition PFrame_move :: "pframe \<Rightarrow> pframe \<times> pframe" where
  "PFrame_move other = (other, other\<lparr>hasDynamicData := False\<rparr>)"

text \<open>\<open>operator=(PFrame&&)\<close> for two different objects; the result is the target and the source.\<close>

definition PFrame_assign_move ::
    "pframe \<Rightarrow> pframe \<Rightarrow> heap \<Rightarrow> fault + (pframe \<times> pframe \<times> heap)" where
  "PFrame_assign_move this other h =
     (case PFrame_destroy this h of
        Inl e \<Rightarrow> Inl e
      | Inr h1 \<Rightarrow> Inr (other, other\<lparr>hasDynamicData := False\<rparr>, h1))"

text \<open>The same operator has no test for \<open>this == &other\<close>: a self-move frees the frame's own array.\<close>

definition PFrame_self_move :: "pframe \<Rightarrow> heap \<Rightarrow> fault + (pframe \<times> heap)" where
  "PFrame_self_move this h =
     (case PFrame_destroy this h of
        Inl e \<Rightarrow> Inl e
      | Inr h1 \<Rightarrow> Inr (this\<lparr>hasDynamicData := False\<rparr>, h1))"

definition PFrame_allocMsg :: "pframe \<Rightarrow> heap \<Rightarrow> pframe \<times> heap" where
  "PFrame_allocMsg f h =
     (if hasDynamicData f then (f, h)
      else let (a, h1) = new_array (unat (pf_len f)) h
           in (f\<lparr>pf_msg := Some a, hasDynamicData := True\<rparr>, h1))"

text \<open>
  \<open>erase\<close> frees with \<open>delete msg\<close>, the scalar form, where the array came from \<open>new uint8_t[]\<close>:
  undefined behaviour whenever the frame owns data.
\<close>

definition PFrame_erase :: "pframe \<Rightarrow> fault + pframe" where
  "PFrame_erase f =
     (if hasDynamicData f \<and> pf_msg f \<noteq> None then Inl MismatchedDelete else Inr PFrame_default)"

text \<open>The value of a frame, where its message bytes can be read.\<close>

definition msg_at :: "addr option \<Rightarrow> nat \<Rightarrow> heap \<Rightarrow> block option" where
  "msg_at p n h =
     (if n = 0 then Some []
      else case p of
        None \<Rightarrow> None
      | Some a \<Rightarrow>
          (case blocks h a of
             None \<Rightarrow> None
           | Some b \<Rightarrow> if n \<le> length b then Some (take n b) else None))"

definition pf_value :: "heap \<Rightarrow> pframe \<Rightarrow> (byte \<times> u16 \<times> block) option" where
  "pf_value h f =
     map_option (\<lambda>b. (pf_header f, pf_len f, b)) (msg_at (pf_msg f) (unat (pf_len f)) h)"

section \<open>Programs over frame objects\<close>

record fstate =
  objs :: "nat \<rightharpoonup> pframe"
  fheap :: heap

datatype frame_op =
    Construct nat
  | CopyConstruct nat nat
  | MoveConstruct nat nat
  | CopyAssign nat nat
  | MoveAssign nat nat
  | SetHeaderLen nat byte u16
  | AllocMsg nat
  | Erase nat
  | Destroy nat

text \<open>
  One operation on named objects. A constructor needs an unused name, every other operation an
  object that is alive; a call that breaks this does not compile in C++ and is skipped here. The
  length is written only into frames without data, as \<open>PFramer::tryRead\<close> does.
\<close>

fun frame_exec :: "frame_op \<Rightarrow> fstate \<Rightarrow> fault + fstate" where
  "frame_exec (Construct i) s =
     (if objs s i = None then Inr (s\<lparr>objs := (objs s)(i \<mapsto> PFrame_default)\<rparr>) else Inr s)"
| "frame_exec (CopyConstruct i j) s =
     (case (objs s i, objs s j) of
        (None, Some g) \<Rightarrow>
          (case PFrame_copy g (fheap s) of
             Inl e \<Rightarrow> Inl e
           | Inr (f, h) \<Rightarrow> Inr (s\<lparr>objs := (objs s)(i \<mapsto> f), fheap := h\<rparr>))
      | _ \<Rightarrow> Inr s)"
| "frame_exec (MoveConstruct i j) s =
     (case (objs s i, objs s j) of
        (None, Some g) \<Rightarrow>
          Inr (s\<lparr>objs := (objs s)(j \<mapsto> snd (PFrame_move g), i \<mapsto> fst (PFrame_move g))\<rparr>)
      | _ \<Rightarrow> Inr s)"
| "frame_exec (CopyAssign i j) s =
     (case (objs s i, objs s j) of
        (Some f, Some g) \<Rightarrow>
          if i = j then Inr s
          else (case PFrame_assign_copy f g (fheap s) of
                  Inl e \<Rightarrow> Inl e
                | Inr (f', h) \<Rightarrow> Inr (s\<lparr>objs := (objs s)(i \<mapsto> f'), fheap := h\<rparr>))
      | _ \<Rightarrow> Inr s)"
| "frame_exec (MoveAssign i j) s =
     (case (objs s i, objs s j) of
        (Some f, Some g) \<Rightarrow>
          if i = j
          then (case PFrame_self_move f (fheap s) of
                  Inl e \<Rightarrow> Inl e
                | Inr (f', h) \<Rightarrow> Inr (s\<lparr>objs := (objs s)(i \<mapsto> f'), fheap := h\<rparr>))
          else (case PFrame_assign_move f g (fheap s) of
                  Inl e \<Rightarrow> Inl e
                | Inr (f', g', h) \<Rightarrow>
                    Inr (s\<lparr>objs := (objs s)(i \<mapsto> f', j \<mapsto> g'), fheap := h\<rparr>))
      | _ \<Rightarrow> Inr s)"
| "frame_exec (SetHeaderLen i b n) s =
     (case objs s i of
        Some f \<Rightarrow>
          if hasDynamicData f then Inr s
          else Inr (s\<lparr>objs := (objs s)(i \<mapsto> f\<lparr>pf_header := b, pf_len := n\<rparr>)\<rparr>)
      | None \<Rightarrow> Inr s)"
| "frame_exec (AllocMsg i) s =
     (case objs s i of
        Some f \<Rightarrow>
          (let (f', h) = PFrame_allocMsg f (fheap s)
           in Inr (s\<lparr>objs := (objs s)(i \<mapsto> f'), fheap := h\<rparr>))
      | None \<Rightarrow> Inr s)"
| "frame_exec (Erase i) s =
     (case objs s i of
        Some f \<Rightarrow>
          (case PFrame_erase f of
             Inl e \<Rightarrow> Inl e
           | Inr f' \<Rightarrow> Inr (s\<lparr>objs := (objs s)(i \<mapsto> f')\<rparr>))
      | None \<Rightarrow> Inr s)"
| "frame_exec (Destroy i) s =
     (case objs s i of
        Some f \<Rightarrow>
          (case PFrame_destroy f (fheap s) of
             Inl e \<Rightarrow> Inl e
           | Inr h \<Rightarrow> Inr (s\<lparr>objs := (objs s)(i := None), fheap := h\<rparr>))
      | None \<Rightarrow> Inr s)"

fun frame_run :: "frame_op list \<Rightarrow> fstate \<Rightarrow> fault + fstate" where
  "frame_run [] s = Inr s"
| "frame_run (c # cs) s =
     (case frame_exec c s of Inl e \<Rightarrow> Inl e | Inr s' \<Rightarrow> frame_run cs s')"

definition empty_fstate :: fstate where
  "empty_fstate = \<lparr>objs = Map.empty, fheap = empty_heap\<rparr>"

section \<open>Ownership\<close>

definition owns :: "fstate \<Rightarrow> nat \<Rightarrow> addr \<Rightarrow> bool" where
  "owns s i a \<longleftrightarrow>
     (\<exists>f. objs s i = Some f \<and> hasDynamicData f \<and> pf_msg f = Some a)"

text \<open>
  The invariant: an owning frame has an allocated array of exactly its length, no array has two
  owners, every allocated array has an owner (nothing leaks), and addresses are fresh from \<open>brk\<close> on.
\<close>

definition own_ok :: "fstate \<Rightarrow> bool" where
  "own_ok s \<longleftrightarrow>
     (\<forall>i f. objs s i = Some f \<longrightarrow> hasDynamicData f \<longrightarrow>
        (\<exists>a b. pf_msg f = Some a \<and> blocks (fheap s) a = Some b \<and> length b = unat (pf_len f))) \<and>
     (\<forall>i j a. owns s i a \<longrightarrow> owns s j a \<longrightarrow> i = j) \<and>
     (\<forall>a. blocks (fheap s) a \<noteq> None \<longrightarrow> a < brk (fheap s) \<and> (\<exists>i. owns s i a))"

lemma own_okD:
  assumes "own_ok s" "objs s i = Some f" "hasDynamicData f"
  obtains a b where "pf_msg f = Some a" "blocks (fheap s) a = Some b" "length b = unat (pf_len f)"
    "a < brk (fheap s)"
  using assms unfolding own_ok_def by (metis option.distinct(1))

lemma own_ok_unique: "own_ok s \<Longrightarrow> owns s i a \<Longrightarrow> owns s j a \<Longrightarrow> i = j"
  by (auto simp: own_ok_def)

lemma own_ok_fresh: "own_ok s \<Longrightarrow> blocks (fheap s) (brk (fheap s)) = None"
  unfolding own_ok_def by (metis less_irrefl)

lemma own_ok_empty: "own_ok empty_fstate"
  by (simp add: own_ok_def empty_fstate_def empty_heap_def owns_def)

text \<open>Three moves of ownership cover every operation: a release, an installation, a transfer.\<close>

definition unowning :: "pframe option \<Rightarrow> bool" where
  "unowning x \<longleftrightarrow> (case x of None \<Rightarrow> True | Some f \<Rightarrow> \<not> hasDynamicData f)"

lemma unowning_simps [simp]:
  "unowning None" "unowning (Some f) \<longleftrightarrow> \<not> hasDynamicData f"
  by (simp_all add: unowning_def)

lemma owns_upd:
  "owns (s\<lparr>objs := (objs s)(i := x), fheap := h\<rparr>) k a \<longleftrightarrow>
     (if k = i then (\<exists>f. x = Some f \<and> hasDynamicData f \<and> pf_msg f = Some a) else owns s k a)"
  by (auto simp: owns_def)

lemma owns_upd_unowning:
  "unowning x \<Longrightarrow> owns (s\<lparr>objs := (objs s)(i := x), fheap := h\<rparr>) k a \<longleftrightarrow> k \<noteq> i \<and> owns s k a"
  by (auto simp: owns_upd)

lemma own_ok_plain:
  assumes "own_ok s" "unowning (objs s i)" "unowning x"
  shows "own_ok (s\<lparr>objs := (objs s)(i := x)\<rparr>)"
proof -
  have "owns (s\<lparr>objs := (objs s)(i := x)\<rparr>) k a \<longleftrightarrow> owns s k a" for k a
    using assms(2,3) by (auto simp: owns_def unowning_def)
  with assms show ?thesis
    unfolding own_ok_def by (auto simp: unowning_def split: option.splits)
qed

lemma own_ok_release:
  assumes ok: "own_ok s" and f: "objs s i = Some f" and x: "unowning x"
  obtains h where "PFrame_destroy f (fheap s) = Inr h"
    "own_ok (s\<lparr>objs := (objs s)(i := x), fheap := h\<rparr>)"
    "\<And>a. \<not> owns s i a \<Longrightarrow> blocks h a = blocks (fheap s) a"
proof (cases "hasDynamicData f")
  case False
  moreover have "own_ok (s\<lparr>objs := (objs s)(i := x), fheap := fheap s\<rparr>)"
    using own_ok_plain [OF ok _ x, of i] f False by simp
  ultimately show ?thesis
    using that [of "fheap s"] by (simp add: PFrame_destroy_def)
next
  case True
  with ok f obtain a b where a: "pf_msg f = Some a" "blocks (fheap s) a = Some b"
    by (rule own_okD)
  let ?h = "fheap s\<lparr>blocks := (blocks (fheap s))(a := None)\<rparr>"
  have i: "owns s i a"
    using f True a by (auto simp: owns_def)
  have only: "owns s k a \<Longrightarrow> k = i" for k
    using own_ok_unique [OF ok _ i] .
  have other: "k \<noteq> i \<Longrightarrow> objs s k = Some g \<Longrightarrow> hasDynamicData g \<Longrightarrow> pf_msg g \<noteq> Some a" for k g
    using only by (auto simp: owns_def)
  have "own_ok (s\<lparr>objs := (objs s)(i := x), fheap := ?h\<rparr>)"
    unfolding own_ok_def owns_upd_unowning [OF x]
  proof (intro conjI allI impI)
    fix k g
    assume g: "objs (s\<lparr>objs := (objs s)(i := x), fheap := ?h\<rparr>) k = Some g" "hasDynamicData g"
    with x have k: "k \<noteq> i" "objs s k = Some g"
      by (auto split: if_splits)
    with ok g obtain a' b' where "pf_msg g = Some a'" "blocks (fheap s) a' = Some b'"
        "length b' = unat (pf_len g)"
      by (auto elim: own_okD)
    with other [OF k g(2)] show "\<exists>a b. pf_msg g = Some a \<and>
        blocks (fheap (s\<lparr>objs := (objs s)(i := x), fheap := ?h\<rparr>)) a = Some b \<and>
        length b = unat (pf_len g)"
      by auto
  next
    fix k j a'
    assume "k \<noteq> i \<and> owns s k a'" "j \<noteq> i \<and> owns s j a'"
    then show "k = j"
      using own_ok_unique [OF ok] by blast
  next
    fix a'
    assume a': "blocks (fheap (s\<lparr>objs := (objs s)(i := x), fheap := ?h\<rparr>)) a' \<noteq> None"
    then have "a' \<noteq> a" "blocks (fheap s) a' \<noteq> None"
      by (auto split: if_splits)
    with ok obtain k where k: "owns s k a'" "a' < brk (fheap s)"
      by (auto simp: own_ok_def)
    moreover have "k \<noteq> i"
      using k \<open>a' \<noteq> a\<close> f a by (auto simp: owns_def)
    ultimately show "a' < brk (fheap (s\<lparr>objs := (objs s)(i := x), fheap := ?h\<rparr>))"
      and "\<exists>k. k \<noteq> i \<and> owns s k a'"
      by auto
  qed
  moreover have "PFrame_destroy f (fheap s) = Inr ?h"
    using a True by (simp add: PFrame_destroy_def delete_array_def)
  moreover have "blocks ?h a' = blocks (fheap s) a'" if "\<not> owns s i a'" for a'
    using that i by auto
  ultimately show ?thesis
    using that by blast
qed

lemma own_ok_install:
  assumes ok: "own_ok s" and i: "unowning (objs s i)"
    and f: "hasDynamicData f" "pf_msg f = Some (brk (fheap s))" "length b = unat (pf_len f)"
    and h: "blocks h = (blocks (fheap s))(brk (fheap s) \<mapsto> b)" "brk h = Suc (brk (fheap s))"
  shows "own_ok (s\<lparr>objs := (objs s)(i \<mapsto> f), fheap := h\<rparr>)"
proof -
  have old: "owns s k a \<Longrightarrow> a < brk (fheap s) \<and> k \<noteq> i" for k a
    using ok i by (auto simp: owns_def elim!: own_okD [of s k])
  show ?thesis
    unfolding own_ok_def owns_upd
  proof (intro conjI allI impI)
    fix k g
    assume g: "objs (s\<lparr>objs := (objs s)(i \<mapsto> f), fheap := h\<rparr>) k = Some g" "hasDynamicData g"
    show "\<exists>a b. pf_msg g = Some a \<and>
        blocks (fheap (s\<lparr>objs := (objs s)(i \<mapsto> f), fheap := h\<rparr>)) a = Some b \<and>
        length b = unat (pf_len g)"
    proof (cases "k = i")
      case False
      with g have k: "objs s k = Some g" by simp
      obtain a' b' where "pf_msg g = Some a'" "blocks (fheap s) a' = Some b'"
          "length b' = unat (pf_len g)" "a' < brk (fheap s)"
        using own_okD [OF ok k g(2)] by blast
      then show ?thesis by (auto simp: h)
    qed (use g f h in auto)
  next
    fix k j a
    assume "if k = i then \<exists>g. Some f = Some g \<and> hasDynamicData g \<and> pf_msg g = Some a else owns s k a"
      "if j = i then \<exists>g. Some f = Some g \<and> hasDynamicData g \<and> pf_msg g = Some a else owns s j a"
    then show "k = j"
      using f old own_ok_unique [OF ok] by (fastforce split: if_splits)
  next
    fix a
    assume a: "blocks (fheap (s\<lparr>objs := (objs s)(i \<mapsto> f), fheap := h\<rparr>)) a \<noteq> None"
    then have "a = brk (fheap s) \<or> blocks (fheap s) a \<noteq> None"
      by (auto simp: h split: if_splits)
    then show "a < brk (fheap (s\<lparr>objs := (objs s)(i \<mapsto> f), fheap := h\<rparr>))"
      using ok by (auto simp: own_ok_def h less_Suc_eq)
    from \<open>a = brk (fheap s) \<or> blocks (fheap s) a \<noteq> None\<close>
    show "\<exists>k. if k = i then \<exists>g. Some f = Some g \<and> hasDynamicData g \<and> pf_msg g = Some a
              else owns s k a"
      using ok f old unfolding own_ok_def by metis
  qed
qed

lemma own_ok_transfer:
  assumes ok: "own_ok s" and j: "objs s j = Some g" and i: "unowning (objs s i)" "i \<noteq> j"
  shows "own_ok (s\<lparr>objs := (objs s)(j \<mapsto> g\<lparr>hasDynamicData := False\<rparr>, i \<mapsto> g)\<rparr>)"
    (is "own_ok ?s")
proof -
  have own: "owns ?s k a \<longleftrightarrow> (if k = i then owns s j a else k \<noteq> j \<and> owns s k a)" for k a
    using j i by (auto simp: owns_def)
  show ?thesis
    unfolding own_ok_def own
  proof (intro conjI allI impI)
    fix k f
    assume "objs ?s k = Some f" "hasDynamicData f"
    then obtain k' where "objs s k' = Some f"
      using j by (auto split: if_splits)
    then show "\<exists>a b. pf_msg f = Some a \<and> blocks (fheap ?s) a = Some b \<and>
        length b = unat (pf_len f)"
      using own_okD [OF ok _ \<open>hasDynamicData f\<close>] by fastforce
  next
    fix k l a
    assume "if k = i then owns s j a else k \<noteq> j \<and> owns s k a"
      "if l = i then owns s j a else l \<noteq> j \<and> owns s l a"
    then show "k = l"
      using own_ok_unique [OF ok] by (auto split: if_splits)
  next
    fix a
    assume a: "blocks (fheap ?s) a \<noteq> None"
    then show "a < brk (fheap ?s)"
      using ok by (simp add: own_ok_def)
    from a ok obtain k where k: "owns s k a"
      by (auto simp: own_ok_def)
    with i have "k \<noteq> i"
      by (auto simp: owns_def)
    with k i show "\<exists>k. if k = i then owns s j a else k \<noteq> j \<and> owns s k a"
      by metis
  qed
qed

section \<open>What the special members do to the store\<close>

lemma PFrame_allocMsg_fresh:
  assumes "\<not> hasDynamicData f" "PFrame_allocMsg f h = (f', h')"
  shows "hasDynamicData f'" "pf_msg f' = Some (brk h)" "pf_len f' = pf_len f"
    "blocks h' = (blocks h)(brk h \<mapsto> replicate (unat (pf_len f)) None)" "brk h' = Suc (brk h)"
  using assms by (auto simp: PFrame_allocMsg_def new_array_def)

text \<open>A copy either installs a fresh array of the right length, or faults on reading the source.\<close>

lemma PFrame_copy_cases:
  "(\<exists>b h'. PFrame_copy g h =
        Inr (\<lparr>pf_header = pf_header g, pf_len = pf_len g, pf_msg = Some (brk h),
              hasDynamicData = True\<rparr>, h') \<and>
      blocks h' = (blocks h)(brk h \<mapsto> b) \<and> brk h' = Suc (brk h) \<and>
      length b = unat (pf_len g))
   \<or> (\<exists>e. PFrame_copy g h = Inl e \<and> e \<in> {NullDereference, UseAfterFree, OutOfBounds})"
  by (auto simp: PFrame_copy_def new_array_def memcpy_def write_at_def Let_def
      split: option.splits if_splits)

lemma PFrame_copy_value:
  assumes "msg_at (pf_msg g) (unat (pf_len g)) h = Some b" "blocks h (brk h) = None"
  shows "\<exists>h'. PFrame_copy g h =
        Inr (\<lparr>pf_header = pf_header g, pf_len = pf_len g, pf_msg = Some (brk h),
              hasDynamicData = True\<rparr>, h') \<and>
      blocks h' = (blocks h)(brk h \<mapsto> b) \<and> brk h' = Suc (brk h) \<and> length b = unat (pf_len g)"
proof (cases "unat (pf_len g) = 0")
  case True
  with assms show ?thesis
    by (auto simp: PFrame_copy_def new_array_def memcpy_def msg_at_def)
next
  case False
  with assms obtain a c where c: "pf_msg g = Some a" "blocks h a = Some c"
      "unat (pf_len g) \<le> length c" "b = take (unat (pf_len g)) c"
    by (auto simp: msg_at_def split: option.splits if_splits)
  with assms False show ?thesis
    by (auto simp: PFrame_copy_def new_array_def memcpy_def write_at_def)
qed

lemma msg_at_cong:
  assumes "msg_at p n h = Some b" "\<And>a. p = Some a \<Longrightarrow> blocks h' a = blocks h a"
  shows "msg_at p n h' = Some b"
  using assms by (auto simp: msg_at_def split: option.splits if_splits)

lemma owned_msg_at:
  assumes "own_ok s" "objs s i = Some f" "hasDynamicData f"
  shows "\<exists>a. pf_msg f = Some a \<and> msg_at (pf_msg f) (unat (pf_len f)) (fheap s) = blocks (fheap s) a"
  using own_okD [OF assms] by (fastforce simp: msg_at_def)

section \<open>Properties of programs over frames\<close>

lemma fstate_upd_order [simp]: "s\<lparr>fheap := h, objs := x\<rparr> = s\<lparr>objs := x, fheap := h\<rparr>"
  by simp

lemma assign_copy_ok:
  assumes ok: "own_ok s" and i: "objs s i = Some f"
  shows "PFrame_assign_copy f g (fheap s) = Inr (f', h') \<Longrightarrow>
           own_ok (s\<lparr>objs := (objs s)(i \<mapsto> f'), fheap := h'\<rparr>)"
    and "PFrame_assign_copy f g (fheap s) = Inl e \<Longrightarrow>
           e \<in> {NullDereference, UseAfterFree, OutOfBounds}"
proof -
  let ?f = "f\<lparr>hasDynamicData := False\<rparr>"
  obtain h where h: "PFrame_destroy f (fheap s) = Inr h"
      "own_ok (s\<lparr>objs := (objs s)(i \<mapsto> ?f), fheap := h\<rparr>)" (is "own_ok ?s1")
    using own_ok_release [OF ok i, of "Some ?f"] by auto
  show "PFrame_assign_copy f g (fheap s) = Inr (f', h') \<Longrightarrow>
      own_ok (s\<lparr>objs := (objs s)(i \<mapsto> f'), fheap := h'\<rparr>)"
    using PFrame_copy_cases [of g h] own_ok_install [OF h(2), of i f' _ h']
    by (auto simp: PFrame_assign_copy_def h(1))
  show "PFrame_assign_copy f g (fheap s) = Inl e \<Longrightarrow>
      e \<in> {NullDereference, UseAfterFree, OutOfBounds}"
    using PFrame_copy_cases [of g h] by (auto simp: PFrame_assign_copy_def h(1))
qed

lemma assign_move_ok:
  assumes ok: "own_ok s" and i: "objs s i = Some f" and j: "objs s j = Some g" "i \<noteq> j"
  obtains h where "PFrame_assign_move f g (fheap s) = Inr (g, g\<lparr>hasDynamicData := False\<rparr>, h)"
    "own_ok (s\<lparr>objs := (objs s)(i \<mapsto> g, j \<mapsto> g\<lparr>hasDynamicData := False\<rparr>), fheap := h\<rparr>)"
proof -
  let ?f = "f\<lparr>hasDynamicData := False\<rparr>"
  obtain h where h: "PFrame_destroy f (fheap s) = Inr h"
      "own_ok (s\<lparr>objs := (objs s)(i \<mapsto> ?f), fheap := h\<rparr>)" (is "own_ok ?s1")
    using own_ok_release [OF ok i, of "Some ?f"] by auto
  have "own_ok (s\<lparr>objs := (objs s)(i \<mapsto> g, j \<mapsto> g\<lparr>hasDynamicData := False\<rparr>), fheap := h\<rparr>)"
    using own_ok_transfer [OF h(2), of j g i] j by (simp add: fun_upd_twist [of i j])
  then show ?thesis
    using that [of h] h(1) by (simp add: PFrame_assign_move_def)
qed

lemma self_move_ok:
  assumes ok: "own_ok s" and i: "objs s i = Some f"
  obtains h where "PFrame_self_move f (fheap s) = Inr (f\<lparr>hasDynamicData := False\<rparr>, h)"
    "own_ok (s\<lparr>objs := (objs s)(i \<mapsto> f\<lparr>hasDynamicData := False\<rparr>), fheap := h\<rparr>)"
proof -
  obtain h where "PFrame_destroy f (fheap s) = Inr h"
      "own_ok (s\<lparr>objs := (objs s)(i \<mapsto> f\<lparr>hasDynamicData := False\<rparr>), fheap := h\<rparr>)"
    using own_ok_release [OF ok i, of "Some (f\<lparr>hasDynamicData := False\<rparr>)"] by auto
  then show ?thesis
    using that [of h] by (simp add: PFrame_self_move_def)
qed

lemma frame_exec_cases:
  assumes ok: "own_ok s"
  shows "case frame_exec c s of
           Inr s' \<Rightarrow> own_ok s'
         | Inl e \<Rightarrow> e \<in> {NullDereference, UseAfterFree, OutOfBounds, MismatchedDelete}"
proof (cases c)
  case (CopyConstruct i j)
  show ?thesis
  proof (cases "objs s i = None \<and> objs s j \<noteq> None")
    case True
    then obtain g where g: "objs s i = None" "objs s j = Some g" by auto
    from PFrame_copy_cases [of g "fheap s"] show ?thesis
    proof (elim disjE exE conjE)
      fix b h'
      assume "PFrame_copy g (fheap s) = Inr (\<lparr>pf_header = pf_header g, pf_len = pf_len g,
          pf_msg = Some (brk (fheap s)), hasDynamicData = True\<rparr>, h')"
        "blocks h' = (blocks (fheap s))(brk (fheap s) \<mapsto> b)" "brk h' = Suc (brk (fheap s))"
        "length b = unat (pf_len g)"
      with g show ?thesis
        using own_ok_install [OF ok, of i _ b h'] by (simp add: CopyConstruct)
    qed (use g in \<open>auto simp: CopyConstruct\<close>)
  qed (use ok in \<open>auto simp: CopyConstruct split: option.splits\<close>)
next
  case (MoveConstruct i j)
  show ?thesis
  proof (cases "objs s i = None \<and> objs s j \<noteq> None")
    case True
    then have "i \<noteq> j" by auto
    with True show ?thesis
      using own_ok_transfer [OF ok, of j _ i] by (auto simp: MoveConstruct PFrame_move_def)
  qed (use ok in \<open>auto simp: MoveConstruct split: option.splits\<close>)
next
  case (AllocMsg i)
  show ?thesis
  proof (cases "objs s i")
    case (Some f)
    show ?thesis
    proof (cases "hasDynamicData f")
      case True
      with ok Some show ?thesis
        by (simp add: AllocMsg PFrame_allocMsg_def fun_upd_idem)
    next
      case False
      obtain f' h' where fh: "PFrame_allocMsg f (fheap s) = (f', h')" by fastforce
      note a = PFrame_allocMsg_fresh [OF False this]
      from a Some False fh show ?thesis
        using own_ok_install [OF ok, of i f' "replicate (unat (pf_len f)) None" h']
        by (simp add: AllocMsg)
    qed
  qed (simp add: AllocMsg ok)
next
  case (Destroy i)
  show ?thesis
  proof (cases "objs s i")
    case (Some f)
    obtain h where "PFrame_destroy f (fheap s) = Inr h"
        "own_ok (s\<lparr>objs := (objs s)(i := None), fheap := h\<rparr>)"
      using own_ok_release [OF ok Some, of None] by auto
    with Some show ?thesis by (simp add: Destroy)
  qed (simp add: Destroy ok)
next
  case (CopyAssign i j)
  then show ?thesis
    using ok by (auto split: option.splits sum.splits dest: assign_copy_ok [OF ok])
next
  case (MoveAssign i j)
  show ?thesis
  proof (cases "objs s i \<noteq> None \<and> objs s j \<noteq> None")
    case True
    then obtain f g where fg: "objs s i = Some f" "objs s j = Some g" by auto
    show ?thesis
    proof (cases "i = j")
      case True
      with fg show ?thesis
        using self_move_ok [OF ok fg(1)] by (force simp: MoveAssign)
    next
      case False
      with fg show ?thesis
        using assign_move_ok [OF ok fg False] by (force simp: MoveAssign)
    qed
  qed (use ok in \<open>auto simp: MoveAssign split: option.splits\<close>)
next
  case (Erase i)
  then show ?thesis
    using ok own_okD [OF ok, of i]
    by (fastforce simp: PFrame_erase_def PFrame_default_def split: option.splits intro: own_ok_plain)
qed (use ok in \<open>auto simp: PFrame_default_def split: option.splits intro!: own_ok_plain\<close>)

lemma frame_run_own:
  "own_ok s \<Longrightarrow>
   case frame_run cs s of
     Inr s' \<Rightarrow> own_ok s'
   | Inl e \<Rightarrow> e \<in> {NullDereference, UseAfterFree, OutOfBounds, MismatchedDelete}"
proof (induction cs arbitrary: s)
  case (Cons c cs)
  then show ?case
    using frame_exec_cases [OF Cons.prems, of c] Cons.IH by (cases "frame_exec c s") auto
qed simp

section \<open>Refinement of value semantics\<close>

text \<open>
  The contract of \<open>PFrame\<close>: an object is a header, a length and, when it holds data, the bytes.
  \<open>value_exec\<close> is that contract, with \<open>None\<close> where the code has no defined behaviour.
\<close>

type_synonym frame_value = "byte \<times> u16 \<times> block option"

definition pf_data :: "heap \<Rightarrow> pframe \<Rightarrow> block option" where
  "pf_data h f = (if hasDynamicData f then Option.bind (pf_msg f) (blocks h) else None)"

definition frame_abs :: "fstate \<Rightarrow> nat \<rightharpoonup> frame_value" where
  "frame_abs s i =
     map_option (\<lambda>f. (pf_header f, pf_len f, pf_data (fheap s) f)) (objs s i)"

fun value_copy :: "frame_value \<Rightarrow> frame_value option" where
  "value_copy (b, n, Some m) = Some (b, n, Some m)"
| "value_copy (b, n, None) = (if n = 0 then Some (b, n, Some []) else None)"

fun value_drop :: "frame_value \<Rightarrow> frame_value" where
  "value_drop (b, n, m) = (b, n, None)"

fun value_exec :: "frame_op \<Rightarrow> (nat \<rightharpoonup> frame_value) \<Rightarrow> (nat \<rightharpoonup> frame_value) option" where
  "value_exec (Construct i) v = Some (if v i = None then v(i \<mapsto> (0, 0, None)) else v)"
| "value_exec (CopyConstruct i j) v =
     (case (v i, v j) of
        (None, Some x) \<Rightarrow> map_option (\<lambda>y. v(i \<mapsto> y)) (value_copy x)
      | _ \<Rightarrow> Some v)"
| "value_exec (MoveConstruct i j) v =
     (case (v i, v j) of
        (None, Some x) \<Rightarrow> Some (v(j \<mapsto> value_drop x, i \<mapsto> x))
      | _ \<Rightarrow> Some v)"
| "value_exec (CopyAssign i j) v =
     (case (v i, v j) of
        (Some _, Some x) \<Rightarrow>
          if i = j then Some v else map_option (\<lambda>y. v(i \<mapsto> y)) (value_copy x)
      | _ \<Rightarrow> Some v)"
| "value_exec (MoveAssign i j) v =
     (case (v i, v j) of
        (Some _, Some x) \<Rightarrow> Some (v(i \<mapsto> x, j \<mapsto> value_drop x))
      | _ \<Rightarrow> Some v)"
| "value_exec (SetHeaderLen i b n) v =
     (case v i of Some (_, _, None) \<Rightarrow> Some (v(i \<mapsto> (b, n, None))) | _ \<Rightarrow> Some v)"
| "value_exec (AllocMsg i) v =
     (case v i of
        Some (b, n, None) \<Rightarrow> Some (v(i \<mapsto> (b, n, Some (replicate (unat n) None))))
      | _ \<Rightarrow> Some v)"
| "value_exec (Erase i) v =
     (case v i of
        Some (_, _, None) \<Rightarrow> Some (v(i \<mapsto> (0, 0, None)))
      | Some (_, _, Some _) \<Rightarrow> None
      | None \<Rightarrow> Some v)"
| "value_exec (Destroy i) v = Some (v(i := None))"

lemma frame_abs_None [simp]: "frame_abs s i = None \<longleftrightarrow> objs s i = None"
  by (simp add: frame_abs_def)

lemma pf_data_unowning [simp]: "\<not> hasDynamicData f \<Longrightarrow> pf_data h f = None"
  by (simp add: pf_data_def)

lemma pf_data_cong:
  assumes "\<And>a. hasDynamicData f \<Longrightarrow> pf_msg f = Some a \<Longrightarrow> blocks h' a = blocks h a"
  shows "pf_data h' f = pf_data h f"
  using assms by (cases "pf_msg f") (auto simp: pf_data_def)

lemma frame_abs_upd_plain:
  "unowning x \<Longrightarrow>
   frame_abs (s\<lparr>objs := (objs s)(i := x)\<rparr>) =
     (frame_abs s)(i := map_option (\<lambda>f. (pf_header f, pf_len f, None)) x)"
  by (auto simp: frame_abs_def fun_eq_iff unowning_def split: option.splits)

lemma frame_abs_store:
  assumes "\<And>k f a. k \<noteq> i \<Longrightarrow> objs s k = Some f \<Longrightarrow> owns s k a \<Longrightarrow> blocks h a = blocks (fheap s) a"
  shows "frame_abs (s\<lparr>objs := (objs s)(i := x), fheap := h\<rparr>) =
           (frame_abs s)(i := map_option (\<lambda>f. (pf_header f, pf_len f, pf_data h f)) x)"
proof
  fix k
  have "pf_data h f = pf_data (fheap s) f" if "k \<noteq> i" "objs s k = Some f" for f
    using assms [of k f] that by (intro pf_data_cong) (auto simp: owns_def)
  then show "frame_abs (s\<lparr>objs := (objs s)(i := x), fheap := h\<rparr>) k =
          ((frame_abs s)(i := map_option (\<lambda>f. (pf_header f, pf_len f, pf_data h f)) x)) k"
    by (cases "objs s k") (auto simp: frame_abs_def)
qed

lemma frame_abs_install:
  assumes ok: "own_ok s"
    and f: "hasDynamicData f" "pf_msg f = Some (brk (fheap s))"
    and h: "blocks h = (blocks (fheap s))(brk (fheap s) \<mapsto> b)"
  shows "frame_abs (s\<lparr>objs := (objs s)(i \<mapsto> f), fheap := h\<rparr>) =
           (frame_abs s)(i \<mapsto> (pf_header f, pf_len f, Some b))"
  using f h own_okD [OF ok] by (subst frame_abs_store) (fastforce simp: owns_def pf_data_def)+

lemma frame_abs_release:
  assumes ok: "own_ok s" and x: "unowning x"
    and h: "\<And>a. \<not> owns s i a \<Longrightarrow> blocks h a = blocks (fheap s) a"
  shows "frame_abs (s\<lparr>objs := (objs s)(i := x), fheap := h\<rparr>) =
           (frame_abs s)(i := map_option (\<lambda>f. (pf_header f, pf_len f, None)) x)"
  using x h own_ok_unique [OF ok]
  by (subst frame_abs_store) (auto simp: unowning_def split: option.splits)

lemma frame_abs_transfer:
  "i \<noteq> j \<Longrightarrow>
   frame_abs (s\<lparr>objs := (objs s)(j \<mapsto> g\<lparr>hasDynamicData := False\<rparr>, i \<mapsto> g)\<rparr>) =
     (frame_abs s)(j \<mapsto> (pf_header g, pf_len g, None),
       i \<mapsto> (pf_header g, pf_len g, pf_data (fheap s) g))"
  by (auto simp: frame_abs_def fun_eq_iff)

lemma copy_of_value:
  assumes ok: "own_ok s" and j: "objs s j = Some g"
    and y: "value_copy (pf_header g, pf_len g, pf_data (fheap s) g) = Some y"
  obtains b h f where "PFrame_copy g (fheap s) = Inr (f, h)"
    "hasDynamicData f" "pf_msg f = Some (brk (fheap s))" "pf_header f = pf_header g"
    "pf_len f = pf_len g" "length b = unat (pf_len g)"
    "blocks h = (blocks (fheap s))(brk (fheap s) \<mapsto> b)" "brk h = Suc (brk (fheap s))"
    "y = (pf_header g, pf_len g, Some b)"
proof -
  have "\<exists>b. msg_at (pf_msg g) (unat (pf_len g)) (fheap s) = Some b \<and>
          y = (pf_header g, pf_len g, Some b)"
  proof (cases "hasDynamicData g")
    case True
    then show ?thesis
      using own_okD [OF ok j True] y by (fastforce simp: pf_data_def msg_at_def)
  next
    case False
    with y show ?thesis by (auto simp: msg_at_def split: if_splits)
  qed
  then obtain b where b: "msg_at (pf_msg g) (unat (pf_len g)) (fheap s) = Some b"
      "y = (pf_header g, pf_len g, Some b)" by blast
  from PFrame_copy_value [OF b(1) own_ok_fresh [OF ok]] b(2) that
  show ?thesis by fastforce
qed

lemma refines_assign_copy:
  assumes ok: "own_ok s" and fg: "objs s i = Some f" "objs s j = Some g" "i \<noteq> j"
    and y: "value_copy (pf_header g, pf_len g, pf_data (fheap s) g) = Some y"
  obtains f' h where "PFrame_assign_copy f g (fheap s) = Inr (f', h)"
    "frame_abs (s\<lparr>objs := (objs s)(i \<mapsto> f'), fheap := h\<rparr>) = (frame_abs s)(i \<mapsto> y)"
proof -
  let ?f = "f\<lparr>hasDynamicData := False\<rparr>"
  obtain h1 where h1: "PFrame_destroy f (fheap s) = Inr h1"
      "own_ok (s\<lparr>objs := (objs s)(i \<mapsto> ?f), fheap := h1\<rparr>)" (is "own_ok ?s1")
      "\<And>a. \<not> owns s i a \<Longrightarrow> blocks h1 a = blocks (fheap s) a"
    using own_ok_release [OF ok fg(1), of "Some ?f"] by auto
  have j1: "objs ?s1 j = Some g" using fg by simp
  have "pf_data h1 g = pf_data (fheap s) g"
    using fg own_ok_unique [OF ok, of i _ j] by (intro pf_data_cong h1(3)) (auto simp: owns_def)
  then have y1: "value_copy (pf_header g, pf_len g, pf_data (fheap ?s1) g) = Some y"
    using y by simp
  obtain b h f' where c: "PFrame_copy g (fheap ?s1) = Inr (f', h)"
      "hasDynamicData f'" "pf_msg f' = Some (brk (fheap ?s1))" "pf_header f' = pf_header g"
      "pf_len f' = pf_len g" "blocks h = (blocks (fheap ?s1))(brk (fheap ?s1) \<mapsto> b)"
      "y = (pf_header g, pf_len g, Some b)"
    using copy_of_value [OF h1(2) j1 y1] by metis
  have "frame_abs (?s1\<lparr>objs := (objs ?s1)(i \<mapsto> f'), fheap := h\<rparr>) = (frame_abs ?s1)(i \<mapsto> y)"
    using frame_abs_install [OF h1(2) c(2,3,6), of i] c by simp
  then have "frame_abs (s\<lparr>objs := (objs s)(i \<mapsto> f'), fheap := h\<rparr>) = (frame_abs s)(i \<mapsto> y)"
    using frame_abs_release [OF ok, of "Some ?f" i h1] h1(3) by simp
  with c(1) h1(1) that show ?thesis by (simp add: PFrame_assign_copy_def)
qed

lemma refines_assign_move:
  assumes ok: "own_ok s" and fg: "objs s i = Some f" "objs s j = Some g" "i \<noteq> j"
  obtains h where "PFrame_assign_move f g (fheap s) = Inr (g, g\<lparr>hasDynamicData := False\<rparr>, h)"
    "frame_abs (s\<lparr>objs := (objs s)(i \<mapsto> g, j \<mapsto> g\<lparr>hasDynamicData := False\<rparr>), fheap := h\<rparr>) =
       (frame_abs s)(i \<mapsto> (pf_header g, pf_len g, pf_data (fheap s) g),
         j \<mapsto> (pf_header g, pf_len g, None))"
proof -
  let ?f = "f\<lparr>hasDynamicData := False\<rparr>"
  obtain h1 where h1: "PFrame_destroy f (fheap s) = Inr h1"
      "\<And>a. \<not> owns s i a \<Longrightarrow> blocks h1 a = blocks (fheap s) a"
    using own_ok_release [OF ok fg(1), of "Some ?f"] by auto
  have "pf_data h1 g = pf_data (fheap s) g"
    using fg own_ok_unique [OF ok, of i _ j] by (intro pf_data_cong h1(2)) (auto simp: owns_def)
  then have "frame_abs (s\<lparr>objs := (objs s)(i \<mapsto> g, j \<mapsto> g\<lparr>hasDynamicData := False\<rparr>), fheap := h1\<rparr>) =
       (frame_abs s)(i \<mapsto> (pf_header g, pf_len g, pf_data (fheap s) g),
         j \<mapsto> (pf_header g, pf_len g, None))"
    using frame_abs_release [OF ok, of "Some ?f" i h1] h1(2)
      frame_abs_transfer [of i j "s\<lparr>objs := (objs s)(i \<mapsto> ?f), fheap := h1\<rparr>" g] fg(3)
    by (simp add: fun_upd_twist [of i j])
  with h1(1) that show ?thesis by (simp add: PFrame_assign_move_def)
qed

lemma owned_data:
  assumes "own_ok s" "objs s i = Some f" "hasDynamicData f"
  obtains b where "pf_data (fheap s) f = Some b" "length b = unat (pf_len f)"
proof -
  obtain a b where "pf_msg f = Some a" "blocks (fheap s) a = Some b" "length b = unat (pf_len f)"
    using own_okD [OF assms] by metis
  with assms(3) that show ?thesis
    by (simp add: pf_data_def)
qed

lemma frame_exec_refines:
  assumes ok: "own_ok s" and v: "value_exec c (frame_abs s) = Some v"
  shows "\<exists>s'. frame_exec c s = Inr s' \<and> frame_abs s' = v"
proof (cases c)
  case (Construct i)
  with v frame_abs_upd_plain [of "Some PFrame_default" s i] show ?thesis
    by (auto simp: PFrame_default_def split: if_splits)
next
  case (CopyConstruct i j)
  show ?thesis
  proof (cases "objs s i = None \<and> objs s j \<noteq> None")
    case True
    then obtain g where g: "objs s i = None" "objs s j = Some g" by auto
    with v obtain y where y: "value_copy (pf_header g, pf_len g, pf_data (fheap s) g) = Some y"
        "v = (frame_abs s)(i \<mapsto> y)"
      by (auto simp: CopyConstruct frame_abs_def split: option.splits)
    from copy_of_value [OF ok g(2) y(1)] obtain b h f where "PFrame_copy g (fheap s) = Inr (f, h)"
        "hasDynamicData f" "pf_msg f = Some (brk (fheap s))" "pf_header f = pf_header g"
        "pf_len f = pf_len g" "blocks h = (blocks (fheap s))(brk (fheap s) \<mapsto> b)"
        "y = (pf_header g, pf_len g, Some b)" by metis
    then show ?thesis
      using g y frame_abs_install [OF ok, of f h b i] by (simp add: CopyConstruct)
  qed (use v in \<open>auto simp: CopyConstruct frame_abs_def split: option.splits\<close>)
next
  case (MoveConstruct i j)
  show ?thesis
  proof (cases "objs s i = None \<and> objs s j \<noteq> None")
    case True
    then have "i \<noteq> j" by auto
    with True v frame_abs_transfer [OF this, of s] show ?thesis
      by (auto simp: MoveConstruct PFrame_move_def frame_abs_def [of s])
  qed (use v in \<open>auto simp: MoveConstruct frame_abs_def split: option.splits\<close>)
next
  case (CopyAssign i j)
  show ?thesis
  proof (cases "objs s i \<noteq> None \<and> objs s j \<noteq> None \<and> i \<noteq> j")
    case True
    then obtain f g where fg: "objs s i = Some f" "objs s j = Some g" "i \<noteq> j" by auto
    with v obtain y where y: "value_copy (pf_header g, pf_len g, pf_data (fheap s) g) = Some y"
        "v = (frame_abs s)(i \<mapsto> y)"
      by (auto simp: CopyAssign frame_abs_def split: option.splits)
    from refines_assign_copy [OF ok fg y(1)] obtain f' h
      where "PFrame_assign_copy f g (fheap s) = Inr (f', h)"
        "frame_abs (s\<lparr>objs := (objs s)(i \<mapsto> f'), fheap := h\<rparr>) = (frame_abs s)(i \<mapsto> y)"
      by metis
    with fg y(2) show ?thesis
      by (simp add: CopyAssign)
  qed (use v in \<open>auto simp: CopyAssign frame_abs_def split: option.splits\<close>)
next
  case (MoveAssign i j)
  show ?thesis
  proof (cases "objs s i \<noteq> None \<and> objs s j \<noteq> None")
    case True
    then obtain f g where fg: "objs s i = Some f" "objs s j = Some g" by auto
    show ?thesis
    proof (cases "i = j")
      case True
      obtain h where h: "PFrame_destroy f (fheap s) = Inr h"
          "\<And>a. \<not> owns s i a \<Longrightarrow> blocks h a = blocks (fheap s) a"
        using own_ok_release [OF ok fg(1), of "Some (f\<lparr>hasDynamicData := False\<rparr>)"] by auto
      with frame_abs_release [OF ok, of "Some (f\<lparr>hasDynamicData := False\<rparr>)" i h] v fg True
      show ?thesis
        by (simp add: MoveAssign PFrame_self_move_def frame_abs_def [of s])
    next
      case False
      from refines_assign_move [OF ok fg False] obtain h
        where "PFrame_assign_move f g (fheap s) = Inr (g, g\<lparr>hasDynamicData := False\<rparr>, h)"
          "frame_abs (s\<lparr>objs := (objs s)(i \<mapsto> g, j \<mapsto> g\<lparr>hasDynamicData := False\<rparr>), fheap := h\<rparr>) =
             (frame_abs s)(i \<mapsto> (pf_header g, pf_len g, pf_data (fheap s) g),
               j \<mapsto> (pf_header g, pf_len g, None))"
        by metis
      with fg False v show ?thesis
        by (simp add: MoveAssign frame_abs_def [of s])
    qed
  qed (use v in \<open>auto simp: MoveAssign frame_abs_def split: option.splits\<close>)
next
  case (SetHeaderLen i b n)
  show ?thesis
  proof (cases "objs s i")
    case (Some f)
    show ?thesis
    proof (cases "hasDynamicData f")
      case True
      obtain b where "pf_data (fheap s) f = Some b"
        using owned_data [OF ok Some True] by metis
      with True Some v show ?thesis
        by (simp add: SetHeaderLen frame_abs_def [of s])
    next
      case False
      with Some v show ?thesis
        using frame_abs_upd_plain [of "Some (f\<lparr>pf_header := b, pf_len := n\<rparr>)" s i]
        by (simp add: SetHeaderLen frame_abs_def [of s])
    qed
  qed (use v in \<open>simp add: SetHeaderLen frame_abs_def\<close>)
next
  case (AllocMsg i)
  show ?thesis
  proof (cases "objs s i")
    case (Some f)
    show ?thesis
    proof (cases "hasDynamicData f")
      case True
      obtain b where "pf_data (fheap s) f = Some b"
        using owned_data [OF ok Some True] by metis
      with True Some v show ?thesis
        by (simp add: AllocMsg frame_abs_def [of s] PFrame_allocMsg_def fun_upd_idem)
    next
      case False
      let ?f = "f\<lparr>pf_msg := Some (brk (fheap s)), hasDynamicData := True\<rparr>"
      from False Some v show ?thesis
        using frame_abs_install [OF ok, of ?f _ "replicate (unat (pf_len f)) None" i]
        by (simp add: AllocMsg frame_abs_def [of s] PFrame_allocMsg_def new_array_def)
    qed
  qed (use v in \<open>simp add: AllocMsg frame_abs_def\<close>)
next
  case (Erase i)
  show ?thesis
  proof (cases "objs s i")
    case (Some f)
    show ?thesis
    proof (cases "hasDynamicData f")
      case True
      obtain b where "pf_data (fheap s) f = Some b"
        using owned_data [OF ok Some True] by metis
      with True Some v show ?thesis
        by (simp add: Erase frame_abs_def [of s])
    next
      case False
      with Some v show ?thesis
        using frame_abs_upd_plain [of "Some PFrame_default" s i]
        by (simp add: Erase frame_abs_def [of s] PFrame_erase_def PFrame_default_def)
    qed
  qed (use v in \<open>simp add: Erase frame_abs_def\<close>)
next
  case (Destroy i)
  show ?thesis
  proof (cases "objs s i")
    case (Some f)
    obtain h where h: "PFrame_destroy f (fheap s) = Inr h"
        "\<And>a. \<not> owns s i a \<Longrightarrow> blocks h a = blocks (fheap s) a"
      using own_ok_release [OF ok Some, of None] by auto
    with frame_abs_release [OF ok, of None i h] v Some show ?thesis
      by (simp add: Destroy)
  qed (use v in \<open>simp add: Destroy frame_abs_def fun_upd_idem\<close>)
qed

fun value_run :: "frame_op list \<Rightarrow> (nat \<rightharpoonup> frame_value) \<Rightarrow> (nat \<rightharpoonup> frame_value) option" where
  "value_run [] v = Some v"
| "value_run (c # cs) v = Option.bind (value_exec c v) (value_run cs)"

lemma frame_run_refines:
  assumes "own_ok s" "value_run cs (frame_abs s) = Some v"
  shows "\<exists>s'. frame_run cs s = Inr s' \<and> frame_abs s' = v \<and> own_ok s'"
  using assms
proof (induction cs arbitrary: s)
  case (Cons c cs)
  then obtain v1 where v1: "value_exec c (frame_abs s) = Some v1" "value_run cs v1 = Some v"
    by (auto simp: bind_eq_Some_conv)
  from frame_exec_refines [OF Cons.prems(1) v1(1)]
  obtain s1 where s1: "frame_exec c s = Inr s1" "frame_abs s1 = v1" by blast
  with frame_exec_cases [OF Cons.prems(1), of c] have "own_ok s1" by simp
  with Cons.IH [of s1] s1 v1 show ?case by simp
qed simp

text \<open>
  The pattern of \<open>PFramer\<close>: the receiver's frame gets its length, its array, is moved into the
  work item and is then erased. It never meets the scalar \<open>delete\<close> of \<open>erase\<close>.
\<close>

definition push_pattern :: "nat \<Rightarrow> nat \<Rightarrow> byte \<Rightarrow> u16 \<Rightarrow> frame_op list" where
  "push_pattern rx item b n =
     [SetHeaderLen rx b n, AllocMsg rx, MoveConstruct item rx, Erase rx]"

lemma push_pattern_value:
  assumes "v rx = Some (b0, n0, None)" "v item = None" "rx \<noteq> item"
  shows "value_run (push_pattern rx item b n) v =
           Some (v(item \<mapsto> (b, n, Some (replicate (unat n) None)), rx \<mapsto> (0, 0, None)))"
  using assms by (simp add: push_pattern_def fun_upd_twist)

lemma own_ok_dom: "own_ok s \<Longrightarrow> dom (blocks (fheap s)) = {a. \<exists>i. owns s i a}"
proof -
  assume ok: "own_ok s"
  have "blocks (fheap s) a \<noteq> None" if "owns s i a" for i a
    using that own_okD [OF ok, of i] by (fastforce simp: owns_def)
  with ok show ?thesis
    by (auto simp: own_ok_def)
qed

section \<open>Properties\<close>

text \<open>Whatever sequence of constructions, copies, moves, allocations, erasures and destructions
  is run on frame objects, no array is ever freed twice or freed without being allocated; when the
  sequence ends without a fault every array has exactly one owning frame of the right length and
  the arrays still allocated are exactly those owned by a live frame, so nothing leaks.\<close>

lemma frame_run_ownership:
  "case frame_run cs empty_fstate of
     Inr s \<Rightarrow> own_ok s \<and> dom (blocks (fheap s)) = {a. \<exists>i. owns s i a}
   | Inl e \<Rightarrow> e \<in> {NullDereference, UseAfterFree, OutOfBounds, MismatchedDelete}"
  using frame_run_own [OF own_ok_empty, of cs] own_ok_dom by (auto split: sum.splits)

text \<open>C21: The pointer code implements value semantics: whenever the contract on values is defined
  for a sequence of operations (no copy of a non-empty frame without data, no \<open>erase\<close> of a frame
  that owns data), running the special members over the store ends without any undefined behaviour
  and every frame reads as the contract says, so a copy is deep and a move hands the bytes over.\<close>

theorem frame_value_refinement:
  assumes "value_run cs (\<lambda>_. None) = Some v"
  shows "\<exists>s. frame_run cs empty_fstate = Inr s \<and> frame_abs s = v"
proof -
  have "frame_abs empty_fstate = (\<lambda>_. None)"
    by (simp add: fun_eq_iff) (simp add: empty_fstate_def)
  with frame_run_refines [OF own_ok_empty, of cs v] assms show ?thesis
    by auto
qed

theorem frame_value_refinement_witness:
  "\<exists>s. frame_run [Construct 0, SetHeaderLen 0 0xF0 2, AllocMsg 0, CopyConstruct 1 0, MoveConstruct 2 0,
         Erase 0, Destroy 2] empty_fstate = Inr s \<and>
       frame_abs s = [0 \<mapsto> (0, 0, None), 1 \<mapsto> (0xF0, 2, Some [None, None])]"
proof (rule frame_value_refinement)
  show "value_run [Construct 0, SetHeaderLen 0 0xF0 2, AllocMsg 0, CopyConstruct 1 0,
      MoveConstruct 2 0, Erase 0, Destroy 2] (\<lambda>_. None) =
    Some [0 \<mapsto> (0, 0, None), 1 \<mapsto> (0xF0, 2, Some [None, None])]"
    by (simp add: fun_eq_iff) (simp add: numeral_eq_Suc)
qed

text \<open>The way the receiver uses a frame (set header and length, allocate, move it into the work
  item, erase) is safe from every well-owned state: it does not run into the scalar \<open>delete\<close> that
  \<open>erase\<close> would apply to an owned array, the work item ends up owning the message, and the
  receiver's frame is the empty frame again.\<close>

lemma push_pattern_safe:
  assumes "own_ok s" "frame_abs s rx = Some (b0, n0, None)" "frame_abs s item = None"
  shows "\<exists>s'. frame_run (push_pattern rx item b n) s = Inr s' \<and> own_ok s' \<and>
           frame_abs s' item = Some (b, n, Some (replicate (unat n) None)) \<and>
           frame_abs s' rx = Some (0, 0, None)"
proof -
  from assms(2,3) have "rx \<noteq> item" by (metis option.distinct(1))
  with frame_run_refines [OF assms(1) push_pattern_value [OF assms(2,3), of b n]]
  show ?thesis by auto
qed

text \<open>A moved-from frame keeps its pointer and its length: once the new owner is destroyed, a copy
  of the moved-from frame reads freed memory, whatever its non-zero length.\<close>

theorem moved_from_copy_dangles:
  assumes "n \<noteq> 0"
  shows "frame_run [Construct 0, SetHeaderLen 0 b n, AllocMsg 0, MoveConstruct 1 0, Destroy 1,
           CopyConstruct 2 0] empty_fstate = Inl UseAfterFree"
proof -
  from assms have "unat n \<noteq> 0" by (simp add: unat_eq_0)
  then show ?thesis
    by (simp add: empty_fstate_def empty_heap_def PFrame_default_def PFrame_allocMsg_def
        new_array_def PFrame_move_def PFrame_destroy_def delete_array_def PFrame_copy_def memcpy_def)
qed

theorem moved_from_copy_dangles_witness:
  "frame_run [Construct 0, SetHeaderLen 0 0xF0 4, AllocMsg 0, MoveConstruct 1 0, Destroy 1,
     CopyConstruct 2 0] empty_fstate = Inl UseAfterFree"
  using moved_from_copy_dangles [of 4 "0xF0"] by simp

end
