(* ===== verification/WireRuntime.thy ===== *)
theory WireRuntime
  imports Base
begin

text \<open>
  The protobuf runtime, as the generated message classes use it. The runtime is not part of the
  repository: it is a parameter, the record \<open>wire_lib\<close>, and what the generated code relies on is
  the locale \<open>wire_runtime\<close> of its documented behaviour (the encoding of one field, the size
  functions, the parse loop driven by a parse table, the enum name lookup). The last section
  instantiates the parameter with the varint encoding itself and proves every law for it, so each
  theorem below that assumes the locale has a model.
\<close>

section \<open>The parameter\<close>

type_synonym i32 = "32 word"

text \<open>
  An entry of a generated \<open>_table_\<close>: field number, index of the has-bit (none for fields without
  presence) and the field type. The parse loop reports the values it stores, in wire order;
  a field that is not in the table, or comes with another wire type, comes back as its raw bytes.
\<close>

datatype field_kind = OpenEnum | BytesField | Utf8String | Submessage

record table_entry =
  te_number :: nat
  te_hasbit :: "nat option"
  te_kind :: field_kind

type_synonym parse_table = "table_entry list"

datatype wire_event =
    EvEnum nat i32
  | EvBytes nat bytes
  | EvMessage nat bytes
  | EvUnknown bytes

record wire_lib =
  WriteEnumToArray :: "nat \<Rightarrow> i32 \<Rightarrow> bytes"
  WriteBytesMaybeAliased :: "nat \<Rightarrow> bytes \<Rightarrow> bytes"
  WriteStringMaybeAliased :: "nat \<Rightarrow> bytes \<Rightarrow> bytes"
  WriteMessageHead :: "nat \<Rightarrow> i32 \<Rightarrow> bytes"
  EnumSize :: "i32 \<Rightarrow> nat"
  BytesSize :: "bytes \<Rightarrow> nat"
  StringSize :: "bytes \<Rightarrow> nat"
  LengthDelimitedSize :: "nat \<Rightarrow> nat"
  VerifyUtf8 :: "bytes \<Rightarrow> bool"
  ParseLoop :: "parse_table \<Rightarrow> bytes \<Rightarrow> bool \<times> wire_event list"
  InitializeEnumStrings :: "(string \<times> int) list \<Rightarrow> nat list \<Rightarrow> nat \<Rightarrow> string list"
  LookUpEnumName :: "(string \<times> int) list \<Rightarrow> nat list \<Rightarrow> nat \<Rightarrow> int \<Rightarrow> int"
  LookUpEnumValue :: "(string \<times> int) list \<Rightarrow> nat \<Rightarrow> string \<Rightarrow> int option"

definition prepend :: "wire_event \<Rightarrow> bool \<times> wire_event list \<Rightarrow> bool \<times> wire_event list" where
  "prepend e r = (fst r, e # snd r)"

definition kind_of :: "parse_table \<Rightarrow> nat \<Rightarrow> field_kind option" where
  "kind_of t n = map_option te_kind (find (\<lambda>e. te_number e = n) t)"

text \<open>The runtime reads a length up to \<open>INT_MAX\<close> less the slop of its buffers.\<close>

definition wire_max :: nat where
  "wire_max = 2147483631"

text \<open>\<open>ToCachedSize\<close>: the size narrowed to 32 bits.\<close>

definition ToCachedSize :: "nat \<Rightarrow> i32" where
  "ToCachedSize n = word_of_nat n"

lemma unat_ToCachedSize [simp]: "n \<le> wire_max \<Longrightarrow> unat (ToCachedSize n) = n"
  by (simp add: ToCachedSize_def wire_max_def unat_of_nat)

text \<open>
  Storing the reported values into a message, one by one; a store fails when a submessage does
  not parse, and the loop stops there with what has been stored so far.
\<close>

fun run_events :: "(wire_event \<Rightarrow> 'm \<Rightarrow> bool \<times> 'm) \<Rightarrow> bool \<times> wire_event list \<Rightarrow> 'm \<Rightarrow> bool \<times> 'm" where
  "run_events st (ok, []) m = (ok, m)"
| "run_events st (ok, e # es) m =
     (case st e m of
        (True, m') \<Rightarrow> run_events st (ok, es) m'
      | (False, m') \<Rightarrow> (False, m'))"

lemma run_events_prepend [simp]:
  "run_events st (prepend e r) m =
     (case st e m of
        (True, m') \<Rightarrow> run_events st r m'
      | (False, m') \<Rightarrow> (False, m'))"
  by (metis prepend_def prod.collapse run_events.simps(2))

lemma run_events_keeps:
  "\<lbrakk>\<And>e m ok m'. \<lbrakk>e \<in> set es; P m; st e m = (ok, m')\<rbrakk> \<Longrightarrow> P m'; P m\<rbrakk> \<Longrightarrow>
     P (snd (run_events st (ok, es) m))"
proof (induction es arbitrary: m)
  case (Cons e es)
  obtain b m' where st: "st e m = (b, m')" by fastforce
  with Cons.prems have "P m'" by (meson list.set_intros(1))
  with Cons.IH [of m'] Cons.prems(1) st show ?case
    by (cases b) (auto simp del: not_False_eq_True)
qed simp

text \<open>The order of the names in an enum table: lexicographic by character code.\<close>

fun name_less :: "string \<Rightarrow> string \<Rightarrow> bool" where
  "name_less xs [] = False"
| "name_less [] (y # ys) = True"
| "name_less (x # xs) (y # ys) =
     ((of_char x :: nat) < of_char y \<or> x = y \<and> name_less xs ys)"

lemma name_less_irrefl [simp]: "\<not> name_less xs xs"
  by (induction xs) auto

definition enum_table_ok :: "(string \<times> int) list \<Rightarrow> nat list \<Rightarrow> nat \<Rightarrow> bool" where
  "enum_table_ok entries by_number n \<longleftrightarrow>
     length entries = n \<and> length by_number = n \<and> (\<forall>i\<in>set by_number. i < n) \<and> distinct by_number \<and>
     sorted_wrt name_less (map fst entries) \<and>
     sorted_wrt (<) (map (\<lambda>i. snd (entries ! i)) by_number)"

section \<open>Has-bits\<close>

named_theorems has_bit \<open>testing, setting and clearing the first two has-bits\<close>

lemma has_bit_test [has_bit]:
  "(w :: i32) AND 1 \<noteq> 0 \<longleftrightarrow> bit w 0" "w AND 1 = 0 \<longleftrightarrow> \<not> bit w 0"
  "w AND 2 \<noteq> 0 \<longleftrightarrow> bit w 1" "w AND 2 = 0 \<longleftrightarrow> \<not> bit w 1"
  using and_exp_eq_0_iff_not_bit [of w 0] and_exp_eq_0_iff_not_bit [of w 1] by auto

lemma has_bit_set [has_bit]:
  "bit ((w :: i32) OR 1) 0" "bit (w OR 1) 1 = bit w 1" "bit (w OR 2) 0 = bit w 0" "bit (w OR 2) 1"
  by (simp_all add: bit_simps)

lemma has_bit_clear [has_bit]:
  "\<not> bit ((w :: i32) AND NOT 1) 0" "bit (w AND NOT 1) 1 = bit w 1"
  "bit (w AND NOT 2) 0 = bit w 0" "\<not> bit (w AND NOT 2) 1"
  by (simp_all add: bit_simps)

lemmas has_bit_or [has_bit] = bit_or_iff [where ?'a = "32 word"]

section \<open>What the generated code relies on\<close>

locale wire_runtime =
  fixes L :: wire_lib
  assumes parse_Nil: "ParseLoop L t [] = (True, [])"
    and parse_enum: "\<lbrakk>0 < n; n < 16; kind_of t n = Some OpenEnum\<rbrakk> \<Longrightarrow>
      ParseLoop L t (WriteEnumToArray L n v @ rest) = prepend (EvEnum n v) (ParseLoop L t rest)"
    and parse_bytes: "\<lbrakk>0 < n; n < 16; kind_of t n = Some BytesField; length s \<le> wire_max\<rbrakk> \<Longrightarrow>
      ParseLoop L t (WriteBytesMaybeAliased L n s @ rest) =
        prepend (EvBytes n s) (ParseLoop L t rest)"
    and parse_string: "\<lbrakk>0 < n; n < 16; kind_of t n = Some Utf8String; length s \<le> wire_max\<rbrakk> \<Longrightarrow>
      ParseLoop L t (WriteStringMaybeAliased L n s @ rest) =
        (if VerifyUtf8 L s then prepend (EvBytes n s) (ParseLoop L t rest) else (False, []))"
    and parse_message: "\<lbrakk>0 < n; n < 16; kind_of t n = Some Submessage; unat c = length s;
        length s \<le> wire_max\<rbrakk> \<Longrightarrow>
      ParseLoop L t (WriteMessageHead L n c @ s @ rest) =
        prepend (EvMessage n s) (ParseLoop L t rest)"
    and parse_raw_string: "\<lbrakk>0 < n; n < 16; kind_of t n = Some BytesField; length s \<le> wire_max\<rbrakk> \<Longrightarrow>
      ParseLoop L t (WriteStringMaybeAliased L n s @ rest) = prepend (EvBytes n s) (ParseLoop L t rest)"
    and parse_not_enum: "\<lbrakk>0 < n; n < 16; kind_of t n = Some OpenEnum; length s \<le> wire_max\<rbrakk> \<Longrightarrow>
      ParseLoop L t (WriteStringMaybeAliased L n s @ rest) =
        prepend (EvUnknown (WriteStringMaybeAliased L n s)) (ParseLoop L t rest)"
    and parse_not_string: "\<lbrakk>0 < n; n < 16; kind_of t n = Some Utf8String\<rbrakk> \<Longrightarrow>
      ParseLoop L t (WriteEnumToArray L n v @ rest) =
        prepend (EvUnknown (WriteEnumToArray L n v)) (ParseLoop L t rest)"
    and length_enum: "\<lbrakk>0 < n; n < 16\<rbrakk> \<Longrightarrow> length (WriteEnumToArray L n v) = 1 + EnumSize L v"
    and length_bytes: "\<lbrakk>0 < n; n < 16; length s \<le> wire_max\<rbrakk> \<Longrightarrow>
      length (WriteBytesMaybeAliased L n s) = 1 + BytesSize L s"
    and length_string: "\<lbrakk>0 < n; n < 16; length s \<le> wire_max\<rbrakk> \<Longrightarrow>
      length (WriteStringMaybeAliased L n s) = 1 + StringSize L s"
    and length_message: "\<lbrakk>0 < n; n < 16; k \<le> wire_max\<rbrakk> \<Longrightarrow>
      length (WriteMessageHead L n (ToCachedSize k)) + k = 1 + LengthDelimitedSize L k"
    and size_bytes: "length s \<le> BytesSize L s"
    and size_string: "length s \<le> StringSize L s"
    and size_message: "k \<le> LengthDelimitedSize L k"
    and size_enum_le: "EnumSize L v \<le> 10"
    and size_bytes_le: "length s \<le> wire_max \<Longrightarrow> BytesSize L s \<le> length s + 5"
    and size_string_le: "length s \<le> wire_max \<Longrightarrow> StringSize L s \<le> length s + 5"
    and size_message_le: "k \<le> wire_max \<Longrightarrow> LengthDelimitedSize L k \<le> k + 5"
    and enum_strings: "enum_table_ok es idx n \<Longrightarrow>
      InitializeEnumStrings L es idx n = map (\<lambda>i. fst (es ! i)) idx"
    and enum_name: "\<lbrakk>enum_table_ok es idx n; k < n\<rbrakk> \<Longrightarrow>
      LookUpEnumName L es idx n (snd (es ! (idx ! k))) = int k"
    and enum_name_none: "\<lbrakk>enum_table_ok es idx n; num \<notin> snd ` set es\<rbrakk> \<Longrightarrow>
      LookUpEnumName L es idx n num = - 1"
    and enum_value: "enum_table_ok es idx n \<Longrightarrow> LookUpEnumValue L es n nm = map_of es nm"
    and parse_short: "\<lbrakk>ParseLoop L t bs = (ok, evs); EvBytes k s \<in> set evs\<rbrakk> \<Longrightarrow> length s \<le> length bs"
begin

lemmas parse_enum_1 = parse_enum [of 1, simplified]
lemmas wire_parse = parse_Nil parse_enum parse_bytes parse_string parse_message
lemmas wire_length = length_enum length_bytes length_string

text \<open>The names of a table are distinct, so the name of a listed value leads back to it.\<close>

lemma enum_table_distinct: "enum_table_ok es idx n \<Longrightarrow> distinct (map fst es)"
proof -
  assume "enum_table_ok es idx n"
  then have "sorted_wrt name_less (map fst es)"
    by (simp add: enum_table_ok_def)
  moreover have "sorted_wrt name_less xs \<Longrightarrow> distinct xs" for xs
    by (induction xs) auto
  ultimately show ?thesis by blast
qed

lemma enum_name_value:
  assumes ok: "enum_table_ok es idx n" and v: "v \<in> snd ` set es"
  shows "LookUpEnumName L es idx n v \<noteq> - 1 \<and>
    LookUpEnumValue L es n (InitializeEnumStrings L es idx n ! nat (LookUpEnumName L es idx n v)) = Some v"
proof -
  obtain j where j: "j < n" "v = snd (es ! j)"
    using v ok by (auto simp: in_set_conv_nth enum_table_ok_def)
  have "set idx = {..<n}"
    using ok by (intro card_subset_eq) (auto simp: enum_table_ok_def distinct_card)
  with j(1) obtain k where k: "k < n" "idx ! k = j"
    using ok by (metis enum_table_ok_def in_set_conv_nth lessThan_iff)
  have "es ! j \<in> set es"
    using j(1) ok by (simp add: enum_table_ok_def)
  then have "map_of es (fst (es ! j)) = Some (snd (es ! j))"
    using enum_table_distinct [OF ok] by (metis map_of_eq_Some_iff prod.collapse)
  moreover have "length idx = n"
    using ok by (simp add: enum_table_ok_def)
  ultimately show ?thesis
    using enum_name [OF ok k(1)] k j by (simp add: enum_value [OF ok] enum_strings [OF ok])
qed

lemma message_head_length:
  "\<lbrakk>0 < n; n < 16; k \<le> wire_max\<rbrakk> \<Longrightarrow>
     length (WriteMessageHead L n (ToCachedSize k)) = 1 + LengthDelimitedSize L k - k"
  using length_message [of n k] by simp

end

section \<open>The varint encoding as an instance\<close>

function write_varint :: "nat \<Rightarrow> bytes" where
  "write_varint n =
     (if n < 128 then [word_of_nat n] else word_of_nat (n mod 128 + 128) # write_varint (n div 128))"
  by pat_completeness auto
termination by (relation "measure id") auto

declare write_varint.simps [simp del]

fun read_varint :: "nat \<Rightarrow> bytes \<Rightarrow> (nat \<times> bytes) option" where
  "read_varint 0 bs = None"
| "read_varint (Suc k) [] = None"
| "read_varint (Suc k) (b # bs) =
     (if unat b < 128 then Some (unat b, bs)
      else map_option (\<lambda>(n, rest). (unat b - 128 + 128 * n, rest)) (read_varint k bs))"

lemma write_varint_ne [simp]: "write_varint n \<noteq> []"
  by (subst write_varint.simps) simp

lemma unat_byte_of_nat: "m < 256 \<Longrightarrow> unat (word_of_nat m :: byte) = m"
  by (simp add: unat_of_nat)

lemma read_write_varint:
  "n < 128 ^ Suc k \<Longrightarrow> read_varint (Suc k) (write_varint n @ rest) = Some (n, rest)"
proof (induction k arbitrary: n)
  case 0
  then show ?case
    by (subst write_varint.simps) (simp add: unat_of_nat)
next
  case (Suc k)
  show ?case
  proof (cases "n < 128")
    case True
    then show ?thesis
      by (subst write_varint.simps) (simp add: unat_of_nat)
  next
    case False
    from Suc.prems have "n div 128 < 128 ^ Suc k"
      by (simp add: less_mult_imp_div_less mult.commute)
    then have IH: "read_varint (Suc k) (write_varint (n div 128) @ rest) = Some (n div 128, rest)"
      by (rule Suc.IH)
    have b: "unat (word_of_nat (n mod 128 + 128) :: byte) = n mod 128 + 128"
      by (rule unat_byte_of_nat) simp
    have w: "write_varint n = word_of_nat (n mod 128 + 128) # write_varint (n div 128)"
      using False by (subst write_varint.simps) simp
    have "n mod 128 + 128 - 128 + 128 * (n div 128) = n"
      by simp
    then show ?thesis
      unfolding w append_Cons read_varint.simps(3) [of "Suc k"] IH b by simp
  qed
qed

lemma read_varint_shorter: "read_varint k bs = Some (n, rest) \<Longrightarrow> length rest < length bs"
  by (induction k bs arbitrary: n rest rule: read_varint.induct)
     (fastforce split: if_splits)+

definition pb_tag :: "nat \<Rightarrow> nat \<Rightarrow> bytes" where
  "pb_tag n wt = write_varint (8 * n + wt)"

definition pb_enum_payload :: "i32 \<Rightarrow> bytes" where
  "pb_enum_payload v = write_varint (unat (scast v :: 64 word))"

definition pb_delimited :: "bytes \<Rightarrow> bytes" where
  "pb_delimited s = write_varint (length s) @ s"

definition pb_utf8 :: "bytes \<Rightarrow> bool" where
  "pb_utf8 s = list_all (\<lambda>b. b < 128) s"

text \<open>One field: its event and the rest of the input, or \<open>None\<close> for malformed input.\<close>

definition pb_take :: "nat \<Rightarrow> bytes \<Rightarrow> (bytes \<times> bytes) option" where
  "pb_take n bs = (if n \<le> length bs \<and> n \<le> wire_max then Some (take n bs, drop n bs) else None)"

definition pb_skip :: "nat \<Rightarrow> bytes \<Rightarrow> bytes option" where
  "pb_skip wt bs =
     (if wt = 0 then map_option snd (read_varint 10 bs)
      else if wt = 1 then map_option snd (pb_take 8 bs)
      else if wt = 2 then Option.bind (read_varint 5 bs) (\<lambda>(n, r). map_option snd (pb_take n r))
      else if wt = 5 then map_option snd (pb_take 4 bs)
      else None)"

definition pb_known :: "field_kind \<Rightarrow> nat \<Rightarrow> nat \<Rightarrow> bytes \<Rightarrow> (wire_event \<times> bytes) option option" where
  "pb_known kind n wt bs =
     (if kind = OpenEnum then
        (if wt = 0 then Some (map_option (\<lambda>(v, r). (EvEnum n (word_of_nat v), r)) (read_varint 10 bs))
         else None)
      else if wt = 2 then
        Some (Option.bind (read_varint 5 bs) (\<lambda>(k, r). Option.bind (pb_take k r) (\<lambda>(s, r').
          if kind = Submessage then Some (EvMessage n s, r')
          else if kind = Utf8String \<and> \<not> pb_utf8 s then None
          else Some (EvBytes n s, r'))))
      else None)"

definition pb_field :: "parse_table \<Rightarrow> bytes \<Rightarrow> (wire_event \<times> bytes) option" where
  "pb_field t bs =
     Option.bind (read_varint 5 bs) (\<lambda>(tag, r).
       (let n = tag div 8; wt = tag mod 8;
            unknown = map_option (\<lambda>r'. (EvUnknown (take (length bs - length r') bs), r')) (pb_skip wt r)
        in case kind_of t n of
             None \<Rightarrow> unknown
           | Some kind \<Rightarrow>
               (case pb_known kind n wt r of None \<Rightarrow> unknown | Some res \<Rightarrow> res)))"

function pb_parse :: "parse_table \<Rightarrow> bytes \<Rightarrow> bool \<times> wire_event list" where
  "pb_parse t bs =
     (if bs = [] then (True, [])
      else case pb_field t bs of
        None \<Rightarrow> (False, [])
      | Some (e, rest) \<Rightarrow>
          if length rest < length bs then prepend e (pb_parse t rest) else (False, []))"
  by pat_completeness auto
termination by (relation "measure (\<lambda>(t, bs). length bs)") auto

declare pb_parse.simps [simp del]

fun pb_index :: "('a \<Rightarrow> bool) \<Rightarrow> 'a list \<Rightarrow> nat \<Rightarrow> int" where
  "pb_index p [] k = - 1"
| "pb_index p (x # xs) k = (if p x then int k else pb_index p xs (Suc k))"

definition pb_lib :: wire_lib where
  "pb_lib =
     \<lparr>WriteEnumToArray = (\<lambda>n v. pb_tag n 0 @ pb_enum_payload v),
      WriteBytesMaybeAliased = (\<lambda>n s. pb_tag n 2 @ pb_delimited s),
      WriteStringMaybeAliased = (\<lambda>n s. pb_tag n 2 @ pb_delimited s),
      WriteMessageHead = (\<lambda>n c. pb_tag n 2 @ write_varint (unat c)),
      EnumSize = (\<lambda>v. length (pb_enum_payload v)),
      BytesSize = (\<lambda>s. length (pb_delimited s)),
      StringSize = (\<lambda>s. length (pb_delimited s)),
      LengthDelimitedSize = (\<lambda>k. length (write_varint k) + k),
      VerifyUtf8 = pb_utf8,
      ParseLoop = pb_parse,
      InitializeEnumStrings = (\<lambda>es idx n. map (\<lambda>i. fst (es ! i)) idx),
      LookUpEnumName = (\<lambda>es idx n v. pb_index (\<lambda>i. snd (es ! i) = v) idx 0),
      LookUpEnumValue = (\<lambda>es n s. map_of es s)\<rparr>"

subsection \<open>The laws hold for it\<close>

lemma read_write_varint_5:
  assumes "n < 34359738368"
  shows "read_varint 5 (write_varint n @ r) = Some (n, r)"
proof -
  have "n < 128 ^ Suc 4" using assms by simp
  from read_write_varint [OF this] show ?thesis by simp
qed

lemma read_write_varint_10:
  assumes "n < 18446744073709551616"
  shows "read_varint 10 (write_varint n @ r) = Some (n, r)"
proof -
  have "n < 128 ^ Suc 9" using assms by simp
  from read_write_varint [OF this] show ?thesis by simp
qed

lemma pb_tag_read: "n < 16 \<Longrightarrow> wt < 8 \<Longrightarrow> read_varint 5 (pb_tag n wt @ r) = Some (8 * n + wt, r)"
  by (simp add: pb_tag_def read_write_varint_5)

lemma pb_tag_length: "n < 16 \<Longrightarrow> wt < 8 \<Longrightarrow> length (pb_tag n wt) = 1"
  by (simp add: pb_tag_def) (subst write_varint.simps, simp)

lemma pb_len_read: "k \<le> wire_max \<Longrightarrow> read_varint 5 (write_varint k @ r) = Some (k, r)"
  by (simp add: wire_max_def read_write_varint_5)

lemma pb_enum_read:
  "read_varint 10 (pb_enum_payload v @ r) = Some (unat (scast v :: 64 word), r)"
  using unsigned_less [where ?'a = nat, of "scast v :: 64 word"]
  by (simp add: pb_enum_payload_def read_write_varint_10)

lemma scast_back [simp]: "(ucast (scast v :: 64 word) :: i32) = v"
  by (rule bit_word_eqI) (auto simp: bit_simps)

lemma write_varint_length: "n < 128 ^ Suc k \<Longrightarrow> length (write_varint n) \<le> Suc k"
proof (induction k arbitrary: n)
  case 0
  then show ?case by (subst write_varint.simps) simp
next
  case (Suc k)
  then have "n div 128 < 128 ^ Suc k"
    by (simp add: less_mult_imp_div_less mult.commute)
  from Suc.IH [OF this] show ?case by (subst write_varint.simps) simp
qed

lemma write_varint_length_5:
  assumes "n \<le> wire_max"
  shows "length (write_varint n) \<le> 5"
proof -
  have "n < 128 ^ Suc 4" using assms by (simp add: wire_max_def)
  from write_varint_length [OF this] show ?thesis by simp
qed

lemma pb_enum_length: "length (pb_enum_payload v) \<le> 10"
proof -
  have "unat (scast v :: 64 word) < 128 ^ Suc 9"
    using unsigned_less [where ?'a = nat, of "scast v :: 64 word"] by simp
  from write_varint_length [OF this] show ?thesis by (simp add: pb_enum_payload_def)
qed

lemma pb_take_append: "length s \<le> wire_max \<Longrightarrow> pb_take (length s) (s @ r) = Some (s, r)"
  by (simp add: pb_take_def)

lemma pb_parse_Nil: "pb_parse t [] = (True, [])"
  by (subst pb_parse.simps) simp

lemma pb_parse_step:
  "pb_field t bs = Some (e, rest) \<Longrightarrow> length rest < length bs \<Longrightarrow>
     pb_parse t bs = prepend e (pb_parse t rest)"
  by (subst pb_parse.simps) auto

lemma pb_field_tag:
  assumes "n < 16" "wt < 8" "kind_of t n = Some kind" "pb_known kind n wt r = Some res"
  shows "pb_field t (pb_tag n wt @ r) = res"
  using assms by (simp add: pb_field_def pb_tag_read Let_def)

lemma pb_shorter: "n < 16 \<Longrightarrow> wt < 8 \<Longrightarrow> length r < length (pb_tag n wt @ s @ r)"
  by (simp add: pb_tag_length)

lemma pb_delimited_event:
  assumes "n < 16" "kind_of t n = Some kind" "kind \<noteq> OpenEnum" "length s \<le> wire_max"
  shows "pb_parse t (pb_tag n 2 @ write_varint (length s) @ s @ r) =
    (if kind = Utf8String \<and> \<not> pb_utf8 s then (False, [])
     else prepend (if kind = Submessage then EvMessage n s else EvBytes n s) (pb_parse t r))"
proof -
  let ?e = "if kind = Submessage then EvMessage n s else EvBytes n s"
  have "pb_known kind n 2 (write_varint (length s) @ s @ r) =
      Some (if kind = Utf8String \<and> \<not> pb_utf8 s then None else Some (?e, r))"
    using assms by (simp add: pb_known_def pb_len_read pb_take_append)
  from pb_field_tag [OF assms(1) _ assms(2) this]
  have f: "pb_field t (pb_tag n 2 @ write_varint (length s) @ s @ r) =
      (if kind = Utf8String \<and> \<not> pb_utf8 s then None else Some (?e, r))" by simp
  show ?thesis
  proof (cases "kind = Utf8String \<and> \<not> pb_utf8 s")
    case True
    with f show ?thesis
      by (subst pb_parse.simps) (simp add: pb_tag_def)
  next
    case False
    with f have "pb_field t (pb_tag n 2 @ write_varint (length s) @ s @ r) = Some (?e, r)"
      by (simp only: if_False)
    from pb_parse_step [OF this] pb_shorter [OF assms(1), of 2 r "write_varint (length s) @ s"] False
    show ?thesis by (simp only: if_False append_assoc)
  qed
qed

lemma pb_enum_event:
  assumes "n < 16" "kind_of t n = Some OpenEnum"
  shows "pb_parse t (pb_tag n 0 @ pb_enum_payload v @ r) = prepend (EvEnum n v) (pb_parse t r)"
proof -
  have "pb_known OpenEnum n 0 (pb_enum_payload v @ r) = Some (Some (EvEnum n v, r))"
    by (simp add: pb_known_def pb_enum_read)
  from pb_field_tag [OF assms(1) _ assms(2) this]
  have "pb_field t (pb_tag n 0 @ pb_enum_payload v @ r) = Some (EvEnum n v, r)" by simp
  with pb_shorter [OF assms(1), of 0 r "pb_enum_payload v"] show ?thesis
    by (simp add: pb_parse_step)
qed

text \<open>A field of another wire type than the table has is kept as it is.\<close>

lemma pb_mismatch:
  assumes "n < 16" "wt < 8" "kind_of t n = Some kind" "pb_known kind n wt (p @ r) = None" "pb_skip wt (p @ r) = Some r"
  shows "pb_parse t (pb_tag n wt @ p @ r) = prepend (EvUnknown (pb_tag n wt @ p)) (pb_parse t r)"
proof -
  have "pb_field t (pb_tag n wt @ p @ r) = Some (EvUnknown (pb_tag n wt @ p), r)"
    using assms by (simp add: pb_field_def pb_tag_read Let_def)
  from pb_parse_step [OF this pb_shorter [OF assms(1,2)]] show ?thesis .
qed

lemma pb_not_enum:
  assumes "n < 16" "kind_of t n = Some OpenEnum" "length s \<le> wire_max"
  shows "pb_parse t (pb_tag n 2 @ pb_delimited s @ r) = prepend (EvUnknown (pb_tag n 2 @ pb_delimited s)) (pb_parse t r)"
  using assms
  by (intro pb_mismatch [where kind = OpenEnum]) (simp_all add: pb_known_def pb_skip_def pb_delimited_def pb_len_read pb_take_append)

lemma pb_not_string:
  assumes "n < 16" "kind_of t n = Some Utf8String"
  shows "pb_parse t (pb_tag n 0 @ pb_enum_payload v @ r) = prepend (EvUnknown (pb_tag n 0 @ pb_enum_payload v)) (pb_parse t r)"
  using assms by (intro pb_mismatch [where kind = Utf8String]) (simp_all add: pb_known_def pb_skip_def pb_enum_read)

lemma pb_index_found:
  "distinct (map f xs) \<Longrightarrow> k < length xs \<Longrightarrow> pb_index (\<lambda>x. f x = f (xs ! k)) xs j = int (j + k)"
  by (induction xs arbitrary: j k) (auto simp: nth_Cons' image_iff)

lemma pb_index_none: "(\<forall>x\<in>set xs. \<not> p x) \<Longrightarrow> pb_index p xs j = - 1"
  by (induction xs arbitrary: j) auto

text \<open>A string that is read is a part of the input.\<close>

lemma pb_field_short:
  assumes "pb_field t bs = Some (EvBytes k s, rest)"
  shows "length s \<le> length bs"
proof -
  have take: "pb_take n r = Some (s', r') \<Longrightarrow> length s' \<le> length r" for n r s' r'
    by (auto simp: pb_take_def split: if_splits)
  have known: "pb_known kind n wt r = Some (Some (EvBytes k s, rest)) \<Longrightarrow> length s \<le> length r"
    for kind n wt r
    using take by (auto simp: pb_known_def bind_eq_Some_conv split: if_splits)
      (meson le_trans order_less_imp_le read_varint_shorter)+
  obtain tag r where r: "read_varint 5 bs = Some (tag, r)"
    using assms by (auto simp: pb_field_def bind_eq_Some_conv)
  then obtain kind where "pb_known kind (tag div 8) (tag mod 8) r = Some (Some (EvBytes k s, rest))"
    using assms by (auto simp: pb_field_def Let_def split: option.splits)
  from known [OF this] read_varint_shorter [OF r] show ?thesis by simp
qed

lemma pb_parse_short: "EvBytes k s \<in> set (snd (pb_parse t bs)) \<Longrightarrow> length s \<le> length bs"
proof (induction t bs rule: pb_parse.induct)
  case (1 t bs)
  from 1(2) obtain e rest where f: "bs \<noteq> []" "pb_field t bs = Some (e, rest)" "length rest < length bs"
    by (subst (asm) pb_parse.simps) (auto split: if_splits option.splits)
  then have "snd (pb_parse t bs) = e # snd (pb_parse t rest)"
    by (simp add: pb_parse_step prepend_def)
  with 1(2) consider "e = EvBytes k s" | "EvBytes k s \<in> set (snd (pb_parse t rest))"
    by auto
  then show ?case
  proof cases
    case 1
    with f show ?thesis by (simp add: pb_field_short)
  next
    case 2
    with 1(1) [OF f(1,2) refl f(3)] f(3) show ?thesis by simp
  qed
qed

lemma sorted_wrt_less_distinct: "sorted_wrt (<) (xs :: int list) \<Longrightarrow> distinct xs"
  using strict_sorted_iff by blast

interpretation pb: wire_runtime pb_lib
proof
  fix t :: parse_table and n :: nat and v :: i32 and rest :: bytes
  assume "0 < n" "n < 16" "kind_of t n = Some OpenEnum"
  then show "ParseLoop pb_lib t (WriteEnumToArray pb_lib n v @ rest) =
      prepend (EvEnum n v) (ParseLoop pb_lib t rest)"
    by (simp add: pb_lib_def pb_enum_event)
next
  fix t :: parse_table and n :: nat and s rest :: bytes
  assume n: "0 < n" "n < 16" and s: "length s \<le> wire_max"
  show "ParseLoop pb_lib t (WriteStringMaybeAliased pb_lib n s @ rest) =
      prepend (EvUnknown (WriteStringMaybeAliased pb_lib n s)) (ParseLoop pb_lib t rest)"
    if "kind_of t n = Some OpenEnum"
    using pb_not_enum [OF n(2) that s, of rest] by (simp add: pb_lib_def)
  show "ParseLoop pb_lib t (WriteStringMaybeAliased pb_lib n s @ rest) = prepend (EvBytes n s) (ParseLoop pb_lib t rest)"
    if "kind_of t n = Some BytesField"
    using pb_delimited_event [OF n(2) that _ s, of rest] by (simp add: pb_lib_def pb_delimited_def)
next
  fix t :: parse_table and n :: nat and v :: i32 and rest :: bytes
  assume n: "0 < n" "n < 16" "kind_of t n = Some Utf8String"
  show "ParseLoop pb_lib t (WriteEnumToArray pb_lib n v @ rest) =
      prepend (EvUnknown (WriteEnumToArray pb_lib n v)) (ParseLoop pb_lib t rest)"
    using pb_not_string [OF n(2,3), of v rest] by (simp add: pb_lib_def)
next
  fix t :: parse_table and bs ok es k s
  assume "ParseLoop pb_lib t bs = (ok, es)" "EvBytes k s \<in> set es"
  then show "length s \<le> length bs"
    using pb_parse_short [of k s t bs] by (simp add: pb_lib_def)
next
  fix es :: "(string \<times> int) list" and idx n k
  assume "enum_table_ok es idx n" "k < n"
  then show "LookUpEnumName pb_lib es idx n (snd (es ! (idx ! k))) = int k"
    using pb_index_found [of "\<lambda>i. snd (es ! i)" idx k 0]
    by (simp add: pb_lib_def enum_table_ok_def sorted_wrt_less_distinct)
next
  fix es :: "(string \<times> int) list" and idx n v
  assume "enum_table_ok es idx n" "v \<notin> snd ` set es"
  then show "LookUpEnumName pb_lib es idx n v = - 1"
    by (auto simp: pb_lib_def enum_table_ok_def image_iff intro!: pb_index_none)
qed (simp_all add: pb_lib_def pb_delimited_event pb_tag_length pb_parse_Nil pb_delimited_def
    write_varint_length_5 pb_enum_length)

subsection \<open>Sizes of small fields\<close>

lemma write_varint_small: "n < 128 \<Longrightarrow> write_varint n = [word_of_nat n]"
  by (subst write_varint.simps) simp

lemma pb_lib_sizes [simp]:
  "length s < 128 \<Longrightarrow> BytesSize pb_lib s = Suc (length s)"
  "length s < 128 \<Longrightarrow> StringSize pb_lib s = Suc (length s)"
  "k < 128 \<Longrightarrow> LengthDelimitedSize pb_lib k = Suc k"
  "unat (scast v :: 64 word) < 128 \<Longrightarrow> EnumSize pb_lib v = 1"
  by (simp_all add: pb_lib_def pb_delimited_def pb_enum_payload_def write_varint_small)

end
