(* ===== verification/PbKex.thy ===== *)
theory PbKex
  imports WireRuntime
begin

text \<open>
  \<open>KexMsg\<close> of \<open>pcomserver.proto\<close>, as \<open>pcomserver.pb.cc\<close> and \<open>pcomserver.pb.h\<close> implement it: the
  key exchange payload (algorithm and public key) carried by both messages of the connected state.
  
  A submessage pointer is an \<open>option\<close>; the pointer handed out by a \<open>mutable_\<close> accessor is
  modelled by the change its caller makes through it. Messages live on the heap (no arena). \<open>release_\<close> of
  a field without presence gives its bytes; the null pointer it returns for a string that was never
  allocated is read as the empty string. A call with one object in both roles (\<open>CopyFrom(*this)\<close>, \<open>Swap(this)\<close>) returns at once in the code;
  the two-object operations below are for distinct objects.
\<close>

text \<open>The values of \<open>KexMsg_KexAlg\<close>; a field of this type holds any \<open>int\<close>.\<close>

definition KexMsg_KexAlg_KEX_UNKNOWN :: i32 where
  [simp]: "KexMsg_KexAlg_KEX_UNKNOWN = 0"

definition KexMsg_KexAlg_KEX_ECDH :: i32 where
  [simp]: "KexMsg_KexAlg_KEX_ECDH = 1"

definition KexMsg_KexAlg_IsValid :: "int \<Rightarrow> bool" where
  "KexMsg_KexAlg_IsValid v \<longleftrightarrow> 0 \<le> v \<and> v \<le> 1"

definition KexMsg_KexAlg_names :: "string" where
  "KexMsg_KexAlg_names = ''KEX_ECDH'' @ ''KEX_UNKNOWN''"

definition KexMsg_KexAlg_entries :: "(string \<times> int) list" where
  "KexMsg_KexAlg_entries =
     [(take 8 (drop 0 KexMsg_KexAlg_names), 1),
      (take 11 (drop 8 KexMsg_KexAlg_names), 0)]"

definition KexMsg_KexAlg_entries_by_number :: "nat list" where
  "KexMsg_KexAlg_entries_by_number = [1, 0]"

definition KexMsg_KexAlg_Name :: "wire_lib \<Rightarrow> i32 \<Rightarrow> string" where
  "KexMsg_KexAlg_Name L value =
     (let strings = InitializeEnumStrings L KexMsg_KexAlg_entries
            KexMsg_KexAlg_entries_by_number 2;
          idx = LookUpEnumName L KexMsg_KexAlg_entries
            KexMsg_KexAlg_entries_by_number 2 (sint value)
      in if idx = - 1 then [] else strings ! nat idx)"

definition KexMsg_KexAlg_Parse :: "wire_lib \<Rightarrow> string \<Rightarrow> i32 option" where
  "KexMsg_KexAlg_Parse L name =
     map_option word_of_int (LookUpEnumValue L KexMsg_KexAlg_entries 2 name)"

section \<open>KexMsg\<close>

record KexMsg =
  km_cached_size :: i32
  km_alg :: i32
  km_pkey :: bytes
  km_unknown :: bytes

definition KexMsg_default_instance :: "KexMsg" where
  "KexMsg_default_instance =
     \<lparr>km_cached_size = 0, km_alg = 0, km_pkey = [], km_unknown = []\<rparr>"

definition KexMsg_new :: "KexMsg" where
  "KexMsg_new =
     \<lparr>km_cached_size = 0, km_alg = 0, km_pkey = [], km_unknown = []\<rparr>"

definition KexMsg_copy :: "KexMsg \<Rightarrow> KexMsg" where
  "KexMsg_copy from =
     \<lparr>km_cached_size = 0,
      km_alg = km_alg from,
      km_pkey = km_pkey from,
      km_unknown = km_unknown from\<rparr>"

definition KexMsg_Clear :: "KexMsg \<Rightarrow> KexMsg" where
  "KexMsg_Clear m =
     (let m = m\<lparr>km_pkey := []\<rparr>
      in m\<lparr>km_alg := 0, km_unknown := []\<rparr>)"

definition KexMsg_table :: "parse_table" where
  "KexMsg_table =
     [\<lparr>te_number = 1, te_hasbit = None, te_kind = OpenEnum\<rparr>,
      \<lparr>te_number = 2, te_hasbit = None, te_kind = BytesField\<rparr>]"

definition KexMsg_store ::
    "wire_event \<Rightarrow> KexMsg \<Rightarrow> bool \<times> KexMsg" where
  "KexMsg_store e m =
     (case e of
        EvEnum n v \<Rightarrow> (True, if n = 1 then m\<lparr>km_alg := v\<rparr> else m)
      | EvBytes n s \<Rightarrow> (True, if n = 2 then m\<lparr>km_pkey := s\<rparr> else m)
      | EvMessage n s \<Rightarrow> (True, m)
      | EvUnknown raw \<Rightarrow> (True, m\<lparr>km_unknown := km_unknown m @ raw\<rparr>))"

definition KexMsg_InternalParse ::
    "wire_lib \<Rightarrow> bytes \<Rightarrow> KexMsg \<Rightarrow> bool \<times> KexMsg" where
  "KexMsg_InternalParse L bs m = run_events (KexMsg_store) (ParseLoop L KexMsg_table bs) m"

definition KexMsg_GetCachedSize :: "KexMsg \<Rightarrow> int" where
  "KexMsg_GetCachedSize m = sint (km_cached_size m)"

definition KexMsg_InternalSerialize ::
    "wire_lib \<Rightarrow> KexMsg \<Rightarrow> bytes \<Rightarrow> bytes" where
  "KexMsg_InternalSerialize L m target =
     (let target = (if km_alg m \<noteq> 0 then target @ WriteEnumToArray L 1 (km_alg m) else target);
          target = (if km_pkey m \<noteq> [] then target @ WriteBytesMaybeAliased L 2 (km_pkey m) else target)
      in target @ km_unknown m)"

definition KexMsg_ByteSizeLong ::
    "wire_lib \<Rightarrow> KexMsg \<Rightarrow> nat \<times> KexMsg" where
  "KexMsg_ByteSizeLong L m =
     (let total = 0;
          total = (if km_pkey m \<noteq> [] then total + 1 + BytesSize L (km_pkey m) else total);
          total = (if km_alg m \<noteq> 0 then total + 1 + EnumSize L (km_alg m) else total);
          total = total + length (km_unknown m)
      in (total, m\<lparr>km_cached_size := ToCachedSize total\<rparr>))"

definition KexMsg_clear_alg :: "KexMsg \<Rightarrow> KexMsg" where
  "KexMsg_clear_alg m = m\<lparr>km_alg := 0\<rparr>"

definition KexMsg_internal_alg :: "KexMsg \<Rightarrow> i32" where
  "KexMsg_internal_alg m = km_alg m"

definition KexMsg_internal_set_alg :: "i32 \<Rightarrow> KexMsg \<Rightarrow> KexMsg" where
  "KexMsg_internal_set_alg v m = m\<lparr>km_alg := v\<rparr>"

definition KexMsg_alg :: "KexMsg \<Rightarrow> i32" where
  "KexMsg_alg m = KexMsg_internal_alg m"

definition KexMsg_set_alg :: "i32 \<Rightarrow> KexMsg \<Rightarrow> KexMsg" where
  "KexMsg_set_alg v m = KexMsg_internal_set_alg v m"

definition KexMsg_clear_pkey :: "KexMsg \<Rightarrow> KexMsg" where
  "KexMsg_clear_pkey m = m\<lparr>km_pkey := []\<rparr>"

definition KexMsg_internal_pkey :: "KexMsg \<Rightarrow> bytes" where
  "KexMsg_internal_pkey m = km_pkey m"

definition KexMsg_internal_set_pkey :: "bytes \<Rightarrow> KexMsg \<Rightarrow> KexMsg" where
  "KexMsg_internal_set_pkey v m = m\<lparr>km_pkey := v\<rparr>"

definition KexMsg_internal_mutable_pkey ::
    "(bytes \<Rightarrow> bytes) \<Rightarrow> KexMsg \<Rightarrow> KexMsg" where
  "KexMsg_internal_mutable_pkey f m = m\<lparr>km_pkey := f (km_pkey m)\<rparr>"

definition KexMsg_pkey :: "KexMsg \<Rightarrow> bytes" where
  "KexMsg_pkey m = KexMsg_internal_pkey m"

definition KexMsg_set_pkey :: "bytes \<Rightarrow> KexMsg \<Rightarrow> KexMsg" where
  "KexMsg_set_pkey v m = m\<lparr>km_pkey := v\<rparr>"

definition KexMsg_mutable_pkey ::
    "(bytes \<Rightarrow> bytes) \<Rightarrow> KexMsg \<Rightarrow> KexMsg" where
  "KexMsg_mutable_pkey f m = KexMsg_internal_mutable_pkey f m"

definition KexMsg_release_pkey :: "KexMsg \<Rightarrow> bytes \<times> KexMsg" where
  "KexMsg_release_pkey m = (km_pkey m, m\<lparr>km_pkey := []\<rparr>)"

definition KexMsg_set_allocated_pkey :: "bytes option \<Rightarrow> KexMsg \<Rightarrow> KexMsg" where
  "KexMsg_set_allocated_pkey value m = m\<lparr>km_pkey := (case value of None \<Rightarrow> [] | Some v \<Rightarrow> v)\<rparr>"

definition KexMsg_MergeFrom :: "KexMsg \<Rightarrow> KexMsg \<Rightarrow> KexMsg" where
  "KexMsg_MergeFrom m from =
     (let m = (if km_pkey from \<noteq> [] then KexMsg_internal_set_pkey (km_pkey from) m else m);
          m = (if km_alg from \<noteq> 0 then m\<lparr>km_alg := km_alg from\<rparr> else m)
      in m\<lparr>km_unknown := km_unknown m @ km_unknown from\<rparr>)"

definition KexMsg_CheckTypeAndMergeFrom :: "KexMsg \<Rightarrow> KexMsg \<Rightarrow> KexMsg" where
  "KexMsg_CheckTypeAndMergeFrom m from = KexMsg_MergeFrom m from"

definition KexMsg_CopyFrom :: "KexMsg \<Rightarrow> KexMsg \<Rightarrow> KexMsg" where
  "KexMsg_CopyFrom m from = KexMsg_MergeFrom (KexMsg_Clear m) from"

definition KexMsg_IsInitialized :: "KexMsg \<Rightarrow> bool" where
  "KexMsg_IsInitialized m \<longleftrightarrow> True"

definition KexMsg_InternalSwap ::
    "KexMsg \<Rightarrow> KexMsg \<Rightarrow> KexMsg \<times> KexMsg" where
  "KexMsg_InternalSwap this other =
     (this\<lparr>km_alg := km_alg other, km_pkey := km_pkey other, km_unknown := km_unknown other\<rparr>,
      other\<lparr>km_alg := km_alg this, km_pkey := km_pkey this, km_unknown := km_unknown this\<rparr>)"

definition KexMsg_assign :: "KexMsg \<Rightarrow> KexMsg \<Rightarrow> KexMsg" where
  "KexMsg_assign m from = KexMsg_CopyFrom m from"

definition KexMsg_assign_move ::
    "KexMsg \<Rightarrow> KexMsg \<Rightarrow> KexMsg \<times> KexMsg" where
  "KexMsg_assign_move m from = KexMsg_InternalSwap m from"

definition KexMsg_move :: "KexMsg \<Rightarrow> KexMsg \<times> KexMsg" where
  "KexMsg_move from = KexMsg_assign_move KexMsg_new from"

definition KexMsg_Swap :: "KexMsg \<Rightarrow> KexMsg \<Rightarrow> KexMsg \<times> KexMsg" where
  "KexMsg_Swap this other = KexMsg_InternalSwap this other"

definition KexMsg_UnsafeArenaSwap ::
    "KexMsg \<Rightarrow> KexMsg \<Rightarrow> KexMsg \<times> KexMsg" where
  "KexMsg_UnsafeArenaSwap this other = KexMsg_InternalSwap this other"

definition KexMsg_unknown_fields :: "KexMsg \<Rightarrow> bytes" where
  "KexMsg_unknown_fields m = km_unknown m"

definition KexMsg_mutable_unknown_fields ::
    "(bytes \<Rightarrow> bytes) \<Rightarrow> KexMsg \<Rightarrow> KexMsg" where
  "KexMsg_mutable_unknown_fields f m = m\<lparr>km_unknown := f (km_unknown m)\<rparr>"

section \<open>Lemmas\<close>

text \<open>What a reader of the message sees, and the state of a message without content.\<close>

definition KexMsg_view :: "KexMsg \<Rightarrow> i32 \<times> bytes" where
  "KexMsg_view m = (km_alg m, km_pkey m)"

definition KexMsg_blank :: "KexMsg \<Rightarrow> bool" where
  "KexMsg_blank m \<longleftrightarrow> km_alg m = 0 \<and> km_pkey m = [] \<and> km_unknown m = []"

named_theorems pb_defs \<open>operations of the message classes\<close>

lemmas KexMsg_defs = KexMsg_new_def KexMsg_default_instance_def KexMsg_copy_def KexMsg_Clear_def
  KexMsg_MergeFrom_def KexMsg_CopyFrom_def KexMsg_clear_alg_def KexMsg_internal_set_alg_def
  KexMsg_set_alg_def KexMsg_clear_pkey_def KexMsg_internal_set_pkey_def KexMsg_set_pkey_def
  KexMsg_internal_mutable_pkey_def KexMsg_mutable_pkey_def KexMsg_alg_def KexMsg_internal_alg_def
  KexMsg_pkey_def KexMsg_internal_pkey_def

declare KexMsg_defs [pb_defs]

lemma KexMsg_blank_Clear [simp]: "KexMsg_blank (KexMsg_Clear m)"
  by (simp add: KexMsg_blank_def KexMsg_Clear_def)

lemma KexMsg_blank_new [simp]: "KexMsg_blank KexMsg_new"
  by (simp add: KexMsg_blank_def KexMsg_new_def)

lemma KexMsg_view_copy [simp]: "KexMsg_view (KexMsg_copy m) = KexMsg_view m"
  by (simp add: KexMsg_view_def KexMsg_copy_def)

lemma KexMsg_view_blank: "KexMsg_blank m \<Longrightarrow> KexMsg_view m = (0, [])"
  by (simp add: KexMsg_view_def KexMsg_blank_def)

lemma KexMsg_merge_new: "KexMsg_MergeFrom KexMsg_new m = KexMsg_copy m"
  by (cases m) (simp add: KexMsg_defs Let_def)

lemma KexMsg_merge_blank: "KexMsg_blank k \<Longrightarrow> KexMsg_view (KexMsg_MergeFrom k m) = KexMsg_view m"
  by (simp add: KexMsg_view_def KexMsg_blank_def KexMsg_MergeFrom_def KexMsg_internal_set_pkey_def Let_def)

lemma KexMsg_serialize_append:
  "KexMsg_InternalSerialize L m target = target @ KexMsg_InternalSerialize L m []"
  by (simp add: KexMsg_InternalSerialize_def Let_def)

lemma KexMsg_ByteSizeLong_snd [simp]:
  "km_alg (snd (KexMsg_ByteSizeLong L m)) = km_alg m"
  "km_pkey (snd (KexMsg_ByteSizeLong L m)) = km_pkey m"
  "km_unknown (snd (KexMsg_ByteSizeLong L m)) = km_unknown m"
  "km_cached_size (snd (KexMsg_ByteSizeLong L m)) = ToCachedSize (fst (KexMsg_ByteSizeLong L m))"
  by (simp_all add: KexMsg_ByteSizeLong_def Let_def)

lemma KexMsg_serialize_cached [simp]:
  "KexMsg_InternalSerialize L (snd (KexMsg_ByteSizeLong L m)) t = KexMsg_InternalSerialize L m t"
  by (simp add: KexMsg_InternalSerialize_def Let_def)

lemma KexMsg_copy_cached [simp]: "KexMsg_copy (snd (KexMsg_ByteSizeLong L m)) = KexMsg_copy m"
  by (simp add: KexMsg_copy_def)

lemma KexMsg_merge_cached [simp]:
  "KexMsg_MergeFrom k (snd (KexMsg_ByteSizeLong L m)) = KexMsg_MergeFrom k m"
  by (simp add: KexMsg_MergeFrom_def Let_def)

context wire_runtime
begin

lemma KexMsg_pkey_le: "length (km_pkey m) \<le> fst (KexMsg_ByteSizeLong L m)"
  using size_bytes [of "km_pkey m"] by (simp add: KexMsg_ByteSizeLong_def Let_def)

lemma KexMsg_length:
  assumes "fst (KexMsg_ByteSizeLong L m) \<le> wire_max"
  shows "length (KexMsg_InternalSerialize L m []) = fst (KexMsg_ByteSizeLong L m)"
proof -
  have "length (km_pkey m) \<le> wire_max"
    using KexMsg_pkey_le [of m] assms by simp
  then show ?thesis
    by (simp add: KexMsg_InternalSerialize_def KexMsg_ByteSizeLong_def Let_def wire_length)
qed

lemma KexMsg_parse_serialize:
  assumes "fst (KexMsg_ByteSizeLong L m) \<le> wire_max" "km_unknown m = []"
  shows "KexMsg_InternalParse L (KexMsg_InternalSerialize L m []) m0 = (True, KexMsg_MergeFrom m0 m)"
proof -
  have le: "length (km_pkey m) \<le> wire_max"
    using KexMsg_pkey_le [of m] assms(1) by simp
  have k: "kind_of KexMsg_table 1 = Some OpenEnum" "kind_of KexMsg_table 2 = Some BytesField"
    by (simp_all add: kind_of_def KexMsg_table_def)
  note enum = parse_enum [of 1 KexMsg_table "km_alg m" "[]"] parse_enum [of 1 KexMsg_table "km_alg m"]
  note bytes = parse_bytes [of 2 KexMsg_table "km_pkey m" "[]"]
  show ?thesis
    using assms(2) le k enum bytes
    by (simp add: KexMsg_InternalParse_def KexMsg_InternalSerialize_def KexMsg_MergeFrom_def
        KexMsg_internal_set_pkey_def KexMsg_store_def parse_Nil Let_def)
qed

end

end
