(* ===== verification/PbConnected.thy ===== *)
theory PbConnected
  imports PbKex
begin

text \<open>
  The two messages of the connected state, \<open>ClientConnectedStateRequest\<close> and
  \<open>ServerConnectedStateResponse\<close> (\<open>pcomserver.pb.cc\<close>, \<open>pcomserver.pb.h\<close>).
  
  A submessage pointer is an \<open>option\<close>; the pointer handed out by a \<open>mutable_\<close> accessor is
  modelled by the change its caller makes through it. Messages live on the heap (no arena). A call
  with one object in both roles (\<open>CopyFrom(*this)\<close>, \<open>Swap(this)\<close>) returns at once in the code;
  the two-object operations below are for distinct objects.
\<close>

text \<open>The values of \<open>ClientConnectedStateRequest_RequestType\<close>; a field of this type holds any \<open>int\<close>.\<close>

definition ClientConnectedStateRequest_RequestType_UNKNOWN :: i32 where
  [simp]: "ClientConnectedStateRequest_RequestType_UNKNOWN = 0"

definition ClientConnectedStateRequest_RequestType_REQUEST_KEX :: i32 where
  [simp]: "ClientConnectedStateRequest_RequestType_REQUEST_KEX = 1"

definition ClientConnectedStateRequest_RequestType_REQUEST_AUTH :: i32 where
  [simp]: "ClientConnectedStateRequest_RequestType_REQUEST_AUTH = 2"

definition ClientConnectedStateRequest_RequestType_IsValid :: "int \<Rightarrow> bool" where
  "ClientConnectedStateRequest_RequestType_IsValid v \<longleftrightarrow>
     0 \<le> v \<and> v \<le> 2"

definition ClientConnectedStateRequest_RequestType_names :: "string" where
  "ClientConnectedStateRequest_RequestType_names = ''REQUEST_AUTH'' @ ''REQUEST_KEX'' @ ''UNKNOWN''"

definition ClientConnectedStateRequest_RequestType_entries :: "(string \<times> int) list" where
  "ClientConnectedStateRequest_RequestType_entries =
     [(take 12 (drop 0 ClientConnectedStateRequest_RequestType_names), 2),
      (take 11 (drop 12 ClientConnectedStateRequest_RequestType_names), 1),
      (take 7 (drop 23 ClientConnectedStateRequest_RequestType_names), 0)]"

definition ClientConnectedStateRequest_RequestType_entries_by_number :: "nat list" where
  "ClientConnectedStateRequest_RequestType_entries_by_number = [2, 1, 0]"

definition ClientConnectedStateRequest_RequestType_Name ::
    "wire_lib \<Rightarrow> i32 \<Rightarrow> string" where
  "ClientConnectedStateRequest_RequestType_Name L value =
     (let strings = InitializeEnumStrings L ClientConnectedStateRequest_RequestType_entries
            ClientConnectedStateRequest_RequestType_entries_by_number 3;
          idx = LookUpEnumName L ClientConnectedStateRequest_RequestType_entries
            ClientConnectedStateRequest_RequestType_entries_by_number 3 (sint value)
      in if idx = - 1 then [] else strings ! nat idx)"

definition ClientConnectedStateRequest_RequestType_Parse ::
    "wire_lib \<Rightarrow> string \<Rightarrow> i32 option" where
  "ClientConnectedStateRequest_RequestType_Parse L name =
     map_option word_of_int (LookUpEnumValue L ClientConnectedStateRequest_RequestType_entries 3 name)"

section \<open>ClientConnectedStateRequest\<close>

record ClientConnectedStateRequest =
  cc_has_bits :: i32
  cc_cached_size :: i32
  cc_type :: i32
  cc_kex :: "KexMsg option"
  cc_unknown :: bytes

definition ClientConnectedStateRequest_default_instance :: "ClientConnectedStateRequest" where
  "ClientConnectedStateRequest_default_instance =
     \<lparr>cc_has_bits = 0, cc_cached_size = 0, cc_type = 0, cc_kex = None, cc_unknown = []\<rparr>"

definition ClientConnectedStateRequest_new :: "ClientConnectedStateRequest" where
  "ClientConnectedStateRequest_new =
     \<lparr>cc_has_bits = 0, cc_cached_size = 0, cc_type = 0, cc_kex = None, cc_unknown = []\<rparr>"

definition ClientConnectedStateRequest_copy ::
    "ClientConnectedStateRequest \<Rightarrow> ClientConnectedStateRequest" where
  "ClientConnectedStateRequest_copy from =
     \<lparr>cc_has_bits = cc_has_bits from,
      cc_cached_size = 0,
      cc_type = cc_type from,
      cc_kex = (if cc_has_bits from AND 1 \<noteq> 0 then map_option KexMsg_copy (cc_kex from) else None),
      cc_unknown = cc_unknown from\<rparr>"

definition ClientConnectedStateRequest_Clear ::
    "ClientConnectedStateRequest \<Rightarrow> ClientConnectedStateRequest" where
  "ClientConnectedStateRequest_Clear m =
     (let bits = cc_has_bits m;
          m = (if bits AND 1 \<noteq> 0 then m\<lparr>cc_kex := map_option KexMsg_Clear (cc_kex m)\<rparr> else m)
      in m\<lparr>cc_type := 0, cc_has_bits := 0, cc_unknown := []\<rparr>)"

definition ClientConnectedStateRequest_table :: "parse_table" where
  "ClientConnectedStateRequest_table =
     [\<lparr>te_number = 1, te_hasbit = None, te_kind = OpenEnum\<rparr>,
      \<lparr>te_number = 2, te_hasbit = Some 0, te_kind = Submessage\<rparr>]"

definition ClientConnectedStateRequest_store ::
    "wire_lib \<Rightarrow> wire_event \<Rightarrow> ClientConnectedStateRequest \<Rightarrow> bool \<times> ClientConnectedStateRequest" where
  "ClientConnectedStateRequest_store L e m =
     (case e of
        EvEnum n v \<Rightarrow> (True, if n = 1 then m\<lparr>cc_type := v\<rparr> else m)
      | EvBytes n s \<Rightarrow> (True, m)
      | EvMessage n s \<Rightarrow>
         if n \<noteq> 2 then (True, m)
         else let k = (case cc_kex m of None \<Rightarrow> KexMsg_new | Some k \<Rightarrow> k);
                  (ok, k) = KexMsg_InternalParse L s k
              in (ok, m\<lparr>cc_kex := Some k, cc_has_bits := cc_has_bits m OR 1\<rparr>)
      | EvUnknown raw \<Rightarrow> (True, m\<lparr>cc_unknown := cc_unknown m @ raw\<rparr>))"

definition ClientConnectedStateRequest_InternalParse ::
    "wire_lib \<Rightarrow> bytes \<Rightarrow> ClientConnectedStateRequest \<Rightarrow> bool \<times> ClientConnectedStateRequest" where
  "ClientConnectedStateRequest_InternalParse L bs m =
     run_events (ClientConnectedStateRequest_store L) (ParseLoop L ClientConnectedStateRequest_table bs) m"

definition ClientConnectedStateRequest_GetCachedSize ::
    "ClientConnectedStateRequest \<Rightarrow> int" where
  "ClientConnectedStateRequest_GetCachedSize m = sint (cc_cached_size m)"

definition ClientConnectedStateRequest_InternalSerialize ::
    "wire_lib \<Rightarrow> ClientConnectedStateRequest \<Rightarrow> bytes \<Rightarrow> bytes" where
  "ClientConnectedStateRequest_InternalSerialize L m target =
     (let target = (if cc_type m \<noteq> 0 then target @ WriteEnumToArray L 1 (cc_type m) else target);
          target = (if cc_has_bits m AND 1 \<noteq> 0 then
             (case cc_kex m of None \<Rightarrow> target
              | Some k \<Rightarrow> KexMsg_InternalSerialize L k
                  (target @ WriteMessageHead L 2 (word_of_int (KexMsg_GetCachedSize k))))
           else target)
      in target @ cc_unknown m)"

definition ClientConnectedStateRequest_ByteSizeLong ::
    "wire_lib \<Rightarrow> ClientConnectedStateRequest \<Rightarrow> nat \<times> ClientConnectedStateRequest" where
  "ClientConnectedStateRequest_ByteSizeLong L m =
     (let total = 0;
          (total, m) = (if cc_has_bits m AND 1 \<noteq> 0 then
             (case cc_kex m of None \<Rightarrow> (total, m)
              | Some k \<Rightarrow> (let (n, k) = KexMsg_ByteSizeLong L k
                  in (total + 1 + LengthDelimitedSize L n, m\<lparr>cc_kex := Some k\<rparr>)))
           else (total, m));
          total = (if cc_type m \<noteq> 0 then total + 1 + EnumSize L (cc_type m) else total);
          total = total + length (cc_unknown m)
      in (total, m\<lparr>cc_cached_size := ToCachedSize total\<rparr>))"

definition ClientConnectedStateRequest_clear_type ::
    "ClientConnectedStateRequest \<Rightarrow> ClientConnectedStateRequest" where
  "ClientConnectedStateRequest_clear_type m = m\<lparr>cc_type := 0\<rparr>"

definition ClientConnectedStateRequest_internal_type ::
    "ClientConnectedStateRequest \<Rightarrow> i32" where
  "ClientConnectedStateRequest_internal_type m = cc_type m"

definition ClientConnectedStateRequest_internal_set_type ::
    "i32 \<Rightarrow> ClientConnectedStateRequest \<Rightarrow> ClientConnectedStateRequest" where
  "ClientConnectedStateRequest_internal_set_type v m = m\<lparr>cc_type := v\<rparr>"

definition ClientConnectedStateRequest_type :: "ClientConnectedStateRequest \<Rightarrow> i32" where
  "ClientConnectedStateRequest_type m = ClientConnectedStateRequest_internal_type m"

definition ClientConnectedStateRequest_set_type ::
    "i32 \<Rightarrow> ClientConnectedStateRequest \<Rightarrow> ClientConnectedStateRequest" where
  "ClientConnectedStateRequest_set_type v m = ClientConnectedStateRequest_internal_set_type v m"

definition ClientConnectedStateRequest_has_kex ::
    "ClientConnectedStateRequest \<Rightarrow> bool" where
  "ClientConnectedStateRequest_has_kex m \<longleftrightarrow> cc_has_bits m AND 1 \<noteq> 0"

definition ClientConnectedStateRequest_clear_kex ::
    "ClientConnectedStateRequest \<Rightarrow> ClientConnectedStateRequest" where
  "ClientConnectedStateRequest_clear_kex m =
     m\<lparr>cc_kex := map_option KexMsg_Clear (cc_kex m), cc_has_bits := cc_has_bits m AND NOT 1\<rparr>"

definition ClientConnectedStateRequest_internal_kex ::
    "ClientConnectedStateRequest \<Rightarrow> KexMsg" where
  "ClientConnectedStateRequest_internal_kex m =
     (case cc_kex m of None \<Rightarrow> KexMsg_default_instance | Some k \<Rightarrow> k)"

definition ClientConnectedStateRequest_kex ::
    "ClientConnectedStateRequest \<Rightarrow> KexMsg" where
  "ClientConnectedStateRequest_kex m = ClientConnectedStateRequest_internal_kex m"

definition ClientConnectedStateRequest_unsafe_arena_set_allocated_kex ::
    "KexMsg option \<Rightarrow> ClientConnectedStateRequest \<Rightarrow> ClientConnectedStateRequest" where
  "ClientConnectedStateRequest_unsafe_arena_set_allocated_kex value m =
     m\<lparr>cc_kex := value, cc_has_bits := (if value \<noteq> None then cc_has_bits m OR 1 else cc_has_bits m AND NOT 1)\<rparr>"

definition ClientConnectedStateRequest_release_kex ::
    "ClientConnectedStateRequest \<Rightarrow> KexMsg option \<times> ClientConnectedStateRequest" where
  "ClientConnectedStateRequest_release_kex m =
     (cc_kex m, m\<lparr>cc_has_bits := cc_has_bits m AND NOT 1, cc_kex := None\<rparr>)"

definition ClientConnectedStateRequest_unsafe_arena_release_kex ::
    "ClientConnectedStateRequest \<Rightarrow> KexMsg option \<times> ClientConnectedStateRequest" where
  "ClientConnectedStateRequest_unsafe_arena_release_kex m =
     (cc_kex m, m\<lparr>cc_has_bits := cc_has_bits m AND NOT 1, cc_kex := None\<rparr>)"

definition ClientConnectedStateRequest_internal_mutable_kex ::
    "(KexMsg \<Rightarrow> KexMsg) \<Rightarrow> ClientConnectedStateRequest \<Rightarrow> ClientConnectedStateRequest" where
  "ClientConnectedStateRequest_internal_mutable_kex f m =
     m\<lparr>cc_kex := Some (f (case cc_kex m of None \<Rightarrow> KexMsg_new | Some k \<Rightarrow> k))\<rparr>"

definition ClientConnectedStateRequest_mutable_kex ::
    "(KexMsg \<Rightarrow> KexMsg) \<Rightarrow> ClientConnectedStateRequest \<Rightarrow> ClientConnectedStateRequest" where
  "ClientConnectedStateRequest_mutable_kex f m =
     ClientConnectedStateRequest_internal_mutable_kex f (m\<lparr>cc_has_bits := cc_has_bits m OR 1\<rparr>)"

definition ClientConnectedStateRequest_set_allocated_kex ::
    "KexMsg option \<Rightarrow> ClientConnectedStateRequest \<Rightarrow> ClientConnectedStateRequest" where
  "ClientConnectedStateRequest_set_allocated_kex value m =
     m\<lparr>cc_has_bits := (if value \<noteq> None then cc_has_bits m OR 1 else cc_has_bits m AND NOT 1), cc_kex := value\<rparr>"

definition ClientConnectedStateRequest_MergeFrom ::
    "ClientConnectedStateRequest \<Rightarrow> ClientConnectedStateRequest \<Rightarrow> ClientConnectedStateRequest" where
  "ClientConnectedStateRequest_MergeFrom m from =
     (let m = (if cc_has_bits from AND 1 \<noteq> 0 then (case cc_kex from of None \<Rightarrow> m
              | Some k \<Rightarrow> m\<lparr>cc_kex := Some (case cc_kex m of None \<Rightarrow> KexMsg_copy k
                  | Some k' \<Rightarrow> KexMsg_MergeFrom k' k)\<rparr>) else m);
          m = (if cc_type from \<noteq> 0 then m\<lparr>cc_type := cc_type from\<rparr> else m);
          m = m\<lparr>cc_has_bits := cc_has_bits m OR cc_has_bits from\<rparr>
      in m\<lparr>cc_unknown := cc_unknown m @ cc_unknown from\<rparr>)"

definition ClientConnectedStateRequest_CheckTypeAndMergeFrom ::
    "ClientConnectedStateRequest \<Rightarrow> ClientConnectedStateRequest \<Rightarrow> ClientConnectedStateRequest" where
  "ClientConnectedStateRequest_CheckTypeAndMergeFrom m from =
     ClientConnectedStateRequest_MergeFrom m from"

definition ClientConnectedStateRequest_CopyFrom ::
    "ClientConnectedStateRequest \<Rightarrow> ClientConnectedStateRequest \<Rightarrow> ClientConnectedStateRequest" where
  "ClientConnectedStateRequest_CopyFrom m from =
     ClientConnectedStateRequest_MergeFrom (ClientConnectedStateRequest_Clear m) from"

definition ClientConnectedStateRequest_IsInitialized ::
    "ClientConnectedStateRequest \<Rightarrow> bool" where
  "ClientConnectedStateRequest_IsInitialized m \<longleftrightarrow> True"

definition ClientConnectedStateRequest_InternalSwap ::
    "ClientConnectedStateRequest \<Rightarrow> ClientConnectedStateRequest \<Rightarrow> ClientConnectedStateRequest \<times> ClientConnectedStateRequest" where
  "ClientConnectedStateRequest_InternalSwap this other =
     (this\<lparr>cc_has_bits := cc_has_bits other, cc_type := cc_type other, cc_kex := cc_kex other, cc_unknown := cc_unknown other\<rparr>,
      other\<lparr>cc_has_bits := cc_has_bits this, cc_type := cc_type this, cc_kex := cc_kex this, cc_unknown := cc_unknown this\<rparr>)"

definition ClientConnectedStateRequest_assign ::
    "ClientConnectedStateRequest \<Rightarrow> ClientConnectedStateRequest \<Rightarrow> ClientConnectedStateRequest" where
  "ClientConnectedStateRequest_assign m from = ClientConnectedStateRequest_CopyFrom m from"

definition ClientConnectedStateRequest_assign_move ::
    "ClientConnectedStateRequest \<Rightarrow> ClientConnectedStateRequest \<Rightarrow> ClientConnectedStateRequest \<times> ClientConnectedStateRequest" where
  "ClientConnectedStateRequest_assign_move m from = ClientConnectedStateRequest_InternalSwap m from"

definition ClientConnectedStateRequest_move ::
    "ClientConnectedStateRequest \<Rightarrow> ClientConnectedStateRequest \<times> ClientConnectedStateRequest" where
  "ClientConnectedStateRequest_move from =
     ClientConnectedStateRequest_assign_move ClientConnectedStateRequest_new from"

definition ClientConnectedStateRequest_Swap ::
    "ClientConnectedStateRequest \<Rightarrow> ClientConnectedStateRequest \<Rightarrow> ClientConnectedStateRequest \<times> ClientConnectedStateRequest" where
  "ClientConnectedStateRequest_Swap this other =
     ClientConnectedStateRequest_InternalSwap this other"

definition ClientConnectedStateRequest_UnsafeArenaSwap ::
    "ClientConnectedStateRequest \<Rightarrow> ClientConnectedStateRequest \<Rightarrow> ClientConnectedStateRequest \<times> ClientConnectedStateRequest" where
  "ClientConnectedStateRequest_UnsafeArenaSwap this other =
     ClientConnectedStateRequest_InternalSwap this other"

definition ClientConnectedStateRequest_unknown_fields ::
    "ClientConnectedStateRequest \<Rightarrow> bytes" where
  "ClientConnectedStateRequest_unknown_fields m = cc_unknown m"

definition ClientConnectedStateRequest_mutable_unknown_fields ::
    "(bytes \<Rightarrow> bytes) \<Rightarrow> ClientConnectedStateRequest \<Rightarrow> ClientConnectedStateRequest" where
  "ClientConnectedStateRequest_mutable_unknown_fields f m =
     m\<lparr>cc_unknown := f (cc_unknown m)\<rparr>"

text \<open>The values of \<open>ServerConnectedStateResponse_ResponseStatus\<close>; a field of this type holds any \<open>int\<close>.\<close>

definition ServerConnectedStateResponse_ResponseStatus_UNKNOWN :: i32 where
  [simp]: "ServerConnectedStateResponse_ResponseStatus_UNKNOWN = 0"

definition ServerConnectedStateResponse_ResponseStatus_OK :: i32 where
  [simp]: "ServerConnectedStateResponse_ResponseStatus_OK = 1"

definition ServerConnectedStateResponse_ResponseStatus_INVALID_REQUEST :: i32 where
  [simp]: "ServerConnectedStateResponse_ResponseStatus_INVALID_REQUEST = 2"

definition ServerConnectedStateResponse_ResponseStatus_REQUEST_ERROR :: i32 where
  [simp]: "ServerConnectedStateResponse_ResponseStatus_REQUEST_ERROR = 3"

definition ServerConnectedStateResponse_ResponseStatus_DECODE_ERROR :: i32 where
  [simp]: "ServerConnectedStateResponse_ResponseStatus_DECODE_ERROR = 4"

definition ServerConnectedStateResponse_ResponseStatus_AUTH_REQUIRED :: i32 where
  [simp]: "ServerConnectedStateResponse_ResponseStatus_AUTH_REQUIRED = 5"

definition ServerConnectedStateResponse_ResponseStatus_IsValid :: "int \<Rightarrow> bool" where
  "ServerConnectedStateResponse_ResponseStatus_IsValid v \<longleftrightarrow>
     0 \<le> v \<and> v \<le> 5"

definition ServerConnectedStateResponse_ResponseStatus_names :: "string" where
  "ServerConnectedStateResponse_ResponseStatus_names =
     ''AUTH_REQUIRED'' @ ''DECODE_ERROR'' @ ''INVALID_REQUEST'' @ ''OK'' @ ''REQUEST_ERROR'' @ ''UNKNOWN''"

definition ServerConnectedStateResponse_ResponseStatus_entries :: "(string \<times> int) list" where
  "ServerConnectedStateResponse_ResponseStatus_entries =
     [(take 13 (drop 0 ServerConnectedStateResponse_ResponseStatus_names), 5),
      (take 12 (drop 13 ServerConnectedStateResponse_ResponseStatus_names), 4),
      (take 15 (drop 25 ServerConnectedStateResponse_ResponseStatus_names), 2),
      (take 2 (drop 40 ServerConnectedStateResponse_ResponseStatus_names), 1),
      (take 13 (drop 42 ServerConnectedStateResponse_ResponseStatus_names), 3),
      (take 7 (drop 55 ServerConnectedStateResponse_ResponseStatus_names), 0)]"

definition ServerConnectedStateResponse_ResponseStatus_entries_by_number :: "nat list" where
  "ServerConnectedStateResponse_ResponseStatus_entries_by_number = [5, 3, 2, 4, 1, 0]"

definition ServerConnectedStateResponse_ResponseStatus_Name ::
    "wire_lib \<Rightarrow> i32 \<Rightarrow> string" where
  "ServerConnectedStateResponse_ResponseStatus_Name L value =
     (let strings = InitializeEnumStrings L ServerConnectedStateResponse_ResponseStatus_entries
            ServerConnectedStateResponse_ResponseStatus_entries_by_number 6;
          idx = LookUpEnumName L ServerConnectedStateResponse_ResponseStatus_entries
            ServerConnectedStateResponse_ResponseStatus_entries_by_number 6 (sint value)
      in if idx = - 1 then [] else strings ! nat idx)"

definition ServerConnectedStateResponse_ResponseStatus_Parse ::
    "wire_lib \<Rightarrow> string \<Rightarrow> i32 option" where
  "ServerConnectedStateResponse_ResponseStatus_Parse L name =
     map_option word_of_int (LookUpEnumValue L ServerConnectedStateResponse_ResponseStatus_entries 6 name)"

section \<open>ServerConnectedStateResponse\<close>

record ServerConnectedStateResponse =
  sc_has_bits :: i32
  sc_cached_size :: i32
  sc_status :: i32
  sc_kex :: "KexMsg option"
  sc_iv :: bytes
  sc_unknown :: bytes

definition ServerConnectedStateResponse_default_instance :: "ServerConnectedStateResponse" where
  "ServerConnectedStateResponse_default_instance =
     \<lparr>sc_has_bits = 0, sc_cached_size = 0, sc_status = 0, sc_kex = None, sc_iv = [], sc_unknown = []\<rparr>"

definition ServerConnectedStateResponse_new :: "ServerConnectedStateResponse" where
  "ServerConnectedStateResponse_new =
     \<lparr>sc_has_bits = 0, sc_cached_size = 0, sc_status = 0, sc_kex = None, sc_iv = [], sc_unknown = []\<rparr>"

definition ServerConnectedStateResponse_copy ::
    "ServerConnectedStateResponse \<Rightarrow> ServerConnectedStateResponse" where
  "ServerConnectedStateResponse_copy from =
     \<lparr>sc_has_bits = sc_has_bits from,
      sc_cached_size = 0,
      sc_status = sc_status from,
      sc_kex = (if sc_has_bits from AND 2 \<noteq> 0 then map_option KexMsg_copy (sc_kex from) else None),
      sc_iv = sc_iv from,
      sc_unknown = sc_unknown from\<rparr>"

definition ServerConnectedStateResponse_Clear ::
    "ServerConnectedStateResponse \<Rightarrow> ServerConnectedStateResponse" where
  "ServerConnectedStateResponse_Clear m =
     (let bits = sc_has_bits m;
          m = (if bits AND 1 \<noteq> 0 then m\<lparr>sc_iv := []\<rparr> else m);
          m = (if bits AND 2 \<noteq> 0 then m\<lparr>sc_kex := map_option KexMsg_Clear (sc_kex m)\<rparr> else m)
      in m\<lparr>sc_status := 0, sc_has_bits := 0, sc_unknown := []\<rparr>)"

definition ServerConnectedStateResponse_table :: "parse_table" where
  "ServerConnectedStateResponse_table =
     [\<lparr>te_number = 1, te_hasbit = None, te_kind = OpenEnum\<rparr>,
      \<lparr>te_number = 2, te_hasbit = Some 1, te_kind = Submessage\<rparr>,
      \<lparr>te_number = 3, te_hasbit = Some 0, te_kind = BytesField\<rparr>]"

definition ServerConnectedStateResponse_store ::
    "wire_lib \<Rightarrow> wire_event \<Rightarrow> ServerConnectedStateResponse \<Rightarrow> bool \<times> ServerConnectedStateResponse" where
  "ServerConnectedStateResponse_store L e m =
     (case e of
        EvEnum n v \<Rightarrow> (True, if n = 1 then m\<lparr>sc_status := v\<rparr> else m)
      | EvBytes n s \<Rightarrow> (True, if n = 3 then m\<lparr>sc_iv := s, sc_has_bits := sc_has_bits m OR 1\<rparr> else m)
      | EvMessage n s \<Rightarrow>
         if n \<noteq> 2 then (True, m)
         else let k = (case sc_kex m of None \<Rightarrow> KexMsg_new | Some k \<Rightarrow> k);
                  (ok, k) = KexMsg_InternalParse L s k
              in (ok, m\<lparr>sc_kex := Some k, sc_has_bits := sc_has_bits m OR 2\<rparr>)
      | EvUnknown raw \<Rightarrow> (True, m\<lparr>sc_unknown := sc_unknown m @ raw\<rparr>))"

definition ServerConnectedStateResponse_InternalParse ::
    "wire_lib \<Rightarrow> bytes \<Rightarrow> ServerConnectedStateResponse \<Rightarrow> bool \<times> ServerConnectedStateResponse" where
  "ServerConnectedStateResponse_InternalParse L bs m =
     run_events (ServerConnectedStateResponse_store L) (ParseLoop L ServerConnectedStateResponse_table bs) m"

definition ServerConnectedStateResponse_GetCachedSize ::
    "ServerConnectedStateResponse \<Rightarrow> int" where
  "ServerConnectedStateResponse_GetCachedSize m = sint (sc_cached_size m)"

definition ServerConnectedStateResponse_InternalSerialize ::
    "wire_lib \<Rightarrow> ServerConnectedStateResponse \<Rightarrow> bytes \<Rightarrow> bytes" where
  "ServerConnectedStateResponse_InternalSerialize L m target =
     (let target = (if sc_status m \<noteq> 0 then target @ WriteEnumToArray L 1 (sc_status m) else target);
          target = (if sc_has_bits m AND 2 \<noteq> 0 then
             (case sc_kex m of None \<Rightarrow> target
              | Some k \<Rightarrow> KexMsg_InternalSerialize L k
                  (target @ WriteMessageHead L 2 (word_of_int (KexMsg_GetCachedSize k))))
           else target);
          target = (if sc_has_bits m AND 1 \<noteq> 0 then target @ WriteBytesMaybeAliased L 3 (sc_iv m) else target)
      in target @ sc_unknown m)"

definition ServerConnectedStateResponse_ByteSizeLong ::
    "wire_lib \<Rightarrow> ServerConnectedStateResponse \<Rightarrow> nat \<times> ServerConnectedStateResponse" where
  "ServerConnectedStateResponse_ByteSizeLong L m =
     (let total = 0;
          total = (if sc_has_bits m AND 1 \<noteq> 0 then total + 1 + BytesSize L (sc_iv m) else total);
          (total, m) = (if sc_has_bits m AND 2 \<noteq> 0 then
             (case sc_kex m of None \<Rightarrow> (total, m)
              | Some k \<Rightarrow> (let (n, k) = KexMsg_ByteSizeLong L k
                  in (total + 1 + LengthDelimitedSize L n, m\<lparr>sc_kex := Some k\<rparr>)))
           else (total, m));
          total = (if sc_status m \<noteq> 0 then total + 1 + EnumSize L (sc_status m) else total);
          total = total + length (sc_unknown m)
      in (total, m\<lparr>sc_cached_size := ToCachedSize total\<rparr>))"

definition ServerConnectedStateResponse_clear_status ::
    "ServerConnectedStateResponse \<Rightarrow> ServerConnectedStateResponse" where
  "ServerConnectedStateResponse_clear_status m = m\<lparr>sc_status := 0\<rparr>"

definition ServerConnectedStateResponse_internal_status ::
    "ServerConnectedStateResponse \<Rightarrow> i32" where
  "ServerConnectedStateResponse_internal_status m = sc_status m"

definition ServerConnectedStateResponse_internal_set_status ::
    "i32 \<Rightarrow> ServerConnectedStateResponse \<Rightarrow> ServerConnectedStateResponse" where
  "ServerConnectedStateResponse_internal_set_status v m = m\<lparr>sc_status := v\<rparr>"

definition ServerConnectedStateResponse_status ::
    "ServerConnectedStateResponse \<Rightarrow> i32" where
  "ServerConnectedStateResponse_status m = ServerConnectedStateResponse_internal_status m"

definition ServerConnectedStateResponse_set_status ::
    "i32 \<Rightarrow> ServerConnectedStateResponse \<Rightarrow> ServerConnectedStateResponse" where
  "ServerConnectedStateResponse_set_status v m =
     ServerConnectedStateResponse_internal_set_status v m"

definition ServerConnectedStateResponse_has_kex ::
    "ServerConnectedStateResponse \<Rightarrow> bool" where
  "ServerConnectedStateResponse_has_kex m \<longleftrightarrow> sc_has_bits m AND 2 \<noteq> 0"

definition ServerConnectedStateResponse_clear_kex ::
    "ServerConnectedStateResponse \<Rightarrow> ServerConnectedStateResponse" where
  "ServerConnectedStateResponse_clear_kex m =
     m\<lparr>sc_kex := map_option KexMsg_Clear (sc_kex m), sc_has_bits := sc_has_bits m AND NOT 2\<rparr>"

definition ServerConnectedStateResponse_internal_kex ::
    "ServerConnectedStateResponse \<Rightarrow> KexMsg" where
  "ServerConnectedStateResponse_internal_kex m =
     (case sc_kex m of None \<Rightarrow> KexMsg_default_instance | Some k \<Rightarrow> k)"

definition ServerConnectedStateResponse_kex ::
    "ServerConnectedStateResponse \<Rightarrow> KexMsg" where
  "ServerConnectedStateResponse_kex m = ServerConnectedStateResponse_internal_kex m"

definition ServerConnectedStateResponse_unsafe_arena_set_allocated_kex ::
    "KexMsg option \<Rightarrow> ServerConnectedStateResponse \<Rightarrow> ServerConnectedStateResponse" where
  "ServerConnectedStateResponse_unsafe_arena_set_allocated_kex value m =
     m\<lparr>sc_kex := value, sc_has_bits := (if value \<noteq> None then sc_has_bits m OR 2 else sc_has_bits m AND NOT 2)\<rparr>"

definition ServerConnectedStateResponse_release_kex ::
    "ServerConnectedStateResponse \<Rightarrow> KexMsg option \<times> ServerConnectedStateResponse" where
  "ServerConnectedStateResponse_release_kex m =
     (sc_kex m, m\<lparr>sc_has_bits := sc_has_bits m AND NOT 2, sc_kex := None\<rparr>)"

definition ServerConnectedStateResponse_unsafe_arena_release_kex ::
    "ServerConnectedStateResponse \<Rightarrow> KexMsg option \<times> ServerConnectedStateResponse" where
  "ServerConnectedStateResponse_unsafe_arena_release_kex m =
     (sc_kex m, m\<lparr>sc_has_bits := sc_has_bits m AND NOT 2, sc_kex := None\<rparr>)"

definition ServerConnectedStateResponse_internal_mutable_kex ::
    "(KexMsg \<Rightarrow> KexMsg) \<Rightarrow> ServerConnectedStateResponse \<Rightarrow> ServerConnectedStateResponse" where
  "ServerConnectedStateResponse_internal_mutable_kex f m =
     m\<lparr>sc_kex := Some (f (case sc_kex m of None \<Rightarrow> KexMsg_new | Some k \<Rightarrow> k))\<rparr>"

definition ServerConnectedStateResponse_mutable_kex ::
    "(KexMsg \<Rightarrow> KexMsg) \<Rightarrow> ServerConnectedStateResponse \<Rightarrow> ServerConnectedStateResponse" where
  "ServerConnectedStateResponse_mutable_kex f m =
     ServerConnectedStateResponse_internal_mutable_kex f (m\<lparr>sc_has_bits := sc_has_bits m OR 2\<rparr>)"

definition ServerConnectedStateResponse_set_allocated_kex ::
    "KexMsg option \<Rightarrow> ServerConnectedStateResponse \<Rightarrow> ServerConnectedStateResponse" where
  "ServerConnectedStateResponse_set_allocated_kex value m =
     m\<lparr>sc_has_bits := (if value \<noteq> None then sc_has_bits m OR 2 else sc_has_bits m AND NOT 2), sc_kex := value\<rparr>"

definition ServerConnectedStateResponse_has_iv ::
    "ServerConnectedStateResponse \<Rightarrow> bool" where
  "ServerConnectedStateResponse_has_iv m \<longleftrightarrow> sc_has_bits m AND 1 \<noteq> 0"

definition ServerConnectedStateResponse_clear_iv ::
    "ServerConnectedStateResponse \<Rightarrow> ServerConnectedStateResponse" where
  "ServerConnectedStateResponse_clear_iv m =
     m\<lparr>sc_iv := [], sc_has_bits := sc_has_bits m AND NOT 1\<rparr>"

definition ServerConnectedStateResponse_internal_iv ::
    "ServerConnectedStateResponse \<Rightarrow> bytes" where
  "ServerConnectedStateResponse_internal_iv m = sc_iv m"

definition ServerConnectedStateResponse_internal_set_iv ::
    "bytes \<Rightarrow> ServerConnectedStateResponse \<Rightarrow> ServerConnectedStateResponse" where
  "ServerConnectedStateResponse_internal_set_iv v m =
     m\<lparr>sc_has_bits := sc_has_bits m OR 1, sc_iv := v\<rparr>"

definition ServerConnectedStateResponse_internal_mutable_iv ::
    "(bytes \<Rightarrow> bytes) \<Rightarrow> ServerConnectedStateResponse \<Rightarrow> ServerConnectedStateResponse" where
  "ServerConnectedStateResponse_internal_mutable_iv f m =
     m\<lparr>sc_has_bits := sc_has_bits m OR 1, sc_iv := f (sc_iv m)\<rparr>"

definition ServerConnectedStateResponse_iv ::
    "ServerConnectedStateResponse \<Rightarrow> bytes" where
  "ServerConnectedStateResponse_iv m = ServerConnectedStateResponse_internal_iv m"

definition ServerConnectedStateResponse_set_iv ::
    "bytes \<Rightarrow> ServerConnectedStateResponse \<Rightarrow> ServerConnectedStateResponse" where
  "ServerConnectedStateResponse_set_iv v m =
     m\<lparr>sc_has_bits := sc_has_bits m OR 1, sc_iv := v\<rparr>"

definition ServerConnectedStateResponse_mutable_iv ::
    "(bytes \<Rightarrow> bytes) \<Rightarrow> ServerConnectedStateResponse \<Rightarrow> ServerConnectedStateResponse" where
  "ServerConnectedStateResponse_mutable_iv f m =
     ServerConnectedStateResponse_internal_mutable_iv f m"

definition ServerConnectedStateResponse_release_iv :: "ServerConnectedStateResponse \<Rightarrow> bytes option \<times> ServerConnectedStateResponse" where
  "ServerConnectedStateResponse_release_iv m =
     (if sc_has_bits m AND 1 = 0 then (None, m)
      else (Some (sc_iv m), m\<lparr>sc_has_bits := sc_has_bits m AND NOT 1, sc_iv := []\<rparr>))"

definition ServerConnectedStateResponse_set_allocated_iv :: "bytes option \<Rightarrow> ServerConnectedStateResponse \<Rightarrow> ServerConnectedStateResponse" where
  "ServerConnectedStateResponse_set_allocated_iv value m =
     m\<lparr>sc_has_bits := (if value \<noteq> None then sc_has_bits m OR 1 else sc_has_bits m AND NOT 1),
       sc_iv := (case value of None \<Rightarrow> [] | Some v \<Rightarrow> v)\<rparr>"

definition ServerConnectedStateResponse_MergeFrom ::
    "ServerConnectedStateResponse \<Rightarrow> ServerConnectedStateResponse \<Rightarrow> ServerConnectedStateResponse" where
  "ServerConnectedStateResponse_MergeFrom m from =
     (let m = (if sc_has_bits from AND 1 \<noteq> 0 then ServerConnectedStateResponse_internal_set_iv (sc_iv from) m else m);
          m = (if sc_has_bits from AND 2 \<noteq> 0 then (case sc_kex from of None \<Rightarrow> m
              | Some k \<Rightarrow> m\<lparr>sc_kex := Some (case sc_kex m of None \<Rightarrow> KexMsg_copy k
                  | Some k' \<Rightarrow> KexMsg_MergeFrom k' k)\<rparr>) else m);
          m = (if sc_status from \<noteq> 0 then m\<lparr>sc_status := sc_status from\<rparr> else m);
          m = m\<lparr>sc_has_bits := sc_has_bits m OR sc_has_bits from\<rparr>
      in m\<lparr>sc_unknown := sc_unknown m @ sc_unknown from\<rparr>)"

definition ServerConnectedStateResponse_CheckTypeAndMergeFrom ::
    "ServerConnectedStateResponse \<Rightarrow> ServerConnectedStateResponse \<Rightarrow> ServerConnectedStateResponse" where
  "ServerConnectedStateResponse_CheckTypeAndMergeFrom m from =
     ServerConnectedStateResponse_MergeFrom m from"

definition ServerConnectedStateResponse_CopyFrom ::
    "ServerConnectedStateResponse \<Rightarrow> ServerConnectedStateResponse \<Rightarrow> ServerConnectedStateResponse" where
  "ServerConnectedStateResponse_CopyFrom m from =
     ServerConnectedStateResponse_MergeFrom (ServerConnectedStateResponse_Clear m) from"

definition ServerConnectedStateResponse_IsInitialized ::
    "ServerConnectedStateResponse \<Rightarrow> bool" where
  "ServerConnectedStateResponse_IsInitialized m \<longleftrightarrow> True"

definition ServerConnectedStateResponse_InternalSwap ::
    "ServerConnectedStateResponse \<Rightarrow> ServerConnectedStateResponse \<Rightarrow> ServerConnectedStateResponse \<times> ServerConnectedStateResponse" where
  "ServerConnectedStateResponse_InternalSwap this other =
     (this\<lparr>sc_has_bits := sc_has_bits other, sc_status := sc_status other, sc_kex := sc_kex other, sc_iv := sc_iv other, sc_unknown := sc_unknown other\<rparr>,
      other\<lparr>sc_has_bits := sc_has_bits this, sc_status := sc_status this, sc_kex := sc_kex this, sc_iv := sc_iv this, sc_unknown := sc_unknown this\<rparr>)"

definition ServerConnectedStateResponse_assign ::
    "ServerConnectedStateResponse \<Rightarrow> ServerConnectedStateResponse \<Rightarrow> ServerConnectedStateResponse" where
  "ServerConnectedStateResponse_assign m from = ServerConnectedStateResponse_CopyFrom m from"

definition ServerConnectedStateResponse_assign_move ::
    "ServerConnectedStateResponse \<Rightarrow> ServerConnectedStateResponse \<Rightarrow> ServerConnectedStateResponse \<times> ServerConnectedStateResponse" where
  "ServerConnectedStateResponse_assign_move m from =
     ServerConnectedStateResponse_InternalSwap m from"

definition ServerConnectedStateResponse_move ::
    "ServerConnectedStateResponse \<Rightarrow> ServerConnectedStateResponse \<times> ServerConnectedStateResponse" where
  "ServerConnectedStateResponse_move from =
     ServerConnectedStateResponse_assign_move ServerConnectedStateResponse_new from"

definition ServerConnectedStateResponse_Swap ::
    "ServerConnectedStateResponse \<Rightarrow> ServerConnectedStateResponse \<Rightarrow> ServerConnectedStateResponse \<times> ServerConnectedStateResponse" where
  "ServerConnectedStateResponse_Swap this other =
     ServerConnectedStateResponse_InternalSwap this other"

definition ServerConnectedStateResponse_UnsafeArenaSwap ::
    "ServerConnectedStateResponse \<Rightarrow> ServerConnectedStateResponse \<Rightarrow> ServerConnectedStateResponse \<times> ServerConnectedStateResponse" where
  "ServerConnectedStateResponse_UnsafeArenaSwap this other =
     ServerConnectedStateResponse_InternalSwap this other"

definition ServerConnectedStateResponse_unknown_fields ::
    "ServerConnectedStateResponse \<Rightarrow> bytes" where
  "ServerConnectedStateResponse_unknown_fields m = sc_unknown m"

definition ServerConnectedStateResponse_mutable_unknown_fields ::
    "(bytes \<Rightarrow> bytes) \<Rightarrow> ServerConnectedStateResponse \<Rightarrow> ServerConnectedStateResponse" where
  "ServerConnectedStateResponse_mutable_unknown_fields f m =
     m\<lparr>sc_unknown := f (sc_unknown m)\<rparr>"

section \<open>Lemmas\<close>

text \<open>
  The class invariants: only declared has-bits are ever set, a submessage whose has-bit is set is
  allocated (the accessors and \<open>Clear\<close> dereference it without a test), and a field whose has-bit is
  clear holds nothing that a later merge could bring back. The view is what a reader sees.
\<close>

definition kex_ok :: "bool \<Rightarrow> KexMsg option \<Rightarrow> bool" where
  "kex_ok present k = (case k of None \<Rightarrow> \<not> present | Some k \<Rightarrow> present \<or> KexMsg_blank k)"

definition kex_view :: "bool \<Rightarrow> KexMsg option \<Rightarrow> (i32 \<times> bytes) option" where
  "kex_view present k = (if present then map_option KexMsg_view k else None)"

definition kex_known :: "bool \<Rightarrow> KexMsg option \<Rightarrow> bool" where
  "kex_known present k = (present \<longrightarrow> (case k of None \<Rightarrow> True | Some k \<Rightarrow> km_unknown k = []))"

definition ClientConnectedStateRequest_wf :: "ClientConnectedStateRequest \<Rightarrow> bool" where
  "ClientConnectedStateRequest_wf m \<longleftrightarrow>
     cc_has_bits m \<in> {0, 1} \<and> kex_ok (cc_has_bits m AND 1 \<noteq> 0) (cc_kex m)"

definition ClientConnectedStateRequest_view ::
    "ClientConnectedStateRequest \<Rightarrow> i32 \<times> (i32 \<times> bytes) option" where
  "ClientConnectedStateRequest_view m =
     (cc_type m, kex_view (cc_has_bits m AND 1 \<noteq> 0) (cc_kex m))"

definition ClientConnectedStateRequest_known :: "ClientConnectedStateRequest \<Rightarrow> bool" where
  "ClientConnectedStateRequest_known m \<longleftrightarrow>
     cc_unknown m = [] \<and> kex_known (cc_has_bits m AND 1 \<noteq> 0) (cc_kex m)"

definition ServerConnectedStateResponse_wf :: "ServerConnectedStateResponse \<Rightarrow> bool" where
  "ServerConnectedStateResponse_wf m \<longleftrightarrow>
     sc_has_bits m \<in> {0, 1, 2, 3} \<and> kex_ok (sc_has_bits m AND 2 \<noteq> 0) (sc_kex m) \<and>
     (sc_has_bits m AND 1 = 0 \<longrightarrow> sc_iv m = [])"

definition ServerConnectedStateResponse_view ::
    "ServerConnectedStateResponse \<Rightarrow> i32 \<times> (i32 \<times> bytes) option \<times> bytes option" where
  "ServerConnectedStateResponse_view m =
     (sc_status m, kex_view (sc_has_bits m AND 2 \<noteq> 0) (sc_kex m),
      if sc_has_bits m AND 1 \<noteq> 0 then Some (sc_iv m) else None)"

definition ServerConnectedStateResponse_known :: "ServerConnectedStateResponse \<Rightarrow> bool" where
  "ServerConnectedStateResponse_known m \<longleftrightarrow>
     sc_unknown m = [] \<and> kex_known (sc_has_bits m AND 2 \<noteq> 0) (sc_kex m)"

lemmas pb_wf_defs = kex_ok_def kex_view_def kex_known_def
  ClientConnectedStateRequest_wf_def ClientConnectedStateRequest_view_def
  ClientConnectedStateRequest_known_def ServerConnectedStateResponse_wf_def
  ServerConnectedStateResponse_view_def ServerConnectedStateResponse_known_def

lemmas ClientConnectedStateRequest_defs =
  ClientConnectedStateRequest_new_def ClientConnectedStateRequest_default_instance_def
  ClientConnectedStateRequest_copy_def ClientConnectedStateRequest_Clear_def
  ClientConnectedStateRequest_clear_type_def ClientConnectedStateRequest_set_type_def
  ClientConnectedStateRequest_internal_set_type_def ClientConnectedStateRequest_clear_kex_def
  ClientConnectedStateRequest_release_kex_def ClientConnectedStateRequest_set_allocated_kex_def
  ClientConnectedStateRequest_unsafe_arena_set_allocated_kex_def
  ClientConnectedStateRequest_unsafe_arena_release_kex_def
  ClientConnectedStateRequest_mutable_kex_def ClientConnectedStateRequest_internal_mutable_kex_def

lemmas ServerConnectedStateResponse_defs =
  ServerConnectedStateResponse_new_def ServerConnectedStateResponse_default_instance_def
  ServerConnectedStateResponse_copy_def ServerConnectedStateResponse_Clear_def
  ServerConnectedStateResponse_clear_status_def ServerConnectedStateResponse_set_status_def
  ServerConnectedStateResponse_internal_set_status_def ServerConnectedStateResponse_clear_kex_def
  ServerConnectedStateResponse_release_kex_def ServerConnectedStateResponse_set_allocated_kex_def
  ServerConnectedStateResponse_unsafe_arena_set_allocated_kex_def
  ServerConnectedStateResponse_unsafe_arena_release_kex_def
  ServerConnectedStateResponse_mutable_kex_def ServerConnectedStateResponse_internal_mutable_kex_def
  ServerConnectedStateResponse_clear_iv_def ServerConnectedStateResponse_set_iv_def
  ServerConnectedStateResponse_internal_set_iv_def ServerConnectedStateResponse_mutable_iv_def
  ServerConnectedStateResponse_internal_mutable_iv_def ServerConnectedStateResponse_set_allocated_iv_def
  ServerConnectedStateResponse_release_iv_def

declare ClientConnectedStateRequest_defs [pb_defs] ServerConnectedStateResponse_defs [pb_defs]

subsection \<open>Merging\<close>

definition kex_merge :: "bool \<Rightarrow> KexMsg option \<Rightarrow> KexMsg option \<Rightarrow> KexMsg option" where
  "kex_merge present k from =
     (if present then
        (case from of
           None \<Rightarrow> k
         | Some f \<Rightarrow> Some (case k of None \<Rightarrow> KexMsg_copy f | Some k \<Rightarrow> KexMsg_MergeFrom k f))
      else k)"

lemma ClientConnectedStateRequest_MergeFrom_fields:
  "ClientConnectedStateRequest_MergeFrom m from =
     m\<lparr>cc_has_bits := cc_has_bits m OR cc_has_bits from,
       cc_type := (if cc_type from \<noteq> 0 then cc_type from else cc_type m),
       cc_kex := kex_merge (cc_has_bits from AND 1 \<noteq> 0) (cc_kex m) (cc_kex from),
       cc_unknown := cc_unknown m @ cc_unknown from\<rparr>"
  by (cases m) (simp add: ClientConnectedStateRequest_MergeFrom_def kex_merge_def Let_def split: option.split)

lemma ServerConnectedStateResponse_MergeFrom_fields:
  "ServerConnectedStateResponse_MergeFrom m from =
     m\<lparr>sc_has_bits := (if sc_has_bits from AND 1 \<noteq> 0 then sc_has_bits m OR 1 else sc_has_bits m)
          OR sc_has_bits from,
       sc_status := (if sc_status from \<noteq> 0 then sc_status from else sc_status m),
       sc_kex := kex_merge (sc_has_bits from AND 2 \<noteq> 0) (sc_kex m) (sc_kex from),
       sc_iv := (if sc_has_bits from AND 1 \<noteq> 0 then sc_iv from else sc_iv m),
       sc_unknown := sc_unknown m @ sc_unknown from\<rparr>"
  by (cases m) (simp add: ServerConnectedStateResponse_MergeFrom_def
      ServerConnectedStateResponse_internal_set_iv_def kex_merge_def Let_def split: option.split)

lemma kex_merge_ok:
  "kex_ok p k \<Longrightarrow> kex_ok q from \<Longrightarrow> kex_ok (p \<or> q) (kex_merge q k from)"
  by (auto simp: kex_ok_def kex_merge_def split: option.splits)

lemma kex_merge_view:
  "kex_ok False k \<Longrightarrow> kex_ok q from \<Longrightarrow> kex_view q (kex_merge q k from) = kex_view q from"
  by (auto simp: kex_ok_def kex_merge_def kex_view_def KexMsg_merge_blank split: option.splits)

lemma kex_ok_clear: "kex_ok p k \<Longrightarrow> kex_ok False (if p then map_option KexMsg_Clear k else k)"
  by (auto simp: kex_ok_def split: option.splits)

lemma ClientConnectedStateRequest_Clear_wf:
  "ClientConnectedStateRequest_wf m \<Longrightarrow>
     cc_has_bits (ClientConnectedStateRequest_Clear m) = 0 \<and> cc_type (ClientConnectedStateRequest_Clear m) = 0 \<and>
     kex_ok False (cc_kex (ClientConnectedStateRequest_Clear m)) \<and>
     cc_unknown (ClientConnectedStateRequest_Clear m) = []"
  using kex_ok_clear [of "cc_has_bits m AND 1 \<noteq> 0" "cc_kex m"]
  by (simp add: ClientConnectedStateRequest_Clear_def ClientConnectedStateRequest_wf_def Let_def
      split: if_splits)

lemma ServerConnectedStateResponse_Clear_wf:
  "ServerConnectedStateResponse_wf m \<Longrightarrow>
     sc_has_bits (ServerConnectedStateResponse_Clear m) = 0 \<and> sc_status (ServerConnectedStateResponse_Clear m) = 0 \<and>
     kex_ok False (sc_kex (ServerConnectedStateResponse_Clear m)) \<and>
     sc_iv (ServerConnectedStateResponse_Clear m) = [] \<and>
     sc_unknown (ServerConnectedStateResponse_Clear m) = []"
  using kex_ok_clear [of "sc_has_bits m AND 2 \<noteq> 0" "sc_kex m"]
  by (simp add: ServerConnectedStateResponse_Clear_def ServerConnectedStateResponse_wf_def Let_def
      split: if_splits)

lemma ClientConnectedStateRequest_copy_view:
  assumes "ClientConnectedStateRequest_wf m0" "ClientConnectedStateRequest_wf m"
  shows "ClientConnectedStateRequest_view (ClientConnectedStateRequest_CopyFrom m0 m) =
    ClientConnectedStateRequest_view m"
  using ClientConnectedStateRequest_Clear_wf [OF assms(1)] assms(2)
    kex_merge_view [of "cc_kex (ClientConnectedStateRequest_Clear m0)" "cc_has_bits m AND 1 \<noteq> 0" "cc_kex m"]
  by (auto simp: ClientConnectedStateRequest_CopyFrom_def ClientConnectedStateRequest_MergeFrom_fields
      ClientConnectedStateRequest_view_def ClientConnectedStateRequest_wf_def)

lemma ServerConnectedStateResponse_copy_view:
  assumes "ServerConnectedStateResponse_wf m0" "ServerConnectedStateResponse_wf m"
  shows "ServerConnectedStateResponse_view (ServerConnectedStateResponse_CopyFrom m0 m) =
    ServerConnectedStateResponse_view m"
  using ServerConnectedStateResponse_Clear_wf [OF assms(1)] assms(2)
    kex_merge_view [of "sc_kex (ServerConnectedStateResponse_Clear m0)" "sc_has_bits m AND 2 \<noteq> 0" "sc_kex m"]
  by (auto simp: ServerConnectedStateResponse_CopyFrom_def ServerConnectedStateResponse_MergeFrom_fields
      ServerConnectedStateResponse_view_def ServerConnectedStateResponse_wf_def)

lemma ClientConnectedStateRequest_merge_wf:
  "ClientConnectedStateRequest_wf m \<Longrightarrow> ClientConnectedStateRequest_wf from \<Longrightarrow>
     ClientConnectedStateRequest_wf (ClientConnectedStateRequest_MergeFrom m from)"
  using kex_merge_ok [of "cc_has_bits m AND 1 \<noteq> 0" "cc_kex m" "cc_has_bits from AND 1 \<noteq> 0" "cc_kex from"]
  by (auto simp: ClientConnectedStateRequest_wf_def ClientConnectedStateRequest_MergeFrom_fields)

lemma ServerConnectedStateResponse_merge_wf:
  "ServerConnectedStateResponse_wf m \<Longrightarrow> ServerConnectedStateResponse_wf from \<Longrightarrow>
     ServerConnectedStateResponse_wf (ServerConnectedStateResponse_MergeFrom m from)"
  using kex_merge_ok [of "sc_has_bits m AND 2 \<noteq> 0" "sc_kex m" "sc_has_bits from AND 2 \<noteq> 0" "sc_kex from"]
  by (auto simp: ServerConnectedStateResponse_wf_def ServerConnectedStateResponse_MergeFrom_fields)

lemma ClientConnectedStateRequest_copy_wf:
  assumes "ClientConnectedStateRequest_wf m0" "ClientConnectedStateRequest_wf m"
  shows "ClientConnectedStateRequest_wf (ClientConnectedStateRequest_CopyFrom m0 m)"
  unfolding ClientConnectedStateRequest_CopyFrom_def
  by (rule ClientConnectedStateRequest_merge_wf [OF _ assms(2)])
    (use ClientConnectedStateRequest_Clear_wf [OF assms(1)] in \<open>simp add: ClientConnectedStateRequest_wf_def\<close>)

lemma ServerConnectedStateResponse_copy_wf:
  assumes "ServerConnectedStateResponse_wf m0" "ServerConnectedStateResponse_wf m"
  shows "ServerConnectedStateResponse_wf (ServerConnectedStateResponse_CopyFrom m0 m)"
  unfolding ServerConnectedStateResponse_CopyFrom_def
  by (rule ServerConnectedStateResponse_merge_wf [OF _ assms(2)])
    (use ServerConnectedStateResponse_Clear_wf [OF assms(1)] in \<open>simp add: ServerConnectedStateResponse_wf_def\<close>)

subsection \<open>Sizes, serialization, parsing\<close>

text \<open>What the two size functions and the two serializers do with the submessage.\<close>

definition kex_size :: "wire_lib \<Rightarrow> bool \<Rightarrow> KexMsg option \<Rightarrow> nat" where
  "kex_size L p k =
     (case k of None \<Rightarrow> 0
      | Some k \<Rightarrow> if p then 1 + LengthDelimitedSize L (fst (KexMsg_ByteSizeLong L k)) else 0)"

definition kex_sized :: "wire_lib \<Rightarrow> bool \<Rightarrow> KexMsg option \<Rightarrow> KexMsg option" where
  "kex_sized L p k = (if p then map_option (\<lambda>k. snd (KexMsg_ByteSizeLong L k)) k else k)"

definition kex_bytes :: "wire_lib \<Rightarrow> bool \<Rightarrow> KexMsg option \<Rightarrow> bytes" where
  "kex_bytes L p k =
     (case k of None \<Rightarrow> []
      | Some k \<Rightarrow>
          if p then WriteMessageHead L 2 (km_cached_size k) @ KexMsg_InternalSerialize L k [] else [])"

lemma ClientConnectedStateRequest_ByteSizeLong_fields:
  "ClientConnectedStateRequest_ByteSizeLong L m =
     (let n = kex_size L (cc_has_bits m AND 1 \<noteq> 0) (cc_kex m) +
              (if cc_type m \<noteq> 0 then 1 + EnumSize L (cc_type m) else 0) + length (cc_unknown m)
      in (n, m\<lparr>cc_kex := kex_sized L (cc_has_bits m AND 1 \<noteq> 0) (cc_kex m), cc_cached_size := ToCachedSize n\<rparr>))"
  by (cases m) (simp add: ClientConnectedStateRequest_ByteSizeLong_def kex_size_def kex_sized_def Let_def
      split_beta split: option.split)

lemma ServerConnectedStateResponse_ByteSizeLong_fields:
  "ServerConnectedStateResponse_ByteSizeLong L m =
     (let n = (if sc_has_bits m AND 1 \<noteq> 0 then 1 + BytesSize L (sc_iv m) else 0) +
              kex_size L (sc_has_bits m AND 2 \<noteq> 0) (sc_kex m) +
              (if sc_status m \<noteq> 0 then 1 + EnumSize L (sc_status m) else 0) + length (sc_unknown m)
      in (n, m\<lparr>sc_kex := kex_sized L (sc_has_bits m AND 2 \<noteq> 0) (sc_kex m), sc_cached_size := ToCachedSize n\<rparr>))"
  by (cases m) (simp add: ServerConnectedStateResponse_ByteSizeLong_def kex_size_def kex_sized_def Let_def
      split_beta split: option.split)

lemma KexMsg_head_size [simp]: "word_of_int (KexMsg_GetCachedSize k) = km_cached_size k"
  by (simp add: KexMsg_GetCachedSize_def)

lemma ClientConnectedStateRequest_Serialize_fields:
  "ClientConnectedStateRequest_InternalSerialize L m [] =
     (if cc_type m \<noteq> 0 then WriteEnumToArray L 1 (cc_type m) else []) @
     kex_bytes L (cc_has_bits m AND 1 \<noteq> 0) (cc_kex m) @ cc_unknown m"
  by (simp add: ClientConnectedStateRequest_InternalSerialize_def kex_bytes_def Let_def
      KexMsg_serialize_append [of L _ "_ @ _"] KexMsg_serialize_append [of L _ "WriteMessageHead _ _ _"]
      split: option.split)

lemma ServerConnectedStateResponse_Serialize_fields:
  "ServerConnectedStateResponse_InternalSerialize L m [] =
     (if sc_status m \<noteq> 0 then WriteEnumToArray L 1 (sc_status m) else []) @
     kex_bytes L (sc_has_bits m AND 2 \<noteq> 0) (sc_kex m) @
     (if sc_has_bits m AND 1 \<noteq> 0 then WriteBytesMaybeAliased L 3 (sc_iv m) else []) @ sc_unknown m"
  by (simp add: ServerConnectedStateResponse_InternalSerialize_def kex_bytes_def Let_def
      KexMsg_serialize_append [of L _ "_ @ _"] KexMsg_serialize_append [of L _ "WriteMessageHead _ _ _"]
      split: option.split)

lemma kind_of_connected:
  "kind_of ClientConnectedStateRequest_table (Suc 0) = Some OpenEnum"
  "kind_of ClientConnectedStateRequest_table 2 = Some Submessage"
  "kind_of ServerConnectedStateResponse_table (Suc 0) = Some OpenEnum"
  "kind_of ServerConnectedStateResponse_table 2 = Some Submessage"
  "kind_of ServerConnectedStateResponse_table 3 = Some BytesField"
  by (simp_all add: kind_of_def ClientConnectedStateRequest_table_def ServerConnectedStateResponse_table_def)

context wire_runtime
begin

lemma kex_fits: "p \<Longrightarrow> fst (KexMsg_ByteSizeLong L k) \<le> kex_size L p (Some k)"
  using size_message [of "fst (KexMsg_ByteSizeLong L k)"] by (simp add: kex_size_def)

lemma kex_bytes_length:
  assumes "kex_size L p k \<le> wire_max"
  shows "length (kex_bytes L p (kex_sized L p k)) = kex_size L p k"
proof (cases "p \<and> k \<noteq> None")
  case True
  then obtain c where c: "p" "k = Some c" by auto
  have "fst (KexMsg_ByteSizeLong L c) \<le> wire_max"
    using kex_fits [OF c(1), of c] assms c by simp
  then show ?thesis
    using c KexMsg_length [of c] length_message [of 2 "fst (KexMsg_ByteSizeLong L c)"]
    by (simp add: kex_bytes_def kex_sized_def kex_size_def)
qed (auto simp: kex_bytes_def kex_sized_def kex_size_def split: option.split)

lemma kex_parse:
  assumes "kex_size L p k \<le> wire_max" "kind_of t 2 = Some Submessage" "p" "k = Some c"
  shows "ParseLoop L t (kex_bytes L p (kex_sized L p k) @ rest) =
    prepend (EvMessage 2 (KexMsg_InternalSerialize L c [])) (ParseLoop L t rest)"
proof -
  have "fst (KexMsg_ByteSizeLong L c) \<le> wire_max"
    using kex_fits [OF assms(3), of c] assms by simp
  then show ?thesis
    using assms KexMsg_length [of c]
      parse_message [of 2 t "ToCachedSize (fst (KexMsg_ByteSizeLong L c))" "KexMsg_InternalSerialize L c []" rest]
    by (simp add: kex_bytes_def kex_sized_def)
qed

lemma ClientConnectedStateRequest_length:
  assumes "fst (ClientConnectedStateRequest_ByteSizeLong L m) \<le> wire_max"
  shows "length (ClientConnectedStateRequest_InternalSerialize L
      (snd (ClientConnectedStateRequest_ByteSizeLong L m)) []) =
    fst (ClientConnectedStateRequest_ByteSizeLong L m)"
  using assms kex_bytes_length [of "cc_has_bits m AND 1 \<noteq> 0" "cc_kex m"]
  by (simp add: ClientConnectedStateRequest_ByteSizeLong_fields
      ClientConnectedStateRequest_Serialize_fields Let_def wire_length)

lemma ServerConnectedStateResponse_length:
  assumes "fst (ServerConnectedStateResponse_ByteSizeLong L m) \<le> wire_max"
  shows "length (ServerConnectedStateResponse_InternalSerialize L
      (snd (ServerConnectedStateResponse_ByteSizeLong L m)) []) =
    fst (ServerConnectedStateResponse_ByteSizeLong L m)"
proof -
  have "sc_has_bits m AND 1 \<noteq> 0 \<Longrightarrow> length (sc_iv m) \<le> wire_max"
    using assms size_bytes [of "sc_iv m"]
    by (simp add: ServerConnectedStateResponse_ByteSizeLong_fields Let_def)
  then show ?thesis
    using assms kex_bytes_length [of "sc_has_bits m AND 2 \<noteq> 0" "sc_kex m"]
    by (simp add: ServerConnectedStateResponse_ByteSizeLong_fields
        ServerConnectedStateResponse_Serialize_fields Let_def wire_length)
qed

text \<open>Storing the parsed submessage is the merge of that field.\<close>

lemma kex_store:
  assumes "kex_size L p (Some c) \<le> wire_max" "kex_known p (Some c)" "p"
  shows "KexMsg_InternalParse L (KexMsg_InternalSerialize L c []) (case k of None \<Rightarrow> KexMsg_new | Some k \<Rightarrow> k) =
    (True, the (kex_merge p k (Some c)))"
proof -
  have "fst (KexMsg_ByteSizeLong L c) \<le> wire_max"
    using kex_fits [OF assms(3), of c] assms(1) by simp
  with assms show ?thesis
    by (simp add: KexMsg_parse_serialize kex_known_def kex_merge_def KexMsg_merge_new split: option.split)
qed

lemma cc_parse_kex:
  assumes "ClientConnectedStateRequest_wf m" "ClientConnectedStateRequest_known m"
    "kex_size L (cc_has_bits m AND 1 \<noteq> 0) (cc_kex m) \<le> wire_max"
  shows "ClientConnectedStateRequest_InternalParse L
      (kex_bytes L (cc_has_bits m AND 1 \<noteq> 0) (kex_sized L (cc_has_bits m AND 1 \<noteq> 0) (cc_kex m)) @ rest) m' =
    ClientConnectedStateRequest_InternalParse L rest
      (m'\<lparr>cc_has_bits := cc_has_bits m' OR cc_has_bits m,
          cc_kex := kex_merge (cc_has_bits m AND 1 \<noteq> 0) (cc_kex m') (cc_kex m)\<rparr>)"
proof (cases "cc_has_bits m AND 1 \<noteq> 0")
  case True
  then obtain c where c: "cc_kex m = Some c" "cc_has_bits m = 1"
    using assms by (auto simp: pb_wf_defs split: option.splits)
  have "KexMsg_InternalParse L (KexMsg_InternalSerialize L c [])
      (case cc_kex m' of None \<Rightarrow> KexMsg_new | Some k \<Rightarrow> k) = (True, the (kex_merge True (cc_kex m') (Some c)))"
    using assms c by (intro kex_store) (auto simp: pb_wf_defs)
  with c kex_parse [OF assms(3) kind_of_connected(2) True c(1), of rest] show ?thesis
    by (cases m') (simp add: ClientConnectedStateRequest_InternalParse_def
        ClientConnectedStateRequest_store_def kex_merge_def)
next
  case False
  then have "cc_has_bits m = 0" "kex_bytes L False (kex_sized L False (cc_kex m)) = []"
    using assms by (auto simp: pb_wf_defs kex_bytes_def split: option.splits)
  then show ?thesis
    by (simp add: kex_merge_def)
qed

lemma ClientConnectedStateRequest_parse_serialize:
  assumes wf: "ClientConnectedStateRequest_wf m" "ClientConnectedStateRequest_known m"
    and le: "fst (ClientConnectedStateRequest_ByteSizeLong L m) \<le> wire_max"
  shows "ClientConnectedStateRequest_InternalParse L
      (ClientConnectedStateRequest_InternalSerialize L
        (snd (ClientConnectedStateRequest_ByteSizeLong L m)) []) m0 =
    (True, ClientConnectedStateRequest_MergeFrom m0 m)"
proof -
  have ks: "kex_size L (cc_has_bits m AND 1 \<noteq> 0) (cc_kex m) \<le> wire_max"
    using le by (simp add: ClientConnectedStateRequest_ByteSizeLong_fields Let_def)
  have enum: "ClientConnectedStateRequest_InternalParse L
      ((if cc_type m \<noteq> 0 then WriteEnumToArray L (Suc 0) (cc_type m) else []) @ rest) m0 =
    ClientConnectedStateRequest_InternalParse L rest
      (m0\<lparr>cc_type := (if cc_type m \<noteq> 0 then cc_type m else cc_type m0)\<rparr>)" for rest
    by (simp add: ClientConnectedStateRequest_InternalParse_def parse_enum_1 kind_of_connected
        ClientConnectedStateRequest_store_def)
  have u: "cc_unknown m = []"
    using wf(2) by (simp add: ClientConnectedStateRequest_known_def)
  have S: "ClientConnectedStateRequest_InternalSerialize L (snd (ClientConnectedStateRequest_ByteSizeLong L m)) [] =
      (if cc_type m \<noteq> 0 then WriteEnumToArray L (Suc 0) (cc_type m) else []) @
      kex_bytes L (cc_has_bits m AND 1 \<noteq> 0) (kex_sized L (cc_has_bits m AND 1 \<noteq> 0) (cc_kex m)) @ []"
    using u by (simp add: ClientConnectedStateRequest_ByteSizeLong_fields Let_def
        ClientConnectedStateRequest_Serialize_fields)
  have Nil: "ClientConnectedStateRequest_InternalParse L [] x = (True, x)" for x
    by (simp add: ClientConnectedStateRequest_InternalParse_def parse_Nil)
  show ?thesis
    unfolding S enum cc_parse_kex [OF wf ks] Nil ClientConnectedStateRequest_MergeFrom_fields u
    by (cases m0) simp
qed

lemma sc_parse_kex:
  assumes "ServerConnectedStateResponse_wf m" "ServerConnectedStateResponse_known m"
    "kex_size L (sc_has_bits m AND 2 \<noteq> 0) (sc_kex m) \<le> wire_max"
  shows "ServerConnectedStateResponse_InternalParse L
      (kex_bytes L (sc_has_bits m AND 2 \<noteq> 0) (kex_sized L (sc_has_bits m AND 2 \<noteq> 0) (sc_kex m)) @ rest) m' =
    ServerConnectedStateResponse_InternalParse L rest
      (m'\<lparr>sc_has_bits := (if sc_has_bits m AND 2 \<noteq> 0 then sc_has_bits m' OR 2 else sc_has_bits m'),
          sc_kex := kex_merge (sc_has_bits m AND 2 \<noteq> 0) (sc_kex m') (sc_kex m)\<rparr>)"
proof (cases "sc_has_bits m AND 2 \<noteq> 0")
  case True
  then obtain c where c: "sc_kex m = Some c"
    using assms by (auto simp: pb_wf_defs split: option.splits)
  have "KexMsg_InternalParse L (KexMsg_InternalSerialize L c [])
      (case sc_kex m' of None \<Rightarrow> KexMsg_new | Some k \<Rightarrow> k) =
    (True, the (kex_merge (sc_has_bits m AND 2 \<noteq> 0) (sc_kex m') (Some c)))"
    using assms c True by (intro kex_store) (auto simp: ServerConnectedStateResponse_known_def)
  with True c kex_parse [OF assms(3) kind_of_connected(4) True c, of rest] show ?thesis
    by (cases m') (simp add: ServerConnectedStateResponse_InternalParse_def
        ServerConnectedStateResponse_store_def kex_merge_def)
next
  case False
  then have "kex_bytes L False (kex_sized L False (sc_kex m)) = []"
    by (auto simp: kex_bytes_def split: option.splits)
  with False show ?thesis
    by (simp add: kex_merge_def)
qed

lemma ServerConnectedStateResponse_parse_serialize:
  assumes wf: "ServerConnectedStateResponse_wf m" "ServerConnectedStateResponse_known m"
    and le: "fst (ServerConnectedStateResponse_ByteSizeLong L m) \<le> wire_max"
  shows "ServerConnectedStateResponse_InternalParse L
      (ServerConnectedStateResponse_InternalSerialize L
        (snd (ServerConnectedStateResponse_ByteSizeLong L m)) []) m0 =
    (True, ServerConnectedStateResponse_MergeFrom m0 m)"
proof -
  let ?P = "ServerConnectedStateResponse_InternalParse L"
  have ks: "kex_size L (sc_has_bits m AND 2 \<noteq> 0) (sc_kex m) \<le> wire_max"
    and iv: "sc_has_bits m AND 1 \<noteq> 0 \<Longrightarrow> length (sc_iv m) \<le> wire_max"
    using le size_bytes [of "sc_iv m"] by (auto simp: ServerConnectedStateResponse_ByteSizeLong_fields Let_def)
  have enum: "?P ((if sc_status m \<noteq> 0 then WriteEnumToArray L (Suc 0) (sc_status m) else []) @ rest) m0 =
      ?P rest (m0\<lparr>sc_status := (if sc_status m \<noteq> 0 then sc_status m else sc_status m0)\<rparr>)" for rest
    by (simp add: ServerConnectedStateResponse_InternalParse_def parse_enum_1 kind_of_connected
        ServerConnectedStateResponse_store_def)
  have bytes: "?P ((if sc_has_bits m AND 1 \<noteq> 0 then WriteBytesMaybeAliased L 3 (sc_iv m) else []) @ rest) m' =
      ?P rest (m'\<lparr>sc_has_bits := (if sc_has_bits m AND 1 \<noteq> 0 then sc_has_bits m' OR 1 else sc_has_bits m'),
        sc_iv := (if sc_has_bits m AND 1 \<noteq> 0 then sc_iv m else sc_iv m')\<rparr>)" for m' rest
    using iv by (cases m') (simp add: ServerConnectedStateResponse_InternalParse_def parse_bytes kind_of_connected
        ServerConnectedStateResponse_store_def)
  have u: "sc_unknown m = []"
    using wf(2) by (simp add: ServerConnectedStateResponse_known_def)
  have S: "ServerConnectedStateResponse_InternalSerialize L (snd (ServerConnectedStateResponse_ByteSizeLong L m)) [] =
      (if sc_status m \<noteq> 0 then WriteEnumToArray L (Suc 0) (sc_status m) else []) @
      kex_bytes L (sc_has_bits m AND 2 \<noteq> 0) (kex_sized L (sc_has_bits m AND 2 \<noteq> 0) (sc_kex m)) @
      (if sc_has_bits m AND 1 \<noteq> 0 then WriteBytesMaybeAliased L 3 (sc_iv m) else []) @ []"
    using u by (simp add: ServerConnectedStateResponse_ByteSizeLong_fields Let_def
        ServerConnectedStateResponse_Serialize_fields)
  have Nil: "?P [] x = (True, x)" for x
    by (simp add: ServerConnectedStateResponse_InternalParse_def parse_Nil)
  show ?thesis
    unfolding S enum sc_parse_kex [OF wf ks] bytes Nil ServerConnectedStateResponse_MergeFrom_fields u
    using wf(1) by (cases m0) (auto simp: ServerConnectedStateResponse_wf_def or.assoc)
qed

end

subsection \<open>Operations on the whole class\<close>

text \<open>
  Every operation of the public interface of \<open>ServerConnectedStateResponse\<close> that can change the message: the parser and
  \<open>ByteSizeLong\<close>, the accessors of the three fields and of the unknown fields, and the operations with a second message.
\<close>

datatype sc_op =
    ScClear
  | ScParse wire_lib bytes
  | ScByteSize wire_lib
  | ScClearStatus
  | ScSetStatus i32
  | ScClearKex
  | ScMutableKex "KexMsg \<Rightarrow> KexMsg"
  | ScSetAllocatedKex "KexMsg option"
  | ScUnsafeSetAllocatedKex "KexMsg option"
  | ScReleaseKex
  | ScUnsafeReleaseKex
  | ScClearIv
  | ScSetIv bytes
  | ScMutableIv "bytes \<Rightarrow> bytes"
  | ScSetAllocatedIv "bytes option"
  | ScReleaseIv
  | ScMergeFrom ServerConnectedStateResponse
  | ScCheckTypeAndMergeFrom ServerConnectedStateResponse
  | ScCopyFrom ServerConnectedStateResponse
  | ScAssign ServerConnectedStateResponse
  | ScAssignMove ServerConnectedStateResponse
  | ScMovedFrom
  | ScSwap ServerConnectedStateResponse
  | ScUnsafeArenaSwap ServerConnectedStateResponse
  | ScMutableUnknownFields "bytes \<Rightarrow> bytes"

fun sc_exec :: "sc_op \<Rightarrow> ServerConnectedStateResponse \<Rightarrow> ServerConnectedStateResponse" where
  "sc_exec ScClear m = ServerConnectedStateResponse_Clear m"
| "sc_exec (ScParse L bs) m = snd (ServerConnectedStateResponse_InternalParse L bs m)"
| "sc_exec (ScByteSize L) m = snd (ServerConnectedStateResponse_ByteSizeLong L m)"
| "sc_exec ScClearStatus m = ServerConnectedStateResponse_clear_status m"
| "sc_exec (ScSetStatus v) m = ServerConnectedStateResponse_set_status v m"
| "sc_exec ScClearKex m = ServerConnectedStateResponse_clear_kex m"
| "sc_exec (ScMutableKex f) m = ServerConnectedStateResponse_mutable_kex f m"
| "sc_exec (ScSetAllocatedKex k) m = ServerConnectedStateResponse_set_allocated_kex k m"
| "sc_exec (ScUnsafeSetAllocatedKex k) m = ServerConnectedStateResponse_unsafe_arena_set_allocated_kex k m"
| "sc_exec ScReleaseKex m = snd (ServerConnectedStateResponse_release_kex m)"
| "sc_exec ScUnsafeReleaseKex m = snd (ServerConnectedStateResponse_unsafe_arena_release_kex m)"
| "sc_exec ScClearIv m = ServerConnectedStateResponse_clear_iv m"
| "sc_exec (ScSetIv bs) m = ServerConnectedStateResponse_set_iv bs m"
| "sc_exec (ScMutableIv f) m = ServerConnectedStateResponse_mutable_iv f m"
| "sc_exec (ScSetAllocatedIv p) m = ServerConnectedStateResponse_set_allocated_iv p m"
| "sc_exec ScReleaseIv m = snd (ServerConnectedStateResponse_release_iv m)"
| "sc_exec (ScMergeFrom x) m = ServerConnectedStateResponse_MergeFrom m x"
| "sc_exec (ScCheckTypeAndMergeFrom x) m = ServerConnectedStateResponse_CheckTypeAndMergeFrom m x"
| "sc_exec (ScCopyFrom x) m = ServerConnectedStateResponse_CopyFrom m x"
| "sc_exec (ScAssign x) m = ServerConnectedStateResponse_assign m x"
| "sc_exec (ScAssignMove x) m = fst (ServerConnectedStateResponse_assign_move m x)"
| "sc_exec ScMovedFrom m = snd (ServerConnectedStateResponse_move m)"
| "sc_exec (ScSwap x) m = fst (ServerConnectedStateResponse_Swap m x)"
| "sc_exec (ScUnsafeArenaSwap x) m = fst (ServerConnectedStateResponse_UnsafeArenaSwap m x)"
| "sc_exec (ScMutableUnknownFields f) m = ServerConnectedStateResponse_mutable_unknown_fields f m"

text \<open>The messages an operation takes are themselves well-formed.\<close>

fun sc_op_ok :: "sc_op \<Rightarrow> bool" where
  "sc_op_ok (ScMergeFrom x) = ServerConnectedStateResponse_wf x"
| "sc_op_ok (ScCheckTypeAndMergeFrom x) = ServerConnectedStateResponse_wf x"
| "sc_op_ok (ScCopyFrom x) = ServerConnectedStateResponse_wf x"
| "sc_op_ok (ScAssign x) = ServerConnectedStateResponse_wf x"
| "sc_op_ok (ScAssignMove x) = ServerConnectedStateResponse_wf x"
| "sc_op_ok (ScSwap x) = ServerConnectedStateResponse_wf x"
| "sc_op_ok (ScUnsafeArenaSwap x) = ServerConnectedStateResponse_wf x"
| "sc_op_ok _ = True"

text \<open>The invariant in terms of the single bits.\<close>

definition two_bits :: "i32 \<Rightarrow> bool" where
  "two_bits w \<longleftrightarrow> w \<in> {0, 1, 2, 3}"

lemma two_bits_closed:
  "two_bits 0" "two_bits w \<Longrightarrow> two_bits (w OR 1)" "two_bits w \<Longrightarrow> two_bits (w OR 2)" "two_bits w \<Longrightarrow> two_bits (w AND NOT 1)"
  "two_bits w \<Longrightarrow> two_bits (w AND NOT 2)"
  by (auto simp: two_bits_def)

lemma has_bits_of_two:
  fixes w :: i32
  shows "(w OR 1) AND 1 = 1" "(w OR 1) AND 2 = w AND 2" "(w OR 2) AND 2 = 2" "(w OR 2) AND 1 = w AND 1"
    "(w AND NOT 1) AND 1 = 0" "(w AND NOT 1) AND 2 = w AND 2" "(w AND NOT 2) AND 2 = 0" "(w AND NOT 2) AND 1 = w AND 1"
  by (rule bit_word_eqI, auto simp: bit_simps)+

lemma sc_wf_bits:
  "ServerConnectedStateResponse_wf m \<longleftrightarrow>
     two_bits (sc_has_bits m) \<and> kex_ok (sc_has_bits m AND 2 \<noteq> 0) (sc_kex m) \<and> (sc_has_bits m AND 1 = 0 \<longrightarrow> sc_iv m = [])"
  by (simp only: ServerConnectedStateResponse_wf_def two_bits_def)

lemmas sc_bits = sc_wf_bits two_bits_closed two_bits_closed(4,5) [simplified] has_bits_of_two has_bits_of_two(5-8) [simplified]

lemma kex_ok_simps [simp]:
  "kex_ok True p \<longleftrightarrow> p \<noteq> None" "kex_ok False None" "kex_ok False (Some (KexMsg_Clear k))"
  by (simp_all add: kex_ok_def split: option.splits)

lemma kex_ok_cleared: "kex_ok False (map_option KexMsg_Clear k)"
  by (cases k) (simp_all add: kex_ok_def)

lemma sc_store_wf:
  assumes "ServerConnectedStateResponse_wf m" "ServerConnectedStateResponse_store L e m = (ok, m')"
  shows "ServerConnectedStateResponse_wf m'"
  using assms
  by (auto simp: ServerConnectedStateResponse_store_def sc_bits split: wire_event.splits if_splits prod.splits)

lemma sc_parse_wf:
  "ServerConnectedStateResponse_wf m \<Longrightarrow>
     ServerConnectedStateResponse_wf (snd (ServerConnectedStateResponse_InternalParse L bs m))"
  unfolding ServerConnectedStateResponse_InternalParse_def
  by (cases "ParseLoop L ServerConnectedStateResponse_table bs")
    (simp only:, rule run_events_keeps, erule sc_store_wf, assumption)

lemma sc_sized_wf:
  "ServerConnectedStateResponse_wf m \<Longrightarrow> ServerConnectedStateResponse_wf (snd (ServerConnectedStateResponse_ByteSizeLong L m))"
  by (auto simp: ServerConnectedStateResponse_ByteSizeLong_fields ServerConnectedStateResponse_wf_def kex_ok_def kex_sized_def
      Let_def split: option.splits)

lemma sc_Clear_wf: "ServerConnectedStateResponse_wf m \<Longrightarrow> ServerConnectedStateResponse_wf (ServerConnectedStateResponse_Clear m)"
  using ServerConnectedStateResponse_Clear_wf [of m] by (simp add: ServerConnectedStateResponse_wf_def)

text \<open>The operations that exchange two messages, on both of them.\<close>

lemma sc_swap_wf:
  "ServerConnectedStateResponse_wf m \<Longrightarrow> ServerConnectedStateResponse_wf x \<Longrightarrow>
     ServerConnectedStateResponse_wf (fst (ServerConnectedStateResponse_InternalSwap m x)) \<and>
     ServerConnectedStateResponse_wf (snd (ServerConnectedStateResponse_InternalSwap m x))"
  by (simp add: ServerConnectedStateResponse_InternalSwap_def ServerConnectedStateResponse_wf_def)

lemma sc_new_wf: "ServerConnectedStateResponse_wf ServerConnectedStateResponse_new"
  by (simp add: ServerConnectedStateResponse_new_def pb_wf_defs)

lemmas sc_two_messages = ServerConnectedStateResponse_Swap_def ServerConnectedStateResponse_UnsafeArenaSwap_def
  ServerConnectedStateResponse_assign_move_def ServerConnectedStateResponse_move_def ServerConnectedStateResponse_assign_def
  ServerConnectedStateResponse_CheckTypeAndMergeFrom_def

text \<open>The accessors.\<close>

lemma sc_accessor_wf:
  assumes "ServerConnectedStateResponse_wf m"
  shows "ServerConnectedStateResponse_wf (ServerConnectedStateResponse_clear_status m)"
    "ServerConnectedStateResponse_wf (ServerConnectedStateResponse_set_status v m)"
    "ServerConnectedStateResponse_wf (ServerConnectedStateResponse_clear_kex m)"
    "ServerConnectedStateResponse_wf (ServerConnectedStateResponse_mutable_kex f m)"
    "ServerConnectedStateResponse_wf (ServerConnectedStateResponse_set_allocated_kex k m)"
    "ServerConnectedStateResponse_wf (ServerConnectedStateResponse_unsafe_arena_set_allocated_kex k m)"
    "ServerConnectedStateResponse_wf (snd (ServerConnectedStateResponse_release_kex m))"
    "ServerConnectedStateResponse_wf (snd (ServerConnectedStateResponse_unsafe_arena_release_kex m))"
    "ServerConnectedStateResponse_wf (ServerConnectedStateResponse_clear_iv m)"
    "ServerConnectedStateResponse_wf (ServerConnectedStateResponse_set_iv bs m)"
    "ServerConnectedStateResponse_wf (ServerConnectedStateResponse_mutable_iv g m)"
    "ServerConnectedStateResponse_wf (ServerConnectedStateResponse_set_allocated_iv p m)"
    "ServerConnectedStateResponse_wf (snd (ServerConnectedStateResponse_release_iv m))"
    "ServerConnectedStateResponse_wf (ServerConnectedStateResponse_mutable_unknown_fields g m)"
  using assms
  by (simp_all add: ServerConnectedStateResponse_defs sc_bits kex_ok_cleared
      ServerConnectedStateResponse_mutable_unknown_fields_def split: option.split)

lemma sc_exec_wf:
  "ServerConnectedStateResponse_wf m \<Longrightarrow> sc_op_ok c \<Longrightarrow> ServerConnectedStateResponse_wf (sc_exec c m)"
  by (cases c) (simp_all add: sc_accessor_wf sc_Clear_wf sc_parse_wf sc_sized_wf sc_swap_wf sc_new_wf sc_two_messages
      ServerConnectedStateResponse_merge_wf ServerConnectedStateResponse_copy_wf)

lemma sc_run_wf:
  "ServerConnectedStateResponse_wf m \<Longrightarrow> list_all sc_op_ok cs \<Longrightarrow>
     ServerConnectedStateResponse_wf (fold sc_exec cs m)"
  by (induction cs arbitrary: m) (simp_all add: sc_exec_wf)

lemma enum_tables_connected:
  "enum_table_ok KexMsg_KexAlg_entries KexMsg_KexAlg_entries_by_number 2"
  "enum_table_ok ClientConnectedStateRequest_RequestType_entries
     ClientConnectedStateRequest_RequestType_entries_by_number 3"
  "enum_table_ok ServerConnectedStateResponse_ResponseStatus_entries
     ServerConnectedStateResponse_ResponseStatus_entries_by_number 6"
  by code_simp+

section \<open>Properties\<close>

text \<open>A well-formed \<open>ServerConnectedStateResponse\<close> without unknown fields survives the wire: sized,
  serialized and parsed into any well-formed message that was cleared first (what
  \<open>ParseFromArray\<close> does), it parses completely and reads the same: status, key exchange payload and
  IV, present or absent.\<close>

lemma ServerConnectedStateResponse_roundtrip:
  assumes "wire_runtime L" "ServerConnectedStateResponse_wf m" "ServerConnectedStateResponse_wf m0"
    "ServerConnectedStateResponse_known m" "fst (ServerConnectedStateResponse_ByteSizeLong L m) \<le> wire_max"
  shows "\<exists>m'. ServerConnectedStateResponse_InternalParse L
      (ServerConnectedStateResponse_InternalSerialize L
        (snd (ServerConnectedStateResponse_ByteSizeLong L m)) [])
      (ServerConnectedStateResponse_Clear m0) = (True, m') \<and>
    ServerConnectedStateResponse_view m' = ServerConnectedStateResponse_view m"
  using wire_runtime.ServerConnectedStateResponse_parse_serialize [OF assms(1,2,4,5)]
    ServerConnectedStateResponse_copy_view [OF assms(3,2)]
  by (simp add: ServerConnectedStateResponse_CopyFrom_def)

definition sample_response :: ServerConnectedStateResponse where
  "sample_response =
     \<lparr>sc_has_bits = 3, sc_cached_size = 0, sc_status = 1,
      sc_kex = Some \<lparr>km_cached_size = 0, km_alg = 1, km_pkey = [7, 8], km_unknown = []\<rparr>,
      sc_iv = [9], sc_unknown = []\<rparr>"

definition sample_request :: ClientConnectedStateRequest where
  "sample_request =
     \<lparr>cc_has_bits = 1, cc_cached_size = 0, cc_type = 1,
      cc_kex = Some \<lparr>km_cached_size = 0, km_alg = 1, km_pkey = [7, 8], km_unknown = []\<rparr>,
      cc_unknown = []\<rparr>"

text \<open>C39: Parsing the encoding of one well-formed \<open>ClientConnectedStateRequest\<close> into any message is exactly
  \<open>MergeFrom\<close>, whatever the target holds: the type is overwritten only by a non-zero type, the key exchange submessage is
  created or merged field by field, and the has-bit is set only when it is present. The message has no unknown fields and
  its size is within the limit of the runtime.\<close>

theorem ClientConnectedStateRequest_parse_is_merge:
  assumes "wire_runtime L" "ClientConnectedStateRequest_wf m" "ClientConnectedStateRequest_known m"
    "fst (ClientConnectedStateRequest_ByteSizeLong L m) \<le> wire_max"
  shows "ClientConnectedStateRequest_InternalParse L
      (ClientConnectedStateRequest_InternalSerialize L
        (snd (ClientConnectedStateRequest_ByteSizeLong L m)) []) m0 =
    (True, ClientConnectedStateRequest_MergeFrom m0 m)"
  by (rule wire_runtime.ClientConnectedStateRequest_parse_serialize [OF assms])

theorem ClientConnectedStateRequest_parse_is_merge_witness:
  "ClientConnectedStateRequest_InternalParse pb_lib
      (ClientConnectedStateRequest_InternalSerialize pb_lib
        (snd (ClientConnectedStateRequest_ByteSizeLong pb_lib sample_request)) [])
      ClientConnectedStateRequest_new =
    (True, ClientConnectedStateRequest_MergeFrom ClientConnectedStateRequest_new sample_request)"
proof (rule ClientConnectedStateRequest_parse_is_merge)
  show "wire_runtime pb_lib" by (rule pb.wire_runtime_axioms)
  show "fst (ClientConnectedStateRequest_ByteSizeLong pb_lib sample_request) \<le> wire_max"
    by (simp add: KexMsg_ByteSizeLong_def
        ServerConnectedStateResponse_ByteSizeLong_def ClientConnectedStateRequest_ByteSizeLong_def
        sample_response_def sample_request_def wire_max_def)
qed (simp_all add: sample_request_def pb_wf_defs)

text \<open>C40: From a fresh \<open>ServerConnectedStateResponse\<close>, no sequence of the operations of its public interface breaks
  the class invariant: parsing any bytes, whether that succeeds or fails half way, clearing, setting, allocating and
  releasing the fields, merging, copying, assigning, moving and swapping with well-formed messages, and computing the size.
  Whenever the has-bit of \<open>kex\<close> is set the submessage is allocated, so the dereferences in \<open>Clear\<close>, \<open>ByteSizeLong\<close>,
  \<open>_InternalSerialize\<close> and \<open>MergeFrom\<close> never meet a null pointer, and an absent field is blank, so that no stale
  value reappears.\<close>

theorem ServerConnectedStateResponse_invariant:
  assumes "list_all sc_op_ok cs"
  shows "let m = fold sc_exec cs ServerConnectedStateResponse_new in
    (ServerConnectedStateResponse_has_kex m \<longrightarrow> sc_kex m \<noteq> None) \<and>
    (\<not> ServerConnectedStateResponse_has_kex m \<longrightarrow> KexMsg_view (ServerConnectedStateResponse_kex m) = (0, [])) \<and>
    (\<not> ServerConnectedStateResponse_has_iv m \<longrightarrow> ServerConnectedStateResponse_iv m = [])"
proof -
  from sc_run_wf [OF sc_new_wf assms] show ?thesis
    by (auto simp: ServerConnectedStateResponse_wf_def kex_ok_def Let_def KexMsg_view_blank
        ServerConnectedStateResponse_has_kex_def ServerConnectedStateResponse_has_iv_def
        ServerConnectedStateResponse_kex_def ServerConnectedStateResponse_internal_kex_def
        ServerConnectedStateResponse_iv_def ServerConnectedStateResponse_internal_iv_def
        KexMsg_default_instance_def KexMsg_view_def KexMsg_blank_def split: option.splits)
qed

theorem ServerConnectedStateResponse_invariant_witness:
  "let m = fold sc_exec [ScMutableKex (KexMsg_set_alg 1), ScSetIv [5], ScMergeFrom sample_response, ScParse pb_lib [8, 1, 18],
       ScSetAllocatedIv None, ScAssignMove sample_response, ScClearKex, ScReleaseIv] ServerConnectedStateResponse_new in
    (ServerConnectedStateResponse_has_kex m \<longrightarrow> sc_kex m \<noteq> None) \<and>
    (\<not> ServerConnectedStateResponse_has_kex m \<longrightarrow> KexMsg_view (ServerConnectedStateResponse_kex m) = (0, [])) \<and>
    (\<not> ServerConnectedStateResponse_has_iv m \<longrightarrow> ServerConnectedStateResponse_iv m = [])"
  by (rule ServerConnectedStateResponse_invariant) (simp add: sample_response_def pb_wf_defs)

end
