(* ===== verification/PbAuth.thy ===== *)
theory PbAuth
  imports WireRuntime
begin

text \<open>
  The two messages of the authentication state, \<open>ClientAuthRequest\<close> and \<open>ServerAuthResponse\<close>
  (\<open>pcomserver.pb.cc\<close>, \<open>pcomserver.pb.h\<close>).
  
  A submessage pointer is an \<open>option\<close>; the pointer handed out by a \<open>mutable_\<close> accessor is
  modelled by the change its caller makes through it. Messages live on the heap (no arena). A call
  with one object in both roles (\<open>CopyFrom(*this)\<close>, \<open>Swap(this)\<close>) returns at once in the code;
  the two-object operations below are for distinct objects.
\<close>

text \<open>The values of \<open>ClientAuthRequest_RequestType\<close>; a field of this type holds any \<open>int\<close>.\<close>

definition ClientAuthRequest_RequestType_UNKNOWN :: i32 where
  [simp]: "ClientAuthRequest_RequestType_UNKNOWN = 0"

definition ClientAuthRequest_RequestType_AUTH_SUPPLY :: i32 where
  [simp]: "ClientAuthRequest_RequestType_AUTH_SUPPLY = 1"

definition ClientAuthRequest_RequestType_AUTH_INFO :: i32 where
  [simp]: "ClientAuthRequest_RequestType_AUTH_INFO = 2"

definition ClientAuthRequest_RequestType_IsValid :: "int \<Rightarrow> bool" where
  "ClientAuthRequest_RequestType_IsValid v \<longleftrightarrow> 0 \<le> v \<and> v \<le> 2"

definition ClientAuthRequest_RequestType_names :: "string" where
  "ClientAuthRequest_RequestType_names = ''AUTH_INFO'' @ ''AUTH_SUPPLY'' @ ''UNKNOWN''"

definition ClientAuthRequest_RequestType_entries :: "(string \<times> int) list" where
  "ClientAuthRequest_RequestType_entries =
     [(take 9 (drop 0 ClientAuthRequest_RequestType_names), 2),
      (take 11 (drop 9 ClientAuthRequest_RequestType_names), 1),
      (take 7 (drop 20 ClientAuthRequest_RequestType_names), 0)]"

definition ClientAuthRequest_RequestType_entries_by_number :: "nat list" where
  "ClientAuthRequest_RequestType_entries_by_number = [2, 1, 0]"

definition ClientAuthRequest_RequestType_Name ::
    "wire_lib \<Rightarrow> i32 \<Rightarrow> string" where
  "ClientAuthRequest_RequestType_Name L value =
     (let strings = InitializeEnumStrings L ClientAuthRequest_RequestType_entries
            ClientAuthRequest_RequestType_entries_by_number 3;
          idx = LookUpEnumName L ClientAuthRequest_RequestType_entries
            ClientAuthRequest_RequestType_entries_by_number 3 (sint value)
      in if idx = - 1 then [] else strings ! nat idx)"

definition ClientAuthRequest_RequestType_Parse ::
    "wire_lib \<Rightarrow> string \<Rightarrow> i32 option" where
  "ClientAuthRequest_RequestType_Parse L name =
     map_option word_of_int (LookUpEnumValue L ClientAuthRequest_RequestType_entries 3 name)"

section \<open>ClientAuthRequest\<close>

record ClientAuthRequest =
  ca_has_bits :: i32
  ca_cached_size :: i32
  ca_request :: i32
  ca_username :: bytes
  ca_authcredential :: bytes
  ca_unknown :: bytes

definition ClientAuthRequest_default_instance :: "ClientAuthRequest" where
  "ClientAuthRequest_default_instance =
     \<lparr>ca_has_bits = 0, ca_cached_size = 0, ca_request = 0, ca_username = [], ca_authcredential = [], ca_unknown = []\<rparr>"

definition ClientAuthRequest_new :: "ClientAuthRequest" where
  "ClientAuthRequest_new =
     \<lparr>ca_has_bits = 0, ca_cached_size = 0, ca_request = 0, ca_username = [], ca_authcredential = [], ca_unknown = []\<rparr>"

definition ClientAuthRequest_copy :: "ClientAuthRequest \<Rightarrow> ClientAuthRequest" where
  "ClientAuthRequest_copy from =
     \<lparr>ca_has_bits = ca_has_bits from,
      ca_cached_size = 0,
      ca_request = ca_request from,
      ca_username = ca_username from,
      ca_authcredential = ca_authcredential from,
      ca_unknown = ca_unknown from\<rparr>"

definition ClientAuthRequest_Clear :: "ClientAuthRequest \<Rightarrow> ClientAuthRequest" where
  "ClientAuthRequest_Clear m =
     (let bits = ca_has_bits m;
          m = (if bits AND 1 \<noteq> 0 then m\<lparr>ca_username := []\<rparr> else m);
          m = (if bits AND 2 \<noteq> 0 then m\<lparr>ca_authcredential := []\<rparr> else m)
      in m\<lparr>ca_request := 0, ca_has_bits := 0, ca_unknown := []\<rparr>)"

definition ClientAuthRequest_table :: "parse_table" where
  "ClientAuthRequest_table =
     [\<lparr>te_number = 1, te_hasbit = None, te_kind = OpenEnum\<rparr>,
      \<lparr>te_number = 2, te_hasbit = Some 0, te_kind = Utf8String\<rparr>,
      \<lparr>te_number = 3, te_hasbit = Some 1, te_kind = BytesField\<rparr>]"

definition ClientAuthRequest_store ::
    "wire_event \<Rightarrow> ClientAuthRequest \<Rightarrow> bool \<times> ClientAuthRequest" where
  "ClientAuthRequest_store e m =
     (case e of
        EvEnum n v \<Rightarrow> (True, if n = 1 then m\<lparr>ca_request := v\<rparr> else m)
      | EvBytes n s \<Rightarrow> (True, if n = 2 then m\<lparr>ca_username := s, ca_has_bits := ca_has_bits m OR 1\<rparr> else if n = 3 then m\<lparr>ca_authcredential := s, ca_has_bits := ca_has_bits m OR 2\<rparr> else m)
      | EvMessage n s \<Rightarrow> (True, m)
      | EvUnknown raw \<Rightarrow> (True, m\<lparr>ca_unknown := ca_unknown m @ raw\<rparr>))"

definition ClientAuthRequest_InternalParse ::
    "wire_lib \<Rightarrow> bytes \<Rightarrow> ClientAuthRequest \<Rightarrow> bool \<times> ClientAuthRequest" where
  "ClientAuthRequest_InternalParse L bs m =
     run_events (ClientAuthRequest_store) (ParseLoop L ClientAuthRequest_table bs) m"

definition ClientAuthRequest_GetCachedSize :: "ClientAuthRequest \<Rightarrow> int" where
  "ClientAuthRequest_GetCachedSize m = sint (ca_cached_size m)"

definition ClientAuthRequest_InternalSerialize ::
    "wire_lib \<Rightarrow> ClientAuthRequest \<Rightarrow> bytes \<Rightarrow> bytes" where
  "ClientAuthRequest_InternalSerialize L m target =
     (let target = (if ca_request m \<noteq> 0 then target @ WriteEnumToArray L 1 (ca_request m) else target);
          target = (if ca_has_bits m AND 1 \<noteq> 0 then target @ WriteStringMaybeAliased L 2 (ca_username m) else target);
          target = (if ca_has_bits m AND 2 \<noteq> 0 then target @ WriteBytesMaybeAliased L 3 (ca_authcredential m) else target)
      in target @ ca_unknown m)"

definition ClientAuthRequest_ByteSizeLong ::
    "wire_lib \<Rightarrow> ClientAuthRequest \<Rightarrow> nat \<times> ClientAuthRequest" where
  "ClientAuthRequest_ByteSizeLong L m =
     (let total = 0;
          total = (if ca_has_bits m AND 1 \<noteq> 0 then total + 1 + StringSize L (ca_username m) else total);
          total = (if ca_has_bits m AND 2 \<noteq> 0 then total + 1 + BytesSize L (ca_authcredential m) else total);
          total = (if ca_request m \<noteq> 0 then total + 1 + EnumSize L (ca_request m) else total);
          total = total + length (ca_unknown m)
      in (total, m\<lparr>ca_cached_size := ToCachedSize total\<rparr>))"

definition ClientAuthRequest_clear_request ::
    "ClientAuthRequest \<Rightarrow> ClientAuthRequest" where
  "ClientAuthRequest_clear_request m = m\<lparr>ca_request := 0\<rparr>"

definition ClientAuthRequest_internal_request :: "ClientAuthRequest \<Rightarrow> i32" where
  "ClientAuthRequest_internal_request m = ca_request m"

definition ClientAuthRequest_internal_set_request ::
    "i32 \<Rightarrow> ClientAuthRequest \<Rightarrow> ClientAuthRequest" where
  "ClientAuthRequest_internal_set_request v m = m\<lparr>ca_request := v\<rparr>"

definition ClientAuthRequest_request :: "ClientAuthRequest \<Rightarrow> i32" where
  "ClientAuthRequest_request m = ClientAuthRequest_internal_request m"

definition ClientAuthRequest_set_request ::
    "i32 \<Rightarrow> ClientAuthRequest \<Rightarrow> ClientAuthRequest" where
  "ClientAuthRequest_set_request v m = ClientAuthRequest_internal_set_request v m"

definition ClientAuthRequest_has_username :: "ClientAuthRequest \<Rightarrow> bool" where
  "ClientAuthRequest_has_username m \<longleftrightarrow> ca_has_bits m AND 1 \<noteq> 0"

definition ClientAuthRequest_clear_username ::
    "ClientAuthRequest \<Rightarrow> ClientAuthRequest" where
  "ClientAuthRequest_clear_username m =
     m\<lparr>ca_username := [], ca_has_bits := ca_has_bits m AND NOT 1\<rparr>"

definition ClientAuthRequest_internal_username :: "ClientAuthRequest \<Rightarrow> bytes" where
  "ClientAuthRequest_internal_username m = ca_username m"

definition ClientAuthRequest_internal_set_username ::
    "bytes \<Rightarrow> ClientAuthRequest \<Rightarrow> ClientAuthRequest" where
  "ClientAuthRequest_internal_set_username v m =
     m\<lparr>ca_has_bits := ca_has_bits m OR 1, ca_username := v\<rparr>"

definition ClientAuthRequest_internal_mutable_username ::
    "(bytes \<Rightarrow> bytes) \<Rightarrow> ClientAuthRequest \<Rightarrow> ClientAuthRequest" where
  "ClientAuthRequest_internal_mutable_username f m =
     m\<lparr>ca_has_bits := ca_has_bits m OR 1, ca_username := f (ca_username m)\<rparr>"

definition ClientAuthRequest_username :: "ClientAuthRequest \<Rightarrow> bytes" where
  "ClientAuthRequest_username m = ClientAuthRequest_internal_username m"

definition ClientAuthRequest_set_username ::
    "bytes \<Rightarrow> ClientAuthRequest \<Rightarrow> ClientAuthRequest" where
  "ClientAuthRequest_set_username v m =
     m\<lparr>ca_has_bits := ca_has_bits m OR 1, ca_username := v\<rparr>"

definition ClientAuthRequest_mutable_username ::
    "(bytes \<Rightarrow> bytes) \<Rightarrow> ClientAuthRequest \<Rightarrow> ClientAuthRequest" where
  "ClientAuthRequest_mutable_username f m = ClientAuthRequest_internal_mutable_username f m"

definition ClientAuthRequest_release_username :: "ClientAuthRequest \<Rightarrow> bytes option \<times> ClientAuthRequest" where
  "ClientAuthRequest_release_username m =
     (if ca_has_bits m AND 1 = 0 then (None, m)
      else (Some (ca_username m), m\<lparr>ca_has_bits := ca_has_bits m AND NOT 1, ca_username := []\<rparr>))"

definition ClientAuthRequest_set_allocated_username :: "bytes option \<Rightarrow> ClientAuthRequest \<Rightarrow> ClientAuthRequest" where
  "ClientAuthRequest_set_allocated_username value m =
     m\<lparr>ca_has_bits := (if value \<noteq> None then ca_has_bits m OR 1 else ca_has_bits m AND NOT 1),
       ca_username := (case value of None \<Rightarrow> [] | Some v \<Rightarrow> v)\<rparr>"

definition ClientAuthRequest_has_authcredential :: "ClientAuthRequest \<Rightarrow> bool" where
  "ClientAuthRequest_has_authcredential m \<longleftrightarrow> ca_has_bits m AND 2 \<noteq> 0"

definition ClientAuthRequest_clear_authcredential ::
    "ClientAuthRequest \<Rightarrow> ClientAuthRequest" where
  "ClientAuthRequest_clear_authcredential m =
     m\<lparr>ca_authcredential := [], ca_has_bits := ca_has_bits m AND NOT 2\<rparr>"

definition ClientAuthRequest_internal_authcredential ::
    "ClientAuthRequest \<Rightarrow> bytes" where
  "ClientAuthRequest_internal_authcredential m = ca_authcredential m"

definition ClientAuthRequest_internal_set_authcredential ::
    "bytes \<Rightarrow> ClientAuthRequest \<Rightarrow> ClientAuthRequest" where
  "ClientAuthRequest_internal_set_authcredential v m =
     m\<lparr>ca_has_bits := ca_has_bits m OR 2, ca_authcredential := v\<rparr>"

definition ClientAuthRequest_internal_mutable_authcredential ::
    "(bytes \<Rightarrow> bytes) \<Rightarrow> ClientAuthRequest \<Rightarrow> ClientAuthRequest" where
  "ClientAuthRequest_internal_mutable_authcredential f m =
     m\<lparr>ca_has_bits := ca_has_bits m OR 2, ca_authcredential := f (ca_authcredential m)\<rparr>"

definition ClientAuthRequest_authcredential :: "ClientAuthRequest \<Rightarrow> bytes" where
  "ClientAuthRequest_authcredential m = ClientAuthRequest_internal_authcredential m"

definition ClientAuthRequest_set_authcredential ::
    "bytes \<Rightarrow> ClientAuthRequest \<Rightarrow> ClientAuthRequest" where
  "ClientAuthRequest_set_authcredential v m =
     m\<lparr>ca_has_bits := ca_has_bits m OR 2, ca_authcredential := v\<rparr>"

definition ClientAuthRequest_mutable_authcredential ::
    "(bytes \<Rightarrow> bytes) \<Rightarrow> ClientAuthRequest \<Rightarrow> ClientAuthRequest" where
  "ClientAuthRequest_mutable_authcredential f m =
     ClientAuthRequest_internal_mutable_authcredential f m"

definition ClientAuthRequest_release_authcredential :: "ClientAuthRequest \<Rightarrow> bytes option \<times> ClientAuthRequest" where
  "ClientAuthRequest_release_authcredential m =
     (if ca_has_bits m AND 2 = 0 then (None, m)
      else (Some (ca_authcredential m), m\<lparr>ca_has_bits := ca_has_bits m AND NOT 2, ca_authcredential := []\<rparr>))"

definition ClientAuthRequest_set_allocated_authcredential :: "bytes option \<Rightarrow> ClientAuthRequest \<Rightarrow> ClientAuthRequest" where
  "ClientAuthRequest_set_allocated_authcredential value m =
     m\<lparr>ca_has_bits := (if value \<noteq> None then ca_has_bits m OR 2 else ca_has_bits m AND NOT 2),
       ca_authcredential := (case value of None \<Rightarrow> [] | Some v \<Rightarrow> v)\<rparr>"

definition ClientAuthRequest_MergeFrom ::
    "ClientAuthRequest \<Rightarrow> ClientAuthRequest \<Rightarrow> ClientAuthRequest" where
  "ClientAuthRequest_MergeFrom m from =
     (let m = (if ca_has_bits from AND 1 \<noteq> 0 then ClientAuthRequest_internal_set_username (ca_username from) m else m);
          m = (if ca_has_bits from AND 2 \<noteq> 0 then ClientAuthRequest_internal_set_authcredential (ca_authcredential from) m else m);
          m = (if ca_request from \<noteq> 0 then m\<lparr>ca_request := ca_request from\<rparr> else m);
          m = m\<lparr>ca_has_bits := ca_has_bits m OR ca_has_bits from\<rparr>
      in m\<lparr>ca_unknown := ca_unknown m @ ca_unknown from\<rparr>)"

definition ClientAuthRequest_CheckTypeAndMergeFrom ::
    "ClientAuthRequest \<Rightarrow> ClientAuthRequest \<Rightarrow> ClientAuthRequest" where
  "ClientAuthRequest_CheckTypeAndMergeFrom m from = ClientAuthRequest_MergeFrom m from"

definition ClientAuthRequest_CopyFrom ::
    "ClientAuthRequest \<Rightarrow> ClientAuthRequest \<Rightarrow> ClientAuthRequest" where
  "ClientAuthRequest_CopyFrom m from = ClientAuthRequest_MergeFrom (ClientAuthRequest_Clear m) from"

definition ClientAuthRequest_IsInitialized :: "ClientAuthRequest \<Rightarrow> bool" where
  "ClientAuthRequest_IsInitialized m \<longleftrightarrow> True"

definition ClientAuthRequest_InternalSwap ::
    "ClientAuthRequest \<Rightarrow> ClientAuthRequest \<Rightarrow> ClientAuthRequest \<times> ClientAuthRequest" where
  "ClientAuthRequest_InternalSwap this other =
     (this\<lparr>ca_has_bits := ca_has_bits other, ca_request := ca_request other, ca_username := ca_username other, ca_authcredential := ca_authcredential other, ca_unknown := ca_unknown other\<rparr>,
      other\<lparr>ca_has_bits := ca_has_bits this, ca_request := ca_request this, ca_username := ca_username this, ca_authcredential := ca_authcredential this, ca_unknown := ca_unknown this\<rparr>)"

definition ClientAuthRequest_assign ::
    "ClientAuthRequest \<Rightarrow> ClientAuthRequest \<Rightarrow> ClientAuthRequest" where
  "ClientAuthRequest_assign m from = ClientAuthRequest_CopyFrom m from"

definition ClientAuthRequest_assign_move ::
    "ClientAuthRequest \<Rightarrow> ClientAuthRequest \<Rightarrow> ClientAuthRequest \<times> ClientAuthRequest" where
  "ClientAuthRequest_assign_move m from = ClientAuthRequest_InternalSwap m from"

definition ClientAuthRequest_move ::
    "ClientAuthRequest \<Rightarrow> ClientAuthRequest \<times> ClientAuthRequest" where
  "ClientAuthRequest_move from = ClientAuthRequest_assign_move ClientAuthRequest_new from"

definition ClientAuthRequest_Swap ::
    "ClientAuthRequest \<Rightarrow> ClientAuthRequest \<Rightarrow> ClientAuthRequest \<times> ClientAuthRequest" where
  "ClientAuthRequest_Swap this other = ClientAuthRequest_InternalSwap this other"

definition ClientAuthRequest_UnsafeArenaSwap ::
    "ClientAuthRequest \<Rightarrow> ClientAuthRequest \<Rightarrow> ClientAuthRequest \<times> ClientAuthRequest" where
  "ClientAuthRequest_UnsafeArenaSwap this other = ClientAuthRequest_InternalSwap this other"

definition ClientAuthRequest_unknown_fields :: "ClientAuthRequest \<Rightarrow> bytes" where
  "ClientAuthRequest_unknown_fields m = ca_unknown m"

definition ClientAuthRequest_mutable_unknown_fields ::
    "(bytes \<Rightarrow> bytes) \<Rightarrow> ClientAuthRequest \<Rightarrow> ClientAuthRequest" where
  "ClientAuthRequest_mutable_unknown_fields f m = m\<lparr>ca_unknown := f (ca_unknown m)\<rparr>"

text \<open>The values of \<open>ServerAuthResponse_ResponseStatus\<close>; a field of this type holds any \<open>int\<close>.\<close>

definition ServerAuthResponse_ResponseStatus_UNKNOWN :: i32 where
  [simp]: "ServerAuthResponse_ResponseStatus_UNKNOWN = 0"

definition ServerAuthResponse_ResponseStatus_AUTH_ACCEPT :: i32 where
  [simp]: "ServerAuthResponse_ResponseStatus_AUTH_ACCEPT = 1"

definition ServerAuthResponse_ResponseStatus_AUTH_REJECT :: i32 where
  [simp]: "ServerAuthResponse_ResponseStatus_AUTH_REJECT = 2"

definition ServerAuthResponse_ResponseStatus_AUTH_CONTINUE :: i32 where
  [simp]: "ServerAuthResponse_ResponseStatus_AUTH_CONTINUE = 3"

definition ServerAuthResponse_ResponseStatus_INVALID_REQUEST :: i32 where
  [simp]: "ServerAuthResponse_ResponseStatus_INVALID_REQUEST = 4"

definition ServerAuthResponse_ResponseStatus_DECODE_ERROR :: i32 where
  [simp]: "ServerAuthResponse_ResponseStatus_DECODE_ERROR = 5"

definition ServerAuthResponse_ResponseStatus_IsValid :: "int \<Rightarrow> bool" where
  "ServerAuthResponse_ResponseStatus_IsValid v \<longleftrightarrow> 0 \<le> v \<and> v \<le> 5"

definition ServerAuthResponse_ResponseStatus_names :: "string" where
  "ServerAuthResponse_ResponseStatus_names =
     ''AUTH_ACCEPT'' @ ''AUTH_CONTINUE'' @ ''AUTH_REJECT'' @ ''DECODE_ERROR'' @ ''INVALID_REQUEST'' @ ''UNKNOWN''"

definition ServerAuthResponse_ResponseStatus_entries :: "(string \<times> int) list" where
  "ServerAuthResponse_ResponseStatus_entries =
     [(take 11 (drop 0 ServerAuthResponse_ResponseStatus_names), 1),
      (take 13 (drop 11 ServerAuthResponse_ResponseStatus_names), 3),
      (take 11 (drop 24 ServerAuthResponse_ResponseStatus_names), 2),
      (take 12 (drop 35 ServerAuthResponse_ResponseStatus_names), 5),
      (take 15 (drop 47 ServerAuthResponse_ResponseStatus_names), 4),
      (take 7 (drop 62 ServerAuthResponse_ResponseStatus_names), 0)]"

definition ServerAuthResponse_ResponseStatus_entries_by_number :: "nat list" where
  "ServerAuthResponse_ResponseStatus_entries_by_number = [5, 0, 2, 1, 4, 3]"

definition ServerAuthResponse_ResponseStatus_Name ::
    "wire_lib \<Rightarrow> i32 \<Rightarrow> string" where
  "ServerAuthResponse_ResponseStatus_Name L value =
     (let strings = InitializeEnumStrings L ServerAuthResponse_ResponseStatus_entries
            ServerAuthResponse_ResponseStatus_entries_by_number 6;
          idx = LookUpEnumName L ServerAuthResponse_ResponseStatus_entries
            ServerAuthResponse_ResponseStatus_entries_by_number 6 (sint value)
      in if idx = - 1 then [] else strings ! nat idx)"

definition ServerAuthResponse_ResponseStatus_Parse ::
    "wire_lib \<Rightarrow> string \<Rightarrow> i32 option" where
  "ServerAuthResponse_ResponseStatus_Parse L name =
     map_option word_of_int (LookUpEnumValue L ServerAuthResponse_ResponseStatus_entries 6 name)"

section \<open>ServerAuthResponse\<close>

record ServerAuthResponse =
  sa_has_bits :: i32
  sa_cached_size :: i32
  sa_status :: i32
  sa_serverinfo :: bytes
  sa_unknown :: bytes

definition ServerAuthResponse_default_instance :: "ServerAuthResponse" where
  "ServerAuthResponse_default_instance =
     \<lparr>sa_has_bits = 0, sa_cached_size = 0, sa_status = 0, sa_serverinfo = [], sa_unknown = []\<rparr>"

definition ServerAuthResponse_new :: "ServerAuthResponse" where
  "ServerAuthResponse_new =
     \<lparr>sa_has_bits = 0, sa_cached_size = 0, sa_status = 0, sa_serverinfo = [], sa_unknown = []\<rparr>"

definition ServerAuthResponse_copy :: "ServerAuthResponse \<Rightarrow> ServerAuthResponse" where
  "ServerAuthResponse_copy from =
     \<lparr>sa_has_bits = sa_has_bits from,
      sa_cached_size = 0,
      sa_status = sa_status from,
      sa_serverinfo = sa_serverinfo from,
      sa_unknown = sa_unknown from\<rparr>"

definition ServerAuthResponse_Clear :: "ServerAuthResponse \<Rightarrow> ServerAuthResponse" where
  "ServerAuthResponse_Clear m =
     (let bits = sa_has_bits m;
          m = (if bits AND 1 \<noteq> 0 then m\<lparr>sa_serverinfo := []\<rparr> else m)
      in m\<lparr>sa_status := 0, sa_has_bits := 0, sa_unknown := []\<rparr>)"

definition ServerAuthResponse_table :: "parse_table" where
  "ServerAuthResponse_table =
     [\<lparr>te_number = 1, te_hasbit = None, te_kind = OpenEnum\<rparr>,
      \<lparr>te_number = 2, te_hasbit = Some 0, te_kind = Utf8String\<rparr>]"

definition ServerAuthResponse_store ::
    "wire_event \<Rightarrow> ServerAuthResponse \<Rightarrow> bool \<times> ServerAuthResponse" where
  "ServerAuthResponse_store e m =
     (case e of
        EvEnum n v \<Rightarrow> (True, if n = 1 then m\<lparr>sa_status := v\<rparr> else m)
      | EvBytes n s \<Rightarrow> (True, if n = 2 then m\<lparr>sa_serverinfo := s, sa_has_bits := sa_has_bits m OR 1\<rparr> else m)
      | EvMessage n s \<Rightarrow> (True, m)
      | EvUnknown raw \<Rightarrow> (True, m\<lparr>sa_unknown := sa_unknown m @ raw\<rparr>))"

definition ServerAuthResponse_InternalParse ::
    "wire_lib \<Rightarrow> bytes \<Rightarrow> ServerAuthResponse \<Rightarrow> bool \<times> ServerAuthResponse" where
  "ServerAuthResponse_InternalParse L bs m =
     run_events (ServerAuthResponse_store) (ParseLoop L ServerAuthResponse_table bs) m"

definition ServerAuthResponse_GetCachedSize :: "ServerAuthResponse \<Rightarrow> int" where
  "ServerAuthResponse_GetCachedSize m = sint (sa_cached_size m)"

definition ServerAuthResponse_InternalSerialize ::
    "wire_lib \<Rightarrow> ServerAuthResponse \<Rightarrow> bytes \<Rightarrow> bytes" where
  "ServerAuthResponse_InternalSerialize L m target =
     (let target = (if sa_status m \<noteq> 0 then target @ WriteEnumToArray L 1 (sa_status m) else target);
          target = (if sa_has_bits m AND 1 \<noteq> 0 then target @ WriteStringMaybeAliased L 2 (sa_serverinfo m) else target)
      in target @ sa_unknown m)"

definition ServerAuthResponse_ByteSizeLong ::
    "wire_lib \<Rightarrow> ServerAuthResponse \<Rightarrow> nat \<times> ServerAuthResponse" where
  "ServerAuthResponse_ByteSizeLong L m =
     (let total = 0;
          total = (if sa_has_bits m AND 1 \<noteq> 0 then total + 1 + StringSize L (sa_serverinfo m) else total);
          total = (if sa_status m \<noteq> 0 then total + 1 + EnumSize L (sa_status m) else total);
          total = total + length (sa_unknown m)
      in (total, m\<lparr>sa_cached_size := ToCachedSize total\<rparr>))"

definition ServerAuthResponse_clear_status ::
    "ServerAuthResponse \<Rightarrow> ServerAuthResponse" where
  "ServerAuthResponse_clear_status m = m\<lparr>sa_status := 0\<rparr>"

definition ServerAuthResponse_internal_status :: "ServerAuthResponse \<Rightarrow> i32" where
  "ServerAuthResponse_internal_status m = sa_status m"

definition ServerAuthResponse_internal_set_status ::
    "i32 \<Rightarrow> ServerAuthResponse \<Rightarrow> ServerAuthResponse" where
  "ServerAuthResponse_internal_set_status v m = m\<lparr>sa_status := v\<rparr>"

definition ServerAuthResponse_status :: "ServerAuthResponse \<Rightarrow> i32" where
  "ServerAuthResponse_status m = ServerAuthResponse_internal_status m"

definition ServerAuthResponse_set_status ::
    "i32 \<Rightarrow> ServerAuthResponse \<Rightarrow> ServerAuthResponse" where
  "ServerAuthResponse_set_status v m = ServerAuthResponse_internal_set_status v m"

definition ServerAuthResponse_has_serverinfo :: "ServerAuthResponse \<Rightarrow> bool" where
  "ServerAuthResponse_has_serverinfo m \<longleftrightarrow> sa_has_bits m AND 1 \<noteq> 0"

definition ServerAuthResponse_clear_serverinfo ::
    "ServerAuthResponse \<Rightarrow> ServerAuthResponse" where
  "ServerAuthResponse_clear_serverinfo m =
     m\<lparr>sa_serverinfo := [], sa_has_bits := sa_has_bits m AND NOT 1\<rparr>"

definition ServerAuthResponse_internal_serverinfo :: "ServerAuthResponse \<Rightarrow> bytes" where
  "ServerAuthResponse_internal_serverinfo m = sa_serverinfo m"

definition ServerAuthResponse_internal_set_serverinfo ::
    "bytes \<Rightarrow> ServerAuthResponse \<Rightarrow> ServerAuthResponse" where
  "ServerAuthResponse_internal_set_serverinfo v m =
     m\<lparr>sa_has_bits := sa_has_bits m OR 1, sa_serverinfo := v\<rparr>"

definition ServerAuthResponse_internal_mutable_serverinfo ::
    "(bytes \<Rightarrow> bytes) \<Rightarrow> ServerAuthResponse \<Rightarrow> ServerAuthResponse" where
  "ServerAuthResponse_internal_mutable_serverinfo f m =
     m\<lparr>sa_has_bits := sa_has_bits m OR 1, sa_serverinfo := f (sa_serverinfo m)\<rparr>"

definition ServerAuthResponse_serverinfo :: "ServerAuthResponse \<Rightarrow> bytes" where
  "ServerAuthResponse_serverinfo m = ServerAuthResponse_internal_serverinfo m"

definition ServerAuthResponse_set_serverinfo ::
    "bytes \<Rightarrow> ServerAuthResponse \<Rightarrow> ServerAuthResponse" where
  "ServerAuthResponse_set_serverinfo v m =
     m\<lparr>sa_has_bits := sa_has_bits m OR 1, sa_serverinfo := v\<rparr>"

definition ServerAuthResponse_mutable_serverinfo ::
    "(bytes \<Rightarrow> bytes) \<Rightarrow> ServerAuthResponse \<Rightarrow> ServerAuthResponse" where
  "ServerAuthResponse_mutable_serverinfo f m = ServerAuthResponse_internal_mutable_serverinfo f m"

definition ServerAuthResponse_release_serverinfo :: "ServerAuthResponse \<Rightarrow> bytes option \<times> ServerAuthResponse" where
  "ServerAuthResponse_release_serverinfo m =
     (if sa_has_bits m AND 1 = 0 then (None, m)
      else (Some (sa_serverinfo m), m\<lparr>sa_has_bits := sa_has_bits m AND NOT 1, sa_serverinfo := []\<rparr>))"

definition ServerAuthResponse_set_allocated_serverinfo :: "bytes option \<Rightarrow> ServerAuthResponse \<Rightarrow> ServerAuthResponse" where
  "ServerAuthResponse_set_allocated_serverinfo value m =
     m\<lparr>sa_has_bits := (if value \<noteq> None then sa_has_bits m OR 1 else sa_has_bits m AND NOT 1),
       sa_serverinfo := (case value of None \<Rightarrow> [] | Some v \<Rightarrow> v)\<rparr>"

definition ServerAuthResponse_MergeFrom ::
    "ServerAuthResponse \<Rightarrow> ServerAuthResponse \<Rightarrow> ServerAuthResponse" where
  "ServerAuthResponse_MergeFrom m from =
     (let m = (if sa_has_bits from AND 1 \<noteq> 0 then ServerAuthResponse_internal_set_serverinfo (sa_serverinfo from) m else m);
          m = (if sa_status from \<noteq> 0 then m\<lparr>sa_status := sa_status from\<rparr> else m);
          m = m\<lparr>sa_has_bits := sa_has_bits m OR sa_has_bits from\<rparr>
      in m\<lparr>sa_unknown := sa_unknown m @ sa_unknown from\<rparr>)"

definition ServerAuthResponse_CheckTypeAndMergeFrom ::
    "ServerAuthResponse \<Rightarrow> ServerAuthResponse \<Rightarrow> ServerAuthResponse" where
  "ServerAuthResponse_CheckTypeAndMergeFrom m from = ServerAuthResponse_MergeFrom m from"

definition ServerAuthResponse_CopyFrom ::
    "ServerAuthResponse \<Rightarrow> ServerAuthResponse \<Rightarrow> ServerAuthResponse" where
  "ServerAuthResponse_CopyFrom m from =
     ServerAuthResponse_MergeFrom (ServerAuthResponse_Clear m) from"

definition ServerAuthResponse_IsInitialized :: "ServerAuthResponse \<Rightarrow> bool" where
  "ServerAuthResponse_IsInitialized m \<longleftrightarrow> True"

definition ServerAuthResponse_InternalSwap ::
    "ServerAuthResponse \<Rightarrow> ServerAuthResponse \<Rightarrow> ServerAuthResponse \<times> ServerAuthResponse" where
  "ServerAuthResponse_InternalSwap this other =
     (this\<lparr>sa_has_bits := sa_has_bits other, sa_status := sa_status other, sa_serverinfo := sa_serverinfo other, sa_unknown := sa_unknown other\<rparr>,
      other\<lparr>sa_has_bits := sa_has_bits this, sa_status := sa_status this, sa_serverinfo := sa_serverinfo this, sa_unknown := sa_unknown this\<rparr>)"

definition ServerAuthResponse_assign ::
    "ServerAuthResponse \<Rightarrow> ServerAuthResponse \<Rightarrow> ServerAuthResponse" where
  "ServerAuthResponse_assign m from = ServerAuthResponse_CopyFrom m from"

definition ServerAuthResponse_assign_move ::
    "ServerAuthResponse \<Rightarrow> ServerAuthResponse \<Rightarrow> ServerAuthResponse \<times> ServerAuthResponse" where
  "ServerAuthResponse_assign_move m from = ServerAuthResponse_InternalSwap m from"

definition ServerAuthResponse_move ::
    "ServerAuthResponse \<Rightarrow> ServerAuthResponse \<times> ServerAuthResponse" where
  "ServerAuthResponse_move from = ServerAuthResponse_assign_move ServerAuthResponse_new from"

definition ServerAuthResponse_Swap ::
    "ServerAuthResponse \<Rightarrow> ServerAuthResponse \<Rightarrow> ServerAuthResponse \<times> ServerAuthResponse" where
  "ServerAuthResponse_Swap this other = ServerAuthResponse_InternalSwap this other"

definition ServerAuthResponse_UnsafeArenaSwap ::
    "ServerAuthResponse \<Rightarrow> ServerAuthResponse \<Rightarrow> ServerAuthResponse \<times> ServerAuthResponse" where
  "ServerAuthResponse_UnsafeArenaSwap this other = ServerAuthResponse_InternalSwap this other"

definition ServerAuthResponse_unknown_fields :: "ServerAuthResponse \<Rightarrow> bytes" where
  "ServerAuthResponse_unknown_fields m = sa_unknown m"

definition ServerAuthResponse_mutable_unknown_fields ::
    "(bytes \<Rightarrow> bytes) \<Rightarrow> ServerAuthResponse \<Rightarrow> ServerAuthResponse" where
  "ServerAuthResponse_mutable_unknown_fields f m = m\<lparr>sa_unknown := f (sa_unknown m)\<rparr>"

section \<open>Lemmas\<close>

text \<open>
  The class invariants (only declared has-bits are set, an absent field is empty), the view of a
  message, and which messages the runtime can carry without loss: no unknown fields, and every
  string that is present is valid UTF-8, which the parser checks and the serializer does not.
\<close>

definition ClientAuthRequest_wf :: "ClientAuthRequest \<Rightarrow> bool" where
  "ClientAuthRequest_wf m \<longleftrightarrow>
     ca_has_bits m \<in> {0, 1, 2, 3} \<and> (ca_has_bits m AND 1 = 0 \<longrightarrow> ca_username m = []) \<and>
     (ca_has_bits m AND 2 = 0 \<longrightarrow> ca_authcredential m = [])"

definition ClientAuthRequest_view :: "ClientAuthRequest \<Rightarrow> i32 \<times> bytes option \<times> bytes option" where
  "ClientAuthRequest_view m =
     (ca_request m, if ca_has_bits m AND 1 \<noteq> 0 then Some (ca_username m) else None,
      if ca_has_bits m AND 2 \<noteq> 0 then Some (ca_authcredential m) else None)"

definition ClientAuthRequest_utf8 :: "wire_lib \<Rightarrow> ClientAuthRequest \<Rightarrow> bool" where
  "ClientAuthRequest_utf8 L m \<longleftrightarrow> ca_has_bits m AND 1 = 0 \<or> VerifyUtf8 L (ca_username m)"

definition ServerAuthResponse_wf :: "ServerAuthResponse \<Rightarrow> bool" where
  "ServerAuthResponse_wf m \<longleftrightarrow>
     sa_has_bits m \<in> {0, 1} \<and> (sa_has_bits m AND 1 = 0 \<longrightarrow> sa_serverinfo m = [])"

definition ServerAuthResponse_view :: "ServerAuthResponse \<Rightarrow> i32 \<times> bytes option" where
  "ServerAuthResponse_view m =
     (sa_status m, if sa_has_bits m AND 1 \<noteq> 0 then Some (sa_serverinfo m) else None)"

definition ServerAuthResponse_utf8 :: "wire_lib \<Rightarrow> ServerAuthResponse \<Rightarrow> bool" where
  "ServerAuthResponse_utf8 L m \<longleftrightarrow> sa_has_bits m AND 1 = 0 \<or> VerifyUtf8 L (sa_serverinfo m)"

lemma ClientAuthRequest_MergeFrom_fields:
  "ClientAuthRequest_MergeFrom m from =
     m\<lparr>ca_has_bits := (let w = (if ca_has_bits from AND 1 \<noteq> 0 then ca_has_bits m OR 1 else ca_has_bits m)
          in (if ca_has_bits from AND 2 \<noteq> 0 then w OR 2 else w) OR ca_has_bits from),
       ca_request := (if ca_request from \<noteq> 0 then ca_request from else ca_request m),
       ca_username := (if ca_has_bits from AND 1 \<noteq> 0 then ca_username from else ca_username m),
       ca_authcredential := (if ca_has_bits from AND 2 \<noteq> 0 then ca_authcredential from
          else ca_authcredential m),
       ca_unknown := ca_unknown m @ ca_unknown from\<rparr>"
  by (cases m) (simp add: ClientAuthRequest_MergeFrom_def ClientAuthRequest_internal_set_username_def
      ClientAuthRequest_internal_set_authcredential_def Let_def)

lemma ServerAuthResponse_MergeFrom_fields:
  "ServerAuthResponse_MergeFrom m from =
     m\<lparr>sa_has_bits := (if sa_has_bits from AND 1 \<noteq> 0 then sa_has_bits m OR 1 else sa_has_bits m)
          OR sa_has_bits from,
       sa_status := (if sa_status from \<noteq> 0 then sa_status from else sa_status m),
       sa_serverinfo := (if sa_has_bits from AND 1 \<noteq> 0 then sa_serverinfo from else sa_serverinfo m),
       sa_unknown := sa_unknown m @ sa_unknown from\<rparr>"
  by (cases m) (simp add: ServerAuthResponse_MergeFrom_def ServerAuthResponse_internal_set_serverinfo_def Let_def)

lemma ClientAuthRequest_Clear_wf:
  "ClientAuthRequest_wf m \<Longrightarrow>
     ClientAuthRequest_Clear m =
       m\<lparr>ca_has_bits := 0, ca_request := 0, ca_username := [], ca_authcredential := [], ca_unknown := []\<rparr>"
  by (cases m) (simp add: ClientAuthRequest_Clear_def ClientAuthRequest_wf_def Let_def)

lemma ServerAuthResponse_Clear_wf:
  "ServerAuthResponse_wf m \<Longrightarrow>
     ServerAuthResponse_Clear m = m\<lparr>sa_has_bits := 0, sa_status := 0, sa_serverinfo := [], sa_unknown := []\<rparr>"
  by (cases m) (simp add: ServerAuthResponse_Clear_def ServerAuthResponse_wf_def Let_def)

lemma ClientAuthRequest_copy_view:
  assumes "ClientAuthRequest_wf m0" "ClientAuthRequest_wf m"
  shows "ClientAuthRequest_view (ClientAuthRequest_CopyFrom m0 m) = ClientAuthRequest_view m"
  using assms(2)
  by (auto simp: ClientAuthRequest_CopyFrom_def ClientAuthRequest_Clear_wf [OF assms(1)]
      ClientAuthRequest_MergeFrom_fields ClientAuthRequest_view_def ClientAuthRequest_wf_def)

lemma ServerAuthResponse_copy_view:
  assumes "ServerAuthResponse_wf m0" "ServerAuthResponse_wf m"
  shows "ServerAuthResponse_view (ServerAuthResponse_CopyFrom m0 m) = ServerAuthResponse_view m"
  using assms(2)
  by (auto simp: ServerAuthResponse_CopyFrom_def ServerAuthResponse_Clear_wf [OF assms(1)]
      ServerAuthResponse_MergeFrom_fields ServerAuthResponse_view_def ServerAuthResponse_wf_def)

lemma ClientAuthRequest_copy_wf:
  assumes "ClientAuthRequest_wf m0" "ClientAuthRequest_wf m"
  shows "ClientAuthRequest_wf (ClientAuthRequest_CopyFrom m0 m)"
  using assms(2)
  by (auto simp: ClientAuthRequest_CopyFrom_def ClientAuthRequest_Clear_wf [OF assms(1)]
      ClientAuthRequest_MergeFrom_fields ClientAuthRequest_wf_def)

lemma ServerAuthResponse_copy_wf:
  assumes "ServerAuthResponse_wf m0" "ServerAuthResponse_wf m"
  shows "ServerAuthResponse_wf (ServerAuthResponse_CopyFrom m0 m)"
  using assms(2)
  by (auto simp: ServerAuthResponse_CopyFrom_def ServerAuthResponse_Clear_wf [OF assms(1)]
      ServerAuthResponse_MergeFrom_fields ServerAuthResponse_wf_def)

subsection \<open>Sizes, serialization, parsing\<close>

lemma ClientAuthRequest_ByteSizeLong_fields:
  "ClientAuthRequest_ByteSizeLong L m =
     (let n = (if ca_has_bits m AND 1 \<noteq> 0 then 1 + StringSize L (ca_username m) else 0) +
              (if ca_has_bits m AND 2 \<noteq> 0 then 1 + BytesSize L (ca_authcredential m) else 0) +
              (if ca_request m \<noteq> 0 then 1 + EnumSize L (ca_request m) else 0) + length (ca_unknown m)
      in (n, m\<lparr>ca_cached_size := ToCachedSize n\<rparr>))"
  by (simp add: ClientAuthRequest_ByteSizeLong_def Let_def)

lemma ServerAuthResponse_ByteSizeLong_fields:
  "ServerAuthResponse_ByteSizeLong L m =
     (let n = (if sa_has_bits m AND 1 \<noteq> 0 then 1 + StringSize L (sa_serverinfo m) else 0) +
              (if sa_status m \<noteq> 0 then 1 + EnumSize L (sa_status m) else 0) + length (sa_unknown m)
      in (n, m\<lparr>sa_cached_size := ToCachedSize n\<rparr>))"
  by (simp add: ServerAuthResponse_ByteSizeLong_def Let_def)

lemma ClientAuthRequest_Serialize_fields:
  "ClientAuthRequest_InternalSerialize L m [] =
     (if ca_request m \<noteq> 0 then WriteEnumToArray L (Suc 0) (ca_request m) else []) @
     (if ca_has_bits m AND 1 \<noteq> 0 then WriteStringMaybeAliased L 2 (ca_username m) else []) @
     (if ca_has_bits m AND 2 \<noteq> 0 then WriteBytesMaybeAliased L 3 (ca_authcredential m) else []) @
     ca_unknown m"
  by (simp add: ClientAuthRequest_InternalSerialize_def Let_def)

lemma ServerAuthResponse_Serialize_fields:
  "ServerAuthResponse_InternalSerialize L m [] =
     (if sa_status m \<noteq> 0 then WriteEnumToArray L (Suc 0) (sa_status m) else []) @
     (if sa_has_bits m AND 1 \<noteq> 0 then WriteStringMaybeAliased L 2 (sa_serverinfo m) else []) @
     sa_unknown m"
  by (simp add: ServerAuthResponse_InternalSerialize_def Let_def)

lemma ClientAuthRequest_serialize_cached [simp]:
  "ClientAuthRequest_InternalSerialize L (snd (ClientAuthRequest_ByteSizeLong L m)) [] =
     ClientAuthRequest_InternalSerialize L m []"
  by (simp add: ClientAuthRequest_ByteSizeLong_fields ClientAuthRequest_Serialize_fields Let_def)

lemma ServerAuthResponse_serialize_cached [simp]:
  "ServerAuthResponse_InternalSerialize L (snd (ServerAuthResponse_ByteSizeLong L m)) [] =
     ServerAuthResponse_InternalSerialize L m []"
  by (simp add: ServerAuthResponse_ByteSizeLong_fields ServerAuthResponse_Serialize_fields Let_def)

lemma kind_of_auth:
  "kind_of ClientAuthRequest_table (Suc 0) = Some OpenEnum"
  "kind_of ClientAuthRequest_table 2 = Some Utf8String"
  "kind_of ClientAuthRequest_table 3 = Some BytesField"
  "kind_of ServerAuthResponse_table (Suc 0) = Some OpenEnum"
  "kind_of ServerAuthResponse_table 2 = Some Utf8String"
  by (simp_all add: kind_of_def ClientAuthRequest_table_def ServerAuthResponse_table_def)

context wire_runtime
begin

lemma ClientAuthRequest_fits:
  assumes "fst (ClientAuthRequest_ByteSizeLong L m) \<le> wire_max"
  shows "ca_has_bits m AND 1 \<noteq> 0 \<longrightarrow> length (ca_username m) \<le> wire_max"
    and "ca_has_bits m AND 2 \<noteq> 0 \<longrightarrow> length (ca_authcredential m) \<le> wire_max"
  using assms size_string [of "ca_username m"] size_bytes [of "ca_authcredential m"]
  by (auto simp: ClientAuthRequest_ByteSizeLong_fields Let_def)

lemma ServerAuthResponse_fits:
  assumes "fst (ServerAuthResponse_ByteSizeLong L m) \<le> wire_max"
  shows "sa_has_bits m AND 1 \<noteq> 0 \<longrightarrow> length (sa_serverinfo m) \<le> wire_max"
  using assms size_string [of "sa_serverinfo m"]
  by (auto simp: ServerAuthResponse_ByteSizeLong_fields Let_def)

lemma ClientAuthRequest_length:
  assumes "fst (ClientAuthRequest_ByteSizeLong L m) \<le> wire_max"
  shows "length (ClientAuthRequest_InternalSerialize L m []) = fst (ClientAuthRequest_ByteSizeLong L m)"
  using ClientAuthRequest_fits [OF assms]
  by (simp add: ClientAuthRequest_ByteSizeLong_fields ClientAuthRequest_Serialize_fields Let_def wire_length)

lemma ServerAuthResponse_length:
  assumes "fst (ServerAuthResponse_ByteSizeLong L m) \<le> wire_max"
  shows "length (ServerAuthResponse_InternalSerialize L m []) = fst (ServerAuthResponse_ByteSizeLong L m)"
  using ServerAuthResponse_fits [OF assms]
  by (simp add: ServerAuthResponse_ByteSizeLong_fields ServerAuthResponse_Serialize_fields Let_def wire_length)

lemma ca_parse_request:
  "ClientAuthRequest_InternalParse L
     ((if v \<noteq> 0 then WriteEnumToArray L (Suc 0) v else []) @ rest) m' =
   ClientAuthRequest_InternalParse L rest (m'\<lparr>ca_request := (if v \<noteq> 0 then v else ca_request m')\<rparr>)"
  by (simp add: ClientAuthRequest_InternalParse_def parse_enum_1 kind_of_auth ClientAuthRequest_store_def)

lemma ca_parse_username:
  assumes "p \<longrightarrow> length s \<le> wire_max"
  shows "ClientAuthRequest_InternalParse L ((if p then WriteStringMaybeAliased L 2 s else []) @ rest) m' =
   (if p \<and> \<not> VerifyUtf8 L s then (False, m')
    else ClientAuthRequest_InternalParse L rest
      (m'\<lparr>ca_has_bits := (if p then ca_has_bits m' OR 1 else ca_has_bits m'),
          ca_username := (if p then s else ca_username m')\<rparr>))"
  using assms by (cases m') (simp add: ClientAuthRequest_InternalParse_def parse_string kind_of_auth
      ClientAuthRequest_store_def)

lemma ca_parse_credential:
  assumes "p \<longrightarrow> length s \<le> wire_max"
  shows "ClientAuthRequest_InternalParse L ((if p then WriteBytesMaybeAliased L 3 s else []) @ rest) m' =
    ClientAuthRequest_InternalParse L rest
      (m'\<lparr>ca_has_bits := (if p then ca_has_bits m' OR 2 else ca_has_bits m'),
          ca_authcredential := (if p then s else ca_authcredential m')\<rparr>)"
  using assms by (cases m') (simp add: ClientAuthRequest_InternalParse_def parse_bytes kind_of_auth
      ClientAuthRequest_store_def)

lemma ClientAuthRequest_parse_Nil: "ClientAuthRequest_InternalParse L [] m' = (True, m')"
  by (simp add: ClientAuthRequest_InternalParse_def parse_Nil)

lemma ClientAuthRequest_parse_serialize:
  assumes wf: "ClientAuthRequest_wf m" and u: "ca_unknown m = []"
    and le: "fst (ClientAuthRequest_ByteSizeLong L m) \<le> wire_max"
  shows "ClientAuthRequest_InternalParse L (ClientAuthRequest_InternalSerialize L m []) m0 =
    (if ClientAuthRequest_utf8 L m then (True, ClientAuthRequest_MergeFrom m0 m)
     else (False, m0\<lparr>ca_request := (if ca_request m \<noteq> 0 then ca_request m else ca_request m0)\<rparr>))"
proof -
  note fits = ClientAuthRequest_fits [OF le]
  show ?thesis
    unfolding ClientAuthRequest_Serialize_fields u ca_parse_request ca_parse_username [OF fits(1)]
      ca_parse_credential [OF fits(2)] ClientAuthRequest_parse_Nil ClientAuthRequest_MergeFrom_fields
    using wf by (cases m0) (auto simp: ClientAuthRequest_wf_def ClientAuthRequest_utf8_def or.assoc u)
qed

lemma sa_parse_status:
  "ServerAuthResponse_InternalParse L
     ((if v \<noteq> 0 then WriteEnumToArray L (Suc 0) v else []) @ rest) m' =
   ServerAuthResponse_InternalParse L rest (m'\<lparr>sa_status := (if v \<noteq> 0 then v else sa_status m')\<rparr>)"
  by (simp add: ServerAuthResponse_InternalParse_def parse_enum_1 kind_of_auth ServerAuthResponse_store_def)

lemma sa_parse_serverinfo:
  assumes "p \<longrightarrow> length s \<le> wire_max"
  shows "ServerAuthResponse_InternalParse L ((if p then WriteStringMaybeAliased L 2 s else []) @ rest) m' =
   (if p \<and> \<not> VerifyUtf8 L s then (False, m')
    else ServerAuthResponse_InternalParse L rest
      (m'\<lparr>sa_has_bits := (if p then sa_has_bits m' OR 1 else sa_has_bits m'),
          sa_serverinfo := (if p then s else sa_serverinfo m')\<rparr>))"
  using assms by (cases m') (simp add: ServerAuthResponse_InternalParse_def parse_string kind_of_auth
      ServerAuthResponse_store_def)

lemma ServerAuthResponse_parse_Nil: "ServerAuthResponse_InternalParse L [] m' = (True, m')"
  by (simp add: ServerAuthResponse_InternalParse_def parse_Nil)

lemma ServerAuthResponse_parse_serialize:
  assumes wf: "ServerAuthResponse_wf m" and u: "sa_unknown m = []"
    and le: "fst (ServerAuthResponse_ByteSizeLong L m) \<le> wire_max"
  shows "ServerAuthResponse_InternalParse L (ServerAuthResponse_InternalSerialize L m []) m0 =
    (if ServerAuthResponse_utf8 L m then (True, ServerAuthResponse_MergeFrom m0 m)
     else (False, m0\<lparr>sa_status := (if sa_status m \<noteq> 0 then sa_status m else sa_status m0)\<rparr>))"
proof -
  note fits = ServerAuthResponse_fits [OF le]
  show ?thesis
    unfolding ServerAuthResponse_Serialize_fields u sa_parse_status sa_parse_serverinfo [OF fits]
      ServerAuthResponse_parse_Nil ServerAuthResponse_MergeFrom_fields
    using wf by (cases m0) (auto simp: ServerAuthResponse_wf_def ServerAuthResponse_utf8_def or.assoc u)
qed

end

lemma enum_tables_auth:
  "enum_table_ok ClientAuthRequest_RequestType_entries ClientAuthRequest_RequestType_entries_by_number 3"
  "enum_table_ok ServerAuthResponse_ResponseStatus_entries
     ServerAuthResponse_ResponseStatus_entries_by_number 6"
  by code_simp+

section \<open>Properties\<close>

text \<open>A well-formed \<open>ClientAuthRequest\<close> without unknown fields survives the wire if and only if its
  user name is valid UTF-8: parsing its serialization into a cleared message succeeds exactly then,
  and the result reads the same. The serializer itself accepts any bytes.\<close>

lemma ClientAuthRequest_roundtrip:
  assumes "wire_runtime L" "ClientAuthRequest_wf m" "ClientAuthRequest_wf m0" "ca_unknown m = []"
    "fst (ClientAuthRequest_ByteSizeLong L m) \<le> wire_max"
  shows "\<exists>m'. ClientAuthRequest_InternalParse L
      (ClientAuthRequest_InternalSerialize L (snd (ClientAuthRequest_ByteSizeLong L m)) [])
      (ClientAuthRequest_Clear m0) = (ClientAuthRequest_utf8 L m, m') \<and>
    (ClientAuthRequest_utf8 L m \<longrightarrow> ClientAuthRequest_view m' = ClientAuthRequest_view m)"
  using wire_runtime.ClientAuthRequest_parse_serialize [OF assms(1,2,4,5)]
    ClientAuthRequest_copy_view [OF assms(3,2)]
  by (simp add: ClientAuthRequest_CopyFrom_def)

definition sample_auth :: ClientAuthRequest where
  "sample_auth =
     \<lparr>ca_has_bits = 3, ca_cached_size = 0, ca_request = 1, ca_username = [117, 49],
      ca_authcredential = [200, 1], ca_unknown = []\<rparr>"

end
