(* ===== verification/PbUser.thy ===== *)
theory PbUser
  imports WireRuntime
begin

text \<open>
  The two messages of the user protocol, \<open>UserRequest\<close> and \<open>ServerResponse\<close>
  (\<open>testuserprotocol.pb.cc\<close>, \<open>testuserprotocol.pb.h\<close>). They are full messages (\<open>Message\<close>, with
  descriptors) where those of the protocol are lite; a set of unknown fields is kept as the bytes it is
  serialized to. The descriptors, the metadata and reflection are not modelled.
  
  Messages live on the heap (no arena). \<open>release_msg\<close> gives the bytes of the field; the null pointer it returns
  for a string that was never allocated is read as the empty string. A call with one object in both roles (\<open>CopyFrom(*this)\<close>,
  \<open>Swap(this)\<close>) returns at once in the code; the two-object operations below are for distinct objects.
\<close>

section \<open>UserRequest\<close>

record UserRequest =
  ur_cached_size :: i32
  ur_msg :: bytes
  ur_unknown :: bytes

definition UserRequest_default_instance :: "UserRequest" where
  "UserRequest_default_instance =
     \<lparr>ur_cached_size = 0, ur_msg = [], ur_unknown = []\<rparr>"

definition UserRequest_new :: "UserRequest" where
  "UserRequest_new =
     \<lparr>ur_cached_size = 0, ur_msg = [], ur_unknown = []\<rparr>"

definition UserRequest_copy :: "UserRequest \<Rightarrow> UserRequest" where
  "UserRequest_copy from =
     \<lparr>ur_cached_size = 0,
      ur_msg = ur_msg from,
      ur_unknown = ur_unknown from\<rparr>"

definition UserRequest_Clear :: "UserRequest \<Rightarrow> UserRequest" where
  "UserRequest_Clear m =
     (let m = m\<lparr>ur_msg := []\<rparr>
      in m\<lparr>ur_unknown := []\<rparr>)"

definition UserRequest_table :: "parse_table" where
  "UserRequest_table =
     [\<lparr>te_number = 1, te_hasbit = None, te_kind = Utf8String\<rparr>]"

definition UserRequest_store ::
    "wire_event \<Rightarrow> UserRequest \<Rightarrow> bool \<times> UserRequest" where
  "UserRequest_store e m =
     (case e of
        EvEnum n v \<Rightarrow> (True, m)
      | EvBytes n s \<Rightarrow> (True, if n = 1 then m\<lparr>ur_msg := s\<rparr> else m)
      | EvMessage n s \<Rightarrow> (True, m)
      | EvUnknown raw \<Rightarrow> (True, m\<lparr>ur_unknown := ur_unknown m @ raw\<rparr>))"

definition UserRequest_InternalParse ::
    "wire_lib \<Rightarrow> bytes \<Rightarrow> UserRequest \<Rightarrow> bool \<times> UserRequest" where
  "UserRequest_InternalParse L bs m =
     run_events (UserRequest_store) (ParseLoop L UserRequest_table bs) m"

definition UserRequest_GetCachedSize :: "UserRequest \<Rightarrow> int" where
  "UserRequest_GetCachedSize m = sint (ur_cached_size m)"

definition UserRequest_InternalSerialize ::
    "wire_lib \<Rightarrow> UserRequest \<Rightarrow> bytes \<Rightarrow> bytes" where
  "UserRequest_InternalSerialize L m target =
     (let target = (if ur_msg m \<noteq> [] then target @ WriteStringMaybeAliased L 1 (ur_msg m) else target)
      in target @ ur_unknown m)"

definition UserRequest_ByteSizeLong ::
    "wire_lib \<Rightarrow> UserRequest \<Rightarrow> nat \<times> UserRequest" where
  "UserRequest_ByteSizeLong L m =
     (let total = 0;
          total = (if ur_msg m \<noteq> [] then total + 1 + StringSize L (ur_msg m) else total);
          total = total + length (ur_unknown m)
      in (total, m\<lparr>ur_cached_size := ToCachedSize total\<rparr>))"

definition UserRequest_clear_msg :: "UserRequest \<Rightarrow> UserRequest" where
  "UserRequest_clear_msg m = m\<lparr>ur_msg := []\<rparr>"

definition UserRequest_internal_msg :: "UserRequest \<Rightarrow> bytes" where
  "UserRequest_internal_msg m = ur_msg m"

definition UserRequest_internal_set_msg ::
    "bytes \<Rightarrow> UserRequest \<Rightarrow> UserRequest" where
  "UserRequest_internal_set_msg v m = m\<lparr>ur_msg := v\<rparr>"

definition UserRequest_internal_mutable_msg ::
    "(bytes \<Rightarrow> bytes) \<Rightarrow> UserRequest \<Rightarrow> UserRequest" where
  "UserRequest_internal_mutable_msg f m = m\<lparr>ur_msg := f (ur_msg m)\<rparr>"

definition UserRequest_msg :: "UserRequest \<Rightarrow> bytes" where
  "UserRequest_msg m = UserRequest_internal_msg m"

definition UserRequest_set_msg :: "bytes \<Rightarrow> UserRequest \<Rightarrow> UserRequest" where
  "UserRequest_set_msg v m = m\<lparr>ur_msg := v\<rparr>"

definition UserRequest_mutable_msg ::
    "(bytes \<Rightarrow> bytes) \<Rightarrow> UserRequest \<Rightarrow> UserRequest" where
  "UserRequest_mutable_msg f m = UserRequest_internal_mutable_msg f m"

definition UserRequest_release_msg :: "UserRequest \<Rightarrow> bytes \<times> UserRequest" where
  "UserRequest_release_msg m = (ur_msg m, m\<lparr>ur_msg := []\<rparr>)"

definition UserRequest_set_allocated_msg :: "bytes option \<Rightarrow> UserRequest \<Rightarrow> UserRequest" where
  "UserRequest_set_allocated_msg value m = m\<lparr>ur_msg := (case value of None \<Rightarrow> [] | Some v \<Rightarrow> v)\<rparr>"

definition UserRequest_MergeImpl ::
    "UserRequest \<Rightarrow> UserRequest \<Rightarrow> UserRequest" where
  "UserRequest_MergeImpl m from =
     (let m = (if ur_msg from \<noteq> [] then UserRequest_internal_set_msg (ur_msg from) m else m)
      in m\<lparr>ur_unknown := ur_unknown m @ ur_unknown from\<rparr>)"

definition UserRequest_MergeFrom ::
    "UserRequest \<Rightarrow> UserRequest \<Rightarrow> UserRequest" where
  "UserRequest_MergeFrom m from = UserRequest_MergeImpl m from"

definition UserRequest_CopyFrom ::
    "UserRequest \<Rightarrow> UserRequest \<Rightarrow> UserRequest" where
  "UserRequest_CopyFrom m from = UserRequest_MergeFrom (UserRequest_Clear m) from"

definition UserRequest_IsInitialized :: "UserRequest \<Rightarrow> bool" where
  "UserRequest_IsInitialized m \<longleftrightarrow> True"

definition UserRequest_InternalSwap ::
    "UserRequest \<Rightarrow> UserRequest \<Rightarrow> UserRequest \<times> UserRequest" where
  "UserRequest_InternalSwap this other =
     (this\<lparr>ur_msg := ur_msg other, ur_unknown := ur_unknown other\<rparr>,
      other\<lparr>ur_msg := ur_msg this, ur_unknown := ur_unknown this\<rparr>)"

definition UserRequest_assign ::
    "UserRequest \<Rightarrow> UserRequest \<Rightarrow> UserRequest" where
  "UserRequest_assign m from = UserRequest_CopyFrom m from"

definition UserRequest_assign_move ::
    "UserRequest \<Rightarrow> UserRequest \<Rightarrow> UserRequest \<times> UserRequest" where
  "UserRequest_assign_move m from = UserRequest_InternalSwap m from"

definition UserRequest_move :: "UserRequest \<Rightarrow> UserRequest \<times> UserRequest" where
  "UserRequest_move from = UserRequest_assign_move UserRequest_new from"

definition UserRequest_Swap ::
    "UserRequest \<Rightarrow> UserRequest \<Rightarrow> UserRequest \<times> UserRequest" where
  "UserRequest_Swap this other = UserRequest_InternalSwap this other"

definition UserRequest_UnsafeArenaSwap ::
    "UserRequest \<Rightarrow> UserRequest \<Rightarrow> UserRequest \<times> UserRequest" where
  "UserRequest_UnsafeArenaSwap this other = UserRequest_InternalSwap this other"

definition UserRequest_unknown_fields :: "UserRequest \<Rightarrow> bytes" where
  "UserRequest_unknown_fields m = ur_unknown m"

definition UserRequest_mutable_unknown_fields ::
    "(bytes \<Rightarrow> bytes) \<Rightarrow> UserRequest \<Rightarrow> UserRequest" where
  "UserRequest_mutable_unknown_fields f m = m\<lparr>ur_unknown := f (ur_unknown m)\<rparr>"

section \<open>ServerResponse\<close>

record ServerResponse =
  sr_cached_size :: i32
  sr_msg :: bytes
  sr_unknown :: bytes

definition ServerResponse_default_instance :: "ServerResponse" where
  "ServerResponse_default_instance =
     \<lparr>sr_cached_size = 0, sr_msg = [], sr_unknown = []\<rparr>"

definition ServerResponse_new :: "ServerResponse" where
  "ServerResponse_new =
     \<lparr>sr_cached_size = 0, sr_msg = [], sr_unknown = []\<rparr>"

definition ServerResponse_copy :: "ServerResponse \<Rightarrow> ServerResponse" where
  "ServerResponse_copy from =
     \<lparr>sr_cached_size = 0,
      sr_msg = sr_msg from,
      sr_unknown = sr_unknown from\<rparr>"

definition ServerResponse_Clear :: "ServerResponse \<Rightarrow> ServerResponse" where
  "ServerResponse_Clear m =
     (let m = m\<lparr>sr_msg := []\<rparr>
      in m\<lparr>sr_unknown := []\<rparr>)"

definition ServerResponse_table :: "parse_table" where
  "ServerResponse_table =
     [\<lparr>te_number = 1, te_hasbit = None, te_kind = Utf8String\<rparr>]"

definition ServerResponse_store ::
    "wire_event \<Rightarrow> ServerResponse \<Rightarrow> bool \<times> ServerResponse" where
  "ServerResponse_store e m =
     (case e of
        EvEnum n v \<Rightarrow> (True, m)
      | EvBytes n s \<Rightarrow> (True, if n = 1 then m\<lparr>sr_msg := s\<rparr> else m)
      | EvMessage n s \<Rightarrow> (True, m)
      | EvUnknown raw \<Rightarrow> (True, m\<lparr>sr_unknown := sr_unknown m @ raw\<rparr>))"

definition ServerResponse_InternalParse ::
    "wire_lib \<Rightarrow> bytes \<Rightarrow> ServerResponse \<Rightarrow> bool \<times> ServerResponse" where
  "ServerResponse_InternalParse L bs m =
     run_events (ServerResponse_store) (ParseLoop L ServerResponse_table bs) m"

definition ServerResponse_GetCachedSize :: "ServerResponse \<Rightarrow> int" where
  "ServerResponse_GetCachedSize m = sint (sr_cached_size m)"

definition ServerResponse_InternalSerialize ::
    "wire_lib \<Rightarrow> ServerResponse \<Rightarrow> bytes \<Rightarrow> bytes" where
  "ServerResponse_InternalSerialize L m target =
     (let target = (if sr_msg m \<noteq> [] then target @ WriteStringMaybeAliased L 1 (sr_msg m) else target)
      in target @ sr_unknown m)"

definition ServerResponse_ByteSizeLong ::
    "wire_lib \<Rightarrow> ServerResponse \<Rightarrow> nat \<times> ServerResponse" where
  "ServerResponse_ByteSizeLong L m =
     (let total = 0;
          total = (if sr_msg m \<noteq> [] then total + 1 + StringSize L (sr_msg m) else total);
          total = total + length (sr_unknown m)
      in (total, m\<lparr>sr_cached_size := ToCachedSize total\<rparr>))"

definition ServerResponse_clear_msg :: "ServerResponse \<Rightarrow> ServerResponse" where
  "ServerResponse_clear_msg m = m\<lparr>sr_msg := []\<rparr>"

definition ServerResponse_internal_msg :: "ServerResponse \<Rightarrow> bytes" where
  "ServerResponse_internal_msg m = sr_msg m"

definition ServerResponse_internal_set_msg ::
    "bytes \<Rightarrow> ServerResponse \<Rightarrow> ServerResponse" where
  "ServerResponse_internal_set_msg v m = m\<lparr>sr_msg := v\<rparr>"

definition ServerResponse_internal_mutable_msg ::
    "(bytes \<Rightarrow> bytes) \<Rightarrow> ServerResponse \<Rightarrow> ServerResponse" where
  "ServerResponse_internal_mutable_msg f m = m\<lparr>sr_msg := f (sr_msg m)\<rparr>"

definition ServerResponse_msg :: "ServerResponse \<Rightarrow> bytes" where
  "ServerResponse_msg m = ServerResponse_internal_msg m"

definition ServerResponse_set_msg ::
    "bytes \<Rightarrow> ServerResponse \<Rightarrow> ServerResponse" where
  "ServerResponse_set_msg v m = m\<lparr>sr_msg := v\<rparr>"

definition ServerResponse_mutable_msg ::
    "(bytes \<Rightarrow> bytes) \<Rightarrow> ServerResponse \<Rightarrow> ServerResponse" where
  "ServerResponse_mutable_msg f m = ServerResponse_internal_mutable_msg f m"

definition ServerResponse_release_msg :: "ServerResponse \<Rightarrow> bytes \<times> ServerResponse" where
  "ServerResponse_release_msg m = (sr_msg m, m\<lparr>sr_msg := []\<rparr>)"

definition ServerResponse_set_allocated_msg :: "bytes option \<Rightarrow> ServerResponse \<Rightarrow> ServerResponse" where
  "ServerResponse_set_allocated_msg value m = m\<lparr>sr_msg := (case value of None \<Rightarrow> [] | Some v \<Rightarrow> v)\<rparr>"

definition ServerResponse_MergeImpl ::
    "ServerResponse \<Rightarrow> ServerResponse \<Rightarrow> ServerResponse" where
  "ServerResponse_MergeImpl m from =
     (let m = (if sr_msg from \<noteq> [] then ServerResponse_internal_set_msg (sr_msg from) m else m)
      in m\<lparr>sr_unknown := sr_unknown m @ sr_unknown from\<rparr>)"

definition ServerResponse_MergeFrom ::
    "ServerResponse \<Rightarrow> ServerResponse \<Rightarrow> ServerResponse" where
  "ServerResponse_MergeFrom m from = ServerResponse_MergeImpl m from"

definition ServerResponse_CopyFrom ::
    "ServerResponse \<Rightarrow> ServerResponse \<Rightarrow> ServerResponse" where
  "ServerResponse_CopyFrom m from = ServerResponse_MergeFrom (ServerResponse_Clear m) from"

definition ServerResponse_IsInitialized :: "ServerResponse \<Rightarrow> bool" where
  "ServerResponse_IsInitialized m \<longleftrightarrow> True"

definition ServerResponse_InternalSwap ::
    "ServerResponse \<Rightarrow> ServerResponse \<Rightarrow> ServerResponse \<times> ServerResponse" where
  "ServerResponse_InternalSwap this other =
     (this\<lparr>sr_msg := sr_msg other, sr_unknown := sr_unknown other\<rparr>,
      other\<lparr>sr_msg := sr_msg this, sr_unknown := sr_unknown this\<rparr>)"

definition ServerResponse_assign ::
    "ServerResponse \<Rightarrow> ServerResponse \<Rightarrow> ServerResponse" where
  "ServerResponse_assign m from = ServerResponse_CopyFrom m from"

definition ServerResponse_assign_move ::
    "ServerResponse \<Rightarrow> ServerResponse \<Rightarrow> ServerResponse \<times> ServerResponse" where
  "ServerResponse_assign_move m from = ServerResponse_InternalSwap m from"

definition ServerResponse_move ::
    "ServerResponse \<Rightarrow> ServerResponse \<times> ServerResponse" where
  "ServerResponse_move from = ServerResponse_assign_move ServerResponse_new from"

definition ServerResponse_Swap ::
    "ServerResponse \<Rightarrow> ServerResponse \<Rightarrow> ServerResponse \<times> ServerResponse" where
  "ServerResponse_Swap this other = ServerResponse_InternalSwap this other"

definition ServerResponse_UnsafeArenaSwap ::
    "ServerResponse \<Rightarrow> ServerResponse \<Rightarrow> ServerResponse \<times> ServerResponse" where
  "ServerResponse_UnsafeArenaSwap this other = ServerResponse_InternalSwap this other"

definition ServerResponse_unknown_fields :: "ServerResponse \<Rightarrow> bytes" where
  "ServerResponse_unknown_fields m = sr_unknown m"

definition ServerResponse_mutable_unknown_fields ::
    "(bytes \<Rightarrow> bytes) \<Rightarrow> ServerResponse \<Rightarrow> ServerResponse" where
  "ServerResponse_mutable_unknown_fields f m = m\<lparr>sr_unknown := f (sr_unknown m)\<rparr>"

section \<open>Lemmas\<close>

definition UserRequest_view :: "UserRequest \<Rightarrow> bytes" where
  "UserRequest_view m = ur_msg m"

definition ServerResponse_view :: "ServerResponse \<Rightarrow> bytes" where
  "ServerResponse_view m = sr_msg m"

definition UserRequest_utf8 :: "wire_lib \<Rightarrow> UserRequest \<Rightarrow> bool" where
  "UserRequest_utf8 L m \<longleftrightarrow> (ur_msg m \<noteq> [] \<longrightarrow> VerifyUtf8 L (ur_msg m))"

definition ServerResponse_utf8 :: "wire_lib \<Rightarrow> ServerResponse \<Rightarrow> bool" where
  "ServerResponse_utf8 L m \<longleftrightarrow> (sr_msg m \<noteq> [] \<longrightarrow> VerifyUtf8 L (sr_msg m))"

lemma UserRequest_wire [simp]:
  "UserRequest_view (snd (UserRequest_ByteSizeLong L m)) = UserRequest_view m"
  "ur_unknown (snd (UserRequest_ByteSizeLong L m)) = ur_unknown m"
  "UserRequest_InternalSerialize L (snd (UserRequest_ByteSizeLong L m)) [] = UserRequest_InternalSerialize L m []"
  "UserRequest_ByteSizeLong L (snd (UserRequest_ByteSizeLong L m)) = UserRequest_ByteSizeLong L m"
  "ur_cached_size (snd (UserRequest_ByteSizeLong L m)) = ToCachedSize (fst (UserRequest_ByteSizeLong L m))"
  by (simp_all add: UserRequest_ByteSizeLong_def UserRequest_InternalSerialize_def UserRequest_view_def Let_def)

lemma UserRequest_CopyFrom_view [simp]: "UserRequest_view (UserRequest_CopyFrom m from) = UserRequest_view from"
  by (simp add: UserRequest_CopyFrom_def UserRequest_MergeFrom_def UserRequest_MergeImpl_def UserRequest_Clear_def
      UserRequest_internal_set_msg_def UserRequest_view_def Let_def)

lemma UserRequest_view_msg: "UserRequest_msg m = UserRequest_view m"
  by (simp add: UserRequest_msg_def UserRequest_internal_msg_def UserRequest_view_def)

context wire_runtime
begin

lemma UserRequest_fits: "fst (UserRequest_ByteSizeLong L m) \<le> wire_max \<Longrightarrow> length (ur_msg m) \<le> wire_max"
  using size_string [of "ur_msg m"] by (auto simp: UserRequest_ByteSizeLong_def Let_def split: if_splits)

lemma UserRequest_length:
  assumes "fst (UserRequest_ByteSizeLong L m) \<le> wire_max"
  shows "length (UserRequest_InternalSerialize L m []) = fst (UserRequest_ByteSizeLong L m)"
  using UserRequest_fits [OF assms]
  by (simp add: UserRequest_InternalSerialize_def UserRequest_ByteSizeLong_def Let_def wire_length)

lemma UserRequest_size_le:
  assumes "length (ur_msg m) \<le> wire_max" "ur_unknown m = []"
  shows "fst (UserRequest_ByteSizeLong L m) \<le> length (ur_msg m) + 6"
  using size_string_le [OF assms(1)] assms(2) by (simp add: UserRequest_ByteSizeLong_def Let_def)

lemma UserRequest_parse_serialize:
  assumes "fst (UserRequest_ByteSizeLong L m) \<le> wire_max" "ur_unknown m = []"
  shows "UserRequest_InternalParse L (UserRequest_InternalSerialize L m []) m0 =
    (if UserRequest_utf8 L m then (True, UserRequest_MergeFrom m0 m) else (False, m0))"
proof -
  have "kind_of UserRequest_table 1 = Some Utf8String"
    by (simp add: kind_of_def UserRequest_table_def)
  from parse_string [OF _ _ this UserRequest_fits [OF assms(1)], of "[]"] show ?thesis
    using assms(2) by (cases m0)
      (simp add: UserRequest_InternalParse_def UserRequest_InternalSerialize_def UserRequest_utf8_def
        UserRequest_MergeFrom_def UserRequest_MergeImpl_def UserRequest_internal_set_msg_def UserRequest_store_def
        parse_Nil Let_def)
qed

text \<open>What is parsed is no longer than the input.\<close>

lemma UserRequest_parse_le:
  assumes "UserRequest_InternalParse L bs (UserRequest_Clear m) = (ok, m')"
  shows "length (ur_msg m') \<le> length bs"
proof -
  obtain b es where l: "ParseLoop L UserRequest_table bs = (b, es)" by fastforce
  have "length (ur_msg (snd (run_events UserRequest_store (b, es) (UserRequest_Clear m)))) \<le> length bs"
  proof (rule run_events_keeps [where P = "\<lambda>m. length (ur_msg m) \<le> length bs"])
    fix e m0 ok m1
    assume "e \<in> set es" "length (ur_msg m0) \<le> length bs" "UserRequest_store e m0 = (ok, m1)"
    then show "length (ur_msg m1) \<le> length bs"
      using parse_short [OF l] by - (cases e; auto simp: UserRequest_store_def split: if_splits)
  qed (simp add: UserRequest_Clear_def)
  then show ?thesis
    using assms l by (simp add: UserRequest_InternalParse_def)
qed

end

lemma ServerResponse_wire [simp]:
  "ServerResponse_view (snd (ServerResponse_ByteSizeLong L m)) = ServerResponse_view m"
  "sr_unknown (snd (ServerResponse_ByteSizeLong L m)) = sr_unknown m"
  "ServerResponse_InternalSerialize L (snd (ServerResponse_ByteSizeLong L m)) [] = ServerResponse_InternalSerialize L m []"
  "ServerResponse_ByteSizeLong L (snd (ServerResponse_ByteSizeLong L m)) = ServerResponse_ByteSizeLong L m"
  "sr_cached_size (snd (ServerResponse_ByteSizeLong L m)) = ToCachedSize (fst (ServerResponse_ByteSizeLong L m))"
  by (simp_all add: ServerResponse_ByteSizeLong_def ServerResponse_InternalSerialize_def ServerResponse_view_def Let_def)

lemma ServerResponse_CopyFrom_view [simp]: "ServerResponse_view (ServerResponse_CopyFrom m from) = ServerResponse_view from"
  by (simp add: ServerResponse_CopyFrom_def ServerResponse_MergeFrom_def ServerResponse_MergeImpl_def ServerResponse_Clear_def
      ServerResponse_internal_set_msg_def ServerResponse_view_def Let_def)

lemma ServerResponse_view_msg: "ServerResponse_msg m = ServerResponse_view m"
  by (simp add: ServerResponse_msg_def ServerResponse_internal_msg_def ServerResponse_view_def)

context wire_runtime
begin

lemma ServerResponse_fits: "fst (ServerResponse_ByteSizeLong L m) \<le> wire_max \<Longrightarrow> length (sr_msg m) \<le> wire_max"
  using size_string [of "sr_msg m"] by (auto simp: ServerResponse_ByteSizeLong_def Let_def split: if_splits)

lemma ServerResponse_length:
  assumes "fst (ServerResponse_ByteSizeLong L m) \<le> wire_max"
  shows "length (ServerResponse_InternalSerialize L m []) = fst (ServerResponse_ByteSizeLong L m)"
  using ServerResponse_fits [OF assms]
  by (simp add: ServerResponse_InternalSerialize_def ServerResponse_ByteSizeLong_def Let_def wire_length)

lemma ServerResponse_size_le:
  assumes "length (sr_msg m) \<le> wire_max" "sr_unknown m = []"
  shows "fst (ServerResponse_ByteSizeLong L m) \<le> length (sr_msg m) + 6"
  using size_string_le [OF assms(1)] assms(2) by (simp add: ServerResponse_ByteSizeLong_def Let_def)

lemma ServerResponse_parse_serialize:
  assumes "fst (ServerResponse_ByteSizeLong L m) \<le> wire_max" "sr_unknown m = []"
  shows "ServerResponse_InternalParse L (ServerResponse_InternalSerialize L m []) m0 =
    (if ServerResponse_utf8 L m then (True, ServerResponse_MergeFrom m0 m) else (False, m0))"
proof -
  have "kind_of ServerResponse_table 1 = Some Utf8String"
    by (simp add: kind_of_def ServerResponse_table_def)
  from parse_string [OF _ _ this ServerResponse_fits [OF assms(1)], of "[]"] show ?thesis
    using assms(2) by (cases m0)
      (simp add: ServerResponse_InternalParse_def ServerResponse_InternalSerialize_def ServerResponse_utf8_def
        ServerResponse_MergeFrom_def ServerResponse_MergeImpl_def ServerResponse_internal_set_msg_def ServerResponse_store_def
        parse_Nil Let_def)
qed

text \<open>What is parsed is no longer than the input.\<close>

lemma ServerResponse_parse_le:
  assumes "ServerResponse_InternalParse L bs (ServerResponse_Clear m) = (ok, m')"
  shows "length (sr_msg m') \<le> length bs"
proof -
  obtain b es where l: "ParseLoop L ServerResponse_table bs = (b, es)" by fastforce
  have "length (sr_msg (snd (run_events ServerResponse_store (b, es) (ServerResponse_Clear m)))) \<le> length bs"
  proof (rule run_events_keeps [where P = "\<lambda>m. length (sr_msg m) \<le> length bs"])
    fix e m0 ok m1
    assume "e \<in> set es" "length (sr_msg m0) \<le> length bs" "ServerResponse_store e m0 = (ok, m1)"
    then show "length (sr_msg m1) \<le> length bs"
      using parse_short [OF l] by - (cases e; auto simp: ServerResponse_store_def split: if_splits)
  qed (simp add: ServerResponse_Clear_def)
  then show ?thesis
    using assms l by (simp add: ServerResponse_InternalParse_def)
qed

end

end
