(* ===== verification/Coders.thy ===== *)
theory Coders
  imports PbConnected PbAuth PbUser
begin

text \<open>
  \<open>MessageCoder\<close> and \<open>EncrMessageCoder\<close> (\<open>MessageCoder.cpp\<close>, \<open>EncrMessageCoder.cpp\<close> and their
  headers): protobuf messages to frames and back, plain (header \<open>0xF0\<close>) or under AES-GCM (header
  \<open>0xF1\<close>, a fresh 16-byte IV in front of the ciphertext).

  Two libraries are parameters: \<open>'m lite\<close> is what \<open>MessageLite\<close> offers for a message class, and
  \<open>gcm_lib\<close> is AES-GCM of Crypto++ with the random generator. The locale \<open>lite_message\<close> is what the
  coders rely on for a message class (extending \<open>lite_writer\<close>, what encoding alone relies on); it is
  established for the four protocol messages and the two user messages from the theorems on the
  generated code. The locale \<open>aead\<close> is the contract of GCM.
\<close>

section \<open>The libraries\<close>

text \<open>
  \<open>ParseFromArray\<close>, \<open>ByteSizeLong\<close> (which stores the cached size), \<open>GetCachedSize\<close> and
  \<open>SerializeToArray\<close>, which gets the buffer and returns success and the buffer.
\<close>

record 'm lite =
  lt_ParseFromArray :: "bytes \<Rightarrow> 'm \<Rightarrow> bool \<times> 'm"
  lt_ByteSizeLong :: "'m \<Rightarrow> nat \<times> 'm"
  lt_GetCachedSize :: "'m \<Rightarrow> int"
  lt_SerializeToArray :: "'m \<Rightarrow> bytes \<Rightarrow> bool \<times> bytes \<times> 'm"

text \<open>
  The result of \<open>PutMessageEnd\<close> on an authenticated filter: the bytes that can be retrieved, a
  non-zero return value, or a \<open>CryptoPP::Exception\<close> (a wrong tag, a message too short for a tag).
\<close>

datatype gcm_result = GcmOut bytes | GcmBlocked | GcmException

record gcm_lib =
  gcm_encrypt :: "bytes \<Rightarrow> bytes \<Rightarrow> bytes \<Rightarrow> gcm_result"
  gcm_decrypt :: "bytes \<Rightarrow> bytes \<Rightarrow> bytes \<Rightarrow> gcm_result"
  random_block :: "nat \<Rightarrow> nat \<Rightarrow> bytes"

section \<open>The coders\<close>

definition ivsize :: nat where
  "ivsize = 16"

record msg_coder =
  frame_bytes :: bytes

record encr_coder = msg_coder +
  ec_msgBuf :: bytes
  ec_key :: bytes
  init_iv :: bytes

definition frame_content :: "frame \<Rightarrow> bytes" where
  "frame_content f = take (unat (fr_len f)) (fr_msg f)"

definition MessageCoder_decode :: "'m lite \<Rightarrow> frame \<Rightarrow> 'm \<Rightarrow> bool \<times> 'm" where
  "MessageCoder_decode T f m = lt_ParseFromArray T (frame_content f) m"

text \<open>The result: success, the frame, the message (its cached size may change) and the buffer.\<close>

definition MessageCoder_encode ::
    "'m lite \<Rightarrow> frame \<Rightarrow> 'm \<Rightarrow> bytes \<Rightarrow> bool \<times> frame \<times> 'm \<times> bytes" where
  "MessageCoder_encode T f m fb =
     (let (n, m) = lt_ByteSizeLong T m
      in if 65535 < n then (False, f, m, fb)
         else let fb = resize (nat (lt_GetCachedSize T m)) fb;
                  (ok, fb, m) = lt_SerializeToArray T m fb
              in if \<not> ok then (False, f, m, fb)
                 else let len = word_of_int (lt_GetCachedSize T m)
                      in (True, \<lparr>fr_header = 0xF0, fr_len = len, fr_msg = take (unat len) fb\<rparr>, m, fb))"

definition EncrMessageCoder_new :: "gcm_lib \<Rightarrow> bytes \<Rightarrow> nat \<Rightarrow> encr_coder" where
  "EncrMessageCoder_new G key r =
     \<lparr>frame_bytes = [], ec_msgBuf = [], ec_key = key, init_iv = random_block G r ivsize\<rparr>"

definition EncrMessageCoder_decode ::
    "gcm_lib \<Rightarrow> 'm lite \<Rightarrow> frame \<Rightarrow> 'm \<Rightarrow> encr_coder \<Rightarrow> bool \<times> 'm \<times> encr_coder" where
  "EncrMessageCoder_decode G T f m c =
     (if unat (fr_len f) \<le> ivsize \<or> fr_header f \<noteq> 0xF1 then (False, m, c)
      else let iv = take ivsize (frame_content f);
               ciphertext = drop ivsize (frame_content f)
           in case gcm_decrypt G (ec_key c) iv ciphertext of
                GcmBlocked \<Rightarrow> (False, m, c)
              | GcmException \<Rightarrow> (False, m, c)
              | GcmOut plain \<Rightarrow>
                  (let decoded = \<lparr>fr_header = 0xF0, fr_len = word_of_nat (length plain), fr_msg = plain\<rparr>;
                       (ok, m) = MessageCoder_decode T decoded m
                   in (ok, m, c\<lparr>ec_msgBuf := plain\<rparr>)))"

definition EncrMessageCoder_encode ::
    "gcm_lib \<Rightarrow> 'm lite \<Rightarrow> frame \<Rightarrow> 'm \<Rightarrow> nat \<Rightarrow> encr_coder \<Rightarrow> bool \<times> frame \<times> 'm \<times> encr_coder" where
  "EncrMessageCoder_encode G T f m r c =
     (let (ok, plain, m, fb) =
            MessageCoder_encode T \<lparr>fr_header = 0, fr_len = 0, fr_msg = []\<rparr> m (frame_bytes c);
          c = c\<lparr>frame_bytes := fb\<rparr>
      in if \<not> ok then (False, f, m, c)
         else let iv = random_block G r ivsize;
                  c = c\<lparr>ec_msgBuf := iv\<rparr>
              in case gcm_encrypt G (ec_key c) iv (frame_content plain) of
                   GcmBlocked \<Rightarrow> (False, f, m, c)
                 | GcmException \<Rightarrow> (False, f, m, c)
                 | GcmOut ciphertext \<Rightarrow>
                     (let buf = iv @ ciphertext; len = word_of_nat (length buf)
                      in (True, \<lparr>fr_header = 0xF1, fr_len = len, fr_msg = take (unat len) buf\<rparr>, m,
                          c\<lparr>ec_msgBuf := buf\<rparr>)))"

text \<open>A \<open>MessageCoder*\<close>: either class behind the virtual \<open>decode\<close> and \<open>encode\<close>.\<close>

datatype coder = Plain msg_coder | Encr encr_coder

definition coder_decode ::
    "gcm_lib \<Rightarrow> 'm lite \<Rightarrow> frame \<Rightarrow> 'm \<Rightarrow> coder \<Rightarrow> bool \<times> 'm \<times> coder" where
  "coder_decode G T f m c =
     (case c of
        Plain b \<Rightarrow> (let (ok, m) = MessageCoder_decode T f m in (ok, m, c))
      | Encr e \<Rightarrow> (let (ok, m, e) = EncrMessageCoder_decode G T f m e in (ok, m, Encr e)))"

definition coder_encode ::
    "gcm_lib \<Rightarrow> 'm lite \<Rightarrow> frame \<Rightarrow> 'm \<Rightarrow> nat \<Rightarrow> coder \<Rightarrow> bool \<times> frame \<times> 'm \<times> coder" where
  "coder_encode G T f m r c =
     (case c of
        Plain b \<Rightarrow>
          (let (ok, f, m, fb) = MessageCoder_encode T f m (frame_bytes b)
           in (ok, f, m, Plain (b\<lparr>frame_bytes := fb\<rparr>)))
      | Encr e \<Rightarrow> (let (ok, f, m, e) = EncrMessageCoder_encode G T f m r e in (ok, f, m, Encr e)))"

fun is_encr :: "coder \<Rightarrow> bool" where
  "is_encr (Plain _) = False"
| "is_encr (Encr _) = True"

section \<open>What the coders need of a message class\<close>

text \<open>Any message that fits is written, whatever its content.\<close>

locale lite_writer =
  fixes T :: "'m lite"
  assumes cached: "lt_ByteSizeLong T m = (n, m') \<Longrightarrow> n \<le> 65535 \<Longrightarrow> lt_GetCachedSize T m' = int n"
    and writes: "\<lbrakk>lt_ByteSizeLong T m = (n, m'); n \<le> 65535; length buf = n\<rbrakk> \<Longrightarrow>
      \<exists>bs m''. lt_SerializeToArray T m' buf = (True, bs, m'') \<and> length bs = n \<and>
        lt_GetCachedSize T m'' = int n"
begin

lemma writer_encode:
  assumes "fst (lt_ByteSizeLong T m) \<le> 65535"
  obtains bs m' where
    "MessageCoder_encode T f m fb =
       (True, \<lparr>fr_header = 0xF0, fr_len = word_of_nat (length bs), fr_msg = bs\<rparr>, m', bs)"
    "length bs = fst (lt_ByteSizeLong T m)"
proof -
  obtain n m1 where n: "lt_ByteSizeLong T m = (n, m1)" by fastforce
  with assms have le: "n \<le> 65535" by simp
  from writes [OF n le, of "resize n fb"] obtain bs m2
    where s: "lt_SerializeToArray T m1 (resize n fb) = (True, bs, m2)" "length bs = n"
      "lt_GetCachedSize T m2 = int n"
    by auto
  have "unat (word_of_nat n :: u16) = n"
    using le by (simp add: unat_of_nat)
  then have "MessageCoder_encode T f m fb =
      (True, \<lparr>fr_header = 0xF0, fr_len = word_of_nat (length bs), fr_msg = bs\<rparr>, m2, bs)"
    using n le cached [OF n le] s by (simp add: MessageCoder_encode_def)
  then show ?thesis
    by (rule that) (use s n in auto)
qed

end

text \<open>A message that is \<open>ok\<close> is read back as it was; \<open>target\<close> are the messages that can be parsed into.\<close>

locale lite_message = lite_writer T for T :: "'m lite" +
  fixes view :: "'m \<Rightarrow> 'v"
    and ok :: "'m \<Rightarrow> bool"
    and target :: "'m \<Rightarrow> bool"
  assumes serialize: "\<lbrakk>ok m; lt_ByteSizeLong T m = (n, m'); n \<le> 65535; length buf = n\<rbrakk> \<Longrightarrow>
      \<exists>bs m''. lt_SerializeToArray T m' buf = (True, bs, m'') \<and> length bs = n \<and>
        lt_GetCachedSize T m'' = int n \<and> view m'' = view m \<and> (target m \<longrightarrow> target m'') \<and>
        (\<forall>m0. target m0 \<longrightarrow> (\<exists>r. lt_ParseFromArray T bs m0 = (True, r) \<and> view r = view m \<and> target r))"
begin

lemma plain_encode:
  assumes "ok m" "fst (lt_ByteSizeLong T m) \<le> 65535"
  obtains bs m' where
    "MessageCoder_encode T f m fb =
       (True, \<lparr>fr_header = 0xF0, fr_len = word_of_nat (length bs), fr_msg = bs\<rparr>, m', bs)"
    "length bs = fst (lt_ByteSizeLong T m)" "view m' = view m" "target m \<longrightarrow> target m'"
    "\<And>m0. target m0 \<Longrightarrow> \<exists>r. lt_ParseFromArray T bs m0 = (True, r) \<and> view r = view m \<and> target r"
proof -
  obtain n m1 where n: "lt_ByteSizeLong T m = (n, m1)" by fastforce
  with assms have le: "n \<le> 65535" by simp
  have c: "lt_GetCachedSize T m1 = int n"
    by (rule cached [OF n le])
  from serialize [OF assms(1) n le, of "resize n fb"] obtain bs m2
    where s: "lt_SerializeToArray T m1 (resize n fb) = (True, bs, m2)" "length bs = n"
      "lt_GetCachedSize T m2 = int n" "view m2 = view m" "target m \<longrightarrow> target m2"
      "\<And>m0. target m0 \<Longrightarrow> \<exists>r. lt_ParseFromArray T bs m0 = (True, r) \<and> view r = view m \<and> target r"
    by auto
  have "unat (word_of_nat n :: u16) = n"
    using le by (simp add: unat_of_nat)
  then have "MessageCoder_encode T f m fb =
      (True, \<lparr>fr_header = 0xF0, fr_len = word_of_nat (length bs), fr_msg = bs\<rparr>, m2, bs)"
    using n le c s by (simp add: MessageCoder_encode_def)
  then show ?thesis
    by (rule that) (use s n in auto)
qed

end

section \<open>The contract of AES-GCM\<close>

locale aead =
  fixes G :: gcm_lib
  assumes random_length: "length (random_block G r n) = n"
    and gcm: "length iv = ivsize \<Longrightarrow>
      \<exists>c. gcm_encrypt G k iv p = GcmOut c \<and> length c = length p + 16 \<and> gcm_decrypt G k iv c = GcmOut p"
    and decrypt_length: "gcm_decrypt G k iv c = GcmOut p \<Longrightarrow> length c = length p + 16"
begin

text \<open>What fits the plain coder's limit is encrypted, whatever it is.\<close>

lemma encr_writes:
  fixes T :: "'m lite"
  assumes "lite_writer T" "fst (lt_ByteSizeLong T m) \<le> 65535"
  obtains g m' e where "EncrMessageCoder_encode G T f m r c = (True, g, m', e)" "ec_key e = ec_key c"
proof -
  from lite_writer.writer_encode [OF assms, of "\<lparr>fr_header = 0, fr_len = 0, fr_msg = []\<rparr>" "frame_bytes c"]
  obtain bs m' where e:
    "MessageCoder_encode T \<lparr>fr_header = 0, fr_len = 0, fr_msg = []\<rparr> m (frame_bytes c) =
       (True, \<lparr>fr_header = 0xF0, fr_len = word_of_nat (length bs), fr_msg = bs\<rparr>, m', bs)"
    by blast
  let ?p = "frame_content \<lparr>fr_header = 0xF0, fr_len = word_of_nat (length bs), fr_msg = bs\<rparr>"
  from gcm [OF random_length [of r ivsize], of "ec_key c" ?p] obtain ct
    where "gcm_encrypt G (ec_key c) (random_block G r ivsize) ?p = GcmOut ct"
    by blast
  with e have "\<exists>g. EncrMessageCoder_encode G T f m r c =
      (True, g, m', c\<lparr>frame_bytes := bs, ec_msgBuf := random_block G r ivsize @ ct\<rparr>)"
    by (simp add: EncrMessageCoder_encode_def Let_def)
  then show ?thesis
    using that by auto
qed

text \<open>The plaintext of a frame is at least 32 bytes shorter than what the frame may hold.\<close>

lemma decoded_short:
  assumes "EncrMessageCoder_decode G T f m c = (True, m', c')"
  obtains bs where "lt_ParseFromArray T bs m = (True, m')" "length bs \<le> 65503" "ec_key c' = ec_key c"
proof -
  have frame: "length (frame_content f) \<le> 65535"
    using unsigned_less [where ?'a = nat, of "fr_len f"] by (simp add: frame_content_def)
  from assms obtain p where p: "ivsize < unat (fr_len f)"
      "gcm_decrypt G (ec_key c) (take ivsize (frame_content f)) (drop ivsize (frame_content f)) = GcmOut p"
      "MessageCoder_decode T \<lparr>fr_header = 0xF0, fr_len = word_of_nat (length p), fr_msg = p\<rparr> m = (True, m')"
      "c' = c\<lparr>ec_msgBuf := p\<rparr>"
    by (auto simp: EncrMessageCoder_decode_def Let_def split: if_splits gcm_result.splits prod.splits)
  have le: "length p \<le> 65503"
    using decrypt_length [OF p(2)] frame by (simp add: ivsize_def)
  then have "unat (word_of_nat (length p) :: u16) = length p"
    by (simp add: unat_of_nat)
  with p(3) have "lt_ParseFromArray T p m = (True, m')"
    by (simp add: MessageCoder_decode_def frame_content_def)
  from that [OF this le] p(4) show ?thesis by simp
qed

lemma encr_encode:
  fixes T :: "'m lite"
  assumes "lite_message T view ok target" "ok m" "fst (lt_ByteSizeLong T m) \<le> 65535"
  obtains bs ciphertext m' where
    "EncrMessageCoder_encode G T f m r c =
       (True, \<lparr>fr_header = 0xF1, fr_len = word_of_nat (length bs + 32),
          fr_msg = take (unat (word_of_nat (length bs + 32) :: u16)) (random_block G r ivsize @ ciphertext)\<rparr>,
        m', c\<lparr>frame_bytes := bs, ec_msgBuf := random_block G r ivsize @ ciphertext\<rparr>)"
    "length bs = fst (lt_ByteSizeLong T m)" "length ciphertext = length bs + 16" "view m' = view m"
    "target m \<longrightarrow> target m'"
    "gcm_decrypt G (ec_key c) (random_block G r ivsize) ciphertext = GcmOut bs"
    "\<And>m0. target m0 \<Longrightarrow> \<exists>r. lt_ParseFromArray T bs m0 = (True, r) \<and> view r = view m \<and> target r"
proof -
  from lite_message.plain_encode [OF assms, of "\<lparr>fr_header = 0, fr_len = 0, fr_msg = []\<rparr>" "frame_bytes c"]
  obtain bs m' where e:
    "MessageCoder_encode T \<lparr>fr_header = 0, fr_len = 0, fr_msg = []\<rparr> m (frame_bytes c) =
       (True, \<lparr>fr_header = 0xF0, fr_len = word_of_nat (length bs), fr_msg = bs\<rparr>, m', bs)"
    "length bs = fst (lt_ByteSizeLong T m)" "view m' = view m" "target m \<longrightarrow> target m'"
    "\<And>m0. target m0 \<Longrightarrow> \<exists>r. lt_ParseFromArray T bs m0 = (True, r) \<and> view r = view m \<and> target r"
    by blast
  have "unat (word_of_nat (length bs) :: u16) = length bs"
    using e(2) assms(3) by (simp add: unat_of_nat)
  then have content: "frame_content \<lparr>fr_header = 0xF0, fr_len = word_of_nat (length bs), fr_msg = bs\<rparr> = bs"
    by (simp add: frame_content_def)
  have riv: "length (random_block G r ivsize) = ivsize"
    by (rule random_length)
  from gcm [OF riv, of "ec_key c" bs] obtain ct
    where ct: "gcm_encrypt G (ec_key c) (random_block G r ivsize) bs = GcmOut ct"
      "length ct = length bs + 16" "gcm_decrypt G (ec_key c) (random_block G r ivsize) ct = GcmOut bs"
    by blast
  have "length (random_block G r ivsize @ ct) = length bs + 32"
    using riv ct(2) by (simp add: ivsize_def)
  with e(1) content ct(1) have
    "EncrMessageCoder_encode G T f m r c =
       (True, \<lparr>fr_header = 0xF1, fr_len = word_of_nat (length bs + 32),
          fr_msg = take (unat (word_of_nat (length bs + 32) :: u16)) (random_block G r ivsize @ ct)\<rparr>,
        m', c\<lparr>frame_bytes := bs, ec_msgBuf := random_block G r ivsize @ ct\<rparr>)"
    by (simp add: EncrMessageCoder_encode_def Let_def)
  then show ?thesis
    by (rule that) (use e ct in auto)
qed

text \<open>What one coder encodes, every coder with the same key decodes.\<close>

lemma encr_roundtrip:
  fixes T :: "'m lite"
  assumes "lite_message T view ok target" "ok m" "fst (lt_ByteSizeLong T m) \<le> 65503" "target m0"
    "ec_key c' = ec_key c"
  shows "\<exists>g m' e m'' e'. EncrMessageCoder_encode G T f m r c = (True, g, m', e) \<and> frame_wf g \<and>
    fr_header g = 0xF1 \<and> unat (fr_len g) = fst (lt_ByteSizeLong T m) + 32 \<and>
    EncrMessageCoder_decode G T g m0 c' = (True, m'', e') \<and> view m'' = view m \<and> target m'' \<and>
    (target m \<longrightarrow> target m') \<and> view m' = view m \<and> ec_key e = ec_key c \<and> ec_key e' = ec_key c'"
proof -
  have le: "fst (lt_ByteSizeLong T m) \<le> 65535" using assms(3) by simp
  from encr_encode [OF assms(1,2) le, of f r c] obtain bs ct m1 where e:
    "EncrMessageCoder_encode G T f m r c =
       (True, \<lparr>fr_header = 0xF1, fr_len = word_of_nat (length bs + 32),
          fr_msg = take (unat (word_of_nat (length bs + 32) :: u16)) (random_block G r ivsize @ ct)\<rparr>,
        m1, c\<lparr>frame_bytes := bs, ec_msgBuf := random_block G r ivsize @ ct\<rparr>)"
    "length bs = fst (lt_ByteSizeLong T m)" "length ct = length bs + 16" "view m1 = view m"
    "target m \<longrightarrow> target m1"
    "gcm_decrypt G (ec_key c) (random_block G r ivsize) ct = GcmOut bs"
    "\<And>m0. target m0 \<Longrightarrow> \<exists>r. lt_ParseFromArray T bs m0 = (True, r) \<and> view r = view m \<and> target r"
    by blast
  have n: "unat (word_of_nat (length bs + 32) :: u16) = length bs + 32"
    using e(2) assms(3) by (simp only: unat_of_nat) simp
  let ?g = "\<lparr>fr_header = 0xF1, fr_len = word_of_nat (length bs + 32), fr_msg = random_block G r ivsize @ ct\<rparr>"
  have riv: "length (random_block G r ivsize) = 16"
    using random_length [of r ivsize] by (simp add: ivsize_def)
  have enc: "EncrMessageCoder_encode G T f m r c =
      (True, ?g, m1, c\<lparr>frame_bytes := bs, ec_msgBuf := random_block G r ivsize @ ct\<rparr>)"
    using e(1,3) riv n by simp
  have content: "frame_content ?g = random_block G r ivsize @ ct"
    using n riv e(3) by (simp add: frame_content_def)
  obtain m2 where m2: "lt_ParseFromArray T bs m0 = (True, m2)" "view m2 = view m" "target m2"
    using e(7) [OF assms(4)] by blast
  have "unat (word_of_nat (length bs) :: u16) = length bs"
    using e(2) le by (simp add: unat_of_nat)
  then have "frame_content \<lparr>fr_header = 0xF0, fr_len = word_of_nat (length bs), fr_msg = bs\<rparr> = bs"
    by (simp add: frame_content_def)
  with m2 e(6) content n riv assms(5) have dec:
    "EncrMessageCoder_decode G T ?g m0 c' = (True, m2, c'\<lparr>ec_msgBuf := bs\<rparr>)"
    by (simp add: EncrMessageCoder_decode_def MessageCoder_decode_def ivsize_def)
  have "frame_wf ?g"
    using n riv e(3) by (simp add: frame_wf_def)
  with enc dec n m2(2,3) e(2,4,5) show ?thesis
    by (intro exI [of _ ?g] exI) auto
qed

text \<open>
  A plaintext of more than 65503 bytes still encodes successfully, but the frame's 16-bit length
  wraps: the frame announces, and carries, only the first bytes of what was encrypted.
\<close>

lemma encr_truncates:
  fixes T :: "'m lite"
  assumes "lite_message T view ok target" "ok m"
    "65503 < fst (lt_ByteSizeLong T m)" "fst (lt_ByteSizeLong T m) \<le> 65535"
  shows "\<exists>g m' e. EncrMessageCoder_encode G T f m r c = (True, g, m', e) \<and>
    unat (fr_len g) = fst (lt_ByteSizeLong T m) - 65504 \<and>
    length (ec_msgBuf e) = fst (lt_ByteSizeLong T m) + 32 \<and>
    (fst (lt_ByteSizeLong T m) \<le> 65520 \<longrightarrow>
       (\<forall>m0 c'. fst (EncrMessageCoder_decode G T g m0 c') = False))"
proof -
  from encr_encode [OF assms(1,2,4), of f r c] obtain bs ct m1 where e:
    "EncrMessageCoder_encode G T f m r c =
       (True, \<lparr>fr_header = 0xF1, fr_len = word_of_nat (length bs + 32),
          fr_msg = take (unat (word_of_nat (length bs + 32) :: u16)) (random_block G r ivsize @ ct)\<rparr>,
        m1, c\<lparr>frame_bytes := bs, ec_msgBuf := random_block G r ivsize @ ct\<rparr>)"
    "length bs = fst (lt_ByteSizeLong T m)" "length ct = length bs + 16" "view m1 = view m"
    "target m \<longrightarrow> target m1"
    "gcm_decrypt G (ec_key c) (random_block G r ivsize) ct = GcmOut bs"
    "\<And>m0. target m0 \<Longrightarrow> \<exists>r. lt_ParseFromArray T bs m0 = (True, r) \<and> view r = view m \<and> target r"
    by blast
  have n: "unat (word_of_nat (length bs + 32) :: u16) = length bs - 65504"
  proof -
    have w: "unat (word_of_nat (length bs + 32) :: u16) = (length bs + 32) mod 65536"
      by (simp only: unat_of_nat) simp
    have s: "length bs + 32 = length bs - 65504 + 65536"
      using e(2) assms(3) by simp
    have "(length bs - 65504 + 65536) mod 65536 = length bs - 65504"
      using e(2) assms(4) by (simp only: mod_add_self2 mod_less)
    then show ?thesis
      by (intro trans [OF w]) (subst s)
  qed
  have "length (random_block G r ivsize) = 16"
    using random_length [of r ivsize] by (simp add: ivsize_def)
  with e n show ?thesis
    by (auto simp: EncrMessageCoder_decode_def ivsize_def)
qed

end


section \<open>The protocol's messages meet the contract\<close>

text \<open>
  \<open>MessageLite\<close> on a generated class, as its documentation has it: \<open>ParseFromArray\<close> clears the message
  and merges the input; \<open>SerializeToArray\<close> computes the size, fails when the buffer is too small, and
  otherwise calls \<open>_InternalSerialize\<close>.
\<close>

definition lite_of :: "('m \<Rightarrow> 'm) \<Rightarrow> (bytes \<Rightarrow> 'm \<Rightarrow> bool \<times> 'm) \<Rightarrow> ('m \<Rightarrow> nat \<times> 'm) \<Rightarrow> ('m \<Rightarrow> int) \<Rightarrow>
    ('m \<Rightarrow> bytes \<Rightarrow> bytes) \<Rightarrow> 'm lite" where
  "lite_of clear parse sz cached serialize =
     \<lparr>lt_ParseFromArray = (\<lambda>bs m. parse bs (clear m)),
      lt_ByteSizeLong = sz,
      lt_GetCachedSize = cached,
      lt_SerializeToArray = (\<lambda>m buf.
        (let (n, m) = sz m
         in if length buf < n then (False, buf, m) else (True, write_at 0 (serialize m []) buf, m)))\<rparr>"

definition ccreq_lite :: "wire_lib \<Rightarrow> ClientConnectedStateRequest lite" where
  "ccreq_lite L = lite_of ClientConnectedStateRequest_Clear (ClientConnectedStateRequest_InternalParse L)
     (ClientConnectedStateRequest_ByteSizeLong L) ClientConnectedStateRequest_GetCachedSize
     (ClientConnectedStateRequest_InternalSerialize L)"

definition scresp_lite :: "wire_lib \<Rightarrow> ServerConnectedStateResponse lite" where
  "scresp_lite L = lite_of ServerConnectedStateResponse_Clear (ServerConnectedStateResponse_InternalParse L)
     (ServerConnectedStateResponse_ByteSizeLong L) ServerConnectedStateResponse_GetCachedSize
     (ServerConnectedStateResponse_InternalSerialize L)"

definition careq_lite :: "wire_lib \<Rightarrow> ClientAuthRequest lite" where
  "careq_lite L = lite_of ClientAuthRequest_Clear (ClientAuthRequest_InternalParse L)
     (ClientAuthRequest_ByteSizeLong L) ClientAuthRequest_GetCachedSize
     (ClientAuthRequest_InternalSerialize L)"

definition saresp_lite :: "wire_lib \<Rightarrow> ServerAuthResponse lite" where
  "saresp_lite L = lite_of ServerAuthResponse_Clear (ServerAuthResponse_InternalParse L)
     (ServerAuthResponse_ByteSizeLong L) ServerAuthResponse_GetCachedSize
     (ServerAuthResponse_InternalSerialize L)"

definition ureq_lite :: "wire_lib \<Rightarrow> UserRequest lite" where
  "ureq_lite L = lite_of UserRequest_Clear (UserRequest_InternalParse L) (UserRequest_ByteSizeLong L)
     UserRequest_GetCachedSize (UserRequest_InternalSerialize L)"

definition uresp_lite :: "wire_lib \<Rightarrow> ServerResponse lite" where
  "uresp_lite L = lite_of ServerResponse_Clear (ServerResponse_InternalParse L) (ServerResponse_ByteSizeLong L)
     ServerResponse_GetCachedSize (ServerResponse_InternalSerialize L)"

lemma sint_ToCachedSize: "n \<le> 65535 \<Longrightarrow> sint (ToCachedSize n) = int n"
  by (simp add: ToCachedSize_def signed_of_nat signed_take_bit_int_eq_self)

text \<open>The general argument: a size function that is stable and right gives the contract.\<close>

lemma lite_ofI:
  assumes cached: "\<And>m n m'. sz m = (n, m') \<Longrightarrow> n \<le> 65535 \<Longrightarrow> cached m' = int n"
    and again: "\<And>m n m'. sz m = (n, m') \<Longrightarrow> sz m' = (n, m')"
    and view: "\<And>m n m'. sz m = (n, m') \<Longrightarrow> view m' = view m"
    and target: "\<And>m n m'. sz m = (n, m') \<Longrightarrow> target m \<Longrightarrow> target m'"
    and len: "\<And>m n m'. sz m = (n, m') \<Longrightarrow> n \<le> 65535 \<Longrightarrow> length (serialize m' []) = n"
    and parse: "\<And>m n m' m0. \<lbrakk>ok m; sz m = (n, m'); n \<le> 65535; target m0\<rbrakk> \<Longrightarrow>
      \<exists>r. parse (serialize m' []) (clear m0) = (True, r) \<and> view r = view m \<and> target r"
  shows "lite_message (lite_of clear parse sz cached serialize) view ok target"
proof (unfold_locales, goal_cases)
  case (1 m n m')
  then show ?case by (simp add: lite_of_def cached)
next
  case (2 m n m' buf)
  then have s: "sz m = (n, m')" by (simp add: lite_of_def)
  then show ?case
    using again [OF s] len [OF s] cached [OF s] 2 by (simp add: lite_of_def write_at_whole)
next
  case (3 m n m' buf)
  then have s: "sz m = (n, m')" by (simp add: lite_of_def)
  have "lt_SerializeToArray (lite_of clear parse sz cached serialize) m' buf =
      (True, serialize m' [], m')"
    using again [OF s] len [OF s] 3 by (simp add: lite_of_def write_at_whole)
  with 3 s cached [OF s] view [OF s] target [OF s] len [OF s] parse [OF 3(1) s 3(3)] show ?case
    by (simp add: lite_of_def)
qed

definition scresp_ok :: "ServerConnectedStateResponse \<Rightarrow> bool" where
  "scresp_ok m \<longleftrightarrow> ServerConnectedStateResponse_wf m \<and> ServerConnectedStateResponse_known m"

definition ccreq_ok :: "ClientConnectedStateRequest \<Rightarrow> bool" where
  "ccreq_ok m \<longleftrightarrow> ClientConnectedStateRequest_wf m \<and> ClientConnectedStateRequest_known m"

definition careq_ok :: "wire_lib \<Rightarrow> ClientAuthRequest \<Rightarrow> bool" where
  "careq_ok L m \<longleftrightarrow> ClientAuthRequest_wf m \<and> ca_unknown m = [] \<and> ClientAuthRequest_utf8 L m"

definition saresp_ok :: "wire_lib \<Rightarrow> ServerAuthResponse \<Rightarrow> bool" where
  "saresp_ok L m \<longleftrightarrow> ServerAuthResponse_wf m \<and> sa_unknown m = [] \<and> ServerAuthResponse_utf8 L m"

definition ureq_ok :: "wire_lib \<Rightarrow> UserRequest \<Rightarrow> bool" where
  "ureq_ok L m \<longleftrightarrow> ur_unknown m = [] \<and> UserRequest_utf8 L m"

definition uresp_ok :: "wire_lib \<Rightarrow> ServerResponse \<Rightarrow> bool" where
  "uresp_ok L m \<longleftrightarrow> sr_unknown m = [] \<and> ServerResponse_utf8 L m"

lemma wire_max_le: "n \<le> 65535 \<Longrightarrow> n \<le> wire_max"
  by (simp add: wire_max_def)

lemma kex_sized_idem [simp]: "kex_sized L p (kex_sized L p k) = kex_sized L p k"
  by (cases k) (auto simp: kex_sized_def KexMsg_ByteSizeLong_def Let_def)

lemma kex_size_sized [simp]: "kex_size L p (kex_sized L p k) = kex_size L p k"
  by (cases k) (auto simp: kex_sized_def kex_size_def KexMsg_ByteSizeLong_def Let_def)

lemma kex_view_sized [simp]: "kex_view p (kex_sized L p k) = kex_view p k"
  by (cases k) (auto simp: kex_sized_def kex_view_def KexMsg_view_def)

lemma kex_ok_sized [simp]: "kex_ok p (kex_sized L p k) = kex_ok p k"
  by (cases k) (auto simp: kex_sized_def kex_ok_def)

sublocale wire_runtime \<subseteq> scresp: lite_message "scresp_lite L" ServerConnectedStateResponse_view
  scresp_ok ServerConnectedStateResponse_wf
  unfolding scresp_lite_def
proof (rule lite_ofI, goal_cases)
  case (5 m n m')
  then show ?case
    using ServerConnectedStateResponse_length [of m] by (simp add: wire_max_le)
next
  case (6 m n m' m0)
  then have "fst (ServerConnectedStateResponse_ByteSizeLong L m) \<le> wire_max"
    by (simp add: wire_max_le)
  with 6 ServerConnectedStateResponse_parse_serialize [of m] ServerConnectedStateResponse_copy_view [of m0 m]
    ServerConnectedStateResponse_copy_wf [of m0 m]
  show ?case
    by (auto simp: scresp_ok_def ServerConnectedStateResponse_CopyFrom_def)
qed (auto simp: ServerConnectedStateResponse_ByteSizeLong_fields Let_def sint_ToCachedSize
    ServerConnectedStateResponse_GetCachedSize_def ServerConnectedStateResponse_view_def ServerConnectedStateResponse_wf_def)

sublocale wire_runtime \<subseteq> ccreq: lite_message "ccreq_lite L" ClientConnectedStateRequest_view
  ccreq_ok ClientConnectedStateRequest_wf
  unfolding ccreq_lite_def
proof (rule lite_ofI, goal_cases)
  case (5 m n m')
  then show ?case
    using ClientConnectedStateRequest_length [of m] by (simp add: wire_max_le)
next
  case (6 m n m' m0)
  then have "fst (ClientConnectedStateRequest_ByteSizeLong L m) \<le> wire_max"
    by (simp add: wire_max_le)
  with 6 ClientConnectedStateRequest_parse_serialize [of m] ClientConnectedStateRequest_copy_view [of m0 m]
    ClientConnectedStateRequest_copy_wf [of m0 m]
  show ?case
    by (auto simp: ccreq_ok_def ClientConnectedStateRequest_CopyFrom_def)
qed (auto simp: ClientConnectedStateRequest_ByteSizeLong_fields Let_def sint_ToCachedSize
    ClientConnectedStateRequest_GetCachedSize_def ClientConnectedStateRequest_view_def ClientConnectedStateRequest_wf_def)

sublocale wire_runtime \<subseteq> careq: lite_message "careq_lite L" ClientAuthRequest_view
  "careq_ok L" ClientAuthRequest_wf
  unfolding careq_lite_def
proof (rule lite_ofI, goal_cases)
  case (5 m n m')
  then show ?case
    using ClientAuthRequest_length [of m] ClientAuthRequest_serialize_cached [of L m] by (simp add: wire_max_le)
next
  case (6 m n m' m0)
  then have "fst (ClientAuthRequest_ByteSizeLong L m) \<le> wire_max"
    by (simp add: wire_max_le)
  with 6 ClientAuthRequest_parse_serialize [of m] ClientAuthRequest_copy_view [of m0 m]
    ClientAuthRequest_copy_wf [of m0 m]
    ClientAuthRequest_serialize_cached [of L m]
  show ?case
    by (auto simp: careq_ok_def ClientAuthRequest_CopyFrom_def)
qed (auto simp: ClientAuthRequest_ByteSizeLong_fields Let_def sint_ToCachedSize
    ClientAuthRequest_GetCachedSize_def ClientAuthRequest_view_def ClientAuthRequest_wf_def)

sublocale wire_runtime \<subseteq> saresp: lite_message "saresp_lite L" ServerAuthResponse_view
  "saresp_ok L" ServerAuthResponse_wf
  unfolding saresp_lite_def
proof (rule lite_ofI, goal_cases)
  case (5 m n m')
  then show ?case
    using ServerAuthResponse_length [of m] ServerAuthResponse_serialize_cached [of L m] by (simp add: wire_max_le)
next
  case (6 m n m' m0)
  then have "fst (ServerAuthResponse_ByteSizeLong L m) \<le> wire_max"
    by (simp add: wire_max_le)
  with 6 ServerAuthResponse_parse_serialize [of m] ServerAuthResponse_copy_view [of m0 m]
    ServerAuthResponse_copy_wf [of m0 m]
    ServerAuthResponse_serialize_cached [of L m]
  show ?case
    by (auto simp: saresp_ok_def ServerAuthResponse_CopyFrom_def)
qed (auto simp: ServerAuthResponse_ByteSizeLong_fields Let_def sint_ToCachedSize
    ServerAuthResponse_GetCachedSize_def ServerAuthResponse_view_def ServerAuthResponse_wf_def)

sublocale wire_runtime \<subseteq> ureq: lite_message "ureq_lite L" UserRequest_view "ureq_ok L" "\<lambda>m. True"
  unfolding ureq_lite_def
proof (rule lite_ofI, goal_cases)
  case (1 m n m')
  then show ?case
    using UserRequest_wire(5) [of L m] by (simp add: UserRequest_GetCachedSize_def sint_ToCachedSize)
next
  case (2 m n m')
  then show ?case
    using UserRequest_wire(4) [of L m] by simp
next
  case (3 m n m')
  then show ?case
    using UserRequest_wire(1) [of L m] by simp
next
  case (5 m n m')
  then show ?case
    using UserRequest_length [of m] UserRequest_wire(3) [of L m] by (simp add: wire_max_le)
next
  case (6 m n m' m0)
  then have "fst (UserRequest_ByteSizeLong L m) \<le> wire_max"
    by (simp add: wire_max_le)
  with 6 UserRequest_parse_serialize [of m "UserRequest_Clear m0"] UserRequest_wire(3) [of L m]
    UserRequest_CopyFrom_view [of m0 m]
  show ?case
    by (auto simp: ureq_ok_def UserRequest_CopyFrom_def)
qed simp

sublocale wire_runtime \<subseteq> uresp: lite_message "uresp_lite L" ServerResponse_view "uresp_ok L" "\<lambda>m. True"
  unfolding uresp_lite_def
proof (rule lite_ofI, goal_cases)
  case (1 m n m')
  then show ?case
    using ServerResponse_wire(5) [of L m] by (simp add: ServerResponse_GetCachedSize_def sint_ToCachedSize)
next
  case (2 m n m')
  then show ?case
    using ServerResponse_wire(4) [of L m] by simp
next
  case (3 m n m')
  then show ?case
    using ServerResponse_wire(1) [of L m] by simp
next
  case (5 m n m')
  then show ?case
    using ServerResponse_length [of m] ServerResponse_wire(3) [of L m] by (simp add: wire_max_le)
next
  case (6 m n m' m0)
  then have "fst (ServerResponse_ByteSizeLong L m) \<le> wire_max"
    by (simp add: wire_max_le)
  with 6 ServerResponse_parse_serialize [of m "ServerResponse_Clear m0"] ServerResponse_wire(3) [of L m]
    ServerResponse_CopyFrom_view [of m0 m]
  show ?case
    by (auto simp: uresp_ok_def ServerResponse_CopyFrom_def)
qed simp

context wire_runtime
begin

lemmas scresp_message = scresp.lite_message_axioms
lemmas ccreq_message = ccreq.lite_message_axioms
lemmas careq_message = careq.lite_message_axioms
lemmas saresp_message = saresp.lite_message_axioms
lemmas ureq_message = ureq.lite_message_axioms
lemmas uresp_message = uresp.lite_message_axioms
lemmas uresp_writer = uresp.lite_writer_axioms

end

section \<open>An instance of the cipher\<close>

text \<open>
  The contract \<open>aead\<close> can be met: a cipher that masks with the first key and IV bytes and appends a
  16-byte checksum over key, IV and text. It stands for AES-GCM in the witnesses only.
\<close>

definition mask_of :: "bytes \<Rightarrow> bytes \<Rightarrow> byte" where
  "mask_of k iv = fold (XOR) (k @ iv) 0"

definition tag_of :: "bytes \<Rightarrow> bytes \<Rightarrow> bytes \<Rightarrow> bytes" where
  "tag_of k iv p = take 16 (replicate 15 (fold (+) (k @ iv) 1) @ [fold (+) p 0])"

definition demo_gcm :: gcm_lib where
  "demo_gcm =
     \<lparr>gcm_encrypt = (\<lambda>k iv p. GcmOut (map ((XOR) (mask_of k iv)) p @ tag_of k iv p)),
      gcm_decrypt = (\<lambda>k iv c.
        (let n = length c - 16; p = map ((XOR) (mask_of k iv)) (take n c)
         in if length c < 16 \<or> drop n c \<noteq> tag_of k iv p then GcmException else GcmOut p)),
      random_block = (\<lambda>r n. replicate n (word_of_nat r))\<rparr>"

lemma map_mask_mask [simp]: "map ((XOR) w \<circ> (XOR) w) p = (p :: bytes)"
  by (induction p) (simp_all add: xor.assoc [symmetric])

interpretation demo: aead demo_gcm
  by unfold_locales (auto simp: demo_gcm_def tag_of_def Let_def split: if_splits)

section \<open>Properties\<close>

text \<open>The plain coder is lossless: for any message class that meets the contract, encoding a message
  of at most 65535 bytes succeeds, the frame has header \<open>0xF0\<close> and as many bytes as it declares, and
  decoding it into any well-formed message gives a message that reads the same.\<close>

lemma MessageCoder_roundtrip:
  assumes "lite_message T view ok target" "ok m" "fst (lt_ByteSizeLong T m) \<le> 65535" "target m0"
  shows "\<exists>g m' fb m''. MessageCoder_encode T f m buf = (True, g, m', fb) \<and> frame_wf g \<and>
    fr_header g = 0xF0 \<and> MessageCoder_decode T g m0 = (True, m'') \<and> view m'' = view m"
proof -
  from lite_message.plain_encode [OF assms(1-3), of f buf] obtain bs m' where e:
    "MessageCoder_encode T f m buf =
       (True, \<lparr>fr_header = 0xF0, fr_len = word_of_nat (length bs), fr_msg = bs\<rparr>, m', bs)"
    "length bs = fst (lt_ByteSizeLong T m)" "view m' = view m" "target m \<longrightarrow> target m'"
    "\<And>m0. target m0 \<Longrightarrow> \<exists>r. lt_ParseFromArray T bs m0 = (True, r) \<and> view r = view m \<and> target r"
    by blast
  have "unat (word_of_nat (length bs) :: u16) = length bs"
    using e(2) assms(3) by (simp add: unat_of_nat)
  with e(1) e(5) [OF assms(4)] show ?thesis
    by (auto simp: frame_wf_def frame_content_def MessageCoder_decode_def)
qed

text \<open>C27: The encrypting coder is lossless between two coders with the same key, for plaintexts up to
  65503 bytes: encoding succeeds, the frame has header \<open>0xF1\<close> and exactly 32 bytes more than the
  plaintext (IV and tag), and the other coder decodes it to a message that reads the same.\<close>

theorem EncrMessageCoder_roundtrip:
  assumes "aead G" "lite_message T view ok target" "ok m" "fst (lt_ByteSizeLong T m) \<le> 65503"
    "target m0" "ec_key c' = ec_key c"
  shows "\<exists>g m' e m'' e'. EncrMessageCoder_encode G T f m r c = (True, g, m', e) \<and> frame_wf g \<and>
    fr_header g = 0xF1 \<and> unat (fr_len g) = fst (lt_ByteSizeLong T m) + 32 \<and>
    EncrMessageCoder_decode G T g m0 c' = (True, m'', e') \<and> view m'' = view m"
  using aead.encr_roundtrip [OF assms] by metis

theorem EncrMessageCoder_roundtrip_witness:
  "\<exists>g m' e m'' e'.
    EncrMessageCoder_encode demo_gcm (careq_lite pb_lib) \<lparr>fr_header = 0, fr_len = 0, fr_msg = []\<rparr> sample_auth 7
      (EncrMessageCoder_new demo_gcm [1, 2] 3) = (True, g, m', e) \<and>
    frame_wf g \<and> fr_header g = 0xF1 \<and>
    unat (fr_len g) = fst (lt_ByteSizeLong (careq_lite pb_lib) sample_auth) + 32 \<and>
    EncrMessageCoder_decode demo_gcm (careq_lite pb_lib) g ClientAuthRequest_new
      (EncrMessageCoder_new demo_gcm [1, 2] 4) = (True, m'', e') \<and>
    ClientAuthRequest_view m'' = ClientAuthRequest_view sample_auth"
proof (rule EncrMessageCoder_roundtrip)
  show "aead demo_gcm"
    by (rule demo.aead_axioms)
  show "lite_message (careq_lite pb_lib) ClientAuthRequest_view (careq_ok pb_lib) ClientAuthRequest_wf"
    by (rule pb.careq.lite_message_axioms)
  show "fst (lt_ByteSizeLong (careq_lite pb_lib) sample_auth) \<le> 65503"
    by (simp add: careq_lite_def lite_of_def ClientAuthRequest_ByteSizeLong_def sample_auth_def)
  show "careq_ok pb_lib sample_auth"
    by (simp add: careq_ok_def sample_auth_def ClientAuthRequest_wf_def ClientAuthRequest_utf8_def
        pb_lib_def pb_utf8_def)
qed (simp_all add: ClientAuthRequest_wf_def ClientAuthRequest_new_def EncrMessageCoder_new_def)

text \<open>C38: The plain coder's limit of 65535 bytes is too high for the encrypting coder: between 65504 and
  65535 bytes of plaintext it still reports success, but the 16-bit length of the frame wraps around
  to the size less 65504, so most of the ciphertext is never sent, and up to 65520 bytes every
  receiver refuses the frame.\<close>

theorem EncrMessageCoder_length_wraps:
  assumes "aead G" "lite_message T view ok target" "ok m" "65503 < fst (lt_ByteSizeLong T m)"
    "fst (lt_ByteSizeLong T m) \<le> 65535"
  shows "\<exists>g m' e. EncrMessageCoder_encode G T f m r c = (True, g, m', e) \<and>
    unat (fr_len g) = fst (lt_ByteSizeLong T m) - 65504 \<and>
    length (ec_msgBuf e) = fst (lt_ByteSizeLong T m) + 32 \<and>
    (fst (lt_ByteSizeLong T m) \<le> 65520 \<longrightarrow>
       (\<forall>m0 c'. fst (EncrMessageCoder_decode G T g m0 c') = False))"
  by (rule aead.encr_truncates [OF assms])

definition long_auth :: ClientAuthRequest where
  "long_auth =
     \<lparr>ca_has_bits = 2, ca_cached_size = 0, ca_request = 0, ca_username = [],
      ca_authcredential = replicate 65500 0, ca_unknown = []\<rparr>"

lemma long_auth_size: "fst (lt_ByteSizeLong (careq_lite pb_lib) long_auth) = 65504"
proof -
  have "length (write_varint 65500) = 3"
    by (subst write_varint.simps, simp, subst write_varint.simps, simp, subst write_varint.simps, simp)
  then show ?thesis
    by (simp add: careq_lite_def lite_of_def ClientAuthRequest_ByteSizeLong_def long_auth_def pb_lib_def
        pb_delimited_def)
qed

theorem EncrMessageCoder_length_wraps_witness:
  "\<exists>g m' e. EncrMessageCoder_encode demo_gcm (careq_lite pb_lib) \<lparr>fr_header = 0, fr_len = 0, fr_msg = []\<rparr> long_auth 7
      (EncrMessageCoder_new demo_gcm [1, 2] 3) = (True, g, m', e) \<and> unat (fr_len g) = 0 \<and>
    length (ec_msgBuf e) = 65536"
proof -
  have "careq_ok pb_lib long_auth"
    by (simp add: careq_ok_def long_auth_def ClientAuthRequest_wf_def ClientAuthRequest_utf8_def)
  from EncrMessageCoder_length_wraps [OF demo.aead_axioms pb.careq.lite_message_axioms this,
      of "\<lparr>fr_header = 0, fr_len = 0, fr_msg = []\<rparr>" 7 "EncrMessageCoder_new demo_gcm [1, 2] 3"] long_auth_size
  show ?thesis by auto
qed

end
