(* ===== verification/Kex.thy ===== *)
theory Kex
  imports Base
begin

text \<open>
  \<open>x25519KexProtocol\<close> (\<open>x25519KexProtocol.cpp\<close> and its header): the key agreement both ends run. The
  X25519 object, the random generator and SHA-512 of Crypto++ are the parameter \<open>dh_lib\<close>; the locale
  \<open>key_agreement\<close> is what the protocol relies on: two generated key pairs agree on one secret.

  Members the constructor does not initialise (\<open>isSharedSecretAgreed\<close>, the contents of the secure
  blocks) get their first value from an argument of \<open>x25519_new\<close>.
\<close>

record dh_lib =
  GenerateKeyPair :: "nat \<Rightarrow> bytes \<times> bytes"
  Agree :: "bytes \<Rightarrow> bytes \<Rightarrow> bytes option"
  TruncatedFinal :: "bytes \<Rightarrow> nat \<Rightarrow> bytes"

record x25519_kex =
  privKey :: bytes
  pubKey :: bytes
  pubKeyOther :: bytes
  shared :: bytes
  isInit :: bool
  isSharedSecretAgreed :: bool

definition x25519_new :: "byte \<Rightarrow> bool \<Rightarrow> x25519_kex" where
  "x25519_new fill agreed =
     \<lparr>privKey = replicate 32 fill, pubKey = replicate 32 fill, pubKeyOther = [],
      shared = replicate 32 fill, isInit = False, isSharedSecretAgreed = agreed\<rparr>"

definition x25519_init :: "dh_lib \<Rightarrow> nat \<Rightarrow> x25519_kex \<Rightarrow> x25519_kex" where
  "x25519_init D r k =
     k\<lparr>privKey := fst (GenerateKeyPair D r), pubKey := snd (GenerateKeyPair D r), isInit := True\<rparr>"

definition getPubKey :: "x25519_kex \<Rightarrow> bytes option" where
  "getPubKey k = (if \<not> isInit k then None else Some (pubKey k))"

definition loadOtherKeyArr :: "bytes \<Rightarrow> x25519_kex \<Rightarrow> bool \<times> x25519_kex" where
  "loadOtherKeyArr buf k =
     (if length buf \<noteq> 32 then (False, k) else (True, k\<lparr>pubKeyOther := buf\<rparr>))"

text \<open>\<open>Agree\<close> reads 32 bytes of the other key, which is empty until one is loaded.\<close>

definition agree :: "dh_lib \<Rightarrow> x25519_kex \<Rightarrow> fault + (bool \<times> x25519_kex)" where
  "agree D k =
     (if length (pubKeyOther k) < 32 then Inl OutOfBounds
      else case Agree D (privKey k) (pubKeyOther k) of
             None \<Rightarrow> Inr (False, k)
           | Some s \<Rightarrow> Inr (True, k\<lparr>shared := s, isSharedSecretAgreed := True\<rparr>))"

definition getShared :: "x25519_kex \<Rightarrow> bytes option" where
  "getShared k = (if \<not> isSharedSecretAgreed k then None else Some (shared k))"

definition loadOtherKey :: "bytes option \<Rightarrow> x25519_kex \<Rightarrow> x25519_kex" where
  "loadOtherKey other k = (case other of None \<Rightarrow> k | Some b \<Rightarrow> k\<lparr>pubKeyOther := b\<rparr>)"

text \<open>\<open>getKey256\<close> writes into the caller's block; the result is its new content.\<close>

definition getKey256 :: "dh_lib \<Rightarrow> bytes \<Rightarrow> x25519_kex \<Rightarrow> bool \<times> bytes" where
  "getKey256 D key k =
     (if \<not> isSharedSecretAgreed k \<or> length key \<noteq> 32 then (False, key)
      else (True, TruncatedFinal D (shared k) (length key)))"

lemmas kex_defs = x25519_new_def x25519_init_def getPubKey_def loadOtherKeyArr_def agree_def
  getShared_def loadOtherKey_def getKey256_def

section \<open>The contract of X25519\<close>

locale key_agreement =
  fixes D :: dh_lib
  assumes public_length: "length (snd (GenerateKeyPair D r)) = 32"
    and agreement: "\<exists>s. Agree D (fst (GenerateKeyPair D a)) (snd (GenerateKeyPair D b)) = Some s \<and>
      Agree D (fst (GenerateKeyPair D b)) (snd (GenerateKeyPair D a)) = Some s"
begin

text \<open>The key that the owners of the key pairs \<open>a\<close> and \<open>b\<close> derive.\<close>

lemma agreed_key_sym:
  "Agree D (fst (GenerateKeyPair D a)) (snd (GenerateKeyPair D b)) =
   Agree D (fst (GenerateKeyPair D b)) (snd (GenerateKeyPair D a))"
  using agreement [of a b] by metis

lemma agree_generated:
  obtains s where "Agree D (fst (GenerateKeyPair D a)) (snd (GenerateKeyPair D b)) = Some s"
  using agreement [of a b] by metis

end

text \<open>An instance for the witnesses: secrets are bytes, agreement adds them up.\<close>

definition demo_dh :: dh_lib where
  "demo_dh =
     \<lparr>GenerateKeyPair = (\<lambda>r. (replicate 32 (word_of_nat r), replicate 32 (word_of_nat r))),
      Agree = (\<lambda>a b. Some (map2 (+) a b)),
      TruncatedFinal = (\<lambda>s n. resize n s)\<rparr>"

interpretation demo_dh: key_agreement demo_dh
  by unfold_locales (simp_all add: demo_dh_def zip_replicate add.commute)

section \<open>Properties\<close>

text \<open>Both ends derive the same 256-bit key: two freshly constructed protocol objects that are
  initialised with any randomness and load each other's public key (of which \<open>loadOtherKeyArr\<close>
  accepts exactly those of 32 bytes) both agree without a fault and both \<open>getKey256\<close> calls succeed
  with equal keys, whatever the uninitialised members held.\<close>

lemma x25519_same_key:
  assumes "key_agreement D"
  shows "\<exists>ka kb.
    (let a = x25519_init D ra (x25519_new fa ua); b = x25519_init D rb (x25519_new fb ub) in
      agree D (snd (loadOtherKeyArr (the (getPubKey b)) a)) = Inr (True, ka) \<and>
      agree D (snd (loadOtherKeyArr (the (getPubKey a)) b)) = Inr (True, kb)) \<and>
    fst (getKey256 D (replicate 32 0) ka) \<and> fst (getKey256 D (replicate 32 0) kb) \<and>
    getKey256 D (replicate 32 0) ka = getKey256 D (replicate 32 0) kb"
proof -
  obtain s where "Agree D (fst (GenerateKeyPair D ra)) (snd (GenerateKeyPair D rb)) = Some s"
    "Agree D (fst (GenerateKeyPair D rb)) (snd (GenerateKeyPair D ra)) = Some s"
    using key_agreement.agreement [OF assms, of ra rb] by blast
  then show ?thesis
    by (simp add: kex_defs key_agreement.public_length [OF assms])
qed

end
