(* ===== verification/Authenticators.thy ===== *)
theory Authenticators
  imports PbAuth
begin

text \<open>
  \<open>Authenticator\<close> and its strategies (\<open>Authenticator.cpp\<close>, \<open>protocom/Authenticator.h\<close>): the user table
  maps a name to the strategies that may accept it. \<open>IAuthenticationStrategy\<close> is an open interface:
  a strategy of an application is a function. The strategies are owned by the table; their deletion
  is not modelled.
\<close>

datatype strategy =
    TrustAuthentication
  | PasswordAuthentication bytes
  | OtherAuthentication "ClientAuthRequest \<Rightarrow> bool"

definition PasswordAuthentication_verify :: "bytes \<Rightarrow> ClientAuthRequest \<Rightarrow> bool" where
  "PasswordAuthentication_verify password req =
     (if \<not> ClientAuthRequest_has_authcredential req then False
      else ClientAuthRequest_authcredential req = password)"

definition TrustAuthentication_verify :: "ClientAuthRequest \<Rightarrow> bool" where
  "TrustAuthentication_verify req = True"

fun verify :: "strategy \<Rightarrow> ClientAuthRequest \<Rightarrow> bool" where
  "verify TrustAuthentication req = TrustAuthentication_verify req"
| "verify (PasswordAuthentication p) req = PasswordAuthentication_verify p req"
| "verify (OtherAuthentication f) req = f req"

record user_info =
  supportedAuths :: "strategy list"

record authenticator =
  userTable :: "bytes \<rightharpoonup> user_info"

definition Authenticator_empty :: authenticator where
  "Authenticator_empty = \<lparr>userTable = Map.empty\<rparr>"

text \<open>\<open>userTable[username]\<close> inserts an empty entry for a new name.\<close>

definition addUser :: "bytes \<Rightarrow> strategy \<Rightarrow> authenticator \<Rightarrow> authenticator" where
  "addUser username m a =
     (let info = (case userTable a username of None \<Rightarrow> \<lparr>supportedAuths = []\<rparr> | Some i \<Rightarrow> i)
      in a\<lparr>userTable := (userTable a)(username \<mapsto> info\<lparr>supportedAuths := supportedAuths info @ [m]\<rparr>)\<rparr>)"

fun any_verifies :: "strategy list \<Rightarrow> ClientAuthRequest \<Rightarrow> bool" where
  "any_verifies [] req = False"
| "any_verifies (m # ms) req = (if verify m req then True else any_verifies ms req)"

definition authenticate :: "ClientAuthRequest \<Rightarrow> authenticator \<Rightarrow> bool" where
  "authenticate req a =
     (case userTable a (ClientAuthRequest_username req) of
        None \<Rightarrow> False
      | Some info \<Rightarrow> any_verifies (supportedAuths info) req)"

definition delUser :: "bytes \<Rightarrow> authenticator \<Rightarrow> authenticator" where
  "delUser username a = a\<lparr>userTable := (userTable a)(username := None)\<rparr>"

section \<open>Histories\<close>

datatype auth_op = AddUser bytes strategy | DelUser bytes

fun auth_exec :: "auth_op \<Rightarrow> authenticator \<Rightarrow> authenticator" where
  "auth_exec (AddUser u m) a = addUser u m a"
| "auth_exec (DelUser u) a = delUser u a"

lemma any_verifies_iff: "any_verifies ms req \<longleftrightarrow> (\<exists>m\<in>set ms. verify m req)"
  by (induction ms) auto

text \<open>The strategies a history leaves for a name: those added after its last deletion.\<close>

fun granted :: "bytes \<Rightarrow> auth_op list \<Rightarrow> strategy list \<Rightarrow> strategy list" where
  "granted u [] acc = acc"
| "granted u (AddUser v m # cs) acc = granted u cs (if v = u then acc @ [m] else acc)"
| "granted u (DelUser v # cs) acc = granted u cs (if v = u then [] else acc)"

definition auths_of :: "bytes \<Rightarrow> authenticator \<Rightarrow> strategy list" where
  "auths_of u a = (case userTable a u of None \<Rightarrow> [] | Some i \<Rightarrow> supportedAuths i)"

lemma authenticate_auths:
  "authenticate req a \<longleftrightarrow> (\<exists>m\<in>set (auths_of (ClientAuthRequest_username req) a). verify m req)"
  by (auto simp: authenticate_def auths_of_def any_verifies_iff split: option.split)

lemma auths_of_exec:
  "auths_of u (auth_exec c a) =
     (case c of
        AddUser v m \<Rightarrow> if v = u then auths_of u a @ [m] else auths_of u a
      | DelUser v \<Rightarrow> if v = u then [] else auths_of u a)"
  by (cases c) (auto simp: auths_of_def addUser_def delUser_def Let_def split: option.split)

lemma auths_of_run: "auths_of u (fold auth_exec cs a) = granted u cs (auths_of u a)"
proof (induction cs arbitrary: a)
  case (Cons c cs)
  then show ?case
    by (cases c) (simp_all add: auths_of_exec del: auth_exec.simps)
qed simp

lemma granted_iff:
  "m \<in> set (granted u cs acc) \<longleftrightarrow>
     (\<exists>xs ys. cs = xs @ AddUser u m # ys \<and> DelUser u \<notin> set ys) \<or> (m \<in> set acc \<and> DelUser u \<notin> set cs)"
proof (induction u cs acc rule: granted.induct)
  case (2 u v n cs acc)
  have "(\<exists>xs ys. AddUser v n # cs = xs @ AddUser u m # ys \<and> DelUser u \<notin> set ys) \<longleftrightarrow>
      (v = u \<and> n = m \<and> DelUser u \<notin> set cs) \<or> (\<exists>xs ys. cs = xs @ AddUser u m # ys \<and> DelUser u \<notin> set ys)"
    by (auto simp: Cons_eq_append_conv)
  with 2 show ?case by auto
next
  case (3 u v cs acc)
  have "(\<exists>xs ys. DelUser v # cs = xs @ AddUser u m # ys \<and> DelUser u \<notin> set ys) \<longleftrightarrow>
      (\<exists>xs ys. cs = xs @ AddUser u m # ys \<and> DelUser u \<notin> set ys)"
    by (auto simp: Cons_eq_append_conv)
  with 3 show ?case by auto
qed simp

section \<open>Properties\<close>

text \<open>C33: A request is accepted exactly when, in the history of the table, some strategy that accepts it
  was added for its user name and the name was not deleted afterwards; so an unknown user, a deleted
  user and a user without an accepting strategy are all refused, and deleting a user revokes every
  strategy at once.\<close>

theorem Authenticator_history:
  "authenticate req (fold auth_exec cs Authenticator_empty) \<longleftrightarrow>
     (\<exists>m xs ys. cs = xs @ AddUser (ClientAuthRequest_username req) m # ys \<and>
        DelUser (ClientAuthRequest_username req) \<notin> set ys \<and> verify m req)"
proof -
  have "auths_of u Authenticator_empty = []" for u
    by (simp add: auths_of_def Authenticator_empty_def)
  then have "authenticate req (fold auth_exec cs Authenticator_empty) \<longleftrightarrow>
      (\<exists>m. m \<in> set (granted (ClientAuthRequest_username req) cs []) \<and> verify m req)"
    by (auto simp: authenticate_auths auths_of_run)
  also have "\<dots> \<longleftrightarrow> (\<exists>m xs ys. cs = xs @ AddUser (ClientAuthRequest_username req) m # ys \<and>
      DelUser (ClientAuthRequest_username req) \<notin> set ys \<and> verify m req)"
    by (simp add: granted_iff) blast
  finally show ?thesis .
qed

text \<open>A password strategy accepts exactly the requests that carry a credential equal to the
  password: a request without the optional credential field is refused even when the password is
  empty and the field reads as empty.\<close>

theorem Password_needs_credential:
  "authenticate req (addUser (ClientAuthRequest_username req) (PasswordAuthentication p) Authenticator_empty) \<longleftrightarrow>
     ClientAuthRequest_has_authcredential req \<and> ClientAuthRequest_authcredential req = p"
  by (simp add: authenticate_def addUser_def Authenticator_empty_def Let_def PasswordAuthentication_verify_def)

end
