(* ===== verification/Handlers.thy ===== *)
theory Handlers
  imports Coders Kex Authenticators
begin

text \<open>
  The server's protocol state machine: \<open>ProtocolContext\<close> and its three state handlers
  (\<open>ProtocolContext.cpp\<close>, \<open>ProtocolConnectedHandler.cpp\<close>, \<open>ProtocolAuthenticationHandler.cpp\<close>,
  \<open>ProtocolUserHandler.h\<close>, \<open>TestUserHandler.cpp\<close> and the handler factories). A context handles one
  frame at a time; the frames it writes to its sink are the list \<open>ctx_io\<close> (\<open>None\<close> for the null
  pointer before \<open>setIO\<close>). \<open>setState\<close> deletes the current handler and installs another, or none:
  a context without a handler is inactive. An exception is a \<open>fault\<close>; no caller catches it.

  The libraries are one parameter, \<open>proto_env\<close>: \<open>MessageLite\<close> for every message class, AES-GCM, X25519.
  Randomness is drawn by number, counted in \<open>ctx_rng\<close>; \<open>garbage\<close> is the value of an uninitialised flag.
\<close>

section \<open>Handlers and contexts\<close>

record proto_env =
  lt_ccreq :: "ClientConnectedStateRequest lite"
  lt_scresp :: "ServerConnectedStateResponse lite"
  lt_careq :: "ClientAuthRequest lite"
  lt_saresp :: "ServerAuthResponse lite"
  lt_ureq :: "UserRequest lite"
  lt_uresp :: "ServerResponse lite"
  gcm :: gcm_lib
  dh :: dh_lib
  garbage :: "nat \<Rightarrow> bool"

record connected_handler =
  ch_coder :: coder
  ch_request :: ClientConnectedStateRequest
  ch_response :: ServerConnectedStateResponse
  isKexComplete :: bool

record auth_handler =
  ah_coder :: coder
  ah_response :: ServerAuthResponse
  ah_request :: ClientAuthRequest
  remainingAttempts :: int

record user_handler =
  uh_coder :: coder
  uh_request :: UserRequest
  uh_response :: ServerResponse

datatype handler =
    HConnected connected_handler
  | HAuth auth_handler
  | HUser user_handler

datatype user_factory = NullUserHandlerFactory | TestUserHandlerFactory

record proto_context =
  ctx_io :: "frame list option"
  ctx_state :: "handler option"
  finalStateFactory :: "user_factory option"
  ctx_rng :: nat

definition setState :: "handler option \<Rightarrow> proto_context \<Rightarrow> proto_context" where
  "setState newState c = c\<lparr>ctx_state := newState\<rparr>"

definition setIO :: "frame list option \<Rightarrow> proto_context \<Rightarrow> proto_context" where
  "setIO io c = c\<lparr>ctx_io := io\<rparr>"

definition isActive :: "proto_context \<Rightarrow> bool" where
  "isActive c \<longleftrightarrow> ctx_state c \<noteq> None"

definition getFinalStateFactory :: "proto_context \<Rightarrow> user_factory option" where
  "getFinalStateFactory c = finalStateFactory c"

text \<open>\<open>ctx.getIO().writeFrame(frame)\<close>.\<close>

definition getIO :: "proto_context \<Rightarrow> fault + frame list" where
  "getIO c = (case ctx_io c of None \<Rightarrow> Inl (RuntimeError ''IO is null'') | Some out \<Rightarrow> Inr out)"

definition io_writeFrame :: "frame \<Rightarrow> proto_context \<Rightarrow> fault + proto_context" where
  "io_writeFrame f c =
     (case getIO c of Inl e \<Rightarrow> Inl e | Inr out \<Rightarrow> Inr (c\<lparr>ctx_io := Some (out @ [f])\<rparr>))"

definition no_frame :: frame where
  "no_frame = \<lparr>fr_header = 0, fr_len = 0, fr_msg = []\<rparr>"

text \<open>A frame encoded with a handler's coder and written to the sink.\<close>

definition encode_and_write ::
    "proto_env \<Rightarrow> 'm lite \<Rightarrow> 'm \<Rightarrow> coder \<Rightarrow> proto_context \<Rightarrow> fault + ('m \<times> coder \<times> proto_context)" where
  "encode_and_write E T m k c =
     (let (ok, f, m, k) = coder_encode (gcm E) T no_frame m (ctx_rng c) k;
          c = c\<lparr>ctx_rng := Suc (ctx_rng c)\<rparr>
      in if \<not> ok then Inl (RuntimeError ''respWithStatus: encode failed'')
         else case io_writeFrame f c of
                Inl e \<Rightarrow> Inl e
              | Inr c \<Rightarrow> Inr (m, k, c))"

section \<open>The connected state\<close>

definition ProtocolConnectedHandler_new :: connected_handler where
  "ProtocolConnectedHandler_new =
     \<lparr>ch_coder = Plain \<lparr>frame_bytes = []\<rparr>, ch_request = ClientConnectedStateRequest_new,
      ch_response = ServerConnectedStateResponse_new, isKexComplete = False\<rparr>"

definition ProtocolAuthenticationHandler_new :: "coder \<Rightarrow> auth_handler" where
  "ProtocolAuthenticationHandler_new k =
     \<lparr>ah_coder = k, ah_response = ServerAuthResponse_new, ah_request = ClientAuthRequest_new,
      remainingAttempts = 5\<rparr>"

definition Connected_respWithStatus ::
    "proto_env \<Rightarrow> i32 \<Rightarrow> connected_handler \<Rightarrow> proto_context \<Rightarrow> fault + (connected_handler \<times> proto_context)" where
  "Connected_respWithStatus E status h c =
     (case encode_and_write E (lt_scresp E) (ServerConnectedStateResponse_set_status status (ch_response h))
             (ch_coder h) c of
        Inl e \<Rightarrow> Inl e
      | Inr (m, k, c) \<Rightarrow> Inr (h\<lparr>ch_response := m, ch_coder := k\<rparr>, c))"

definition handleKex ::
    "proto_env \<Rightarrow> connected_handler \<Rightarrow> proto_context \<Rightarrow> fault + (connected_handler \<times> proto_context)" where
  "handleKex E h c =
     (if isKexComplete h \<or> \<not> ClientConnectedStateRequest_has_kex (ch_request h)
      then Connected_respWithStatus E ServerConnectedStateResponse_ResponseStatus_REQUEST_ERROR h c
      else let kex = x25519_init (dh E) (ctx_rng c) (x25519_new 0 (garbage E (ctx_rng c)));
               c = c\<lparr>ctx_rng := Suc (ctx_rng c)\<rparr>;
               kexReq = ClientConnectedStateRequest_kex (ch_request h);
               h = h\<lparr>ch_response := ServerConnectedStateResponse_mutable_kex id (ch_response h)\<rparr>;
               (loaded, kex) =
                 (if KexMsg_alg kexReq \<noteq> KexMsg_KexAlg_KEX_ECDH then (False, kex)
                  else loadOtherKeyArr (KexMsg_pkey kexReq) kex)
           in if \<not> loaded
              then Connected_respWithStatus E ServerConnectedStateResponse_ResponseStatus_REQUEST_ERROR h c
              else let h = h\<lparr>ch_response := ServerConnectedStateResponse_mutable_kex
                               (KexMsg_set_alg KexMsg_KexAlg_KEX_ECDH) (ch_response h)\<rparr>
                   in case getPubKey kex of
                     None \<Rightarrow>
                       Connected_respWithStatus E ServerConnectedStateResponse_ResponseStatus_REQUEST_ERROR h c
                   | Some pubkey \<Rightarrow>
                      (case agree (dh E) kex of
                         Inl e \<Rightarrow> Inl e
                       | Inr (agreed, kex) \<Rightarrow>
                          if \<not> agreed
                          then Connected_respWithStatus E
                                 ServerConnectedStateResponse_ResponseStatus_REQUEST_ERROR h c
                          else let h = h\<lparr>ch_response := ServerConnectedStateResponse_mutable_kex
                                           (KexMsg_set_pkey pubkey) (ch_response h)\<rparr>;
                                   (got, agreed_key) = getKey256 (dh E) (replicate 32 0) kex
                               in if \<not> got
                                  then Connected_respWithStatus E
                                         ServerConnectedStateResponse_ResponseStatus_REQUEST_ERROR h c
                                  else let h = h\<lparr>isKexComplete := True\<rparr>;
                                           mcoder = EncrMessageCoder_new (gcm E) agreed_key (ctx_rng c);
                                           c = c\<lparr>ctx_rng := Suc (ctx_rng c)\<rparr>
                                       in case Connected_respWithStatus E
                                                 ServerConnectedStateResponse_ResponseStatus_OK h c of
                                            Inl e \<Rightarrow> Inl e
                                          | Inr (h, c) \<Rightarrow> Inr (h\<lparr>ch_coder := Encr mcoder\<rparr>, c)))"

text \<open>The result of a handler is the context, with the handler or its successor as the state.\<close>

definition keep_connected :: "fault + (connected_handler \<times> proto_context) \<Rightarrow> fault + proto_context" where
  "keep_connected r =
     (case r of Inl e \<Rightarrow> Inl e | Inr (h, c) \<Rightarrow> Inr (c\<lparr>ctx_state := Some (HConnected h)\<rparr>))"

definition handleAuthRequest ::
    "proto_env \<Rightarrow> connected_handler \<Rightarrow> proto_context \<Rightarrow> fault + proto_context" where
  "handleAuthRequest E h c =
     (if \<not> isKexComplete h
      then keep_connected
             (Connected_respWithStatus E ServerConnectedStateResponse_ResponseStatus_REQUEST_ERROR h c)
      else case Connected_respWithStatus E ServerConnectedStateResponse_ResponseStatus_OK h c of
             Inl e \<Rightarrow> Inl e
           | Inr (h, c) \<Rightarrow> Inr (setState (Some (HAuth (ProtocolAuthenticationHandler_new (ch_coder h)))) c))"

definition Connected_handleFrame ::
    "proto_env \<Rightarrow> frame \<Rightarrow> connected_handler \<Rightarrow> proto_context \<Rightarrow> fault + proto_context" where
  "Connected_handleFrame E f h c =
     (let h = h\<lparr>ch_response := ServerConnectedStateResponse_set_status
                  ServerConnectedStateResponse_ResponseStatus_INVALID_REQUEST
                  (ServerConnectedStateResponse_Clear (ch_response h))\<rparr>;
          (ok, req, k) = coder_decode (gcm E) (lt_ccreq E) f (ch_request h) (ch_coder h);
          h = h\<lparr>ch_request := req, ch_coder := k\<rparr>;
          t = ClientConnectedStateRequest_type req
      in if \<not> ok
         then keep_connected
                (Connected_respWithStatus E ServerConnectedStateResponse_ResponseStatus_DECODE_ERROR h c)
         else if t = ClientConnectedStateRequest_RequestType_UNKNOWN then keep_connected (Inr (h, c))
         else if t = ClientConnectedStateRequest_RequestType_REQUEST_KEX then keep_connected (handleKex E h c)
         else if t = ClientConnectedStateRequest_RequestType_REQUEST_AUTH then handleAuthRequest E h c
         else keep_connected (Inr (h, c)))"

section \<open>The authentication state\<close>

definition Auth_respWithStatus ::
    "proto_env \<Rightarrow> i32 \<Rightarrow> auth_handler \<Rightarrow> proto_context \<Rightarrow> fault + (auth_handler \<times> proto_context)" where
  "Auth_respWithStatus E status h c =
     (case encode_and_write E (lt_saresp E) (ServerAuthResponse_set_status status (ah_response h)) (ah_coder h) c of
        Inl e \<Rightarrow> Inl e
      | Inr (m, k, c) \<Rightarrow> Inr (h\<lparr>ah_response := m, ah_coder := k\<rparr>, c))"

definition ProtocolUserHandler_new :: "coder \<Rightarrow> user_handler" where
  [simp]: "ProtocolUserHandler_new k =
     \<lparr>uh_coder = k, uh_request = UserRequest_new, uh_response = ServerResponse_new\<rparr>"

definition TestUserHandler_new :: "coder \<Rightarrow> user_handler" where
  "TestUserHandler_new k = ProtocolUserHandler_new k"

text \<open>The two overrides of \<open>createHandler\<close>, and the virtual call.\<close>

definition NullUserHandlerFactory_createHandler :: "coder \<Rightarrow> handler option" where
  [simp]: "NullUserHandlerFactory_createHandler k = None"

definition TestUserHandlerFactory_createHandler :: "coder \<Rightarrow> handler option" where
  [simp]: "TestUserHandlerFactory_createHandler k = Some (HUser (TestUserHandler_new k))"

fun createHandler :: "user_factory \<Rightarrow> coder \<Rightarrow> handler option" where
  "createHandler NullUserHandlerFactory k = NullUserHandlerFactory_createHandler k"
| "createHandler TestUserHandlerFactory k = TestUserHandlerFactory_createHandler k"

definition keep_auth :: "fault + (auth_handler \<times> proto_context) \<Rightarrow> fault + proto_context" where
  "keep_auth r = (case r of Inl e \<Rightarrow> Inl e | Inr (h, c) \<Rightarrow> Inr (c\<lparr>ctx_state := Some (HAuth h)\<rparr>))"

definition proceedAuth :: "proto_env \<Rightarrow> auth_handler \<Rightarrow> proto_context \<Rightarrow> fault + proto_context" where
  "proceedAuth E h c =
     (case Auth_respWithStatus E ServerAuthResponse_ResponseStatus_AUTH_ACCEPT h c of
        Inl e \<Rightarrow> Inl e
      | Inr (h, c) \<Rightarrow>
          (case getFinalStateFactory c of
             None \<Rightarrow> Inr (setState None c)
           | Some fac \<Rightarrow> Inr (setState (createHandler fac (ah_coder h)) c)))"

text \<open>\<open>doAuth\<close>; the server's authenticator is \<open>None\<close> for the null pointer.\<close>

definition doAuth ::
    "proto_env \<Rightarrow> authenticator option \<Rightarrow> auth_handler \<Rightarrow> proto_context \<Rightarrow> fault + proto_context" where
  "doAuth E auth h c =
     (case auth of
        None \<Rightarrow> proceedAuth E h c
      | Some a \<Rightarrow>
          if authenticate (ah_request h) a then proceedAuth E h c
          else if remainingAttempts h > 0
          then keep_auth (Auth_respWithStatus E ServerAuthResponse_ResponseStatus_AUTH_CONTINUE
                 (h\<lparr>remainingAttempts := remainingAttempts h - 1\<rparr>) c)
          else case Auth_respWithStatus E ServerAuthResponse_ResponseStatus_AUTH_REJECT h c of
                 Inl e \<Rightarrow> Inl e
               | Inr (h, c) \<Rightarrow> Inr (setState None c))"

text \<open>A decode error is answered, but the handler goes on with the request it has.\<close>

definition Auth_dispatch ::
    "proto_env \<Rightarrow> authenticator option \<Rightarrow> auth_handler \<Rightarrow> proto_context \<Rightarrow> fault + proto_context" where
  "Auth_dispatch E auth h c =
     (let t = ClientAuthRequest_request (ah_request h)
      in if t = ClientAuthRequest_RequestType_AUTH_SUPPLY then doAuth E auth h c
         else if t = ClientAuthRequest_RequestType_AUTH_INFO
         then keep_auth (Auth_respWithStatus E ServerAuthResponse_ResponseStatus_INVALID_REQUEST h c)
         else keep_auth (Auth_respWithStatus E ServerAuthResponse_ResponseStatus_INVALID_REQUEST h c))"

definition Auth_handleFrame ::
    "proto_env \<Rightarrow> authenticator option \<Rightarrow> frame \<Rightarrow> auth_handler \<Rightarrow> proto_context \<Rightarrow> fault + proto_context" where
  "Auth_handleFrame E auth f h c =
     (let h = h\<lparr>ah_response := ServerAuthResponse_set_status ServerAuthResponse_ResponseStatus_INVALID_REQUEST
                  (ServerAuthResponse_Clear (ah_response h))\<rparr>;
          (ok, req, k) = coder_decode (gcm E) (lt_careq E) f (ah_request h) (ah_coder h);
          h = h\<lparr>ah_request := req, ah_coder := k\<rparr>
      in if \<not> ok
         then (case Auth_respWithStatus E ServerAuthResponse_ResponseStatus_DECODE_ERROR h c of
                 Inl e \<Rightarrow> Inl e
               | Inr (h, c) \<Rightarrow> Auth_dispatch E auth h c)
         else Auth_dispatch E auth h c)"

section \<open>The user state\<close>

definition sendResp :: "proto_env \<Rightarrow> user_handler \<Rightarrow> proto_context \<Rightarrow> fault + (user_handler \<times> proto_context)" where
  "sendResp E h c =
     (case encode_and_write E (lt_uresp E) (uh_response h) (uh_coder h) c of
        Inl e \<Rightarrow> Inl e
      | Inr (m, k, c) \<Rightarrow> Inr (h\<lparr>uh_response := m, uh_coder := k\<rparr>, c))"

definition ascii :: "string \<Rightarrow> bytes" where
  "ascii s = map (\<lambda>ch. word_of_nat (of_char ch)) s"

definition handleMsg :: "proto_env \<Rightarrow> UserRequest \<Rightarrow> user_handler \<Rightarrow> proto_context \<Rightarrow>
    fault + (user_handler \<times> proto_context)" where
  "handleMsg E msg h c =
     sendResp E (h\<lparr>uh_response := ServerResponse_set_msg (ascii ''You said: '' @ UserRequest_msg msg)
       (ServerResponse_Clear (uh_response h))\<rparr>) c"

definition handleDecodeErr :: "proto_env \<Rightarrow> user_handler \<Rightarrow> proto_context \<Rightarrow> fault + (user_handler \<times> proto_context)" where
  "handleDecodeErr E h c =
     sendResp E (h\<lparr>uh_response := ServerResponse_set_msg (ascii ''You stupid!!!!'')
       (ServerResponse_Clear (uh_response h))\<rparr>) c"

definition User_handleFrame :: "proto_env \<Rightarrow> frame \<Rightarrow> user_handler \<Rightarrow> proto_context \<Rightarrow> fault + proto_context" where
  "User_handleFrame E f h c =
     (let (ok, req, k) = coder_decode (gcm E) (lt_ureq E) f (uh_request h) (uh_coder h);
          h = h\<lparr>uh_request := req, uh_coder := k\<rparr>
      in case (if \<not> ok then handleDecodeErr E h c else handleMsg E req h c) of
           Inl e \<Rightarrow> Inl e
         | Inr (h, c) \<Rightarrow> Inr (c\<lparr>ctx_state := Some (HUser h)\<rparr>))"

section \<open>The context\<close>

definition ProtocolContext_new :: "user_factory option \<Rightarrow> nat \<Rightarrow> proto_context" where
  "ProtocolContext_new fac r =
     \<lparr>ctx_io = None, ctx_state = Some (HConnected ProtocolConnectedHandler_new),
      finalStateFactory = fac, ctx_rng = r\<rparr>"

definition ProtocolContext_handleFrame ::
    "proto_env \<Rightarrow> authenticator option \<Rightarrow> frame \<Rightarrow> proto_context \<Rightarrow> fault + proto_context" where
  "ProtocolContext_handleFrame E auth f c =
     (case ctx_state c of
        None \<Rightarrow> Inr c
      | Some (HConnected h) \<Rightarrow> Connected_handleFrame E f h c
      | Some (HAuth h) \<Rightarrow> Auth_handleFrame E auth f h c
      | Some (HUser h) \<Rightarrow> User_handleFrame E f h c)"

text \<open>Handling frames one after another, with the authenticator the server has at each.\<close>

fun run_frames ::
    "proto_env \<Rightarrow> (authenticator option \<times> frame) list \<Rightarrow> proto_context \<Rightarrow> fault + proto_context" where
  "run_frames E [] c = Inr c"
| "run_frames E ((auth, f) # fs) c =
     (case ProtocolContext_handleFrame E auth f c of
        Inl e \<Rightarrow> Inl e
      | Inr c' \<Rightarrow> run_frames E fs c')"

end
