(* ===== verification/HandlerFacts.thy ===== *)
theory HandlerFacts
  imports Handlers
begin

text \<open>
  Facts about the handlers of \<open>Handlers\<close>: the invariant \<open>state_ok\<close> of a context's state, that a session with a key
  writes encrypted frames only (\<open>run_frames_secure\<close>), and that in an environment which keeps its contracts the
  handlers of the protocol do not throw (\<open>handleFrame_returns\<close>).
\<close>

section \<open>Encryption once the key exchange is complete\<close>

text \<open>\<open>wrote b c c'\<close>: only frames were added to the sink, all of them encrypted ones if \<open>b\<close>.\<close>

definition wrote :: "bool \<Rightarrow> proto_context \<Rightarrow> proto_context \<Rightarrow> bool" where
  "wrote b c c' \<longleftrightarrow>
     finalStateFactory c' = finalStateFactory c \<and>
     (\<forall>out. ctx_io c = Some out \<longrightarrow>
       (\<exists>ws. ctx_io c' = Some (out @ ws) \<and> (b \<longrightarrow> (\<forall>w\<in>set ws. fr_header w = 0xF1))))"

lemma wrote_refl [simp]: "wrote b c c"
  by (simp add: wrote_def)

lemma wrote_state [simp]:
  "wrote b c (c'\<lparr>ctx_state := s\<rparr>) = wrote b c c'" "wrote b c (c'\<lparr>ctx_rng := n\<rparr>) = wrote b c c'"
  "wrote b (c\<lparr>ctx_rng := n\<rparr>) c' = wrote b c c'"
  by (simp_all add: wrote_def)

lemma wrote_trans: "wrote b c c' \<Longrightarrow> wrote b c' c'' \<Longrightarrow> wrote b c c''"
  by (fastforce simp: wrote_def)

lemma wrote_weaken: "wrote b c c' \<Longrightarrow> (a \<Longrightarrow> b) \<Longrightarrow> wrote a c c'"
  by (fastforce simp: wrote_def)

lemma coder_decode_encr: "coder_decode G T f m k = (ok, m', k') \<Longrightarrow> is_encr k' = is_encr k"
  by (auto simp: coder_decode_def split: coder.splits prod.splits)

lemma coder_encode_encr:
  "coder_encode G T f m r k = (ok, f', m', k') \<Longrightarrow>
     is_encr k' = is_encr k \<and> (ok \<longrightarrow> is_encr k \<longrightarrow> fr_header f' = 0xF1)"
  by (auto simp: coder_encode_def EncrMessageCoder_encode_def Let_def
      split: coder.splits prod.splits if_splits gcm_result.splits)

lemma encode_and_write_ok:
  "encode_and_write E T m k c = Inr (m', k', c') \<Longrightarrow>
     is_encr k' = is_encr k \<and> ctx_state c' = ctx_state c \<and> wrote (is_encr k) c c'"
  by (auto simp: encode_and_write_def io_writeFrame_def getIO_def wrote_def
      split: prod.splits if_splits sum.splits option.splits dest!: coder_encode_encr)

lemma Connected_resp_ok:
  "Connected_respWithStatus E s h c = Inr (h', c') \<Longrightarrow>
     is_encr (ch_coder h') = is_encr (ch_coder h) \<and> isKexComplete h' = isKexComplete h \<and>
     wrote (is_encr (ch_coder h)) c c'"
  by (auto simp: Connected_respWithStatus_def split: sum.splits dest!: encode_and_write_ok)

lemma Auth_resp_ok:
  "Auth_respWithStatus E s h c = Inr (h', c') \<Longrightarrow>
     is_encr (ah_coder h') = is_encr (ah_coder h) \<and> remainingAttempts h' = remainingAttempts h \<and>
     wrote (is_encr (ah_coder h)) c c'"
  by (auto simp: Auth_respWithStatus_def split: sum.splits dest!: encode_and_write_ok)

text \<open>The invariant of a context's state.\<close>

fun state_ok :: "handler option \<Rightarrow> bool" where
  "state_ok None = True"
| "state_ok (Some (HConnected h)) = (isKexComplete h = is_encr (ch_coder h))"
| "state_ok (Some (HAuth h)) = (is_encr (ah_coder h) \<and> 0 \<le> remainingAttempts h \<and> remainingAttempts h \<le> 5)"
| "state_ok (Some (HUser h)) = is_encr (uh_coder h)"

fun secured :: "handler option \<Rightarrow> bool" where
  "secured (Some (HConnected h)) = isKexComplete h"
| "secured _ = True"

definition step_secure :: "bool \<Rightarrow> proto_context \<Rightarrow> fault + proto_context \<Rightarrow> bool" where
  "step_secure b c r \<longleftrightarrow>
     (\<forall>c'. r = Inr c' \<longrightarrow> state_ok (ctx_state c') \<and> wrote b c c' \<and> (b \<longrightarrow> secured (ctx_state c')))"

lemma handleKex_ok:
  assumes "handleKex E h c = Inr (h', c')" "isKexComplete h = is_encr (ch_coder h)"
  shows "isKexComplete h' = is_encr (ch_coder h') \<and> wrote (isKexComplete h) c c' \<and>
    (isKexComplete h \<longrightarrow> isKexComplete h')"
  using assms
  by (auto simp: handleKex_def Let_def split: if_splits sum.splits prod.splits option.splits
      dest!: Connected_resp_ok)

lemma keep_connected_secure:
  "(\<And>h' c'. r = Inr (h', c') \<Longrightarrow>
      isKexComplete h' = is_encr (ch_coder h') \<and> wrote b c c' \<and> (b \<longrightarrow> isKexComplete h')) \<Longrightarrow>
   step_secure b c (keep_connected r)"
  by (auto simp: step_secure_def keep_connected_def split: sum.splits prod.splits)

lemma handleAuthRequest_secure:
  assumes "isKexComplete h = is_encr (ch_coder h)"
  shows "step_secure (isKexComplete h) c (handleAuthRequest E h c)"
proof (cases "isKexComplete h")
  case True
  with assms show ?thesis
    by (auto simp: step_secure_def handleAuthRequest_def setState_def ProtocolAuthenticationHandler_new_def
        split: sum.splits prod.splits dest!: Connected_resp_ok)
next
  case False
  with assms show ?thesis
    by (auto simp: handleAuthRequest_def intro!: keep_connected_secure dest!: Connected_resp_ok)
qed

lemma Connected_secure:
  assumes "isKexComplete h = is_encr (ch_coder h)"
  shows "step_secure (isKexComplete h) c (Connected_handleFrame E f h c)"
proof -
  let ?h1 = "h\<lparr>ch_response := ServerConnectedStateResponse_set_status
      ServerConnectedStateResponse_ResponseStatus_INVALID_REQUEST
      (ServerConnectedStateResponse_Clear (ch_response h))\<rparr>"
  obtain ok req k where d: "coder_decode (gcm E) (lt_ccreq E) f (ch_request h) (ch_coder h) = (ok, req, k)"
    using prod_cases3 by blast
  define h2 where "h2 = ?h1\<lparr>ch_request := req, ch_coder := k\<rparr>"
  have h2: "isKexComplete h2 = is_encr (ch_coder h2)" "isKexComplete h2 = isKexComplete h"
    using assms coder_decode_encr [OF d] by (simp_all add: h2_def)
  have r: "Connected_handleFrame E f h c =
      (let t = ClientConnectedStateRequest_type req in
       if \<not> ok then keep_connected (Connected_respWithStatus E ServerConnectedStateResponse_ResponseStatus_DECODE_ERROR h2 c)
       else if t = 0 then keep_connected (Inr (h2, c))
       else if t = 1 then keep_connected (handleKex E h2 c)
       else if t = 2 then handleAuthRequest E h2 c
       else keep_connected (Inr (h2, c)))"
    using d by (simp add: Connected_handleFrame_def h2_def Let_def)
  have 1: "step_secure (isKexComplete h) c (keep_connected (Connected_respWithStatus E s h2 c))" for s
    using h2 by (auto intro!: keep_connected_secure dest!: Connected_resp_ok)
  have 2: "step_secure (isKexComplete h) c (keep_connected (Inr (h2, c)))"
    using h2 by (auto intro!: keep_connected_secure)
  have 3: "step_secure (isKexComplete h) c (keep_connected (handleKex E h2 c))"
    using h2 by (intro keep_connected_secure) (auto dest!: handleKex_ok)
  have 4: "step_secure (isKexComplete h) c (handleAuthRequest E h2 c)"
    using handleAuthRequest_secure [OF h2(1), of c E] h2(2) by simp
  show ?thesis
    unfolding r Let_def using 1 2 3 4 by (auto split: if_splits)
qed

lemma createHandler_ok [simp]:
  "is_encr k \<Longrightarrow> state_ok (createHandler fac k)" "is_encr k \<Longrightarrow> secured (createHandler fac k)"
  by (cases fac; simp add: TestUserHandler_new_def)+

lemma proceedAuth_secure:
  "is_encr (ah_coder h) \<Longrightarrow> step_secure True c (proceedAuth E h c)"
  by (auto simp: step_secure_def proceedAuth_def setState_def
      split: sum.splits option.splits dest!: Auth_resp_ok)

lemma keep_auth_secure:
  "(\<And>h' c'. r = Inr (h', c') \<Longrightarrow> state_ok (Some (HAuth h')) \<and> wrote True c c') \<Longrightarrow>
   step_secure True c (keep_auth r)"
  by (auto simp: step_secure_def keep_auth_def split: sum.splits prod.splits)

lemma doAuth_secure:
  assumes "state_ok (Some (HAuth h))"
  shows "step_secure True c (doAuth E auth h c)"
proof -
  have "step_secure True c (keep_auth (Auth_respWithStatus E s (h\<lparr>remainingAttempts := remainingAttempts h - 1\<rparr>) c))"
    if "0 < remainingAttempts h" for s
    using assms that by (auto intro!: keep_auth_secure dest!: Auth_resp_ok)
  moreover have "step_secure True c (case Auth_respWithStatus E s h c of
      Inl e \<Rightarrow> Inl e | Inr (h, c) \<Rightarrow> Inr (setState None c))" for s
    using assms by (auto simp: step_secure_def setState_def split: sum.splits dest!: Auth_resp_ok)
  ultimately show ?thesis
    using assms proceedAuth_secure [of h c E] by (auto simp: doAuth_def split: option.splits)
qed

lemma Auth_dispatch_secure:
  assumes "state_ok (Some (HAuth h))"
  shows "step_secure True c (Auth_dispatch E auth h c)"
proof -
  have "step_secure True c (keep_auth (Auth_respWithStatus E s h c))" for s
    using assms by (auto intro!: keep_auth_secure dest!: Auth_resp_ok)
  then show ?thesis
    using doAuth_secure [OF assms] by (simp add: Auth_dispatch_def Let_def)
qed

lemma step_secure_after:
  "wrote True c c' \<Longrightarrow> step_secure True c' r \<Longrightarrow> step_secure True c r"
  by (auto simp: step_secure_def intro: wrote_trans)

lemma Auth_secure:
  assumes "state_ok (Some (HAuth h))"
  shows "step_secure True c (Auth_handleFrame E auth f h c)"
proof -
  let ?h1 = "h\<lparr>ah_response := ServerAuthResponse_set_status ServerAuthResponse_ResponseStatus_INVALID_REQUEST
      (ServerAuthResponse_Clear (ah_response h))\<rparr>"
  obtain ok req k where d: "coder_decode (gcm E) (lt_careq E) f (ah_request h) (ah_coder h) = (ok, req, k)"
    using prod_cases3 by blast
  define h2 where "h2 = ?h1\<lparr>ah_request := req, ah_coder := k\<rparr>"
  have h2: "state_ok (Some (HAuth h2))"
    using assms coder_decode_encr [OF d] by (simp add: h2_def)
  have r: "Auth_handleFrame E auth f h c =
      (if \<not> ok then (case Auth_respWithStatus E ServerAuthResponse_ResponseStatus_DECODE_ERROR h2 c of
          Inl e \<Rightarrow> Inl e | Inr (h, c) \<Rightarrow> Auth_dispatch E auth h c)
       else Auth_dispatch E auth h2 c)"
    using d by (simp add: Auth_handleFrame_def h2_def Let_def)
  show ?thesis
  proof (cases "ok")
    case True
    with r Auth_dispatch_secure [OF h2] show ?thesis by simp
  next
    case False
    show ?thesis
    proof (cases "Auth_respWithStatus E ServerAuthResponse_ResponseStatus_DECODE_ERROR h2 c")
      case (Inl e)
      with False r show ?thesis by (simp add: step_secure_def)
    next
      case (Inr p)
      then obtain h3 c3 where p: "p = (h3, c3)" by fastforce
      with Auth_resp_ok [of E _ h2 c h3 c3] Inr h2
      have "state_ok (Some (HAuth h3))" "wrote True c c3" by auto
      with step_secure_after [OF _ Auth_dispatch_secure] False r Inr p show ?thesis by simp
    qed
  qed
qed

lemma sendResp_ok:
  "sendResp E h c = Inr (h', c') \<Longrightarrow> is_encr (uh_coder h') = is_encr (uh_coder h) \<and> wrote (is_encr (uh_coder h)) c c'"
  by (auto simp: sendResp_def split: sum.splits dest!: encode_and_write_ok)

lemma User_secure:
  "is_encr (uh_coder h) \<Longrightarrow> step_secure True c (User_handleFrame E f h c)"
  by (auto simp: step_secure_def User_handleFrame_def handleMsg_def handleDecodeErr_def Let_def
      split: prod.splits sum.splits if_splits dest!: coder_decode_encr sendResp_ok)

lemma handleFrame_secure:
  assumes "state_ok (ctx_state c)"
  shows "step_secure (secured (ctx_state c)) c (ProtocolContext_handleFrame E auth f c)"
proof (cases "ctx_state c")
  case None
  then show ?thesis by (simp add: step_secure_def ProtocolContext_handleFrame_def)
next
  case (Some h)
  show ?thesis
  proof (cases h)
    case (HConnected x)
    with Some assms Connected_secure [of x c E f] show ?thesis
      by (simp add: ProtocolContext_handleFrame_def)
  next
    case (HAuth x)
    with Some assms Auth_secure [of x c E auth f] show ?thesis
      by (simp add: ProtocolContext_handleFrame_def)
  next
    case (HUser x)
    with Some assms User_secure [of x c E f] show ?thesis
      by (simp add: ProtocolContext_handleFrame_def)
  qed
qed

lemma run_frames_secure:
  "state_ok (ctx_state c) \<Longrightarrow> run_frames E fs c = Inr c' \<Longrightarrow>
     state_ok (ctx_state c') \<and> wrote (secured (ctx_state c)) c c' \<and>
     (secured (ctx_state c) \<longrightarrow> secured (ctx_state c'))"
proof (induction E fs c rule: run_frames.induct)
  case (2 E auth f fs c)
  from 2(3) obtain c1 where c1: "ProtocolContext_handleFrame E auth f c = Inr c1"
    "run_frames E fs c1 = Inr c'" by (auto split: sum.splits)
  with handleFrame_secure [OF 2(2), of E auth f]
  have s: "state_ok (ctx_state c1)" "wrote (secured (ctx_state c)) c c1"
    "secured (ctx_state c) \<longrightarrow> secured (ctx_state c1)" by (auto simp: step_secure_def)
  from 2(1) [OF c1(1) s(1) c1(2)] s show ?case
    by (auto intro: wrote_trans wrote_weaken)
qed simp


section \<open>The handlers do not throw\<close>

text \<open>
  What the environment promises: the four protocol messages and the two user messages are the
  generated classes behind \<open>MessageLite\<close>, over a runtime with the documented encoding, and the cryptography keeps its contract.
\<close>

definition env_ok :: "proto_env \<Rightarrow> wire_lib \<Rightarrow> bool" where
  "env_ok E L \<longleftrightarrow> wire_runtime L \<and> aead (gcm E) \<and> key_agreement (dh E) \<and>
     lt_ccreq E = ccreq_lite L \<and> lt_scresp E = scresp_lite L \<and>
     lt_careq E = careq_lite L \<and> lt_saresp E = saresp_lite L \<and>
     lt_ureq E = ureq_lite L \<and> lt_uresp E = uresp_lite L"

lemma coder_encode_total:
  assumes T: "lite_message T view ok target" and G: "aead G" and m: "ok m" "target m"
    and le: "fst (lt_ByteSizeLong T m) \<le> 65535"
  shows "\<exists>g m' k'. coder_encode G T f m r k = (True, g, m', k') \<and> target m' \<and> view m' = view m"
proof (cases k)
  case (Plain b)
  from lite_message.plain_encode [OF T m(1) le, of f "frame_bytes b"] obtain bs m' where
    "MessageCoder_encode T f m (frame_bytes b) =
       (True, \<lparr>fr_header = 0xF0, fr_len = word_of_nat (length bs), fr_msg = bs\<rparr>, m', bs)"
    "view m' = view m" "target m \<longrightarrow> target m'" by metis
  with m(2) Plain show ?thesis
    by (simp add: coder_encode_def)
next
  case (Encr e)
  from aead.encr_encode [OF G T m(1) le, of f r e] obtain bs ct m' where
    "EncrMessageCoder_encode G T f m r e =
       (True, \<lparr>fr_header = 0xF1, fr_len = word_of_nat (length bs + 32),
          fr_msg = take (unat (word_of_nat (length bs + 32) :: u16)) (random_block G r ivsize @ ct)\<rparr>,
        m', e\<lparr>frame_bytes := bs, ec_msgBuf := random_block G r ivsize @ ct\<rparr>)"
    "view m' = view m" "target m \<longrightarrow> target m'" by metis
  with m(2) Encr show ?thesis
    by (simp add: coder_encode_def)
qed

lemma encode_and_write_total:
  assumes "lite_message T view ok target" "aead (gcm E)" "ok m" "target m"
    "fst (lt_ByteSizeLong T m) \<le> 65535" "ctx_io c \<noteq> None"
  shows "\<exists>m' k' c'. encode_and_write E T m k c = Inr (m', k', c') \<and> target m' \<and> view m' = view m \<and>
    ctx_io c' \<noteq> None"
  using coder_encode_total [OF assms(1-5), of no_frame "ctx_rng c" k] assms(6)
  by (auto simp: encode_and_write_def io_writeFrame_def getIO_def)

text \<open>The server's responses are small: a status and at most a 32-byte public key.\<close>

definition scresp_small :: "ServerConnectedStateResponse \<Rightarrow> bool" where
  "scresp_small m \<longleftrightarrow> ServerConnectedStateResponse_wf m \<and> ServerConnectedStateResponse_known m \<and>
     sc_has_bits m AND 1 = 0 \<and>
     (sc_has_bits m AND 2 \<noteq> 0 \<longrightarrow> (case sc_kex m of None \<Rightarrow> True | Some k \<Rightarrow> length (km_pkey k) \<le> 32))"

context wire_runtime
begin

lemma scresp_small_size:
  assumes "scresp_small m"
  shows "fst (lt_ByteSizeLong (scresp_lite L) m) \<le> 65535"
proof -
  have "kex_size L (sc_has_bits m AND 2 \<noteq> 0) (sc_kex m) \<le> 100"
  proof (cases "sc_kex m")
    case (Some k)
    have "fst (KexMsg_ByteSizeLong L k) \<le> 50" if "sc_has_bits m AND 2 \<noteq> 0"
    proof -
      have "length (km_pkey k) \<le> 32" "km_unknown k = []"
        using assms Some that by (simp_all add: scresp_small_def ServerConnectedStateResponse_known_def kex_known_def)
      then show ?thesis
        using size_bytes_le [of "km_pkey k"] size_enum_le [of "km_alg k"]
        by (auto simp: KexMsg_ByteSizeLong_def Let_def wire_max_def)
    qed
    with Some size_message_le [of "fst (KexMsg_ByteSizeLong L k)"] show ?thesis
      by (auto simp: kex_size_def wire_max_def)
  qed (simp add: kex_size_def)
  moreover have "sc_unknown m = []" "sc_has_bits m AND 1 = 0"
    using assms by (simp_all add: scresp_small_def ServerConnectedStateResponse_known_def)
  ultimately show ?thesis
    using size_enum_le [of "sc_status m"]
    by (simp add: scresp_lite_def lite_of_def ServerConnectedStateResponse_ByteSizeLong_fields Let_def)
qed

lemma saresp_small_size:
  assumes "sa_unknown m = []" "sa_has_bits m = 0"
  shows "fst (lt_ByteSizeLong (saresp_lite L) m) \<le> 65535"
  using assms size_enum_le [of "sa_status m"]
  by (simp add: saresp_lite_def lite_of_def ServerAuthResponse_ByteSizeLong_fields Let_def)

end


lemma set_status_small [simp]:
  "scresp_small (ServerConnectedStateResponse_set_status s m) = scresp_small m"
  by (simp add: scresp_small_def pb_wf_defs ServerConnectedStateResponse_set_status_def
      ServerConnectedStateResponse_internal_set_status_def)

lemma Clear_small: "ServerConnectedStateResponse_wf m \<Longrightarrow> scresp_small (ServerConnectedStateResponse_Clear m)"
  using ServerConnectedStateResponse_Clear_wf [of m]
  by (simp add: scresp_small_def pb_wf_defs)

lemma mutable_kex_small:
  assumes "scresp_small m"
    "\<And>k. length (km_pkey k) \<le> 32 \<Longrightarrow> km_unknown k = [] \<Longrightarrow> length (km_pkey (f k)) \<le> 32 \<and> km_unknown (f k) = []"
  shows "scresp_small (ServerConnectedStateResponse_mutable_kex f m)"
proof -
  let ?k = "case sc_kex m of None \<Rightarrow> KexMsg_new | Some k \<Rightarrow> k"
  have "length (km_pkey ?k) \<le> 32" "km_unknown ?k = []"
    using assms(1)
    by (auto simp: scresp_small_def pb_wf_defs KexMsg_new_def KexMsg_blank_def split: option.splits)
  from assms(2) [OF this] have f: "length (km_pkey (f ?k)) \<le> 32" "km_unknown (f ?k) = []"
    by simp_all
  have "sc_has_bits m = 0 \<or> sc_has_bits m = 2"
    using assms(1) by (auto simp: scresp_small_def ServerConnectedStateResponse_wf_def)
  then have "sc_has_bits m OR 2 = 2"
    by auto
  moreover have "sc_iv m = []" "sc_unknown m = []"
    using assms(1) by (simp_all add: scresp_small_def ServerConnectedStateResponse_wf_def
        ServerConnectedStateResponse_known_def)
  ultimately show ?thesis
    using f by (simp add: scresp_small_def pb_wf_defs ServerConnectedStateResponse_mutable_kex_def
        ServerConnectedStateResponse_internal_mutable_kex_def)
qed

definition resp_ok :: "handler option \<Rightarrow> bool" where
  "resp_ok s =
     (case s of
        Some (HConnected h) \<Rightarrow> ServerConnectedStateResponse_wf (ch_response h)
      | Some (HAuth h) \<Rightarrow> ServerAuthResponse_wf (ah_response h)
      | _ \<Rightarrow> True)"

text \<open>A step that does not throw, and keeps what the next one needs.\<close>

definition returns :: "fault + proto_context \<Rightarrow> bool" where
  "returns r \<longleftrightarrow> (case r of Inl _ \<Rightarrow> False | Inr c \<Rightarrow> ctx_io c \<noteq> None \<and> resp_ok (ctx_state c))"

definition connected_returns :: "fault + (connected_handler \<times> proto_context) \<Rightarrow> bool" where
  "connected_returns r \<longleftrightarrow>
     (case r of Inl _ \<Rightarrow> False
      | Inr (h, c) \<Rightarrow> ctx_io c \<noteq> None \<and> ServerConnectedStateResponse_wf (ch_response h))"

lemma keep_connected_returns: "connected_returns r \<Longrightarrow> returns (keep_connected r)"
  by (auto simp: connected_returns_def returns_def keep_connected_def resp_ok_def split: sum.splits)

lemma Connected_resp_returns:
  assumes "env_ok E L" "scresp_small (ch_response h)" "ctx_io c \<noteq> None"
  shows "connected_returns (Connected_respWithStatus E s h c)"
proof -
  have w: "wire_runtime L" and a: "aead (gcm E)" and T: "lt_scresp E = scresp_lite L"
    using assms(1) by (simp_all add: env_ok_def)
  have ok: "scresp_small (ServerConnectedStateResponse_set_status s (ch_response h))"
    using assms(2) by simp
  then have "scresp_ok (ServerConnectedStateResponse_set_status s (ch_response h))"
    "ServerConnectedStateResponse_wf (ServerConnectedStateResponse_set_status s (ch_response h))"
    by (simp_all add: scresp_small_def scresp_ok_def)
  from encode_and_write_total [OF wire_runtime.scresp_message [OF w] a this
      wire_runtime.scresp_small_size [OF w ok] assms(3), of "ch_coder h"]
  show ?thesis
    by (auto simp: connected_returns_def Connected_respWithStatus_def T)
qed

text \<open>The key exchange on an acceptable request, written out.\<close>

definition kex_response :: "bytes \<Rightarrow> ServerConnectedStateResponse \<Rightarrow> ServerConnectedStateResponse" where
  "kex_response p m =
     ServerConnectedStateResponse_mutable_kex (KexMsg_set_pkey p)
       (ServerConnectedStateResponse_mutable_kex (KexMsg_set_alg KexMsg_KexAlg_KEX_ECDH)
         (ServerConnectedStateResponse_mutable_kex id m))"

lemma handleKex_accepts:
  assumes "\<not> isKexComplete h" "ClientConnectedStateRequest_has_kex (ch_request h)"
    "req = ClientConnectedStateRequest_kex (ch_request h)" "KexMsg_alg req = KexMsg_KexAlg_KEX_ECDH"
    "length (KexMsg_pkey req) = 32"
    "Agree (dh E) (fst (GenerateKeyPair (dh E) (ctx_rng c))) (KexMsg_pkey req) = Some s"
    "resp = kex_response (snd (GenerateKeyPair (dh E) (ctx_rng c))) (ch_response h)"
  shows "handleKex E h c =
    (case Connected_respWithStatus E ServerConnectedStateResponse_ResponseStatus_OK
            (h\<lparr>ch_response := resp, isKexComplete := True\<rparr>) (c\<lparr>ctx_rng := ctx_rng c + 2\<rparr>) of
       Inl e \<Rightarrow> Inl e
     | Inr (h', c') \<Rightarrow>
         Inr (h'\<lparr>ch_coder := Encr (EncrMessageCoder_new (gcm E) (TruncatedFinal (dh E) s 32) (Suc (ctx_rng c)))\<rparr>, c'))"
  using assms
  by (simp add: handleKex_def Let_def kex_defs kex_response_def)

lemma handleKex_disagrees:
  assumes "\<not> isKexComplete h" "ClientConnectedStateRequest_has_kex (ch_request h)"
    "req = ClientConnectedStateRequest_kex (ch_request h)" "KexMsg_alg req = KexMsg_KexAlg_KEX_ECDH"
    "length (KexMsg_pkey req) = 32"
    "Agree (dh E) (fst (GenerateKeyPair (dh E) (ctx_rng c))) (KexMsg_pkey req) = None"
  shows "handleKex E h c =
    Connected_respWithStatus E ServerConnectedStateResponse_ResponseStatus_REQUEST_ERROR
      (h\<lparr>ch_response := ServerConnectedStateResponse_mutable_kex (KexMsg_set_alg KexMsg_KexAlg_KEX_ECDH)
         (ServerConnectedStateResponse_mutable_kex id (ch_response h))\<rparr>) (c\<lparr>ctx_rng := Suc (ctx_rng c)\<rparr>)"
  using assms
  by (simp add: handleKex_def Let_def kex_defs)

lemma handleKex_refuses:
  assumes "\<not> isKexComplete h" "ClientConnectedStateRequest_has_kex (ch_request h)"
    "req = ClientConnectedStateRequest_kex (ch_request h)"
    "KexMsg_alg req \<noteq> KexMsg_KexAlg_KEX_ECDH \<or> length (KexMsg_pkey req) \<noteq> 32"
  shows "handleKex E h c =
    Connected_respWithStatus E ServerConnectedStateResponse_ResponseStatus_REQUEST_ERROR
      (h\<lparr>ch_response := ServerConnectedStateResponse_mutable_kex id (ch_response h)\<rparr>)
      (c\<lparr>ctx_rng := Suc (ctx_rng c)\<rparr>)"
  using assms
  by (auto simp: handleKex_def Let_def kex_defs)

lemma handleKex_returns:
  assumes "env_ok E L" "scresp_small (ch_response h)" "ctx_io c \<noteq> None"
  shows "connected_returns (handleKex E h c)"
proof -
  have ka: "key_agreement (dh E)"
    using assms(1) by (simp add: env_ok_def)
  note resp = Connected_resp_returns [OF assms(1)]
  have s1: "scresp_small (ServerConnectedStateResponse_mutable_kex id (ch_response h))"
    by (rule mutable_kex_small [OF assms(2)]) simp
  have s2: "scresp_small (ServerConnectedStateResponse_mutable_kex (KexMsg_set_alg v) m)" if "scresp_small m" for v m
    by (rule mutable_kex_small [OF that]) (simp add: KexMsg_defs)
  have s3: "scresp_small (ServerConnectedStateResponse_mutable_kex
      (KexMsg_set_pkey (snd (GenerateKeyPair (dh E) r))) m)" if "scresp_small m" for r m
    by (rule mutable_kex_small [OF that])
      (simp add: KexMsg_defs key_agreement.public_length [OF ka])
  let ?req = "ClientConnectedStateRequest_kex (ch_request h)"
  consider
      (error) "isKexComplete h \<or> \<not> ClientConnectedStateRequest_has_kex (ch_request h)"
    | (refused) "\<not> isKexComplete h" "ClientConnectedStateRequest_has_kex (ch_request h)"
        "KexMsg_alg ?req \<noteq> KexMsg_KexAlg_KEX_ECDH \<or> length (KexMsg_pkey ?req) \<noteq> 32"
    | (good) "\<not> isKexComplete h" "ClientConnectedStateRequest_has_kex (ch_request h)"
        "KexMsg_alg ?req = KexMsg_KexAlg_KEX_ECDH" "length (KexMsg_pkey ?req) = 32"
    by blast
  then show ?thesis
  proof cases
    case error
    with resp [OF assms(2,3)] show ?thesis by (simp add: handleKex_def)
  next
    case refused
    show ?thesis
      unfolding handleKex_refuses [OF refused(1,2) refl refused(3)]
      by (rule resp) (simp_all add: s1 assms(3))
  next
    case good
    show ?thesis
    proof (cases "Agree (dh E) (fst (GenerateKeyPair (dh E) (ctx_rng c))) (KexMsg_pkey ?req)")
      case None
      show ?thesis
        unfolding handleKex_disagrees [OF good(1,2) refl good(3,4) None]
        by (rule resp) (simp_all add: s1 s2 assms(3))
    next
      case (Some s)
      have "connected_returns (Connected_respWithStatus E st
          (h\<lparr>ch_response := kex_response (snd (GenerateKeyPair (dh E) (ctx_rng c))) (ch_response h),
             isKexComplete := True\<rparr>) (c\<lparr>ctx_rng := ctx_rng c + 2\<rparr>))" for st
        by (rule resp) (simp_all add: kex_response_def s1 s2 s3 assms(3))
      from this [of ServerConnectedStateResponse_ResponseStatus_OK] show ?thesis
        unfolding handleKex_accepts [OF good(1,2) refl good(3,4) Some refl]
        by (auto simp: connected_returns_def split: sum.splits)
    qed
  qed
qed

lemma Connected_returns:
  assumes "env_ok E L" "ServerConnectedStateResponse_wf (ch_response h)" "ctx_io c \<noteq> None"
  shows "returns (Connected_handleFrame E f h c)"
proof -
  let ?h1 = "h\<lparr>ch_response := ServerConnectedStateResponse_set_status
      ServerConnectedStateResponse_ResponseStatus_INVALID_REQUEST
      (ServerConnectedStateResponse_Clear (ch_response h))\<rparr>"
  obtain ok req k where d: "coder_decode (gcm E) (lt_ccreq E) f (ch_request h) (ch_coder h) = (ok, req, k)"
    using prod_cases3 by blast
  define h2 where "h2 = ?h1\<lparr>ch_request := req, ch_coder := k\<rparr>"
  have small: "scresp_small (ch_response h2)"
    using Clear_small [OF assms(2)] by (simp add: h2_def)
  then have wf: "ServerConnectedStateResponse_wf (ch_response h2)"
    by (simp add: scresp_small_def)
  have r: "Connected_handleFrame E f h c =
      (let t = ClientConnectedStateRequest_type req in
       if \<not> ok then keep_connected (Connected_respWithStatus E ServerConnectedStateResponse_ResponseStatus_DECODE_ERROR h2 c)
       else if t = 0 then keep_connected (Inr (h2, c))
       else if t = 1 then keep_connected (handleKex E h2 c)
       else if t = 2 then handleAuthRequest E h2 c
       else keep_connected (Inr (h2, c)))"
    using d by (simp add: Connected_handleFrame_def h2_def Let_def)
  note resp = Connected_resp_returns [OF assms(1) small assms(3)]
  have 1: "returns (keep_connected (Connected_respWithStatus E s h2 c))" for s
    by (rule keep_connected_returns [OF resp])
  have 2: "returns (keep_connected (Inr (h2, c)))"
    using assms(3) by (intro keep_connected_returns) (simp add: connected_returns_def wf)
  have 3: "returns (keep_connected (handleKex E h2 c))"
    by (rule keep_connected_returns [OF handleKex_returns [OF assms(1) small assms(3)]])
  have "ServerAuthResponse_wf ServerAuthResponse_new"
    by (simp add: ServerAuthResponse_wf_def ServerAuthResponse_new_def)
  then have 4: "returns (handleAuthRequest E h2 c)"
    using 1 resp [of ServerConnectedStateResponse_ResponseStatus_OK]
    by (auto simp: handleAuthRequest_def returns_def connected_returns_def setState_def resp_ok_def
        ProtocolAuthenticationHandler_new_def split: sum.splits)
  show ?thesis
    unfolding r Let_def using 1 2 3 4 by (auto split: if_splits)
qed


text \<open>The authentication handler's response carries a status only.\<close>

definition saresp_small :: "ServerAuthResponse \<Rightarrow> bool" where
  "saresp_small m \<longleftrightarrow> sa_has_bits m = 0 \<and> sa_serverinfo m = [] \<and> sa_unknown m = []"

lemma saresp_small_set [simp]: "saresp_small (ServerAuthResponse_set_status s m) = saresp_small m"
  by (simp add: saresp_small_def ServerAuthResponse_set_status_def ServerAuthResponse_internal_set_status_def)

lemma saresp_small_wf: "saresp_small m \<Longrightarrow> ServerAuthResponse_wf m"
  by (simp add: saresp_small_def ServerAuthResponse_wf_def)

lemma saresp_small_Clear: "ServerAuthResponse_wf m \<Longrightarrow> saresp_small (ServerAuthResponse_Clear m)"
  by (simp add: ServerAuthResponse_Clear_wf saresp_small_def)

lemma saresp_small_ok: "saresp_small m \<Longrightarrow> saresp_ok L m"
  by (simp add: saresp_small_def saresp_ok_def ServerAuthResponse_wf_def ServerAuthResponse_utf8_def)

lemma saresp_plain_small:
  "MessageCoder_encode (saresp_lite L) f m fb = (ok, g, m', fb') \<Longrightarrow> saresp_small m \<Longrightarrow> saresp_small m'"
  by (auto simp: MessageCoder_encode_def saresp_lite_def lite_of_def ServerAuthResponse_ByteSizeLong_fields
      saresp_small_def Let_def split: if_splits)

lemma saresp_encode_small:
  "coder_encode G (saresp_lite L) f m r k = (ok, g, m', k') \<Longrightarrow> saresp_small m \<Longrightarrow> saresp_small m'"
  by (auto simp: coder_encode_def EncrMessageCoder_encode_def Let_def
      split: coder.splits prod.splits if_splits gcm_result.splits dest!: saresp_plain_small)

definition auth_returns :: "fault + (auth_handler \<times> proto_context) \<Rightarrow> bool" where
  "auth_returns r \<longleftrightarrow>
     (case r of Inl _ \<Rightarrow> False | Inr (h, c) \<Rightarrow> ctx_io c \<noteq> None \<and> saresp_small (ah_response h))"

lemma keep_auth_returns: "auth_returns r \<Longrightarrow> returns (keep_auth r)"
  by (auto simp: auth_returns_def returns_def keep_auth_def resp_ok_def saresp_small_wf split: sum.splits)

lemma Auth_resp_returns:
  assumes "env_ok E L" "saresp_small (ah_response h)" "ctx_io c \<noteq> None"
  shows "auth_returns (Auth_respWithStatus E s h c)"
proof -
  have w: "wire_runtime L" and a: "aead (gcm E)" and T: "lt_saresp E = saresp_lite L"
    using assms(1) by (simp_all add: env_ok_def)
  let ?m = "ServerAuthResponse_set_status s (ah_response h)"
  have m: "saresp_small ?m" using assms(2) by simp
  then have size: "fst (lt_ByteSizeLong (saresp_lite L) ?m) \<le> 65535"
    by (intro wire_runtime.saresp_small_size [OF w]) (simp_all add: saresp_small_def)
  from encode_and_write_total [OF wire_runtime.saresp_message [OF w] a saresp_small_ok [OF m]
      saresp_small_wf [OF m] size assms(3), of "ah_coder h"]
  obtain m' k' c' where e: "encode_and_write E (saresp_lite L) ?m (ah_coder h) c = Inr (m', k', c')"
    "ctx_io c' \<noteq> None" by metis
  then have "saresp_small m'"
    using m by (auto simp: encode_and_write_def split: prod.splits if_splits sum.splits
        dest!: saresp_encode_small)
  with e show ?thesis
    by (simp add: auth_returns_def Auth_respWithStatus_def T)
qed

lemma state_after_returns:
  "auth_returns r \<Longrightarrow> (\<And>h. resp_ok (s h)) \<Longrightarrow>
     returns (case r of Inl e \<Rightarrow> Inl e | Inr (h, c) \<Rightarrow> Inr (setState (s h) c))"
  by (auto simp: auth_returns_def returns_def setState_def split: sum.splits)

lemma resp_ok_created: "resp_ok (createHandler fac k)"
  by (cases fac) (simp_all add: resp_ok_def)

lemma proceedAuth_returns:
  assumes "env_ok E L" "saresp_small (ah_response h)" "ctx_io c \<noteq> None"
  shows "returns (proceedAuth E h c)"
  using Auth_resp_returns [OF assms, of ServerAuthResponse_ResponseStatus_AUTH_ACCEPT]
  by (auto simp: proceedAuth_def auth_returns_def returns_def setState_def resp_ok_created
      split: sum.splits option.splits) (simp add: resp_ok_def)

lemma Auth_dispatch_returns:
  assumes "env_ok E L" "saresp_small (ah_response h)" "ctx_io c \<noteq> None"
  shows "returns (Auth_dispatch E auth h c)"
proof -
  note resp = Auth_resp_returns [OF assms(1) _ assms(3)]
  have 1: "returns (keep_auth (Auth_respWithStatus E s (h\<lparr>remainingAttempts := n\<rparr>) c))" for s n
    by (rule keep_auth_returns [OF resp]) (simp add: assms(2))
  have 2: "returns (keep_auth (Auth_respWithStatus E s h c))" for s
    by (rule keep_auth_returns [OF resp [OF assms(2)]])
  have 3: "returns (case Auth_respWithStatus E s h c of Inl e \<Rightarrow> Inl e | Inr (h, c) \<Rightarrow> Inr (setState None c))" for s
    by (rule state_after_returns [OF resp [OF assms(2)]]) (simp add: resp_ok_def)
  show ?thesis
    using 1 2 3 proceedAuth_returns [OF assms]
    by (simp add: Auth_dispatch_def doAuth_def Let_def split: option.split)
qed

lemma Auth_returns:
  assumes "env_ok E L" "ServerAuthResponse_wf (ah_response h)" "ctx_io c \<noteq> None"
  shows "returns (Auth_handleFrame E auth f h c)"
proof -
  let ?h1 = "h\<lparr>ah_response := ServerAuthResponse_set_status ServerAuthResponse_ResponseStatus_INVALID_REQUEST
      (ServerAuthResponse_Clear (ah_response h))\<rparr>"
  obtain ok req k where d: "coder_decode (gcm E) (lt_careq E) f (ah_request h) (ah_coder h) = (ok, req, k)"
    using prod_cases3 by blast
  define h2 where "h2 = ?h1\<lparr>ah_request := req, ah_coder := k\<rparr>"
  have small: "saresp_small (ah_response h2)"
    using saresp_small_Clear [OF assms(2)] by (simp add: h2_def)
  have r: "Auth_handleFrame E auth f h c =
      (if \<not> ok then (case Auth_respWithStatus E ServerAuthResponse_ResponseStatus_DECODE_ERROR h2 c of
          Inl e \<Rightarrow> Inl e | Inr (h, c) \<Rightarrow> Auth_dispatch E auth h c)
       else Auth_dispatch E auth h2 c)"
    using d by (simp add: Auth_handleFrame_def h2_def Let_def)
  show ?thesis
  proof (cases ok)
    case True
    with r Auth_dispatch_returns [OF assms(1) small assms(3)] show ?thesis by simp
  next
    case False
    obtain h3 c3 where "Auth_respWithStatus E ServerAuthResponse_ResponseStatus_DECODE_ERROR h2 c = Inr (h3, c3)"
      "ctx_io c3 \<noteq> None" "saresp_small (ah_response h3)"
      using Auth_resp_returns [OF assms(1) small assms(3), of ServerAuthResponse_ResponseStatus_DECODE_ERROR]
      by (auto simp: auth_returns_def split: sum.splits)
    with False r Auth_dispatch_returns [OF assms(1)] show ?thesis by simp
  qed
qed

text \<open>
  The user handler: an encrypted request is at most 65503 bytes of plaintext, so the echo fits the
  plain coder's limit and is encoded (whether the frame it makes can be read is another matter).
\<close>

lemma sendResp_returns:
  assumes "env_ok E L" "length (sr_msg (uh_response h)) \<le> 65520" "sr_unknown (uh_response h) = []"
    "is_encr (uh_coder h)" "ctx_io c \<noteq> None"
  shows "\<exists>h' c'. sendResp E h c = Inr (h', c') \<and> ctx_io c' \<noteq> None"
proof -
  have w: "wire_runtime L" and a: "aead (gcm E)" and T: "lt_uresp E = uresp_lite L"
    using assms(1) by (simp_all add: env_ok_def)
  obtain e where e: "uh_coder h = Encr e"
    using assms(4) by (cases "uh_coder h") auto
  have "fst (ServerResponse_ByteSizeLong L (uh_response h)) \<le> length (sr_msg (uh_response h)) + 6"
    using assms(2,3) by (intro wire_runtime.ServerResponse_size_le [OF w]) (simp_all add: wire_max_def)
  then have "fst (lt_ByteSizeLong (uresp_lite L) (uh_response h)) \<le> 65535"
    using assms(2) by (simp add: uresp_lite_def lite_of_def)
  from aead.encr_writes [OF a wire_runtime.uresp_writer [OF w] this, of no_frame "ctx_rng c" e]
  obtain g m' e' where
    "EncrMessageCoder_encode (gcm E) (uresp_lite L) no_frame (uh_response h) (ctx_rng c) e = (True, g, m', e')"
    by metis
  then show ?thesis
    using e assms(5) by (auto simp: sendResp_def encode_and_write_def coder_encode_def T
        io_writeFrame_def getIO_def split: option.splits)
qed

lemma User_returns:
  assumes E: "env_ok E L" and h: "is_encr (uh_coder h)" and io: "ctx_io c \<noteq> None"
  shows "returns (User_handleFrame E f h c)"
proof -
  have w: "wire_runtime L" and a: "aead (gcm E)" and T: "lt_ureq E = ureq_lite L"
    using E by (simp_all add: env_ok_def)
  obtain e where e: "uh_coder h = Encr e"
    using h by (cases "uh_coder h") auto
  obtain ok req e' where d: "EncrMessageCoder_decode (gcm E) (ureq_lite L) f (uh_request h) e = (ok, req, e')"
    using prod_cases3 by blast
  let ?h = "h\<lparr>uh_request := req, uh_coder := Encr e'\<rparr>"
  let ?r = "\<lambda>s. ?h\<lparr>uh_response := ServerResponse_set_msg s (ServerResponse_Clear (uh_response h))\<rparr>"
  have r: "User_handleFrame E f h c =
      (case sendResp E (?r (if ok then ascii ''You said: '' @ UserRequest_msg req else ascii ''You stupid!!!!'')) c of
         Inl e \<Rightarrow> Inl e | Inr (h, c) \<Rightarrow> Inr (c\<lparr>ctx_state := Some (HUser h)\<rparr>))"
    using d by (simp add: User_handleFrame_def handleMsg_def handleDecodeErr_def e T coder_decode_def Let_def)
  have "length (ur_msg req) \<le> 65503" if ok
  proof -
    from aead.decoded_short [OF a d [unfolded eqTrueI [OF that]]] obtain bs
      where bs: "lt_ParseFromArray (ureq_lite L) bs (uh_request h) = (True, req)" "length bs \<le> 65503"
      by blast
    then have "length (ur_msg req) \<le> length bs"
      by (intro wire_runtime.UserRequest_parse_le [OF w]) (simp add: ureq_lite_def lite_of_def)
    with bs(2) show ?thesis by simp
  qed
  then have "\<exists>h' c'. sendResp E (?r (if ok then ascii ''You said: '' @ UserRequest_msg req
      else ascii ''You stupid!!!!'')) c = Inr (h', c') \<and> ctx_io c' \<noteq> None"
    by (intro sendResp_returns [OF E _ _ _ io])
      (auto simp: ServerResponse_set_msg_def ServerResponse_Clear_def UserRequest_view_msg UserRequest_view_def
        ascii_def Let_def)
  with r show ?thesis
    by (auto simp: returns_def resp_ok_def)
qed

lemma handleFrame_returns:
  assumes "env_ok E L" "resp_ok (ctx_state c)" "state_ok (ctx_state c)" "ctx_io c \<noteq> None"
  shows "returns (ProtocolContext_handleFrame E auth f c)"
proof (cases "ctx_state c")
  case None
  with assms show ?thesis by (simp add: ProtocolContext_handleFrame_def returns_def)
next
  case (Some h)
  show ?thesis
  proof (cases h)
    case (HConnected x)
    with Some assms(2) Connected_returns [OF assms(1) _ assms(4)] show ?thesis
      by (simp add: ProtocolContext_handleFrame_def resp_ok_def)
  next
    case (HAuth x)
    with Some assms(2) Auth_returns [OF assms(1) _ assms(4)] show ?thesis
      by (simp add: ProtocolContext_handleFrame_def resp_ok_def)
  next
    case (HUser x)
    with Some assms(3) User_returns [OF assms(1) _ assms(4)] show ?thesis
      by (simp add: ProtocolContext_handleFrame_def)
  qed
qed

end
