(* ===== verification/Sessions.thy ===== *)
theory Sessions
  imports HandlerFacts
begin

text \<open>
  What the server promises a session, as a state machine on phases: \<open>phase_step\<close> gives, for the meaning
  of a frame (an \<open>event\<close>), the next phase and the headers of the frames sent in reply. The refinement
  \<open>handleFrame_phase\<close> shows that every \<open>ProtocolContext_handleFrame\<close> that returns is such a step; the
  properties of whole sessions are proved on phases and carried over by it.
\<close>

section \<open>Phases and events\<close>

datatype phase = Connected | Keyed | Authenticating int | Serving | Closed

datatype auth_verdict = Accepted | Rejected | NoSupply

datatype event =
    Undecodable
  | KexGood
  | KexBad
  | AuthRequest
  | Ignored
  | AuthFrame bool auth_verdict
  | UserFrame

fun phase_of :: "handler option \<Rightarrow> phase" where
  "phase_of None = Closed"
| "phase_of (Some (HConnected h)) = (if isKexComplete h then Keyed else Connected)"
| "phase_of (Some (HAuth h)) = Authenticating (remainingAttempts h)"
| "phase_of (Some (HUser h)) = Serving"

fun header_of :: "phase \<Rightarrow> byte" where
  "header_of Connected = 0xF0"
| "header_of _ = 0xF1"

text \<open>The order in which a session goes through its phases; fewer attempts left are further on.\<close>

fun phase_rank :: "phase \<Rightarrow> nat" where
  "phase_rank Connected = 0"
| "phase_rank Keyed = 1"
| "phase_rank (Authenticating n) = 2"
| "phase_rank Serving = 3"
| "phase_rank Closed = 4"

fun attempts_left :: "phase \<Rightarrow> int" where
  "attempts_left (Authenticating n) = n"
| "attempts_left _ = 0"

instantiation phase :: linorder
begin

definition less_eq_phase :: "phase \<Rightarrow> phase \<Rightarrow> bool" where
  "less_eq_phase p q \<longleftrightarrow>
     phase_rank p < phase_rank q \<or> phase_rank p = phase_rank q \<and> attempts_left q \<le> attempts_left p"

definition less_phase :: "phase \<Rightarrow> phase \<Rightarrow> bool" where
  "less_phase p q \<longleftrightarrow>
     phase_rank p < phase_rank q \<or> phase_rank p = phase_rank q \<and> attempts_left q < attempts_left p"

instance
proof
  fix p q :: phase
  show "p \<le> q \<Longrightarrow> q \<le> p \<Longrightarrow> p = q"
    by (cases p; cases q) (simp_all add: less_eq_phase_def)
qed (auto simp: less_eq_phase_def less_phase_def)

end

text \<open>The phase after an accepted authentication, by the user handler factory of the server.\<close>

fun entry_phase :: "user_factory option \<Rightarrow> phase" where
  "entry_phase (Some TestUserHandlerFactory) = Serving"
| "entry_phase _ = Closed"

inductive phase_step :: "user_factory option \<Rightarrow> phase \<Rightarrow> event \<Rightarrow> byte list \<Rightarrow> phase \<Rightarrow> bool"
  for fac :: "user_factory option" where
  closed: "phase_step fac Closed Ignored [] Closed"
| undecodable: "p = Connected \<or> p = Keyed \<Longrightarrow> phase_step fac p Undecodable [header_of p] p"
| ignored: "p = Connected \<or> p = Keyed \<Longrightarrow> phase_step fac p Ignored [] p"
| kex_bad: "p = Connected \<or> p = Keyed \<Longrightarrow> phase_step fac p KexBad [header_of p] p"
| kex_good: "phase_step fac Connected KexGood [0xF0] Keyed"
| too_early: "phase_step fac Connected AuthRequest [0xF0] Connected"
| begin_auth: "phase_step fac Keyed AuthRequest [0xF1] (Authenticating 5)"
| accept: "phase_step fac (Authenticating n) (AuthFrame good Accepted)
    (if good then [0xF1] else [0xF1, 0xF1]) (entry_phase fac)"
| retry: "0 < n \<Longrightarrow> phase_step fac (Authenticating n) (AuthFrame good Rejected)
    (if good then [0xF1] else [0xF1, 0xF1]) (Authenticating (n - 1))"
| reject: "n \<le> 0 \<Longrightarrow> phase_step fac (Authenticating n) (AuthFrame good Rejected)
    (if good then [0xF1] else [0xF1, 0xF1]) Closed"
| no_supply: "phase_step fac (Authenticating n) (AuthFrame good NoSupply)
    (if good then [0xF1] else [0xF1, 0xF1]) (Authenticating n)"
| serve: "phase_step fac Serving UserFrame [0xF1] Serving"

inductive_cases phase_step_ClosedE: "phase_step fac Closed e hs q"
inductive_cases phase_step_ConnectedE: "phase_step fac Connected e hs q"
inductive_cases phase_step_KeyedE: "phase_step fac Keyed e hs q"
inductive_cases phase_step_AuthenticatingE: "phase_step fac (Authenticating n) e hs q"
inductive_cases phase_step_ServingE: "phase_step fac Serving e hs q"

text \<open>No step goes back.\<close>

lemma entry_phase_late: "3 \<le> phase_rank (entry_phase fac)"
  by (cases fac rule: entry_phase.cases) simp_all

lemma phase_step_mono: "phase_step fac p e hs q \<Longrightarrow> p \<le> q"
  by (induction rule: phase_step.induct)
    (use entry_phase_late [of fac] in \<open>auto simp: less_eq_phase_def\<close>)

lemma phase_of_Closed [simp]: "phase_of s = Closed \<longleftrightarrow> s = None"
  by (cases s rule: phase_of.cases) auto

lemma phase_of_Serving [simp]: "phase_of s = Serving \<longleftrightarrow> (\<exists>u. s = Some (HUser u))"
  by (cases s rule: phase_of.cases) auto

text \<open>The meaning of a frame in the context's state.\<close>

definition kex_acceptable :: "proto_env \<Rightarrow> nat \<Rightarrow> ClientConnectedStateRequest \<Rightarrow> bool" where
  "kex_acceptable E r req \<longleftrightarrow>
     ClientConnectedStateRequest_has_kex req \<and>
     KexMsg_alg (ClientConnectedStateRequest_kex req) = KexMsg_KexAlg_KEX_ECDH \<and>
     length (KexMsg_pkey (ClientConnectedStateRequest_kex req)) = 32 \<and>
     Agree (dh E) (fst (GenerateKeyPair (dh E) r)) (KexMsg_pkey (ClientConnectedStateRequest_kex req)) \<noteq> None"

definition connected_event ::
    "proto_env \<Rightarrow> nat \<Rightarrow> bool \<Rightarrow> bool \<Rightarrow> ClientConnectedStateRequest \<Rightarrow> event" where
  "connected_event E r keyed ok req =
     (let t = ClientConnectedStateRequest_type req
      in if \<not> ok then Undecodable
         else if t = ClientConnectedStateRequest_RequestType_REQUEST_KEX
         then (if \<not> keyed \<and> kex_acceptable E r req then KexGood else KexBad)
         else if t = ClientConnectedStateRequest_RequestType_REQUEST_AUTH then AuthRequest
         else Ignored)"

definition verdict :: "authenticator option \<Rightarrow> ClientAuthRequest \<Rightarrow> auth_verdict" where
  "verdict auth req =
     (if ClientAuthRequest_request req \<noteq> ClientAuthRequest_RequestType_AUTH_SUPPLY then NoSupply
      else case auth of
             None \<Rightarrow> Accepted
           | Some a \<Rightarrow> if authenticate req a then Accepted else Rejected)"

definition frame_event :: "proto_env \<Rightarrow> authenticator option \<Rightarrow> frame \<Rightarrow> proto_context \<Rightarrow> event" where
  "frame_event E auth f c =
     (case ctx_state c of
        None \<Rightarrow> Ignored
      | Some (HConnected h) \<Rightarrow>
          (let (ok, req, k) = coder_decode (gcm E) (lt_ccreq E) f (ch_request h) (ch_coder h)
           in connected_event E (ctx_rng c) (isKexComplete h) ok req)
      | Some (HAuth h) \<Rightarrow>
          (let (ok, req, k) = coder_decode (gcm E) (lt_careq E) f (ah_request h) (ah_coder h)
           in AuthFrame ok (verdict auth req))
      | Some (HUser h) \<Rightarrow> UserFrame)"

section \<open>The refinement\<close>

text \<open>\<open>sent hs c c'\<close>: frames with the headers \<open>hs\<close> were added to the sink, the factory is as before.\<close>

definition sent :: "byte list \<Rightarrow> proto_context \<Rightarrow> proto_context \<Rightarrow> bool" where
  "sent hs c c' \<longleftrightarrow>
     finalStateFactory c' = finalStateFactory c \<and> (ctx_io c = None \<longleftrightarrow> ctx_io c' = None) \<and>
     (\<forall>out. ctx_io c = Some out \<longrightarrow> (\<exists>ws. ctx_io c' = Some (out @ ws) \<and> map fr_header ws = hs))"

lemma sent_nil [simp]: "sent [] c c"
  by (simp add: sent_def)

lemma sent_state [simp]:
  "sent hs c (c'\<lparr>ctx_state := s\<rparr>) = sent hs c c'" "sent hs c (c'\<lparr>ctx_rng := n\<rparr>) = sent hs c c'"
  "sent hs (c\<lparr>ctx_rng := n\<rparr>) c' = sent hs c c'"
  by (simp_all add: sent_def)

lemma sent_append: "sent hs c c' \<Longrightarrow> sent hs' c' c'' \<Longrightarrow> sent (hs @ hs') c c''"
  by (cases "ctx_io c") (auto simp: sent_def)

definition coder_header :: "coder \<Rightarrow> byte" where
  "coder_header k = (if is_encr k then 0xF1 else 0xF0)"

lemma MessageCoder_encode_header:
  "MessageCoder_encode T f m fb = (True, g, m', fb') \<Longrightarrow> fr_header g = 0xF0"
  by (auto simp: MessageCoder_encode_def Let_def split: prod.splits if_splits)

lemma coder_encode_header:
  "coder_encode G T f m r k = (True, g, m', k') \<Longrightarrow> fr_header g = coder_header k \<and> is_encr k' = is_encr k"
  using coder_encode_encr [of G T f m r k True g m' k']
  by (cases k) (auto simp: coder_header_def coder_encode_def dest: MessageCoder_encode_header
      split: prod.splits)

lemma encode_and_write_sent:
  "encode_and_write E T m k c = Inr (m', k', c') \<Longrightarrow>
     is_encr k' = is_encr k \<and> ctx_state c' = ctx_state c \<and> sent [coder_header k] c c'"
  by (auto simp: encode_and_write_def io_writeFrame_def getIO_def sent_def
      split: prod.splits if_splits sum.splits option.splits dest!: coder_encode_header)

lemma Connected_resp_sent:
  "Connected_respWithStatus E s h c = Inr (h', c') \<Longrightarrow>
     is_encr (ch_coder h') = is_encr (ch_coder h) \<and> isKexComplete h' = isKexComplete h \<and>
     sent [coder_header (ch_coder h)] c c'"
  by (auto simp: Connected_respWithStatus_def split: sum.splits dest!: encode_and_write_sent)

lemma Auth_resp_sent:
  "Auth_respWithStatus E s h c = Inr (h', c') \<Longrightarrow>
     is_encr (ah_coder h') = is_encr (ah_coder h) \<and> remainingAttempts h' = remainingAttempts h \<and>
     ah_request h' = ah_request h \<and> sent [coder_header (ah_coder h)] c c'"
  by (auto simp: Auth_respWithStatus_def split: sum.splits dest!: encode_and_write_sent)

text \<open>A step on contexts that refines the phase step.\<close>

definition refines :: "phase \<Rightarrow> event \<Rightarrow> proto_context \<Rightarrow> fault + proto_context \<Rightarrow> bool" where
  "refines p e c r \<longleftrightarrow>
     (\<forall>c'. r = Inr c' \<longrightarrow>
        (\<exists>hs. phase_step (finalStateFactory c) p e hs (phase_of (ctx_state c')) \<and> sent hs c c'))"

lemma refines_keep_connected:
  assumes "\<And>h' c'. r = Inr (h', c') \<Longrightarrow>
    (\<exists>hs. phase_step (finalStateFactory c) p e hs (if isKexComplete h' then Keyed else Connected) \<and> sent hs c c')"
  shows "refines p e c (keep_connected r)"
  using assms by (auto simp: refines_def keep_connected_def split: sum.splits prod.splits)

lemma refines_keep_auth:
  assumes "\<And>h' c'. r = Inr (h', c') \<Longrightarrow>
    (\<exists>hs. phase_step (finalStateFactory c) p e hs (Authenticating (remainingAttempts h')) \<and> sent hs c c')"
  shows "refines p e c (keep_auth r)"
  using assms by (auto simp: refines_def keep_auth_def split: sum.splits prod.splits)

abbreviation conn_phase :: "connected_handler \<Rightarrow> phase" where
  "conn_phase h \<equiv> phase_of (Some (HConnected h))"

text \<open>A status reply in the connected state.\<close>

lemma refines_conn_reply:
  assumes "isKexComplete h = is_encr (ch_coder h)"
    "phase_step (finalStateFactory c) (conn_phase h) e [header_of (conn_phase h)] (conn_phase h)"
  shows "refines (conn_phase h) e c (keep_connected (Connected_respWithStatus E s h c))"
  using assms
  by (auto intro!: refines_keep_connected dest!: Connected_resp_sent simp: coder_header_def)

lemma handleKex_keyed:
  "isKexComplete h \<Longrightarrow> handleKex E h c =
     Connected_respWithStatus E ServerConnectedStateResponse_ResponseStatus_REQUEST_ERROR h c"
  by (simp add: handleKex_def)

text \<open>The key exchange succeeds exactly on acceptable requests.\<close>

lemma handleKex_good:
  assumes "isKexComplete h = is_encr (ch_coder h)" "\<not> isKexComplete h"
    "kex_acceptable E (ctx_rng c) (ch_request h)" "handleKex E h c = Inr (h', c')"
  shows "isKexComplete h' \<and> sent [0xF0] c c'"
proof -
  let ?req = "ClientConnectedStateRequest_kex (ch_request h)"
  from assms(3) obtain s where s:
    "ClientConnectedStateRequest_has_kex (ch_request h)" "KexMsg_alg ?req = KexMsg_KexAlg_KEX_ECDH"
    "length (KexMsg_pkey ?req) = 32"
    "Agree (dh E) (fst (GenerateKeyPair (dh E) (ctx_rng c))) (KexMsg_pkey ?req) = Some s"
    by (auto simp: kex_acceptable_def)
  from assms(4) show ?thesis
    unfolding handleKex_accepts [OF assms(2) s(1) refl s(2-4) refl]
    using assms(1,2) by (auto split: sum.splits dest!: Connected_resp_sent simp: coder_header_def)
qed

lemma handleKex_bad:
  assumes "isKexComplete h = is_encr (ch_coder h)" "\<not> isKexComplete h"
    "\<not> kex_acceptable E (ctx_rng c) (ch_request h)" "handleKex E h c = Inr (h', c')"
  shows "\<not> isKexComplete h' \<and> sent [0xF0] c c'"
proof -
  let ?req = "ClientConnectedStateRequest_kex (ch_request h)"
  have k: "coder_header (ch_coder h) = 0xF0"
    using assms(1,2) by (simp add: coder_header_def)
  consider
      (none) "\<not> ClientConnectedStateRequest_has_kex (ch_request h)"
    | (refused) "ClientConnectedStateRequest_has_kex (ch_request h)"
        "KexMsg_alg ?req \<noteq> KexMsg_KexAlg_KEX_ECDH \<or> length (KexMsg_pkey ?req) \<noteq> 32"
    | (disagrees) "ClientConnectedStateRequest_has_kex (ch_request h)"
        "KexMsg_alg ?req = KexMsg_KexAlg_KEX_ECDH" "length (KexMsg_pkey ?req) = 32"
        "Agree (dh E) (fst (GenerateKeyPair (dh E) (ctx_rng c))) (KexMsg_pkey ?req) = None"
    using assms(3) by (auto simp: kex_acceptable_def)
  then show ?thesis
  proof cases
    case none
    with assms(2,4) k show ?thesis
      by (auto simp: handleKex_def dest!: Connected_resp_sent)
  next
    case refused
    from assms(4) k assms(2) show ?thesis
      unfolding handleKex_refuses [OF assms(2) refused(1) refl refused(2)]
      by (auto dest!: Connected_resp_sent)
  next
    case disagrees
    from assms(4) k assms(2) show ?thesis
      unfolding handleKex_disagrees [OF assms(2) disagrees(1) refl disagrees(2-4)]
      by (auto dest!: Connected_resp_sent)
  qed
qed

lemma handleKex_refines:
  assumes "isKexComplete h = is_encr (ch_coder h)"
  shows "refines (conn_phase h)
    (if \<not> isKexComplete h \<and> kex_acceptable E (ctx_rng c) (ch_request h) then KexGood else KexBad) c
    (keep_connected (handleKex E h c))"
proof (cases "isKexComplete h")
  case True
  show ?thesis
    unfolding handleKex_keyed [OF True]
    using refines_conn_reply [OF assms, of c KexBad E] phase_step.kex_bad [of Keyed "finalStateFactory c"] True
    by simp
next
  case False
  show ?thesis
  proof (rule refines_keep_connected)
    fix h' c'
    assume r: "handleKex E h c = Inr (h', c')"
    show "\<exists>hs. phase_step (finalStateFactory c) (conn_phase h)
        (if \<not> isKexComplete h \<and> kex_acceptable E (ctx_rng c) (ch_request h) then KexGood else KexBad) hs
        (if isKexComplete h' then Keyed else Connected) \<and> sent hs c c'"
      using handleKex_good [OF assms False _ r] handleKex_bad [OF assms False _ r] False
        phase_step.kex_good phase_step.kex_bad [of Connected] by fastforce
  qed
qed

lemma handleAuthRequest_refines:
  assumes "isKexComplete h = is_encr (ch_coder h)"
  shows "refines (conn_phase h) AuthRequest c (handleAuthRequest E h c)"
proof (cases "isKexComplete h")
  case True
  with assms phase_step.begin_auth [of "finalStateFactory c"] show ?thesis
    by (auto simp: refines_def handleAuthRequest_def setState_def ProtocolAuthenticationHandler_new_def
        coder_header_def split: sum.splits dest!: Connected_resp_sent)
next
  case False
  then have r: "handleAuthRequest E h c = keep_connected
      (Connected_respWithStatus E ServerConnectedStateResponse_ResponseStatus_REQUEST_ERROR h c)"
    by (simp add: handleAuthRequest_def)
  show ?thesis
    unfolding r using refines_conn_reply [OF assms, of c AuthRequest E] False
      phase_step.too_early [of "finalStateFactory c"] by simp
qed

lemma Connected_refines:
  assumes "isKexComplete h = is_encr (ch_coder h)"
    "coder_decode (gcm E) (lt_ccreq E) f (ch_request h) (ch_coder h) = (ok, req, k)"
  shows "refines (conn_phase h) (connected_event E (ctx_rng c) (isKexComplete h) ok req) c
    (Connected_handleFrame E f h c)"
proof -
  let ?h1 = "h\<lparr>ch_response := ServerConnectedStateResponse_set_status
      ServerConnectedStateResponse_ResponseStatus_INVALID_REQUEST
      (ServerConnectedStateResponse_Clear (ch_response h))\<rparr>"
  define h2 where "h2 = ?h1\<lparr>ch_request := req, ch_coder := k\<rparr>"
  have h2: "isKexComplete h2 = is_encr (ch_coder h2)" "isKexComplete h2 = isKexComplete h"
    "ch_request h2 = req" "conn_phase h2 = conn_phase h"
    using assms(1) coder_decode_encr [OF assms(2)] by (simp_all add: h2_def)
  have r: "Connected_handleFrame E f h c =
      (let t = ClientConnectedStateRequest_type req in
       if \<not> ok then keep_connected (Connected_respWithStatus E ServerConnectedStateResponse_ResponseStatus_DECODE_ERROR h2 c)
       else if t = 0 then keep_connected (Inr (h2, c))
       else if t = 1 then keep_connected (handleKex E h2 c)
       else if t = 2 then handleAuthRequest E h2 c
       else keep_connected (Inr (h2, c)))"
    using assms(2) by (simp add: Connected_handleFrame_def h2_def Let_def)
  have 1: "refines (conn_phase h) Undecodable c (keep_connected (Connected_respWithStatus E s h2 c))" for s
    unfolding h2(4) [symmetric]
    by (rule refines_conn_reply [OF h2(1)], rule phase_step.undecodable) simp
  have 2: "refines (conn_phase h) Ignored c (keep_connected (Inr (h2, c)))"
    using h2(2) phase_step.ignored [of _ "finalStateFactory c"]
    by (intro refines_keep_connected) (auto intro!: exI [of _ "[]"])
  have 3: "refines (conn_phase h)
      (if \<not> isKexComplete h \<and> kex_acceptable E (ctx_rng c) req then KexGood else KexBad) c
      (keep_connected (handleKex E h2 c))"
    using handleKex_refines [OF h2(1), of E c] h2 by simp
  have 4: "refines (conn_phase h) AuthRequest c (handleAuthRequest E h2 c)"
    using handleAuthRequest_refines [OF h2(1), of c E] h2 by simp
  show ?thesis
    unfolding r connected_event_def Let_def using 1 2 3 4 by auto
qed

lemma entry_phase_created: "phase_of (createHandler fac k) = entry_phase (Some fac)"
  by (cases fac) simp_all

text \<open>The authentication state after the reply, if any, to an undecodable frame: \<open>pre\<close> is what it sent.\<close>

lemma doAuth_refines:
  assumes "is_encr (ah_coder h)" "sent pre c0 c" "pre = (if good then [] else [0xF1])"
    "ClientAuthRequest_request (ah_request h) = ClientAuthRequest_RequestType_AUTH_SUPPLY"
  shows "refines (Authenticating (remainingAttempts h)) (AuthFrame good (verdict auth (ah_request h))) c0
    (doAuth E auth h c)"
proof -
  have fac: "finalStateFactory c = finalStateFactory c0"
    using assms(2) by (simp add: sent_def)
  have after: "sent (if good then [0xF1] else [0xF1, 0xF1]) c0 c'" if "sent [0xF1] c c'" for c'
    using sent_append [OF assms(2) that] assms(3) by (cases good) simp_all
  have acc: "refines (Authenticating (remainingAttempts h)) (AuthFrame good Accepted) c0 (proceedAuth E h c)"
  proof (cases "Auth_respWithStatus E ServerAuthResponse_ResponseStatus_AUTH_ACCEPT h c")
    case (Inl e)
    then show ?thesis by (simp add: refines_def proceedAuth_def)
  next
    case (Inr p)
    then obtain h' c' where p: "p = (h', c')" by fastforce
    from Auth_resp_sent [OF Inr [unfolded p]] assms(1) have s: "sent [0xF1] c c'"
      by (simp add: coder_header_def)
    then have fac': "finalStateFactory c' = finalStateFactory c0"
      using fac by (simp add: sent_def)
    let ?s = "case finalStateFactory c0 of None \<Rightarrow> None | Some fac \<Rightarrow> createHandler fac (ah_coder h')"
    have "proceedAuth E h c = Inr (setState ?s c')"
      using Inr p fac' by (auto simp: proceedAuth_def getFinalStateFactory_def split: option.split)
    moreover have "phase_of ?s = entry_phase (finalStateFactory c0)"
      by (simp add: entry_phase_created split: option.split)
    ultimately show ?thesis
      using after [OF s] phase_step.accept [of "finalStateFactory c0" "remainingAttempts h" good]
      by (auto simp: refines_def setState_def)
  qed
  show ?thesis
  proof (cases "verdict auth (ah_request h)")
    case Rejected
    then obtain a where a: "auth = Some a" "\<not> authenticate (ah_request h) a"
      using assms(4) by (auto simp: verdict_def split: option.splits if_splits)
    show ?thesis
    proof (cases "0 < remainingAttempts h")
      case True
      then have r: "doAuth E auth h c = keep_auth (Auth_respWithStatus E
          ServerAuthResponse_ResponseStatus_AUTH_CONTINUE
          (h\<lparr>remainingAttempts := remainingAttempts h - 1\<rparr>) c)"
        using a by (simp add: doAuth_def)
      show ?thesis
        unfolding r Rejected
        using assms(1) after phase_step.retry [OF True, of "finalStateFactory c0" good]
        by (auto intro!: refines_keep_auth dest!: Auth_resp_sent simp: coder_header_def)
    next
      case False
      then have "remainingAttempts h \<le> 0" by simp
      with a Rejected assms(1) after phase_step.reject [of "remainingAttempts h" "finalStateFactory c0" good]
      show ?thesis
        by (auto simp: doAuth_def refines_def setState_def coder_header_def
            split: sum.splits dest!: Auth_resp_sent)
    qed
  next
    case Accepted
    then have "doAuth E auth h c = proceedAuth E h c"
      by (auto simp: verdict_def doAuth_def split: option.splits if_splits)
    with acc Accepted show ?thesis by simp
  qed (use assms(4) in \<open>simp add: verdict_def split: option.splits if_splits\<close>)
qed

lemma Auth_dispatch_refines:
  assumes "is_encr (ah_coder h)" "sent pre c0 c" "pre = (if good then [] else [0xF1])"
  shows "refines (Authenticating (remainingAttempts h)) (AuthFrame good (verdict auth (ah_request h))) c0
    (Auth_dispatch E auth h c)"
proof (cases "ClientAuthRequest_request (ah_request h) = ClientAuthRequest_RequestType_AUTH_SUPPLY")
  case True
  with doAuth_refines [OF assms True, of auth E] show ?thesis
    by (simp add: Auth_dispatch_def)
next
  case False
  then have v: "verdict auth (ah_request h) = NoSupply"
    by (simp add: verdict_def)
  have "sent (if good then [0xF1] else [0xF1, 0xF1]) c0 c'" if "sent [0xF1] c c'" for c'
    using sent_append [OF assms(2) that] assms(3) by (cases good) simp_all
  then have "refines (Authenticating (remainingAttempts h)) (AuthFrame good NoSupply) c0
      (keep_auth (Auth_respWithStatus E s h c))" for s
    using assms(1) phase_step.no_supply [of "finalStateFactory c0" "remainingAttempts h" good]
    by (auto intro!: refines_keep_auth dest!: Auth_resp_sent simp: coder_header_def)
  with False v show ?thesis
    by (simp add: Auth_dispatch_def Let_def)
qed

lemma Auth_refines:
  assumes "is_encr (ah_coder h)"
    "coder_decode (gcm E) (lt_careq E) f (ah_request h) (ah_coder h) = (ok, req, k)"
  shows "refines (Authenticating (remainingAttempts h)) (AuthFrame ok (verdict auth req)) c
    (Auth_handleFrame E auth f h c)"
proof -
  let ?h1 = "h\<lparr>ah_response := ServerAuthResponse_set_status ServerAuthResponse_ResponseStatus_INVALID_REQUEST
      (ServerAuthResponse_Clear (ah_response h))\<rparr>"
  define h2 where "h2 = ?h1\<lparr>ah_request := req, ah_coder := k\<rparr>"
  have h2: "is_encr (ah_coder h2)" "ah_request h2 = req" "remainingAttempts h2 = remainingAttempts h"
    using assms(1) coder_decode_encr [OF assms(2)] by (simp_all add: h2_def)
  have r: "Auth_handleFrame E auth f h c =
      (if \<not> ok then (case Auth_respWithStatus E ServerAuthResponse_ResponseStatus_DECODE_ERROR h2 c of
          Inl e \<Rightarrow> Inl e | Inr (h, c) \<Rightarrow> Auth_dispatch E auth h c)
       else Auth_dispatch E auth h2 c)"
    using assms(2) by (simp add: Auth_handleFrame_def h2_def Let_def)
  show ?thesis
  proof (cases ok)
    case True
    with r Auth_dispatch_refines [OF h2(1) sent_nil, of True auth c E] h2 show ?thesis by simp
  next
    case False
    show ?thesis
    proof (cases "Auth_respWithStatus E ServerAuthResponse_ResponseStatus_DECODE_ERROR h2 c")
      case (Inl e)
      with False r show ?thesis by (simp add: refines_def)
    next
      case (Inr p)
      then obtain h3 c3 where p: "p = (h3, c3)" by fastforce
      from Auth_resp_sent [OF Inr [unfolded p]] h2
      have h3: "is_encr (ah_coder h3)" "ah_request h3 = req" "remainingAttempts h3 = remainingAttempts h"
        "sent [0xF1] c c3" by (simp_all add: coder_header_def)
      from Auth_dispatch_refines [OF h3(1,4), of False auth E] h3 False r Inr p show ?thesis by simp
    qed
  qed
qed

lemma sendResp_sent:
  "sendResp E h c = Inr (h', c') \<Longrightarrow>
     is_encr (uh_coder h') = is_encr (uh_coder h) \<and> sent [coder_header (uh_coder h)] c c'"
  by (auto simp: sendResp_def split: sum.splits dest!: encode_and_write_sent)

lemma User_refines:
  "is_encr (uh_coder h) \<Longrightarrow> refines Serving UserFrame c (User_handleFrame E f h c)"
  using phase_step.serve [of "finalStateFactory c"]
  by (auto simp: refines_def User_handleFrame_def handleMsg_def handleDecodeErr_def Let_def coder_header_def
      split: prod.splits sum.splits if_splits dest!: coder_decode_encr sendResp_sent)

lemma handleFrame_refines:
  assumes "state_ok (ctx_state c)"
  shows "refines (phase_of (ctx_state c)) (frame_event E auth f c) c (ProtocolContext_handleFrame E auth f c)"
proof (cases "ctx_state c")
  case None
  with phase_step.closed [of "finalStateFactory c"] show ?thesis
    by (auto simp: refines_def ProtocolContext_handleFrame_def frame_event_def intro!: exI [of _ "[]"])
next
  case (Some h)
  show ?thesis
  proof (cases h)
    case (HConnected x)
    obtain ok req k where d: "coder_decode (gcm E) (lt_ccreq E) f (ch_request x) (ch_coder x) = (ok, req, k)"
      using prod_cases3 by blast
    with Some HConnected assms Connected_refines [OF _ d, of c] show ?thesis
      by (simp add: ProtocolContext_handleFrame_def frame_event_def)
  next
    case (HAuth x)
    obtain ok req k where d: "coder_decode (gcm E) (lt_careq E) f (ah_request x) (ah_coder x) = (ok, req, k)"
      using prod_cases3 by blast
    with Some HAuth assms Auth_refines [OF _ d, of auth c] show ?thesis
      by (simp add: ProtocolContext_handleFrame_def frame_event_def)
  next
    case (HUser x)
    with Some assms User_refines [of x c E f] show ?thesis
      by (simp add: ProtocolContext_handleFrame_def frame_event_def)
  qed
qed

section \<open>Sessions\<close>

text \<open>A session: the frames handled so far by a context made by \<open>createContext\<close> and given its sink.\<close>

definition new_session :: "user_factory option \<Rightarrow> nat \<Rightarrow> proto_context" where
  "new_session fac r = setIO (Some []) (ProtocolContext_new fac r)"

inductive phase_run :: "user_factory option \<Rightarrow> phase \<Rightarrow> event list \<Rightarrow> byte list \<Rightarrow> phase \<Rightarrow> bool"
  for fac :: "user_factory option" where
  run_nil: "phase_run fac p [] [] p"
| run_step: "phase_step fac p e hs q \<Longrightarrow> phase_run fac q es hs' r \<Longrightarrow> phase_run fac p (e # es) (hs @ hs') r"

text \<open>The events of a run, each in the context its frame arrives at.\<close>

fun frame_events :: "proto_env \<Rightarrow> (authenticator option \<times> frame) list \<Rightarrow> proto_context \<Rightarrow> event list" where
  "frame_events E [] c = []"
| "frame_events E ((auth, f) # fs) c =
     frame_event E auth f c #
     (case ProtocolContext_handleFrame E auth f c of
        Inl e \<Rightarrow> []
      | Inr c' \<Rightarrow> frame_events E fs c')"

lemma handleFrame_state_ok:
  "state_ok (ctx_state c) \<Longrightarrow> ProtocolContext_handleFrame E auth f c = Inr c' \<Longrightarrow> state_ok (ctx_state c')"
  using handleFrame_secure [of c E auth f] by (simp add: step_secure_def)

lemma handleFrame_step:
  assumes "state_ok (ctx_state c)" "ProtocolContext_handleFrame E auth f c = Inr c'"
  obtains hs where
    "phase_step (finalStateFactory c) (phase_of (ctx_state c)) (frame_event E auth f c) hs (phase_of (ctx_state c'))"
    "sent hs c c'"
  using handleFrame_refines [OF assms(1), of E auth f] assms(2) by (auto simp: refines_def)

lemma run_frames_phase:
  assumes "state_ok (ctx_state c)" "run_frames E fs c = Inr c'"
  shows "\<exists>hs. phase_run (finalStateFactory c) (phase_of (ctx_state c)) (frame_events E fs c) hs
      (phase_of (ctx_state c')) \<and> sent hs c c' \<and> state_ok (ctx_state c')"
  using assms
proof (induction E fs c rule: run_frames.induct)
  case (1 E c)
  then show ?case by (auto intro!: exI [of _ "[]"] phase_run.run_nil)
next
  case (2 E auth f fs c)
  from 2(3) obtain c1 where c1: "ProtocolContext_handleFrame E auth f c = Inr c1"
    "run_frames E fs c1 = Inr c'" by (auto split: sum.splits)
  from handleFrame_step [OF 2(2) c1(1)] obtain hs where hs:
    "phase_step (finalStateFactory c) (phase_of (ctx_state c)) (frame_event E auth f c) hs (phase_of (ctx_state c1))"
    "sent hs c c1" .
  from 2(1) [OF c1(1) handleFrame_state_ok [OF 2(2) c1(1)] c1(2)] obtain hs' where hs':
    "phase_run (finalStateFactory c1) (phase_of (ctx_state c1)) (frame_events E fs c1) hs' (phase_of (ctx_state c'))"
    "sent hs' c1 c'" "state_ok (ctx_state c')" by blast
  have "finalStateFactory c1 = finalStateFactory c"
    using hs(2) by (simp add: sent_def)
  with phase_run.run_step [OF hs(1)] hs'(1) sent_append [OF hs(2) hs'(2)] c1(1) hs'(3) show ?case
    by auto
qed

lemma new_session_state [simp]:
  "ctx_state (new_session fac r) = Some (HConnected ProtocolConnectedHandler_new)"
  "state_ok (ctx_state (new_session fac r))" "phase_of (ctx_state (new_session fac r)) = Connected"
  "finalStateFactory (new_session fac r) = fac" "ctx_io (new_session fac r) = Some []"
  by (simp_all add: new_session_def setIO_def ProtocolContext_new_def ProtocolConnectedHandler_new_def)

lemma session_phase:
  assumes "run_frames E fs (new_session fac r) = Inr c"
  obtains hs ws where "phase_run fac Connected (frame_events E fs (new_session fac r)) hs (phase_of (ctx_state c))"
    "ctx_io c = Some ws" "map fr_header ws = hs" "state_ok (ctx_state c)" "finalStateFactory c = fac"
proof -
  from run_frames_phase [OF new_session_state(2) assms, unfolded new_session_state(3,4)]
  obtain hs where "phase_run fac Connected (frame_events E fs (new_session fac r)) hs (phase_of (ctx_state c))"
    "sent hs (new_session fac r) c" "state_ok (ctx_state c)" by blast
  with that show ?thesis by (auto simp: sent_def)
qed

lemma run_frames_append:
  "run_frames E (fs @ gs) c = (case run_frames E fs c of Inl e \<Rightarrow> Inl e | Inr c' \<Rightarrow> run_frames E gs c')"
  by (induction E fs c rule: run_frames.induct) (auto split: sum.splits)

section \<open>Facts of the phases\<close>

text \<open>A session authenticates at most six times: the rejections a phase leaves room for.\<close>

fun budget :: "phase \<Rightarrow> int" where
  "budget Connected = 6"
| "budget Keyed = 6"
| "budget (Authenticating n) = (if n < 0 then 1 else n + 1)"
| "budget Serving = 0"
| "budget Closed = 0"

definition attempts :: "event list \<Rightarrow> int" where
  "attempts es = int (length (filter (\<lambda>e. \<exists>good v. e = AuthFrame good v \<and> v \<noteq> NoSupply) es))"

definition rejections :: "event list \<Rightarrow> int" where
  "rejections es = int (length (filter (\<lambda>e. \<exists>good. e = AuthFrame good Rejected) es))"

lemma entry_phase_cases: "entry_phase fac = Serving \<or> entry_phase fac = Closed"
  by (induction fac rule: entry_phase.induct) simp_all

lemma budget_entry [simp]: "budget (entry_phase fac) = 0"
  using entry_phase_cases [of fac] by auto

lemma attempts_Cons: "attempts (e # es) = attempts [e] + attempts es"
  by (simp add: attempts_def)

lemma phase_step_budget: "phase_step fac p e hs q \<Longrightarrow> budget q + attempts [e] \<le> budget p"
  by (induction rule: phase_step.induct) (auto simp: attempts_def)

lemma phase_run_budget: "phase_run fac p es hs q \<Longrightarrow> budget q + attempts es \<le> budget p"
proof (induction rule: phase_run.induct)
  case (run_step p e hs q es hs' r)
  with phase_step_budget [OF run_step(1)] show ?case
    by (simp add: attempts_Cons [of e es])
qed (simp add: attempts_def)

lemma rejections_attempts: "rejections es \<le> attempts es"
  by (induction es) (auto simp: rejections_def attempts_def)

lemma accepted_attempts: "AuthFrame good Accepted \<in> set es \<Longrightarrow> rejections es < attempts es"
proof (induction es)
  case (Cons e es)
  with rejections_attempts [of es] show ?case
    by (cases "e = AuthFrame good Accepted") (auto simp: rejections_def attempts_def)
qed simp

text \<open>A phase that can still authenticate has budget left, and serving is reached by accepting only.\<close>

lemma phase_step_Serving:
  "phase_step fac p e hs Serving \<Longrightarrow> p \<noteq> Serving \<Longrightarrow>
     \<exists>n good. p = Authenticating n \<and> e = AuthFrame good Accepted"
  by (cases rule: phase_step.cases) auto

lemma phase_run_Serving:
  "phase_run fac p es hs q \<Longrightarrow> q = Serving \<Longrightarrow> p \<noteq> Serving \<Longrightarrow> \<exists>good. AuthFrame good Accepted \<in> set es"
proof (induction rule: phase_run.induct)
  case (run_step p e hs q es hs' r)
  then show ?case
    by (cases "q = Serving") (auto dest: phase_step_Serving)
qed simp

lemma phase_step_replies:
  "phase_step fac p e hs q \<Longrightarrow> p \<noteq> Connected \<Longrightarrow> q \<noteq> Connected \<and> set hs \<subseteq> {0xF1}"
  by (induction rule: phase_step.induct) (use entry_phase_cases [of fac] in auto)

lemma phase_run_mono: "phase_run fac p es hs q \<Longrightarrow> p \<le> q"
  by (induction rule: phase_run.induct) (auto dest: phase_step_mono)

lemma phase_run_replies:
  "phase_run fac p es hs q \<Longrightarrow> p \<noteq> Connected \<Longrightarrow> q \<noteq> Connected \<and> set hs \<subseteq> {0xF1}"
  by (induction rule: phase_run.induct) (auto dest: phase_step_replies)

lemma phase_run_not_Serving:
  "phase_run fac p es hs q \<Longrightarrow> fac \<noteq> Some TestUserHandlerFactory \<Longrightarrow> p \<noteq> Serving \<Longrightarrow> q \<noteq> Serving"
proof (induction rule: phase_run.induct)
  case (run_step p e hs q es hs' r)
  have "entry_phase fac = Closed"
    using run_step(4) by (cases fac rule: entry_phase.cases) simp_all
  with run_step(1,5) have "q \<noteq> Serving"
    by (cases rule: phase_step.cases) auto
  with run_step show ?case by blast
qed simp

section \<open>Properties\<close>

text \<open>C1: The protocol is the documented state machine: in any session, a frame that the context handles
  takes it from its phase to the next one as \<open>phase_step\<close> allows for the meaning of the frame, and the
  frames written in reply carry exactly the headers of that step. In particular the authentication state
  is entered from a completed key exchange only, with five retries, and the user state from an accepted
  authentication only.\<close>

theorem handleFrame_phase:
  assumes "run_frames E fs (new_session fac r) = Inr c" "ProtocolContext_handleFrame E auth f c = Inr c'"
  shows "\<exists>out ws. ctx_io c = Some out \<and> ctx_io c' = Some (out @ ws) \<and>
    phase_step fac (phase_of (ctx_state c)) (frame_event E auth f c) (map fr_header ws) (phase_of (ctx_state c'))"
proof -
  from session_phase [OF assms(1)] obtain out where c:
    "ctx_io c = Some out" "state_ok (ctx_state c)" "finalStateFactory c = fac" by metis
  from handleFrame_step [OF c(2) assms(2)] obtain hs where
    "phase_step fac (phase_of (ctx_state c)) (frame_event E auth f c) hs (phase_of (ctx_state c'))" "sent hs c c'"
    using c(3) by metis
  with c(1) show ?thesis by (auto simp: sent_def)
qed

text \<open>C14: Nothing is sent in the clear after the key exchange: once a session has left the connected phase,
  whatever frames arrive, every further frame the server writes is an encrypted one (header \<open>0xF1\<close>) and
  the session never goes back to an earlier phase or to more attempts.\<close>

theorem session_stays_encrypted:
  assumes "run_frames E fs (new_session fac r) = Inr c" "phase_of (ctx_state c) \<noteq> Connected"
    "run_frames E gs c = Inr c'"
  shows "phase_of (ctx_state c') \<noteq> Connected \<and> phase_of (ctx_state c) \<le> phase_of (ctx_state c') \<and>
    (\<exists>out ws. ctx_io c = Some out \<and> ctx_io c' = Some (out @ ws) \<and> (\<forall>w\<in>set ws. fr_header w = 0xF1))"
proof -
  from session_phase [OF assms(1)] obtain out where c: "ctx_io c = Some out" "state_ok (ctx_state c)" by metis
  from run_frames_phase [OF c(2) assms(3)] obtain hs where hs:
    "phase_run (finalStateFactory c) (phase_of (ctx_state c)) (frame_events E gs c) hs (phase_of (ctx_state c'))"
    "sent hs c c'" by blast
  from phase_run_replies [OF hs(1) assms(2)] phase_run_mono [OF hs(1)] hs(2) c(1) show ?thesis
    by (fastforce simp: sent_def)
qed

text \<open>C18: The handlers never throw into the event loop: a server session handles any sequence of frames,
  under any changes of its authenticator and with any user handler, without an exception. In the user
  state this rests on the size of a frame: an encrypted request leaves room for the echo's prefix.\<close>

theorem session_never_throws:
  assumes "env_ok E L"
  shows "\<exists>c out. run_frames E fs (new_session fac r) = Inr c \<and> ctx_io c = Some out"
proof -
  have "\<exists>c. run_frames E fs (new_session fac r) = Inr c \<and> ctx_io c \<noteq> None \<and> resp_ok (ctx_state c)"
  proof (induction fs rule: rev_induct)
    case Nil
    show ?case
      by (simp add: resp_ok_def ProtocolConnectedHandler_new_def pb_wf_defs ServerConnectedStateResponse_new_def)
  next
    case (snoc af fs)
    then obtain c where c: "run_frames E fs (new_session fac r) = Inr c" "ctx_io c \<noteq> None"
      "resp_ok (ctx_state c)" by blast
    have "state_ok (ctx_state c)"
      using run_frames_secure [OF new_session_state(2) c(1)] by simp
    with handleFrame_returns [OF assms c(3) _ c(2)] have "returns (ProtocolContext_handleFrame E a f c)" for a f
      by simp
    from this [of "fst af" "snd af"] c(1) show ?case
      by (cases af) (auto simp: run_frames_append returns_def split: sum.splits)
  qed
  then show ?thesis by blast
qed

text \<open>C17: An attacker gets six tries: in any session at most six authentication attempts are made, a decoding
  failure that repeats an old request counted, and a session with six rejections is closed.\<close>

theorem at_most_six_attempts:
  assumes "run_frames E fs (new_session fac r) = Inr c"
  shows "attempts (frame_events E fs (new_session fac r)) \<le> 6 \<and>
    (rejections (frame_events E fs (new_session fac r)) = 6 \<longrightarrow> \<not> isActive c)"
proof -
  let ?es = "frame_events E fs (new_session fac r)"
  from session_phase [OF assms] obtain hs where run: "phase_run fac Connected ?es hs (phase_of (ctx_state c))"
    by metis
  have b: "budget (phase_of (ctx_state c)) + attempts ?es \<le> 6"
    using phase_run_budget [OF run] by simp
  have pos: "0 \<le> budget p" for p by (cases p) simp_all
  have "phase_of (ctx_state c) = Closed" if six: "rejections ?es = 6"
  proof -
    have "phase_of (ctx_state c) \<noteq> Serving"
      using phase_run_Serving [OF run] accepted_attempts [of _ ?es] b pos [of "phase_of (ctx_state c)"] six
      by fastforce
    with b six rejections_attempts [of ?es] show ?thesis
      by (cases "phase_of (ctx_state c)") (auto split: if_splits)
  qed
  with b pos [of "phase_of (ctx_state c)"] show ?thesis
    by (auto simp: isActive_def)
qed

text \<open>C9: No service without authentication: a session that has reached the user handler passed, at some
  frame, from the authentication state with a decoded or kept \<open>AUTH_SUPPLY\<close> request which the server's
  authenticator of that moment accepted, unless there was none.\<close>

theorem user_state_needs_authentication:
  assumes "run_frames E fs (new_session fac r) = Inr c" "ctx_state c = Some (HUser u)"
  shows "\<exists>fs1 auth f fs2 c1 h ok req k. fs = fs1 @ (auth, f) # fs2 \<and>
    run_frames E fs1 (new_session fac r) = Inr c1 \<and> ctx_state c1 = Some (HAuth h) \<and> is_encr (ah_coder h) \<and>
    coder_decode (gcm E) (lt_careq E) f (ah_request h) (ah_coder h) = (ok, req, k) \<and>
    ClientAuthRequest_request req = ClientAuthRequest_RequestType_AUTH_SUPPLY \<and>
    (auth = None \<or> (\<exists>a. auth = Some a \<and> authenticate req a))"
  using assms
proof (induction fs arbitrary: c u rule: rev_induct)
  case (snoc af fs)
  obtain auth f where af: "af = (auth, f)" by fastforce
  with snoc.prems(1) obtain c0 where c0: "run_frames E fs (new_session fac r) = Inr c0"
    "ProtocolContext_handleFrame E auth f c0 = Inr c" by (auto simp: run_frames_append split: sum.splits)
  show ?case
  proof (cases "phase_of (ctx_state c0) = Serving")
    case True
    then obtain u0 where "ctx_state c0 = Some (HUser u0)" by auto
    from snoc.IH [OF c0(1) this] show ?thesis
      by (metis append.assoc append_Cons)
  next
    case False
    from session_phase [OF c0(1)] have ok: "state_ok (ctx_state c0)" by blast
    from handleFrame_step [OF ok c0(2)] obtain hs where
      "phase_step (finalStateFactory c0) (phase_of (ctx_state c0)) (frame_event E auth f c0) hs Serving"
      using snoc.prems(2) by (metis phase_of.simps(4))
    from phase_step_Serving [OF this False] obtain n good where
      n: "phase_of (ctx_state c0) = Authenticating n" "frame_event E auth f c0 = AuthFrame good Accepted" by blast
    then obtain h where h: "ctx_state c0 = Some (HAuth h)"
      by (cases "ctx_state c0" rule: phase_of.cases) (auto split: if_splits)
    obtain ok req k where d: "coder_decode (gcm E) (lt_careq E) f (ah_request h) (ah_coder h) = (ok, req, k)"
      using prod_cases3 by blast
    have "verdict auth req = Accepted"
      using n(2) h d by (simp add: frame_event_def)
    then have "ClientAuthRequest_request req = ClientAuthRequest_RequestType_AUTH_SUPPLY"
      "auth = None \<or> (\<exists>a. auth = Some a \<and> authenticate req a)"
      by (auto simp: verdict_def split: if_splits option.splits)
    with c0(1) h d af ok show ?thesis
      by (intro exI [of _ fs] exI [of _ auth] exI [of _ f] exI [of _ "[]"] exI [of _ c0]) auto
  qed
qed (use new_session_state(1) in auto)

text \<open>The plain text of an encrypted frame, when it has one under this key.\<close>

definition opened :: "gcm_lib \<Rightarrow> bytes \<Rightarrow> frame \<Rightarrow> bytes option" where
  "opened G key f =
     (if unat (fr_len f) \<le> ivsize \<or> fr_header f \<noteq> 0xF1 then None
      else case gcm_decrypt G key (take ivsize (frame_content f)) (drop ivsize (frame_content f)) of
             GcmOut plain \<Rightarrow> Some plain
           | _ \<Rightarrow> None)"

text \<open>What a failed decoding leaves in the message.\<close>

lemma failed_decode:
  assumes "coder_decode G T f m (Encr e) = (False, m', k)"
  shows "case opened G (ec_key e) f of
      None \<Rightarrow> m' = m
    | Some plain \<Rightarrow>
        MessageCoder_decode T \<lparr>fr_header = 0xF0, fr_len = word_of_nat (length plain), fr_msg = plain\<rparr> m = (False, m')"
  using assms by (auto simp: coder_decode_def EncrMessageCoder_decode_def opened_def Let_def
      split: prod.splits if_splits gcm_result.splits)

text \<open>C37: A frame the session cannot decode is not dropped in the authentication state: it is answered twice, and the
  request object is tried once more against the authenticator of the moment, so that it costs an attempt or even lets the
  session in. For a frame that is not encrypted, too short or fails its authentication tag, that is the request of the last
  frame again; for one that decrypts to something that is not a request, it is what the parser has left in the object.\<close>

theorem undecodable_frame_repeats_request:
  assumes "run_frames E fs (new_session fac r) = Inr c" "ctx_state c = Some (HAuth h)"
    "coder_decode (gcm E) (lt_careq E) f (ah_request h) (ah_coder h) = (False, req, k)"
    "ProtocolContext_handleFrame E auth f c = Inr c'"
  shows "phase_of (ctx_state c') =
      (case verdict auth req of
         Accepted \<Rightarrow> entry_phase fac
       | Rejected \<Rightarrow> if 0 < remainingAttempts h then Authenticating (remainingAttempts h - 1) else Closed
       | NoSupply \<Rightarrow> Authenticating (remainingAttempts h)) \<and>
    (\<exists>out w1 w2. ctx_io c = Some out \<and> ctx_io c' = Some (out @ [w1, w2])) \<and>
    (\<exists>e. ah_coder h = Encr e \<and>
       (case opened (gcm E) (ec_key e) f of
          None \<Rightarrow> req = ah_request h
        | Some plain \<Rightarrow>
            MessageCoder_decode (lt_careq E) \<lparr>fr_header = 0xF0, fr_len = word_of_nat (length plain), fr_msg = plain\<rparr>
              (ah_request h) = (False, req)))"
proof -
  from session_phase [OF assms(1)] obtain out where c: "ctx_io c = Some out" "state_ok (ctx_state c)"
    "finalStateFactory c = fac" by metis
  with assms(2) have "is_encr (ah_coder h)" by simp
  then obtain e where e: "ah_coder h = Encr e" by (cases "ah_coder h") simp_all
  from assms(2,3) have "frame_event E auth f c = AuthFrame False (verdict auth req)"
    by (simp add: frame_event_def)
  with handleFrame_step [OF c(2) assms(4)] c(3) assms(2) obtain hs where hs:
    "phase_step fac (Authenticating (remainingAttempts h)) (AuthFrame False (verdict auth req)) hs
       (phase_of (ctx_state c'))" "sent hs c c'" by auto
  from hs(1) have "phase_of (ctx_state c') =
      (case verdict auth req of
         Accepted \<Rightarrow> entry_phase fac
       | Rejected \<Rightarrow> if 0 < remainingAttempts h then Authenticating (remainingAttempts h - 1) else Closed
       | NoSupply \<Rightarrow> Authenticating (remainingAttempts h)) \<and> hs = [0xF1, 0xF1]"
    by (cases rule: phase_step_AuthenticatingE) auto
  moreover from this hs(2) c(1) have "\<exists>out w1 w2. ctx_io c = Some out \<and> ctx_io c' = Some (out @ [w1, w2])"
    by (auto simp: sent_def map_eq_Cons_conv)
  ultimately show ?thesis
    using e failed_decode [OF assms(3) [unfolded e]] by blast
qed

end
