(* ===== verification/DemoEnv.thy ===== *)
theory DemoEnv
  imports Sessions
begin

text \<open>
  The environment of the witnesses: the protocol buffers runtime \<open>pb_lib\<close> and the instances of the
  cryptographic contracts, put together as one \<open>proto_env\<close>.
\<close>

definition demo_env :: proto_env where
  "demo_env =
     \<lparr>lt_ccreq = ccreq_lite pb_lib, lt_scresp = scresp_lite pb_lib, lt_careq = careq_lite pb_lib,
      lt_saresp = saresp_lite pb_lib, lt_ureq = ureq_lite pb_lib, lt_uresp = uresp_lite pb_lib, gcm = demo_gcm,
      dh = demo_dh, garbage = (\<lambda>r. False)\<rparr>"

lemma demo_env_ok: "env_ok demo_env pb_lib"
  using pb.wire_runtime_axioms demo.aead_axioms demo_dh.key_agreement_axioms
  by (simp add: env_ok_def demo_env_def)

end
