(* ===== verification/SessionDemo.thy ===== *)
theory SessionDemo
  imports DemoEnv "HOL-Library.Code_Target_Numeral"
begin

text \<open>
  A session run in the logic, in the environment \<open>demo_env\<close>. The frames below are those a client with the key
  pair of seed 5 sends to a server with seed 7. The last frame is junk: it repeats the rejected authentication request,
  which a server whose authenticator was removed in the meantime accepts. The witnesses of \<open>Sessions\<close>
  take their concrete inputs from this run.
\<close>

definition demo_frames :: "(authenticator option \<times> frame) list" where
  "demo_frames =
     [(None, \<lparr>fr_header = 0xF0, fr_len = 40, fr_msg = [8, 1, 18, 36, 8, 1, 18, 32] @ replicate 32 5\<rparr>),
      (None, \<lparr>fr_header = 0xF1, fr_len = 34, fr_msg = replicate 16 3 @ [8, 2] @ replicate 15 177 @ [10]\<rparr>),
      (Some Authenticator_empty,
       \<lparr>fr_header = 0xF1, fr_len = 34, fr_msg = replicate 16 9 @ [8, 1] @ replicate 15 17 @ [9]\<rparr>),
      (None, \<lparr>fr_header = 0xF0, fr_len = 0, fr_msg = []\<rparr>)]"

abbreviation demo_session :: proto_context where
  "demo_session \<equiv> new_session (Some TestUserHandlerFactory) 7"

text \<open>The phases a run goes through.\<close>

fun session_trace :: "proto_env \<Rightarrow> (authenticator option \<times> frame) list \<Rightarrow> proto_context \<Rightarrow> phase list" where
  "session_trace E [] c = [phase_of (ctx_state c)]"
| "session_trace E ((auth, f) # fs) c =
     phase_of (ctx_state c) #
     (case ProtocolContext_handleFrame E auth f c of
        Inl e \<Rightarrow> []
      | Inr c' \<Rightarrow> session_trace E fs c')"

lemma session_trace_run:
  "length (session_trace E fs c) = Suc (length fs) \<Longrightarrow> n \<le> length fs \<Longrightarrow>
     \<exists>c'. run_frames E (take n fs) c = Inr c' \<and> phase_of (ctx_state c') = session_trace E fs c ! n"
proof (induction E fs c arbitrary: n rule: session_trace.induct)
  case (2 E auth f fs c)
  then show ?case
    by (cases n) (auto split: sum.splits)
qed simp

lemma read_varint_code [code]:
  "read_varint n bs =
     (if n = 0 then None
      else case bs of
             [] \<Rightarrow> None
           | b # bs \<Rightarrow>
               if unat b < 128 then Some (unat b, bs)
               else map_option (\<lambda>(m, rest). (unat b - 128 + 128 * m, rest)) (read_varint (n - 1) bs))"
  by (cases n; cases bs) simp_all

lemma demo_trace:
  "session_trace demo_env demo_frames demo_session =
     [Connected, Keyed, Authenticating 5, Authenticating 4, Serving]"
  by code_simp

lemma demo_length: "length demo_frames = 4"
  by (simp add: demo_frames_def)

lemma demo_run:
  assumes "n < 5"
  obtains c where "run_frames demo_env (take n demo_frames) demo_session = Inr c"
    "phase_of (ctx_state c) = [Connected, Keyed, Authenticating 5, Authenticating 4, Serving] ! n"
proof -
  have n: "n \<le> length demo_frames" "length (session_trace demo_env demo_frames demo_session) = Suc (length demo_frames)"
    using assms by (simp_all only: demo_trace demo_length) simp_all
  from session_trace_run [OF n(2,1)] that show thesis
    unfolding demo_trace by blast
qed

lemma demo_step:
  assumes "n < 4"
  obtains c c' where "run_frames demo_env (take n demo_frames) demo_session = Inr c"
    "phase_of (ctx_state c) = [Connected, Keyed, Authenticating 5, Authenticating 4, Serving] ! n"
    "ProtocolContext_handleFrame demo_env (fst (demo_frames ! n)) (snd (demo_frames ! n)) c = Inr c'"
proof -
  have n: "n < length demo_frames" and n': "n < 5" "Suc n < 5"
    using assms by (simp_all add: demo_length)
  from demo_run [OF n'(1)] obtain c where c: "run_frames demo_env (take n demo_frames) demo_session = Inr c"
    "phase_of (ctx_state c) = [Connected, Keyed, Authenticating 5, Authenticating 4, Serving] ! n" .
  from demo_run [OF n'(2)] obtain d where "run_frames demo_env (take (Suc n) demo_frames) demo_session = Inr d" .
  then have "run_frames demo_env [demo_frames ! n] c = Inr d"
    using c(1) by (simp add: take_Suc_conv_app_nth [OF n] run_frames_append)
  then have "\<exists>c'. ProtocolContext_handleFrame demo_env (fst (demo_frames ! n)) (snd (demo_frames ! n)) c = Inr c'"
    by (cases "demo_frames ! n") (auto split: sum.splits)
  with c that show thesis by blast
qed

section \<open>Witnesses\<close>

theorem handleFrame_phase_witness:
  "\<exists>c (c' :: proto_context) out ws. ctx_io c = Some out \<and> ctx_io c' = Some (out @ ws) \<and>
    run_frames demo_env (take 1 demo_frames) demo_session = Inr c \<and>
    phase_step (Some TestUserHandlerFactory) (phase_of (ctx_state c))
      (frame_event demo_env None (snd (demo_frames ! 1)) c) (map fr_header ws) (phase_of (ctx_state c'))"
proof -
  obtain c c' where c: "run_frames demo_env (take 1 demo_frames) demo_session = Inr c"
    "ProtocolContext_handleFrame demo_env (fst (demo_frames ! 1)) (snd (demo_frames ! 1)) c = Inr c'"
    by (rule demo_step [of 1]) simp
  have none: "fst (demo_frames ! 1) = None" by (simp add: demo_frames_def)
  note step = handleFrame_phase [OF c, unfolded none]
  show ?thesis
    by (rule exI [of _ c], rule exI [of _ c']) (use step c(1) in auto)
qed

theorem session_stays_encrypted_witness:
  "\<exists>c (c' :: proto_context) out ws. run_frames demo_env (take 1 demo_frames) demo_session = Inr c \<and>
    phase_of (ctx_state c') \<noteq> Connected \<and> ctx_io c = Some out \<and> ctx_io c' = Some (out @ ws) \<and>
    (\<forall>w\<in>set ws. fr_header w = 0xF1)"
proof -
  obtain c c' where c: "run_frames demo_env (take 1 demo_frames) demo_session = Inr c"
    "phase_of (ctx_state c) = [Connected, Keyed, Authenticating 5, Authenticating 4, Serving] ! 1"
    "ProtocolContext_handleFrame demo_env (fst (demo_frames ! 1)) (snd (demo_frames ! 1)) c = Inr c'"
    by (rule demo_step [of 1]) simp_all
  then have "run_frames demo_env [demo_frames ! 1] c = Inr c'"
    by (cases "demo_frames ! 1") simp
  with session_stays_encrypted [OF c(1), of "[demo_frames ! 1]" c'] c(2)
  have step: "phase_of (ctx_state c') \<noteq> Connected \<and> (\<exists>out ws. ctx_io c = Some out \<and>
      ctx_io c' = Some (out @ ws) \<and> (\<forall>w\<in>set ws. fr_header w = 0xF1))" by simp
  show ?thesis
    by (rule exI [of _ c], rule exI [of _ c']) (use step c(1) in auto)
qed

theorem session_never_throws_witness:
  "\<exists>c out. run_frames demo_env demo_frames (new_session (Some TestUserHandlerFactory) 7) = Inr c \<and>
    ctx_io c = Some out"
  by (rule session_never_throws [OF demo_env_ok])

theorem at_most_six_attempts_witness:
  "attempts (frame_events demo_env (take 4 demo_frames) demo_session) \<le> 6"
  by (rule demo_run [of 4], simp) (use at_most_six_attempts in blast)

theorem user_state_needs_authentication_witness:
  "\<exists>fs1 auth f fs2. take 4 demo_frames = fs1 @ (auth, f) # fs2 \<and>
    (\<exists>c1 h. run_frames demo_env fs1 demo_session = Inr c1 \<and> ctx_state c1 = Some (HAuth h))"
proof -
  obtain c where c: "run_frames demo_env (take 4 demo_frames) demo_session = Inr c"
    "phase_of (ctx_state c) = [Connected, Keyed, Authenticating 5, Authenticating 4, Serving] ! 4"
    by (rule demo_run [of 4]) simp_all
  then obtain u where "ctx_state c = Some (HUser u)" by auto
  from user_state_needs_authentication [OF c(1) this] show ?thesis by blast
qed

theorem undecodable_frame_repeats_request_witness:
  "\<exists>c (c' :: proto_context) h out w1 w2. run_frames demo_env (take 3 demo_frames) demo_session = Inr c \<and>
    ctx_state c = Some (HAuth h) \<and> ctx_io c = Some out \<and> ctx_io c' = Some (out @ [w1, w2]) \<and>
    phase_of (ctx_state c') = (case verdict (fst (demo_frames ! 3)) (ah_request h) of
      Accepted \<Rightarrow> Serving | Rejected \<Rightarrow> if 0 < remainingAttempts h then Authenticating (remainingAttempts h - 1) else Closed
    | NoSupply \<Rightarrow> Authenticating (remainingAttempts h))"
proof -
  obtain c c' where c: "run_frames demo_env (take 3 demo_frames) demo_session = Inr c"
    "phase_of (ctx_state c) = [Connected, Keyed, Authenticating 5, Authenticating 4, Serving] ! 3"
    "ProtocolContext_handleFrame demo_env (fst (demo_frames ! 3)) (snd (demo_frames ! 3)) c = Inr c'"
    by (rule demo_step [of 3]) simp_all
  then obtain h where h: "ctx_state c = Some (HAuth h)"
    by (cases "ctx_state c" rule: phase_of.cases) (auto split: if_splits)
  have "is_encr (ah_coder h)" using session_phase [OF c(1)] h by fastforce
  then have "coder_decode (gcm demo_env) (lt_careq demo_env) (snd (demo_frames ! 3)) (ah_request h) (ah_coder h) =
      (False, ah_request h, ah_coder h)"
    by (cases "ah_coder h") (simp_all add: demo_frames_def coder_decode_def EncrMessageCoder_decode_def)
  note step = undecodable_frame_repeats_request [OF c(1) h this c(3)]
  from step [THEN conjunct2, THEN conjunct1] obtain out w1 w2 where
    "ctx_io c = Some out" "ctx_io c' = Some (out @ [w1, w2])" by blast
  with step [THEN conjunct1, unfolded entry_phase.simps] c(1) h show ?thesis by blast
qed

end
