(* ===== verification/SessionSinks.thy ===== *)
theory SessionSinks
  imports Sessions
begin

text \<open>
  The worker gives every frame to its session with an empty sink and takes the replies out of it, where
  \<open>run_frames\<close> of \<open>Handlers\<close> lets the replies of a whole conversation add up. The two views agree: a handler never
  looks at what the sink holds (\<open>handleFrame_shift\<close>), so \<open>session_serves\<close> gives the same replies.
\<close>

section \<open>Handlers do not read the sink\<close>

definition shift_io :: "frame list \<Rightarrow> proto_context \<Rightarrow> proto_context" where
  "shift_io out c = c\<lparr>ctx_io := map_option ((@) out) (ctx_io c)\<rparr>"

lemma shift_io_fields [simp]:
  "ctx_state (shift_io out c) = ctx_state c" "ctx_rng (shift_io out c) = ctx_rng c"
  "finalStateFactory (shift_io out c) = finalStateFactory c" "ctx_io (shift_io out c) = map_option ((@) out) (ctx_io c)"
  "(shift_io out c)\<lparr>ctx_rng := r\<rparr> = shift_io out (c\<lparr>ctx_rng := r\<rparr>)"
  "(shift_io out c)\<lparr>ctx_state := s\<rparr> = shift_io out (c\<lparr>ctx_state := s\<rparr>)"
  "setState s (shift_io out c) = shift_io out (setState s c)"
  by (simp_all add: shift_io_def setState_def)

abbreviation shifted :: "frame list \<Rightarrow> fault + ('h \<times> proto_context) \<Rightarrow> fault + ('h \<times> proto_context)" where
  "shifted out \<equiv> map_sum id (map_prod id (shift_io out))"

named_theorems shift_simps \<open>operations under a longer sink\<close>

lemma encode_and_write_shift [shift_simps]:
  "encode_and_write E T m k (shift_io out c) =
     map_sum id (map_prod id (map_prod id (shift_io out))) (encode_and_write E T m k c)"
  by (auto simp: encode_and_write_def io_writeFrame_def getIO_def Let_def shift_io_def split: prod.split option.split)

lemma Connected_resp_shift [shift_simps]:
  "Connected_respWithStatus E s h (shift_io out c) = shifted out (Connected_respWithStatus E s h c)"
  by (auto simp: Connected_respWithStatus_def shift_simps split: sum.split)

lemma Auth_resp_shift [shift_simps]:
  "Auth_respWithStatus E s h (shift_io out c) = shifted out (Auth_respWithStatus E s h c)"
  by (auto simp: Auth_respWithStatus_def shift_simps split: sum.split)

lemma sendResp_shift [shift_simps]:
  "sendResp E h (shift_io out c) = shifted out (sendResp E h c)"
  by (auto simp: sendResp_def shift_simps split: sum.split)

lemma handleKex_shift [shift_simps]:
  "handleKex E h (shift_io out c) = shifted out (handleKex E h c)"
  by (simp add: handleKex_def Let_def shift_simps split_beta sum.case_distrib split: option.split sum.split)

lemma keep_connected_shift [shift_simps]:
  "keep_connected (shifted out r) = map_sum id (shift_io out) (keep_connected r)"
  by (auto simp: keep_connected_def split: sum.split)

lemma keep_auth_shift [shift_simps]:
  "keep_auth (shifted out r) = map_sum id (shift_io out) (keep_auth r)"
  by (auto simp: keep_auth_def split: sum.split)

lemma Connected_handleFrame_shift [shift_simps]:
  "Connected_handleFrame E f h (shift_io out c) = map_sum id (shift_io out) (Connected_handleFrame E f h c)"
proof -
  have 1: "keep_connected (Inr (h, shift_io out c)) = map_sum id (shift_io out) (keep_connected (Inr (h, c)))" for h
    by (simp add: keep_connected_def)
  have 2: "handleAuthRequest E h (shift_io out c) = map_sum id (shift_io out) (handleAuthRequest E h c)" for h
    by (auto simp: handleAuthRequest_def shift_simps split: sum.split)
  show ?thesis
    by (simp add: Connected_handleFrame_def Let_def shift_simps 1 2 split: prod.split)
qed

lemma proceedAuth_shift [shift_simps]:
  "proceedAuth E h (shift_io out c) = map_sum id (shift_io out) (proceedAuth E h c)"
  by (auto simp: proceedAuth_def shift_simps getFinalStateFactory_def split: sum.split option.split)

lemma Auth_dispatch_shift [shift_simps]:
  "Auth_dispatch E a h (shift_io out c) = map_sum id (shift_io out) (Auth_dispatch E a h c)"
proof -
  have "doAuth E a h (shift_io out c) = map_sum id (shift_io out) (doAuth E a h c)"
    by (auto simp: doAuth_def shift_simps split: sum.split option.split)
  then show ?thesis
    by (simp add: Auth_dispatch_def Let_def shift_simps)
qed

lemma handleFrame_shift:
  "ProtocolContext_handleFrame E a f (shift_io out c) =
     map_sum id (shift_io out) (ProtocolContext_handleFrame E a f c)"
proof -
  have "Auth_handleFrame E a f h (shift_io out c) = map_sum id (shift_io out) (Auth_handleFrame E a f h c)" for h
    by (auto simp: Auth_handleFrame_def Let_def shift_simps split: prod.split sum.split)
  moreover have "User_handleFrame E f h (shift_io out c) = map_sum id (shift_io out) (User_handleFrame E f h c)" for h
    by (auto simp: User_handleFrame_def Let_def shift_simps handleMsg_def handleDecodeErr_def split: prod.split sum.split)
  ultimately show ?thesis
    by (simp add: ProtocolContext_handleFrame_def shift_simps split: option.split handler.split)
qed


section \<open>The frames of a session, one sink at a time\<close>

text \<open>The worker empties the sink after each frame: the replies and the session, while it is active.\<close>

fun session_serves :: "proto_env \<Rightarrow> authenticator option \<Rightarrow> frame list \<Rightarrow> proto_context \<Rightarrow> (frame list \<times> proto_context) option" where
  "session_serves E a [] x = Some ([], x)"
| "session_serves E a (f # fs) x =
     (case ProtocolContext_handleFrame E a f x of
        Inl e \<Rightarrow> None
      | Inr x' \<Rightarrow>
          (case ctx_io x' of
             Some ws \<Rightarrow>
               if isActive x'
               then map_option (map_prod ((@) ws) id) (session_serves E a fs (setIO (Some []) x'))
               else None
           | None \<Rightarrow> None))"

lemma inactive_run: "ctx_state x = None \<Longrightarrow> run_frames E fs x = Inr x' \<Longrightarrow> x' = x"
proof (induction fs)
  case (Cons f fs)
  then show ?case by (cases f) (simp add: ProtocolContext_handleFrame_def)
qed simp

lemma session_serves_run:
  assumes "run_frames E (map (Pair a) fs) x = Inr x'" "ctx_io x = Some out" "state_ok (ctx_state x)" "isActive x'"
  shows "\<exists>ws. session_serves E a fs (setIO (Some []) x) = Some (ws, setIO (Some []) x') \<and> ctx_io x' = Some (out @ ws)"
  using assms
proof (induction fs arbitrary: x out)
  case (Cons f fs)
  let ?x = "setIO (Some []) x"
  have x: "x = shift_io out ?x"
    using Cons.prems(2) by (simp add: shift_io_def setIO_def)
  from Cons.prems(1) obtain x1 where x1: "ProtocolContext_handleFrame E a f x = Inr x1"
    "run_frames E (map (Pair a) fs) x1 = Inr x'"
    by (auto split: sum.splits)
  have "map_sum id (shift_io out) (ProtocolContext_handleFrame E a f ?x) = Inr x1"
    using x1(1) handleFrame_shift [of E a f out ?x] x by simp
  then obtain y where y: "ProtocolContext_handleFrame E a f ?x = Inr y" "x1 = shift_io out y"
    by (cases "ProtocolContext_handleFrame E a f ?x") auto
  have ok: "state_ok (ctx_state ?x)" using Cons.prems(3) by (simp add: setIO_def)
  from handleFrame_step [OF ok y(1)] obtain ws where ws: "ctx_io y = Some ws"
    by (auto simp: sent_def setIO_def)
  have "state_ok (ctx_state x1)"
    using handleFrame_state_ok [OF ok y(1)] y(2) by simp
  from Cons.IH [OF x1(2) _ this Cons.prems(4), of "out @ ws"] ws y(2)
  obtain vs where vs: "session_serves E a fs (setIO (Some []) x1) = Some (vs, setIO (Some []) x')"
    "ctx_io x' = Some ((out @ ws) @ vs)" by auto
  have "isActive y"
  proof (rule ccontr)
    assume "\<not> isActive y"
    then have "ctx_state x1 = None" by (simp add: y(2) isActive_def)
    from inactive_run [OF this x1(2)] this Cons.prems(4) show False by (simp add: isActive_def)
  qed
  moreover have "setIO (Some []) x1 = setIO (Some []) y"
    by (simp add: y(2) setIO_def shift_io_def)
  ultimately show ?case
    using y(1) ws vs by simp
qed (simp add: setIO_def)

end
