(* ===== verification/WorkQueues.thy ===== *)
theory WorkQueues
  imports Base
begin

text \<open>
  \<open>WorkQueue\<close> (\<open>protocom/WorkQueue.h\<close>, \<open>WorkQueue.cpp\<close>): the FIFO between the network thread and
  the worker thread, with an optional limit and a cancellable blocking fetch. Every method holds
  \<open>queueMutex\<close>, so a method is one atomic step, except \<open>fetchItemBlocking\<close>, which releases the
  mutex while it waits: it is split into its entry and the test its wait makes at every wake-up.
  The limit and the size are unbounded naturals here (\<open>unsigned long\<close> and \<open>size_t\<close> in the code).
\<close>

type_synonym work_item = "int \<times> frame"

record work_queue =
  wq_items :: "work_item list"
  itemLimit :: nat
  fetchCancelled :: bool

definition WorkQueue_init :: work_queue where
  "WorkQueue_init = \<lparr>wq_items = [], itemLimit = 0, fetchCancelled = False\<rparr>"

definition setItemLimit :: "nat \<Rightarrow> work_queue \<Rightarrow> work_queue" where
  "setItemLimit n q = q\<lparr>itemLimit := n\<rparr>"

text \<open>
  The overload for temporaries, which both callers use, moves the frame into the queue; the other one copies
  it. As values the two are the same (\<open>PFrames\<close>).
\<close>

definition pushItem_copy :: "work_item \<Rightarrow> work_queue \<Rightarrow> work_queue" where
  "pushItem_copy itm q =
     (if itemLimit q \<noteq> 0 \<and> itemLimit q \<le> length (wq_items q) then q
      else q\<lparr>wq_items := wq_items q @ [itm]\<rparr>)"

definition pushItem :: "work_item \<Rightarrow> work_queue \<Rightarrow> work_queue" where
  "pushItem itm q =
     (if itemLimit q \<noteq> 0 \<and> itemLimit q \<le> length (wq_items q) then q
      else q\<lparr>wq_items := wq_items q @ [itm]\<rparr>)"

definition fetchItemNonBlocking :: "work_queue \<Rightarrow> work_item option \<times> work_queue" where
  "fetchItemNonBlocking q =
     (case wq_items q of
        [] \<Rightarrow> (None, q)
      | itm # rest \<Rightarrow> (Some itm, q\<lparr>wq_items := rest\<rparr>))"

text \<open>\<open>fetchItemBlocking\<close>: on entry the cancel flag is reset; the wait then tests its predicate.\<close>

datatype fetch_outcome = FetchWait | FetchThrow fault | FetchGot work_item

definition fetchBlocking_enter :: "work_queue \<Rightarrow> work_queue" where
  "fetchBlocking_enter q = q\<lparr>fetchCancelled := False\<rparr>"

definition fetchBlocking_wake :: "work_queue \<Rightarrow> fetch_outcome \<times> work_queue" where
  "fetchBlocking_wake q =
     (if \<not> (wq_items q \<noteq> [] \<or> fetchCancelled q) then (FetchWait, q)
      else if fetchCancelled q then (FetchThrow CancelledException, q)
      else case wq_items q of
             [] \<Rightarrow> (FetchWait, q)
           | itm # rest \<Rightarrow> (FetchGot itm, q\<lparr>wq_items := rest\<rparr>))"

definition cancelFetch :: "work_queue \<Rightarrow> work_queue" where
  "cancelFetch q = q\<lparr>fetchCancelled := True\<rparr>"

definition CancelledException_what :: string where
  "CancelledException_what = ''Work queue blocking fetch was cancelled''"

text \<open>\<open>getQueuedCount\<close> returns the \<open>size_t\<close> size through an \<open>int\<close>.\<close>

definition getQueuedCount :: "work_queue \<Rightarrow> int" where
  "getQueuedCount q = sint (word_of_nat (length (wq_items q)) :: 32 word)"

section \<open>The queue as its clients see it\<close>

text \<open>
  The network code and the worker rely on three laws only: a push appends or is refused, a fetch
  takes the head, and neither touches the limit. The FIFO facts are proved from these.
\<close>

datatype 'a queue_op = Push 'a | Fetch

fun fetch_n :: "('q \<Rightarrow> 'a option \<times> 'q) \<Rightarrow> nat \<Rightarrow> 'q \<Rightarrow> 'a list \<times> 'q" where
  "fetch_n fetch 0 q = ([], q)"
| "fetch_n fetch (Suc n) q =
     (case fetch q of
        (None, q') \<Rightarrow> ([], q')
      | (Some x, q') \<Rightarrow> (let (xs, q'') = fetch_n fetch n q' in (x # xs, q'')))"

text \<open>Any interleaving of the two threads' operations; the items fetched, and the queue left.\<close>

fun run_queue :: "('a \<Rightarrow> 'q \<Rightarrow> 'q) \<Rightarrow> ('q \<Rightarrow> 'a option \<times> 'q) \<Rightarrow> 'a queue_op list \<Rightarrow> 'q \<Rightarrow>
    'a list \<times> 'q" where
  "run_queue push fetch [] q = ([], q)"
| "run_queue push fetch (Push x # cs) q = run_queue push fetch cs (push x q)"
| "run_queue push fetch (Fetch # cs) q =
     (case fetch q of
        (None, q') \<Rightarrow> run_queue push fetch cs q'
      | (Some x, q') \<Rightarrow> (let (xs, q'') = run_queue push fetch cs q' in (x # xs, q'')))"

fun pushed :: "'a queue_op list \<Rightarrow> 'a list" where
  "pushed [] = []"
| "pushed (Push x # cs) = x # pushed cs"
| "pushed (Fetch # cs) = pushed cs"

locale fifo =
  fixes push :: "'a \<Rightarrow> 'q \<Rightarrow> 'q"
    and fetch :: "'q \<Rightarrow> 'a option \<times> 'q"
    and items :: "'q \<Rightarrow> 'a list"
    and room :: "'q \<Rightarrow> nat option"
  assumes items_push: "items (push x q) =
      (if room q = Some 0 then items q else items q @ [x])"
    and room_push: "room (push x q) =
      (case room q of None \<Rightarrow> None | Some k \<Rightarrow> Some (k - 1))"
    and fetch_Nil: "items q = [] \<Longrightarrow> fetch q = (None, q)"
    and fetch_Cons: "items q = x # xs \<Longrightarrow> fst (fetch q) = Some x \<and> items (snd (fetch q)) = xs"
begin

lemma items_fold_push_unbounded: "room q = None \<Longrightarrow> items (fold push xs q) = items q @ xs"
  by (induction xs arbitrary: q) (simp_all add: items_push room_push)

lemma items_fold_push_room: "room q = Some k \<Longrightarrow> items (fold push xs q) = items q @ take k xs"
proof (induction xs arbitrary: q k)
  case (Cons x xs)
  then show ?case
    by (cases k) (simp_all add: items_push room_push)
qed simp

lemma fetch_cases:
  obtains "items q = []" "fetch q = (None, q)"
  | x q' where "items q = x # items q'" "fetch q = (Some x, q')"
  using fetch_Nil fetch_Cons by (metis list.exhaust surjective_pairing)

lemma fetch_n_items: "fst (fetch_n fetch n q) = take n (items q) \<and>
    items (snd (fetch_n fetch n q)) = drop n (items q)"
proof (induction n arbitrary: q)
  case (Suc n)
  show ?case
    by (rule fetch_cases [of q]) (use Suc in \<open>auto simp: split_beta\<close>)
qed simp

text \<open>No interleaving of pushes and fetches loses, duplicates or reorders an item.\<close>

lemma run_queue_conserves:
  assumes "\<And>x q. room (push x q) = None \<longleftrightarrow> room q = None"
    and "\<And>q. room (snd (fetch q)) = None \<longleftrightarrow> room q = None"
  shows "room q = None \<Longrightarrow>
    fst (run_queue push fetch cs q) @ items (snd (run_queue push fetch cs q)) =
      items q @ pushed cs"
proof (induction cs arbitrary: q)
  case (Cons c cs)
  show ?case
  proof (cases c)
    case (Push x)
    with Cons assms(1) [of x q] show ?thesis by (simp add: items_push)
  next
    case Fetch
    with Cons assms(2) [of q] show ?thesis
      by (cases rule: fetch_cases [of q]) (auto simp: split_beta)
  qed
qed simp

end

definition wq_room :: "work_queue \<Rightarrow> nat option" where
  "wq_room q = (if itemLimit q = 0 then None else Some (itemLimit q - length (wq_items q)))"

interpretation wq: fifo pushItem fetchItemNonBlocking wq_items wq_room
  by unfold_locales (auto simp: pushItem_def wq_room_def fetchItemNonBlocking_def)

lemma wq_room_None [simp]: "wq_room q = None \<longleftrightarrow> itemLimit q = 0"
  by (simp add: wq_room_def)

lemma itemLimit_push [simp]: "itemLimit (pushItem x q) = itemLimit q"
  by (simp add: pushItem_def)

lemma itemLimit_fetch [simp]: "itemLimit (snd (fetchItemNonBlocking q)) = itemLimit q"
  by (simp add: fetchItemNonBlocking_def split: list.splits)

lemma items_pushItem_unlimited [simp]:
  "itemLimit q = 0 \<Longrightarrow> wq_items (pushItem x q) = wq_items q @ [x]"
  by (simp add: pushItem_def)

section \<open>Properties\<close>

text \<open>C34: A queue without a limit conserves its items: under every interleaving of pushes and
  non-blocking fetches, the items fetched so far followed by the items still queued are the items
  queued at the start followed by those pushed, in order, with none lost, duplicated or reordered.\<close>

theorem WorkQueue_fifo:
  assumes "itemLimit q = 0"
  shows "fst (run_queue pushItem fetchItemNonBlocking cs q) @
           wq_items (snd (run_queue pushItem fetchItemNonBlocking cs q)) = wq_items q @ pushed cs"
  by (rule wq.run_queue_conserves) (simp_all add: assms)

theorem WorkQueue_fifo_witness:
  "fst (run_queue pushItem fetchItemNonBlocking
      [Push (1, \<lparr>fr_header = 0xF0, fr_len = 0, fr_msg = []\<rparr>), Fetch, Fetch] WorkQueue_init) @
     wq_items (snd (run_queue pushItem fetchItemNonBlocking
      [Push (1, \<lparr>fr_header = 0xF0, fr_len = 0, fr_msg = []\<rparr>), Fetch, Fetch] WorkQueue_init)) =
   [(1, \<lparr>fr_header = 0xF0, fr_len = 0, fr_msg = []\<rparr>)]"
proof -
  have "itemLimit WorkQueue_init = 0"
    by (simp add: WorkQueue_init_def)
  from WorkQueue_fifo [OF this, of "[Push (1, \<lparr>fr_header = 0xF0, fr_len = 0, fr_msg = []\<rparr>), Fetch, Fetch]"]
  show ?thesis
    by (simp add: WorkQueue_init_def)
qed

text \<open>With a limit of \<open>n\<close> items, pushing into an empty queue keeps exactly the first \<open>n\<close> items and
  silently drops the rest, so the queue never holds more than its limit; fetching \<open>k\<close> times then
  returns the first \<open>k\<close> of those.\<close>

lemma WorkQueue_limit:
  assumes "n \<noteq> 0"
  shows "wq_items (fold pushItem xs (setItemLimit n WorkQueue_init)) = take n xs \<and>
         fst (fetch_n fetchItemNonBlocking k (fold pushItem xs (setItemLimit n WorkQueue_init))) =
           take k (take n xs)"
  using assms wq.items_fold_push_room [of "setItemLimit n WorkQueue_init" n xs]
    wq.fetch_n_items [of k "fold pushItem xs (setItemLimit n WorkQueue_init)"]
  by (simp add: wq_room_def setItemLimit_def WorkQueue_init_def)

end
