(* ===== verification/Workers.thy ===== *)
theory Workers
  imports Sessions WorkQueues
begin

text \<open>
  \<open>ServerWorker\<close> (\<open>ServerWorker.cpp\<close>, \<open>protocom/ServerWorker.h\<close>): the thread that takes received frames
  from \<open>wqIn\<close>, hands each to the protocol context of its connection, and puts the replies into \<open>wqOut\<close>
  with a notification on the server's event descriptor. This theory has the worker's own state, its frame sink
  and its handler table; the loop of its thread calls back into the server and is in \<open>Servers\<close>.

  The event descriptor is the kernel's 64-bit counter, in non-blocking semaphore mode.
\<close>

section \<open>The event descriptor\<close>

definition eventfd_max :: nat where
  "eventfd_max = 2 ^ 64 - 2"

definition eventfd_write :: "nat \<Rightarrow> bool \<times> nat" where
  "eventfd_write n = (if eventfd_max < n + 1 then (False, n) else (True, n + 1))"

definition eventfd_read :: "nat \<Rightarrow> bool \<times> nat" where
  "eventfd_read n = (if n = 0 then (False, n) else (True, n - 1))"

section \<open>The sink of a context\<close>

text \<open>\<open>FrameSink::writeFrame\<close>: the queue, the counter behind \<open>notifEventFd\<close>, and the result.\<close>

definition FrameSink_writeFrame :: "int \<Rightarrow> frame \<Rightarrow> work_queue \<times> nat \<Rightarrow> bool \<times> work_queue \<times> nat" where
  "FrameSink_writeFrame targetFd f qn =
     (let q = pushItem (targetFd, f) (fst qn);
          (ok, n) = eventfd_write (snd qn)
      in (ok, q, n))"

text \<open>The frames a context writes while it handles one frame; the handlers ignore the result.\<close>

definition sink_frames :: "int \<Rightarrow> frame list \<Rightarrow> work_queue \<times> nat \<Rightarrow> work_queue \<times> nat" where
  "sink_frames targetFd ws qn = fold (\<lambda>f qn. snd (FrameSink_writeFrame targetFd f qn)) ws qn"

section \<open>The worker\<close>

text \<open>Where the worker's thread is: before the test of its loop, before the call of
  \<open>fetchItemBlocking\<close>, in the wait of that call, with an item, before the call of \<open>closeClient\<close> for a
  descriptor whose session has ended, or returned.\<close>

datatype worker_pc = AtTest | AtFetch | InWait | Processing work_item | Closing int | Exited

record server_worker =
  handlerTable :: "int \<rightharpoonup> proto_context"
  worker_factory :: "user_factory option"
  shouldStop :: bool
  runnerThread :: "worker_pc option"
  notifFd :: int

definition ServerWorker_new :: "user_factory option \<Rightarrow> int \<Rightarrow> server_worker" where
  "ServerWorker_new fac nfd =
     \<lparr>handlerTable = Map.empty, worker_factory = fac, shouldStop = False, runnerThread = None, notifFd = nfd\<rparr>"

definition ServerWorker_start :: "server_worker \<Rightarrow> server_worker" where
  "ServerWorker_start w = w\<lparr>runnerThread := Some AtTest\<rparr>"

text \<open>\<open>emplace\<close> does nothing when the key is there; the new context is then lost.\<close>

definition createContext :: "int \<Rightarrow> nat \<Rightarrow> server_worker \<Rightarrow> server_worker" where
  "createContext fd seed w =
     (let ctx = setIO (Some []) (ProtocolContext_new (worker_factory w) seed)
      in case handlerTable w fd of
           Some _ \<Rightarrow> w
         | None \<Rightarrow> w\<lparr>handlerTable := (handlerTable w)(fd \<mapsto> ctx)\<rparr>)"

definition destroyContext :: "int \<Rightarrow> server_worker \<Rightarrow> server_worker" where
  "destroyContext fd w = w\<lparr>handlerTable := (handlerTable w)(fd := None)\<rparr>"

definition ServerWorker_setUserHandlerFactory :: "user_factory option \<Rightarrow> server_worker \<Rightarrow> server_worker" where
  "ServerWorker_setUserHandlerFactory fac w = w\<lparr>worker_factory := fac\<rparr>"

text \<open>\<open>stop\<close>: the flag, the cancellation of the fetch, and the join, which waits for the thread.\<close>

definition ServerWorker_stop_begin :: "server_worker \<Rightarrow> work_queue \<Rightarrow> server_worker \<times> work_queue" where
  "ServerWorker_stop_begin w q = (w\<lparr>shouldStop := True\<rparr>, cancelFetch q)"

definition ServerWorker_join :: "server_worker \<Rightarrow> server_worker option" where
  "ServerWorker_join w =
     (case runnerThread w of
        None \<Rightarrow> Some w
      | Some pc \<Rightarrow> if pc = Exited then Some (w\<lparr>runnerThread := None\<rparr>) else None)"

section \<open>Facts\<close>

lemma sink_frames_Nil [simp]: "sink_frames fd [] qn = qn"
  by (simp add: sink_frames_def)

lemma sink_frames_Cons:
  "sink_frames fd (w # ws) (q, n) = sink_frames fd ws (pushItem (fd, w) q, snd (eventfd_write n))"
  by (simp add: sink_frames_def FrameSink_writeFrame_def Let_def split: prod.split)

lemma pushItem_fields [simp]:
  "itemLimit (pushItem x q) = itemLimit q" "fetchCancelled (pushItem x q) = fetchCancelled q"
  by (simp_all add: pushItem_def)

lemma sink_frames_queue: "fst (sink_frames fd ws (q, n)) = fold pushItem (map (Pair fd) ws) q"
  by (induction ws arbitrary: q n) (simp_all add: sink_frames_Cons)

lemma fold_pushItem_limit [simp]: "itemLimit (fold pushItem its q) = itemLimit q"
  by (induction its arbitrary: q) simp_all

lemma fold_pushItem_unlimited: "itemLimit q = 0 \<Longrightarrow> wq_items (fold pushItem its q) = wq_items q @ its"
  by (induction its arbitrary: q) (simp_all add: pushItem_def)

text \<open>Every pushed frame is notified as long as the counter has room.\<close>

lemma sink_frames_notifies:
  "n + length ws \<le> eventfd_max \<Longrightarrow> snd (sink_frames fd ws (q, n)) = n + length ws"
proof (induction ws arbitrary: q n)
  case (Cons w ws)
  then show ?case
    by (simp add: sink_frames_Cons eventfd_write_def)
qed simp

lemma createContext_table:
  "handlerTable (createContext fd seed w) =
     (case handlerTable w fd of
        Some _ \<Rightarrow> handlerTable w
      | None \<Rightarrow> (handlerTable w)(fd \<mapsto> new_session (worker_factory w) seed))"
  by (simp add: createContext_def new_session_def Let_def split: option.split)

lemma createContext_pc: "runnerThread (createContext fd seed w) = runnerThread w"
  by (simp add: createContext_def Let_def split: option.split)

end
