(* ===== verification/Sockets.thy ===== *)
theory Sockets
  imports Base
begin

text \<open>
  The socket calls \<open>recv\<close> and \<open>send\<close> are the operating system's. What a run of the program sees
  of them is an argument of the model: a script of events, one list for each direction, over which
  every theorem quantifies. A data event is a piece of the byte stream that \<open>recv\<close> can return in
  one call (never more than it was asked for); an accept event is room in the send buffer; an empty
  script is a call that would block (\<open>EAGAIN\<close>), and an end of file stays one.
\<close>

datatype rx_event = RxData bytes | RxAgain | RxEof | RxErr errno

datatype recv_result = RecvGot bytes | RecvFail errno

fun sys_recv :: "nat \<Rightarrow> rx_event list \<Rightarrow> recv_result \<times> rx_event list" where
  "sys_recv n [] = (RecvFail EAGAIN, [])"
| "sys_recv n (RxData bs # s) =
     (if bs = [] then sys_recv n s
      else if length bs \<le> n then (RecvGot bs, s)
      else (RecvGot (take n bs), RxData (drop n bs) # s))"
| "sys_recv n (RxAgain # s) = (RecvFail EAGAIN, s)"
| "sys_recv n (RxEof # s) = (RecvGot [], RxEof # s)"
| "sys_recv n (RxErr e # s) = (RecvFail e, s)"

datatype tx_event = TxRoom nat | TxAgain | TxZero | TxErr errno

datatype send_result = Sent nat | SendFail errno

fun sys_send :: "nat \<Rightarrow> tx_event list \<Rightarrow> send_result \<times> tx_event list" where
  "sys_send n [] = (SendFail EAGAIN, [])"
| "sys_send n (TxRoom k # s) =
     (if k = 0 then sys_send n s
      else if k \<le> n then (Sent k, s)
      else (Sent n, TxRoom (k - n) # s))"
| "sys_send n (TxAgain # s) = (SendFail EAGAIN, s)"
| "sys_send n (TxZero # s) = (Sent 0, s)"
| "sys_send n (TxErr e # s) = (SendFail e, s)"

section \<open>The byte stream of a script\<close>

fun rx_data :: "rx_event list \<Rightarrow> bytes" where
  "rx_data [] = []"
| "rx_data (RxData bs # s) = bs @ rx_data s"
| "rx_data (_ # s) = rx_data s"

fun rx_pure :: "rx_event list \<Rightarrow> bool" where
  "rx_pure [] = True"
| "rx_pure (RxData bs # s) = rx_pure s"
| "rx_pure (_ # s) = False"

text \<open>How many bytes the next \<open>recv\<close> can return at most.\<close>

fun rx_avail :: "rx_event list \<Rightarrow> nat" where
  "rx_avail (RxData bs # s) = (if bs = [] then rx_avail s else length bs)"
| "rx_avail _ = 0"

fun rx_drop :: "nat \<Rightarrow> rx_event list \<Rightarrow> rx_event list" where
  "rx_drop n [] = []"
| "rx_drop n (RxData bs # s) =
     (if length bs \<le> n then rx_drop (n - length bs) s else RxData (drop n bs) # s)"
| "rx_drop n (e # s) = (if n = 0 then e # s else rx_drop n s)"

fun rx_size :: "rx_event list \<Rightarrow> nat" where
  "rx_size [] = 0"
| "rx_size (RxData bs # s) = length bs + rx_size s"
| "rx_size (_ # s) = rx_size s"

lemma rx_size_data: "rx_size s = length (rx_data s)"
  by (induction s rule: rx_size.induct) auto

lemma recv_got_bound: "sys_recv n s = (RecvGot bs, s') \<Longrightarrow> length bs \<le> n"
  by (induction n s rule: sys_recv.induct) (auto split: if_splits)

lemma recv_got_data: "sys_recv n s = (RecvGot bs, s') \<Longrightarrow> rx_data s = bs @ rx_data s'"
  by (induction n s rule: sys_recv.induct) (auto split: if_splits simp flip: append_assoc)

lemma recv_fail_data: "sys_recv n s = (RecvFail e, s') \<Longrightarrow> rx_data s' = rx_data s"
  by (induction n s rule: sys_recv.induct) (auto split: if_splits)

lemma recv_got_size:
  "sys_recv n s = (RecvGot bs, s') \<Longrightarrow> rx_size s = length bs + rx_size s'"
  using recv_got_data by (simp add: rx_size_data)

lemma recv_pure:
  assumes "rx_pure s" "0 < n" "rx_data s \<noteq> []"
  obtains bs s' where "sys_recv n s = (RecvGot bs, s')" "bs \<noteq> []" "length bs \<le> n"
    "length bs = min n (rx_avail s)" "rx_pure s'" "rx_data s = bs @ rx_data s'"
    "rx_drop (length bs) s = rx_drop 0 s'"
proof -
  have "\<exists>bs s'. sys_recv n s = (RecvGot bs, s') \<and> bs \<noteq> [] \<and> length bs \<le> n \<and>
      length bs = min n (rx_avail s) \<and> rx_pure s' \<and> rx_drop (length bs) s = rx_drop 0 s'"
    using assms
  proof (induction s rule: rx_pure.induct)
    case (2 bs s)
    then show ?case
      by (cases "bs = []") (auto simp: min_def)
  qed auto
  with that recv_got_data show thesis by metis
qed

lemma rx_drop_0_data [simp]: "rx_data (rx_drop 0 s) = rx_data s"
  by (induction s rule: rx_data.induct) auto

lemma rx_drop_drop: "rx_pure s \<Longrightarrow> rx_drop m (rx_drop n s) = rx_drop (m + n) s"
proof (induction n s arbitrary: m rule: rx_drop.induct)
  case (2 n bs s)
  then show ?case
    by (auto simp: add.commute intro: arg_cong [where f = "\<lambda>k. rx_drop k s"])
qed auto

lemma rx_pure_drop [simp]: "rx_pure s \<Longrightarrow> rx_pure (rx_drop n s)"
  by (induction n s rule: rx_drop.induct) auto

lemma rx_data_drop: "rx_pure s \<Longrightarrow> rx_data (rx_drop n s) = drop n (rx_data s)"
  by (induction n s rule: rx_drop.induct) auto

lemma rx_avail_drop_0 [simp]: "rx_avail (rx_drop 0 s) = rx_avail s"
  by (induction s rule: rx_avail.induct) auto

section \<open>The room of a send script\<close>

fun tx_pure :: "tx_event list \<Rightarrow> bool" where
  "tx_pure [] = True"
| "tx_pure (TxRoom k # s) = tx_pure s"
| "tx_pure (_ # s) = False"

fun tx_size :: "tx_event list \<Rightarrow> nat" where
  "tx_size [] = 0"
| "tx_size (TxRoom k # s) = k + tx_size s"
| "tx_size (_ # s) = tx_size s"

text \<open>How many bytes the next \<open>send\<close> can accept at most, and the script after \<open>n\<close> accepted bytes.\<close>

fun tx_avail :: "tx_event list \<Rightarrow> nat" where
  "tx_avail (TxRoom k # s) = (if k = 0 then tx_avail s else k)"
| "tx_avail _ = 0"

fun tx_drop :: "nat \<Rightarrow> tx_event list \<Rightarrow> tx_event list" where
  "tx_drop n [] = []"
| "tx_drop n (TxRoom k # s) = (if k \<le> n then tx_drop (n - k) s else TxRoom (k - n) # s)"
| "tx_drop n (e # s) = (if n = 0 then e # s else tx_drop n s)"

lemma send_bound: "sys_send n s = (Sent k, s') \<Longrightarrow> k \<le> n"
  by (induction n s rule: sys_send.induct) (auto split: if_splits)

lemma send_size: "sys_send n s = (Sent k, s') \<Longrightarrow> tx_size s = k + tx_size s'"
  by (induction n s rule: sys_send.induct) (auto split: if_splits)

lemma send_pure:
  assumes "tx_pure s" "0 < n" "0 < tx_size s"
  obtains k s' where "sys_send n s = (Sent k, s')" "0 < k" "k = min n (tx_avail s)" "tx_pure s'"
    "tx_size s = k + tx_size s'" "tx_drop k s = tx_drop 0 s'"
proof -
  have "\<exists>k s'. sys_send n s = (Sent k, s') \<and> 0 < k \<and> k = min n (tx_avail s) \<and> tx_pure s' \<and>
      tx_drop k s = tx_drop 0 s'"
    using assms
  proof (induction s rule: tx_pure.induct)
    case (2 k s)
    then show ?case by (cases "k = 0") (auto simp: min_def)
  qed auto
  with that send_size show thesis by metis
qed

lemma send_empty: "tx_pure s \<Longrightarrow> tx_size s = 0 \<Longrightarrow> sys_send n s = (SendFail EAGAIN, [])"
  by (induction s rule: tx_pure.induct) auto

lemma tx_avail_drop_0 [simp]: "tx_avail (tx_drop 0 s) = tx_avail s"
  by (induction s rule: tx_avail.induct) auto

lemma tx_avail_le: "tx_avail s \<le> tx_size s"
  by (induction s rule: tx_avail.induct) auto

end
