(* ===== verification/PFramers.thy ===== *)
theory PFramers
  imports WorkQueues Sockets
begin

text \<open>
  \<open>PFramer\<close> (\<open>protocom/PFramer.h\<close>, \<open>PFramer.cpp\<close>): the non-blocking receiver of one client. It
  reads a header byte, a length and a message in as many \<open>recv\<close> calls as the socket needs, pushes
  the finished frame into the incoming queue and starts again.

  The length is received into the two bytes of \<open>rxdFrame.len\<close> through the pointer
  \<open>&rxdFrame.len + sizeof(PFrame::len) - lenRemainingBytes\<close>. That is arithmetic on a
  \<open>uint16_t*\<close>: with one byte remaining it points one element, two bytes, past the start of the
  field, into the padding before \<open>msg\<close>. \<open>store_len\<close> is that write, byte for byte, on a
  little-endian host. The message buffer is the memory of \<open>new uint8_t[len]\<close>; what it holds before
  it is written is the field \<open>fm_fill\<close>, any byte.
\<close>

datatype rx_state = RX_HEADER | RX_LEN | RX_MSG

record framer =
  fm_fd :: int
  fm_state :: rx_state
  msgRemainingBytes :: nat
  lenRemainingBytes :: nat
  rxdFrame :: frame
  rxd_dynamic :: bool
  readInProgress :: bool
  readEOF :: bool
  readAgain :: bool
  fm_fill :: byte

definition empty_frame :: frame where
  "empty_frame = \<lparr>fr_header = 0, fr_len = 0, fr_msg = []\<rparr>"

text \<open>\<open>reset\<close> erases the frame first (theory \<open>PFrames\<close>: the scalar \<open>delete\<close> of an owned array).\<close>

definition PFramer_reset :: "framer \<Rightarrow> fault + framer" where
  "PFramer_reset f =
     (if rxd_dynamic f then Inl MismatchedDelete
      else Inr (f\<lparr>rxdFrame := empty_frame, readInProgress := False, readEOF := False,
                  readAgain := False, fm_state := RX_HEADER, msgRemainingBytes := 0,
                  lenRemainingBytes := 0\<rparr>))"

definition PFramer_new :: "int \<Rightarrow> byte \<Rightarrow> framer" where
  "PFramer_new fd fill =
     \<lparr>fm_fd = fd, fm_state = RX_HEADER, msgRemainingBytes = 0, lenRemainingBytes = 0,
      rxdFrame = empty_frame, rxd_dynamic = False, readInProgress = False, readEOF = False,
      readAgain = False, fm_fill = fill\<rparr>"

definition isReadEof :: "framer \<Rightarrow> bool" where
  "isReadEof f = readEOF f"

definition isReadAgain :: "framer \<Rightarrow> bool" where
  "isReadAgain f = readAgain f"

definition PFramer_tryRecv ::
    "nat \<Rightarrow> framer \<Rightarrow> rx_event list \<Rightarrow> (fault + bytes) \<times> framer \<times> rx_event list" where
  "PFramer_tryRecv n f s =
     (if n = 0 then (Inr [], f, s)
      else case sys_recv n s of
        (RecvGot bs, s') \<Rightarrow>
          if bs = [] then (Inr [], f\<lparr>readEOF := True\<rparr>, s')
          else (Inr bs, f\<lparr>readEOF := False\<rparr>, s')
      | (RecvFail e, s') \<Rightarrow>
          if e = EAGAIN then (Inr [], f\<lparr>readAgain := True\<rparr>, s')
          else (Inl (SystemError e), f, s'))"

text \<open>\<open>pushFrame\<close> moves the frame into the queue, which leaves \<open>rxdFrame\<close> without data.\<close>

definition PFramer_pushFrame ::
    "framer \<Rightarrow> work_queue \<Rightarrow> (fault + framer) \<times> work_queue" where
  "PFramer_pushFrame f q =
     (PFramer_reset (f\<lparr>rxd_dynamic := False\<rparr>), pushItem (fm_fd f, rxdFrame f) q)"

definition store_len :: "nat \<Rightarrow> bytes \<Rightarrow> u16 \<Rightarrow> u16" where
  "store_len off bs w =
     (if off = 0
      then (case bs of
              [] \<Rightarrow> w
            | [a] \<Rightarrow> join_bytes a (hi_byte w)
            | a # b # _ \<Rightarrow> join_bytes a b)
      else w)"

definition PFramer_allocMsg :: "framer \<Rightarrow> framer" where
  "PFramer_allocMsg f =
     (if rxd_dynamic f then f
      else f\<lparr>rxdFrame := (rxdFrame f)\<lparr>fr_msg := replicate (unat (fr_len (rxdFrame f))) (fm_fill f)\<rparr>,
             rxd_dynamic := True\<rparr>)"

definition PFramer_rxHeader ::
    "framer \<Rightarrow> work_queue \<Rightarrow> rx_event list \<Rightarrow>
     (fault + bool) \<times> framer \<times> work_queue \<times> rx_event list" where
  "PFramer_rxHeader f q s =
     (case PFramer_tryRecv 1 f s of
        (Inl e, f1, s1) \<Rightarrow> (Inl e, f1, q, s1)
      | (Inr bs, f1, s1) \<Rightarrow>
          (case bs of
             [h] \<Rightarrow>
               (let f2 = f1\<lparr>rxdFrame := (rxdFrame f1)\<lparr>fr_header := h\<rparr>\<rparr>
                in if \<not> header_ok h then (Inr False, f2, q, s1)
                   else (Inr True, f2\<lparr>fm_state := RX_LEN, lenRemainingBytes := 2\<rparr>, q, s1))
           | _ \<Rightarrow> (Inr (0 < length bs), f1, q, s1)))"

definition PFramer_rxLen ::
    "framer \<Rightarrow> work_queue \<Rightarrow> rx_event list \<Rightarrow>
     (fault + bool) \<times> framer \<times> work_queue \<times> rx_event list" where
  "PFramer_rxLen f q s =
     (case PFramer_tryRecv (lenRemainingBytes f) f s of
        (Inl e, f1, s1) \<Rightarrow> (Inl e, f1, q, s1)
      | (Inr bs, f1, s1) \<Rightarrow>
          (let w = store_len (2 * (2 - lenRemainingBytes f)) bs (fr_len (rxdFrame f1));
               f2 = f1\<lparr>rxdFrame := (rxdFrame f1)\<lparr>fr_len := ntohs w\<rparr>,
                       lenRemainingBytes := lenRemainingBytes f1 - length bs\<rparr>;
               f3 = (if lenRemainingBytes f2 = 0
                     then PFramer_allocMsg (f2\<lparr>fm_state := RX_MSG,
                            msgRemainingBytes := unat (fr_len (rxdFrame f2))\<rparr>)
                     else f2)
           in (Inr (0 < length bs), f3, q, s1)))"

definition PFramer_rxMsg ::
    "framer \<Rightarrow> work_queue \<Rightarrow> rx_event list \<Rightarrow>
     (fault + bool) \<times> framer \<times> work_queue \<times> rx_event list" where
  "PFramer_rxMsg f q s =
     (let off = unat (fr_len (rxdFrame f)) - msgRemainingBytes f
      in if msgRemainingBytes f \<noteq> 0 \<and> length (fr_msg (rxdFrame f)) < off + msgRemainingBytes f
         then (Inl OutOfBounds, f, q, s)
         else case PFramer_tryRecv (msgRemainingBytes f) f s of
           (Inl e, f1, s1) \<Rightarrow> (Inl e, f1, q, s1)
         | (Inr bs, f1, s1) \<Rightarrow>
             (let f2 = f1\<lparr>rxdFrame := (rxdFrame f1)\<lparr>fr_msg := write_at off bs (fr_msg (rxdFrame f1))\<rparr>,
                          msgRemainingBytes := msgRemainingBytes f1 - length bs\<rparr>
              in if msgRemainingBytes f2 = 0
                 then (case PFramer_pushFrame f2 q of
                         (Inl e, q1) \<Rightarrow> (Inl e, f2, q1, s1)
                       | (Inr f3, q1) \<Rightarrow> (Inr (0 < length bs), f3, q1, s1))
                 else (Inr (0 < length bs), f2, q, s1)))"

definition PFramer_tryRead ::
    "framer \<Rightarrow> work_queue \<Rightarrow> rx_event list \<Rightarrow>
     (fault + bool) \<times> framer \<times> work_queue \<times> rx_event list" where
  "PFramer_tryRead f q s =
     (case fm_state f of
        RX_HEADER \<Rightarrow> PFramer_rxHeader f q s
      | RX_LEN \<Rightarrow> PFramer_rxLen f q s
      | RX_MSG \<Rightarrow> PFramer_rxMsg f q s)"

section \<open>The read loop\<close>

lemma tryRecv_size:
  "PFramer_tryRecv n f s = (Inr bs, f', s') \<Longrightarrow> rx_size s = length bs + rx_size s' \<or> bs = []"
  by (auto simp: PFramer_tryRecv_def recv_got_size split: if_splits prod.splits recv_result.splits)

text \<open>A call that reports progress has consumed at least one byte, so \<open>readAll\<close> terminates.\<close>

lemma tryRead_progress:
  assumes "PFramer_tryRead f q s = (Inr True, f', q', s')"
  shows "rx_size s' < rx_size s"
  using assms
  by (auto simp: PFramer_tryRead_def PFramer_rxHeader_def PFramer_rxLen_def PFramer_rxMsg_def Let_def
      split: rx_state.splits prod.splits sum.splits if_splits list.splits dest!: tryRecv_size)

function PFramer_readAll ::
    "framer \<Rightarrow> work_queue \<Rightarrow> rx_event list \<Rightarrow>
     (fault + unit) \<times> framer \<times> work_queue \<times> rx_event list" where
  "PFramer_readAll f q s =
     (case PFramer_tryRead f q s of
        (Inl e, f', q', s') \<Rightarrow> (Inl e, f', q', s')
      | (Inr True, f', q', s') \<Rightarrow> PFramer_readAll f' q' s'
      | (Inr False, f', q', s') \<Rightarrow> (Inr (), f', q', s'))"
  by pat_completeness auto
termination
  by (relation "measure (\<lambda>(f, q, s). rx_size s)") (auto dest: tryRead_progress [OF sym] simp: tryRead_progress)

declare PFramer_readAll.simps [simp del]

lemma readAll_unfold:
  "PFramer_tryRead f q s = (Inr True, f', q', s') \<Longrightarrow> PFramer_readAll f q s = PFramer_readAll f' q' s'"
  "PFramer_tryRead f q s = (Inr False, f', q', s') \<Longrightarrow> PFramer_readAll f q s = (Inr (), f', q', s')"
  "PFramer_tryRead f q s = (Inl e, f', q', s') \<Longrightarrow> PFramer_readAll f q s = (Inl e, f', q', s')"
  by (simp_all add: PFramer_readAll.simps [of f q s])

lemma readAll_induct [case_names Step]:
  assumes "\<And>f q s. (\<And>f' q' s'. PFramer_tryRead f q s = (Inr True, f', q', s') \<Longrightarrow> P f' q' s') \<Longrightarrow> P f q s"
  shows "P f q s"
proof (induction "rx_size s" arbitrary: f q s rule: less_induct)
  case less
  show ?case
    by (rule assms) (blast intro: less tryRead_progress)
qed

section \<open>The receiver's invariant\<close>

text \<open>
  In state \<open>RX_MSG\<close> the buffer has exactly the declared length and the offset
  \<open>len - msgRemainingBytes\<close> lies inside it; in the other states the frame owns nothing, so the
  erasure in \<open>reset\<close> is harmless.
\<close>

definition framer_wf :: "framer \<Rightarrow> bool" where
  "framer_wf f \<longleftrightarrow>
     (case fm_state f of
        RX_HEADER \<Rightarrow> \<not> rxd_dynamic f
      | RX_LEN \<Rightarrow> \<not> rxd_dynamic f \<and> lenRemainingBytes f \<in> {1, 2} \<and> header_ok (fr_header (rxdFrame f))
      | RX_MSG \<Rightarrow> rxd_dynamic f \<and> frame_wf (rxdFrame f) \<and>
          msgRemainingBytes f \<le> unat (fr_len (rxdFrame f)) \<and> header_ok (fr_header (rxdFrame f)))"

definition item_ok :: "int \<Rightarrow> work_item \<Rightarrow> bool" where
  "item_ok fd it \<longleftrightarrow> fst it = fd \<and> frame_wf (snd it) \<and> header_ok (fr_header (snd it))"

lemma framer_wf_new: "framer_wf (PFramer_new fd fill)"
  by (simp add: framer_wf_def PFramer_new_def)

lemma tryRecv_cases:
  obtains (data) bs s' where "PFramer_tryRecv n f s = (Inr bs, f\<lparr>readEOF := False\<rparr>, s')"
      "bs \<noteq> []" "length bs \<le> n" "sys_recv n s = (RecvGot bs, s')"
  | (eof) s' where "PFramer_tryRecv n f s = (Inr [], f\<lparr>readEOF := True\<rparr>, s')" "0 < n"
  | (again) s' where "PFramer_tryRecv n f s = (Inr [], f\<lparr>readAgain := True\<rparr>, s')" "0 < n"
  | (fail) e s' where "PFramer_tryRecv n f s = (Inl (SystemError e), f, s')" "0 < n"
  | (none) "PFramer_tryRecv n f s = (Inr [], f, s)" "n = 0"
proof -
  obtain r s' where rs: "sys_recv n s = (r, s')" by fastforce
  show thesis
  proof (cases "n = 0")
    case True
    then show thesis by (intro none) (simp_all add: PFramer_tryRecv_def)
  next
    case False
    show thesis
    proof (cases r)
      case (RecvGot bs)
      show thesis
      proof (cases "bs = []")
        case True
        show thesis
          by (rule eof [of s']) (use rs False RecvGot True in \<open>simp_all add: PFramer_tryRecv_def\<close>)
      next
        case False
        show thesis
          by (rule data [of bs s'])
            (use rs \<open>n \<noteq> 0\<close> RecvGot False recv_got_bound [of n s bs s'] in
              \<open>simp_all add: PFramer_tryRecv_def\<close>)
      qed
    next
      case (RecvFail e)
      show thesis
      proof (cases "e = EAGAIN")
        case True
        show thesis
          by (rule again [of s']) (use rs False RecvFail True in \<open>simp_all add: PFramer_tryRecv_def\<close>)
      next
        case False
        show thesis
          by (rule fail [of e s']) (use rs \<open>n \<noteq> 0\<close> RecvFail False in \<open>simp_all add: PFramer_tryRecv_def\<close>)
      qed
    qed
  qed
qed

lemma pushFrame_eq:
  "PFramer_pushFrame f q =
     (Inr (f\<lparr>rxd_dynamic := False, rxdFrame := empty_frame, readInProgress := False, readEOF := False,
             readAgain := False, fm_state := RX_HEADER, msgRemainingBytes := 0,
             lenRemainingBytes := 0\<rparr>), pushItem (fm_fd f, rxdFrame f) q)"
  by (simp add: PFramer_pushFrame_def PFramer_reset_def)

text \<open>What one call of \<open>tryRead\<close> can do, from a well-formed state and for any script.\<close>

definition step_ok :: "framer \<Rightarrow> work_queue \<Rightarrow> (fault + 'a) \<times> framer \<times> work_queue \<times> 'b \<Rightarrow> bool" where
  "step_ok f q res =
     (case res of (r, f', q', _) \<Rightarrow>
        framer_wf f' \<and> fm_fd f' = fm_fd f \<and>
        (case r of Inl e \<Rightarrow> (\<exists>n. e = SystemError n) | Inr _ \<Rightarrow> True) \<and>
        (\<exists>its. q' = fold pushItem its q \<and> list_all (item_ok (fm_fd f)) its))"

lemma step_okI:
  "framer_wf f' \<Longrightarrow> fm_fd f' = fm_fd f \<Longrightarrow> (\<And>e. r = Inl e \<Longrightarrow> \<exists>n. e = SystemError n) \<Longrightarrow>
   q' = fold pushItem its q \<Longrightarrow> list_all (item_ok (fm_fd f)) its \<Longrightarrow> step_ok f q (r, f', q', s)"
  by (auto simp: step_ok_def split: sum.splits)

lemma step_ok_same:
  "framer_wf f' \<Longrightarrow> fm_fd f' = fm_fd f \<Longrightarrow> (\<And>e. r = Inl e \<Longrightarrow> \<exists>n. e = SystemError n) \<Longrightarrow>
   step_ok f q (r, f', q, s)"
  by (rule step_okI [where its = "[]"]) auto

lemma rxHeader_ok:
  assumes "framer_wf f" "fm_state f = RX_HEADER"
  shows "step_ok f q (PFramer_rxHeader f q s)"
  using assms
  by (cases rule: tryRecv_cases [of 1 f s])
    (auto simp: PFramer_rxHeader_def framer_wf_def Let_def intro!: step_ok_same split: list.splits)

lemma rxLen_ok:
  assumes "framer_wf f" "fm_state f = RX_LEN"
  shows "step_ok f q (PFramer_rxLen f q s)"
  using assms
  by (cases rule: tryRecv_cases [of "lenRemainingBytes f" f s])
    (auto simp: PFramer_rxLen_def framer_wf_def Let_def PFramer_allocMsg_def frame_wf_def
      intro!: step_ok_same)

lemma rxMsg_ok:
  assumes wf: "framer_wf f" and st: "fm_state f = RX_MSG"
  shows "step_ok f q (PFramer_rxMsg f q s)"
proof -
  let ?g = "rxdFrame f"
  from wf st have w: "rxd_dynamic f" "length (fr_msg ?g) = unat (fr_len ?g)"
      "msgRemainingBytes f \<le> unat (fr_len ?g)" "header_ok (fr_header ?g)"
    by (auto simp: framer_wf_def frame_wf_def)
  show ?thesis
  proof (cases rule: tryRecv_cases [of "msgRemainingBytes f" f s])
    case (data bs s')
    let ?buf = "write_at (unat (fr_len ?g) - msgRemainingBytes f) bs (fr_msg ?g)"
    have "length ?buf = unat (fr_len ?g)"
      using data w by (simp add: length_write_at)
    then have "item_ok (fm_fd f) (fm_fd f, ?g\<lparr>fr_msg := ?buf\<rparr>)"
      using w by (simp add: item_ok_def frame_wf_def)
    with data w st \<open>length ?buf = unat (fr_len ?g)\<close> show ?thesis
      by (auto simp: PFramer_rxMsg_def Let_def pushFrame_eq framer_wf_def frame_wf_def
          intro: step_ok_same step_okI [where its = "[(fm_fd f, ?g\<lparr>fr_msg := ?buf\<rparr>)]"])
  next
    case none
    have "item_ok (fm_fd f) (fm_fd f, ?g)"
      using w by (simp add: item_ok_def frame_wf_def)
    with none w show ?thesis
      by (auto simp: PFramer_rxMsg_def Let_def pushFrame_eq framer_wf_def
          intro: step_okI [where its = "[(fm_fd f, ?g)]"])
  qed (use w st wf in \<open>auto simp: PFramer_rxMsg_def Let_def framer_wf_def frame_wf_def intro!: step_ok_same\<close>)
qed

lemma tryRead_ok: "framer_wf f \<Longrightarrow> step_ok f q (PFramer_tryRead f q s)"
  by (cases "fm_state f") (simp_all add: PFramer_tryRead_def rxHeader_ok rxLen_ok rxMsg_ok)

lemma readAll_ok: "framer_wf f \<Longrightarrow> step_ok f q (PFramer_readAll f q s)"
proof (induction f q s rule: readAll_induct)
  case (Step f q s)
  obtain r f' q' s' where t: "PFramer_tryRead f q s = (r, f', q', s')" by (metis prod_cases4)
  from tryRead_ok [OF Step.prems, of q s] obtain its where
    ok: "framer_wf f'" "fm_fd f' = fm_fd f" "\<And>e. r = Inl e \<Longrightarrow> \<exists>n. e = SystemError n"
      "q' = fold pushItem its q" "list_all (item_ok (fm_fd f)) its"
    by (auto simp: t step_ok_def split: sum.splits)
  consider "r = Inr True" | "r = Inr False" | e where "r = Inl e"
    by (cases r) auto
  then show ?case
  proof cases
    case 1
    with Step.IH t ok(1) have "step_ok f' q' (PFramer_readAll f' q' s')" by blast
    with 1 t ok(2,4,5) show ?thesis
      by (auto simp: readAll_unfold step_ok_def split: prod.splits intro: exI [of _ "its @ _"])
  qed (use t ok in \<open>auto simp: readAll_unfold intro: step_okI\<close>)
qed

section \<open>Receiving a stream of frames\<close>

definition frame_ok :: "frame \<Rightarrow> bool" where
  "frame_ok g \<longleftrightarrow> frame_wf g \<and> header_ok (fr_header g) \<and> fr_len g \<noteq> 0"

abbreviation wires :: "frame list \<Rightarrow> bytes" where
  "wires gs \<equiv> concat (map wire gs)"

text \<open>\<open>awaiting f gs W\<close>: the frames \<open>gs\<close> are not finished yet and \<open>W\<close> is what the socket still has to
  deliver of them; the first of them may be partly received already.\<close>

definition awaiting :: "framer \<Rightarrow> frame list \<Rightarrow> bytes \<Rightarrow> bool" where
  "awaiting f gs W \<longleftrightarrow>
     (case fm_state f of
        RX_HEADER \<Rightarrow> \<not> rxd_dynamic f \<and> W = wires gs
      | RX_LEN \<Rightarrow> \<not> rxd_dynamic f \<and> lenRemainingBytes f = 2 \<and>
          (\<exists>g gs'. gs = g # gs' \<and> fr_header (rxdFrame f) = fr_header g \<and> W = tl (wire g) @ wires gs')
      | RX_MSG \<Rightarrow> rxd_dynamic f \<and>
          (\<exists>g gs' bs. gs = g # gs' \<and> fr_header (rxdFrame f) = fr_header g \<and>
             fr_len (rxdFrame f) = fr_len g \<and> frame_wf (rxdFrame f) \<and> bs \<noteq> [] \<and>
             msgRemainingBytes f = length bs \<and> length bs \<le> unat (fr_len g) \<and>
             take (unat (fr_len g) - length bs) (fr_msg (rxdFrame f)) @ bs = fr_msg g \<and>
             W = bs @ wires gs'))"

text \<open>
  The length field of a frame starts when this many bytes of the stream remain; \<open>unsplit\<close> says that
  the socket never returns one byte of a length field without the other.
\<close>

fun len_marks :: "frame list \<Rightarrow> nat list" where
  "len_marks [] = []"
| "len_marks (g # gs) = (length (wires (g # gs)) - 1) # len_marks gs"

definition unsplit :: "frame list \<Rightarrow> bytes \<Rightarrow> rx_event list \<Rightarrow> bool" where
  "unsplit gs W s \<longleftrightarrow>
     list_all (\<lambda>m. m \<le> length W \<longrightarrow> length W - m < rx_size s \<longrightarrow>
       2 \<le> rx_avail (rx_drop (length W - m) s)) (len_marks gs)"

lemma unsplit_advance:
  assumes "unsplit gs W s" "rx_pure s" "rx_pure s'" "rx_drop c s = rx_drop 0 s'"
    "length W = c + length W1" "rx_size s = c + rx_size s'"
    "set (len_marks gs') \<subseteq> set (len_marks gs)"
  shows "unsplit gs' W1 s'"
  unfolding unsplit_def list_all_iff
proof (intro ballI impI)
  fix m
  assume m: "m \<in> set (len_marks gs')" "m \<le> length W1" "length W1 - m < rx_size s'"
  then have "length W - m = (length W1 - m) + c" "length W - m < rx_size s"
    using assms(5,6) by simp_all
  moreover have "rx_drop ((length W1 - m) + c) s = rx_drop (length W1 - m) s'"
    using rx_drop_drop [OF assms(2), of "length W1 - m" c]
      rx_drop_drop [OF assms(3), of "length W1 - m" 0] assms(4) by simp
  moreover have "2 \<le> rx_avail (rx_drop (length W - m) s)"
    using assms(1,5,7) m(1,2) \<open>length W - m < rx_size s\<close>
    by (auto simp: unsplit_def list_all_iff)
  ultimately show "2 \<le> rx_avail (rx_drop (length W1 - m) s')"
    by simp
qed

lemma tryRecv_pure:
  assumes "rx_pure s" "0 < n" "rx_data s \<noteq> []"
  obtains bs s' where "PFramer_tryRecv n f s = (Inr bs, f\<lparr>readEOF := False\<rparr>, s')"
    "bs \<noteq> []" "length bs = min n (rx_avail s)" "rx_pure s'" "rx_data s = bs @ rx_data s'"
    "rx_drop (length bs) s = rx_drop 0 s'" "rx_size s = length bs + rx_size s'"
proof -
  obtain bs s' where r: "sys_recv n s = (RecvGot bs, s')" "bs \<noteq> []"
      "length bs = min n (rx_avail s)" "rx_pure s'" "rx_data s = bs @ rx_data s'"
      "rx_drop (length bs) s = rx_drop 0 s'"
    using recv_pure [OF assms] by metis
  from r that [of bs s'] assms(2) recv_got_size [OF r(1)] show thesis
    by (simp add: PFramer_tryRecv_def)
qed

text \<open>One call of \<open>tryRead\<close> while data is there: it makes progress and what is awaited shrinks.\<close>

definition advances :: "framer \<Rightarrow> work_queue \<Rightarrow> rx_event list \<Rightarrow> frame list \<Rightarrow> bytes \<Rightarrow>
    (fault + bool) \<times> framer \<times> work_queue \<times> rx_event list \<Rightarrow> bool" where
  "advances f q s gs W' res \<longleftrightarrow>
     (\<exists>f' s' ds gs'. res = (Inr True, f', fold pushItem (map (Pair (fm_fd f)) ds) q, s') \<and>
        gs = ds @ gs' \<and> awaiting f' gs' (rx_data s' @ W') \<and> fm_fd f' = fm_fd f \<and>
        rx_pure s' \<and> unsplit gs' (rx_data s' @ W') s')"

lemma advancesI:
  "res = (Inr True, f', fold pushItem (map (Pair (fm_fd f)) ds) q, s') \<Longrightarrow> gs = ds @ gs' \<Longrightarrow>
   awaiting f' gs' (rx_data s' @ W') \<Longrightarrow> fm_fd f' = fm_fd f \<Longrightarrow> rx_pure s' \<Longrightarrow>
   unsplit gs' (rx_data s' @ W') s' \<Longrightarrow> advances f q s gs W' res"
  unfolding advances_def by blast

lemma append_split_prefix:
  "bs @ R = xs @ R' \<Longrightarrow> length bs \<le> length xs \<Longrightarrow> \<exists>ys. xs = bs @ ys \<and> R = ys @ R'"
  by (metis append_eq_append_conv_if append_take_drop_id)

lemma advance_header:
  assumes aw: "awaiting f gs W" and st: "fm_state f = RX_HEADER" and ok: "list_all frame_ok gs"
    and s: "rx_pure s" "rx_data s \<noteq> []" "W = rx_data s @ W'" and us: "unsplit gs W s"
  shows "advances f q s gs W' (PFramer_rxHeader f q s)"
proof -
  obtain bs s' where r: "PFramer_tryRecv 1 f s = (Inr bs, f\<lparr>readEOF := False\<rparr>, s')"
      "bs \<noteq> []" "length bs = min 1 (rx_avail s)" "rx_pure s'" "rx_data s = bs @ rx_data s'"
      "rx_drop (length bs) s = rx_drop 0 s'" "rx_size s = length bs + rx_size s'"
    using tryRecv_pure [OF s(1) _ s(2), of 1 f] by auto
  then have "length bs = Suc 0"
    by (cases bs) (auto simp: min_def split: if_splits)
  then obtain h where h: "bs = [h]"
    by (auto simp: length_Suc_conv)
  from aw st s(3) r(5) h have W: "\<not> rxd_dynamic f" "h # rx_data s' @ W' = wires gs" "W = wires gs"
    by (auto simp: awaiting_def)
  then obtain g gs' where g: "gs = g # gs'"
    by (cases gs) auto
  with W have hg: "h = fr_header g" "rx_data s' @ W' = tl (wire g) @ wires gs'"
    by (simp_all add: wire_def)
  with ok g have "header_ok h" by (simp add: frame_ok_def)
  with r(1) h have "PFramer_rxHeader f q s =
      (Inr True, f\<lparr>readEOF := False, rxdFrame := (rxdFrame f)\<lparr>fr_header := h\<rparr>, fm_state := RX_LEN,
         lenRemainingBytes := 2\<rparr>, q, s')"
    by (simp add: PFramer_rxHeader_def Let_def)
  then show ?thesis
  proof (rule advancesI [where ?ds = "[]", simplified])
    show "unsplit gs (rx_data s' @ W') s'"
      using us s(1) r(4) r(6)
      by (rule unsplit_advance) (use r(5,7) s(3) h in simp_all)
  qed (use g hg W r in \<open>auto simp: awaiting_def\<close>)
qed

lemma advance_len:
  assumes aw: "awaiting f gs W" and st: "fm_state f = RX_LEN" and ok: "list_all frame_ok gs"
    and s: "rx_pure s" "rx_data s \<noteq> []" "W = rx_data s @ W'" and us: "unsplit gs W s"
  shows "advances f q s gs W' (PFramer_rxLen f q s)"
proof -
  obtain bs s' where r: "PFramer_tryRecv 2 f s = (Inr bs, f\<lparr>readEOF := False\<rparr>, s')"
      "bs \<noteq> []" "length bs = min 2 (rx_avail s)" "rx_pure s'" "rx_data s = bs @ rx_data s'"
      "rx_drop (length bs) s = rx_drop 0 s'" "rx_size s = length bs + rx_size s'"
    using tryRecv_pure [OF s(1) _ s(2), of 2 f] by auto
  from aw st obtain g gs' where g: "gs = g # gs'" "\<not> rxd_dynamic f" "lenRemainingBytes f = 2"
      "fr_header (rxdFrame f) = fr_header g" "W = tl (wire g) @ wires gs'"
    by (auto simp: awaiting_def)
  have "length W = length (wires gs) - 1"
    using g by (simp add: wire_def)
  moreover have "0 < rx_size s"
    using s(2) by (simp add: rx_size_data)
  ultimately have "2 \<le> rx_avail s"
    using us by (simp add: unsplit_def g(1))
  with r(3) have "length bs = 2" by simp
  then obtain a b where ab: "bs = [a, b]"
    by (auto simp: length_Suc_conv numeral_2_eq_2)
  from s(3) r(5) ab g(5)
  have w: "a = hi_byte (fr_len g)" "b = lo_byte (fr_len g)" "rx_data s' @ W' = fr_msg g @ wires gs'"
    by (simp_all add: wire_def)
  have n: "ntohs (join_bytes a b) = fr_len g"
    by (simp add: w)
  have gok: "frame_wf g" "fr_len g \<noteq> 0" "unat (fr_len g) \<noteq> 0"
    using ok g(1) by (auto simp: frame_ok_def unat_eq_0)
  let ?m = "replicate (unat (fr_len g)) (fm_fill f)"
  have "PFramer_rxLen f q s =
      (Inr True, f\<lparr>readEOF := False, rxdFrame := (rxdFrame f)\<lparr>fr_len := fr_len g, fr_msg := ?m\<rparr>,
         lenRemainingBytes := 0, fm_state := RX_MSG, msgRemainingBytes := unat (fr_len g),
         rxd_dynamic := True\<rparr>, q, s')"
    using r(1) g(2,3) ab n
    by (simp add: PFramer_rxLen_def store_len_def Let_def PFramer_allocMsg_def)
  then show ?thesis
  proof (rule advancesI [where ?ds = "[]", simplified])
    show "unsplit gs (rx_data s' @ W') s'"
      using us s(1) r(4) r(6)
      by (rule unsplit_advance) (use r(5,7) s(3) ab in simp_all)
    show "awaiting (f\<lparr>readEOF := False, rxdFrame := (rxdFrame f)\<lparr>fr_len := fr_len g, fr_msg := ?m\<rparr>,
         lenRemainingBytes := 0, fm_state := RX_MSG, msgRemainingBytes := unat (fr_len g),
         rxd_dynamic := True\<rparr>) gs (rx_data s' @ W')"
      using g(1,4) gok w(3) by (auto simp: awaiting_def frame_wf_def)
  qed (use r in auto)
qed

lemma advance_msg:
  assumes aw: "awaiting f gs W" and st: "fm_state f = RX_MSG" and ok: "list_all frame_ok gs"
    and s: "rx_pure s" "rx_data s \<noteq> []" "W = rx_data s @ W'" and us: "unsplit gs W s"
  shows "advances f q s gs W' (PFramer_rxMsg f q s)"
proof -
  from aw st obtain g gs' bs where g: "gs = g # gs'" "rxd_dynamic f"
      "fr_header (rxdFrame f) = fr_header g" "fr_len (rxdFrame f) = fr_len g" "frame_wf (rxdFrame f)"
      "bs \<noteq> []" "msgRemainingBytes f = length bs"
      "take (unat (fr_len g) - length bs) (fr_msg (rxdFrame f)) @ bs = fr_msg g" "W = bs @ wires gs'"
    by (auto simp: awaiting_def)
  let ?n = "unat (fr_len g)" and ?buf = "fr_msg (rxdFrame f)"
  have buf: "length ?buf = ?n" "length (fr_msg g) = ?n"
    using g(4,5) ok g(1) by (auto simp: frame_wf_def frame_ok_def)
  have le: "length bs \<le> ?n"
    using arg_cong [OF g(8), of length] buf by simp
  obtain c s' where r: "PFramer_tryRecv (length bs) f s = (Inr c, f\<lparr>readEOF := False\<rparr>, s')"
      "c \<noteq> []" "length c = min (length bs) (rx_avail s)" "rx_pure s'" "rx_data s = c @ rx_data s'"
      "rx_drop (length c) s = rx_drop 0 s'" "rx_size s = length c + rx_size s'"
    using tryRecv_pure [OF s(1) _ s(2), of "length bs" f] g(6) by auto
  from append_split_prefix [of c "rx_data s' @ W'" bs "wires gs'"] r(3,5) s(3) g(9)
  obtain bs' where bs': "bs = c @ bs'" "rx_data s' @ W' = bs' @ wires gs'"
    by auto
  let ?buf' = "write_at (?n - length bs) c ?buf"
  have tk: "take (?n - length bs + length c) ?buf' = take (?n - length bs) ?buf @ c"
    using buf le bs' by (intro take_write_at) simp
  have len: "length ?buf' = ?n"
    using buf le bs' by (subst length_write_at) simp_all
  have "take (?n - length bs') ?buf' @ bs' = fr_msg g"
    using tk g(8) bs'(1) le by simp
  have us': "unsplit gs'' (rx_data s' @ W') s'" if "set (len_marks gs'') \<subseteq> set (len_marks gs)" for gs''
    using us s(1) r(4) r(6)
    by (rule unsplit_advance) (use r(5,7) s(3) that in simp_all)
  show ?thesis
  proof (cases "bs' = []")
    case True
    have fr: "(rxdFrame f)\<lparr>fr_msg := ?buf'\<rparr> = g"
      using \<open>take (?n - length bs') ?buf' @ bs' = fr_msg g\<close> True g(3,4) len by simp
    have "PFramer_rxMsg f q s =
        (Inr True, f\<lparr>rxdFrame := empty_frame, rxd_dynamic := False, readInProgress := False,
           readEOF := False, readAgain := False, fm_state := RX_HEADER, msgRemainingBytes := 0,
           lenRemainingBytes := 0\<rparr>, pushItem (fm_fd f, g) q, s')"
      using g(4,7) r(1,2) bs'(1) buf le True fr by (simp add: PFramer_rxMsg_def Let_def pushFrame_eq)
    then show ?thesis
      by (rule advancesI [where ?ds = "[g]" and gs' = gs', simplified])
        (use g(1) bs'(2) us' [of gs'] r(4) True in \<open>auto simp: awaiting_def\<close>)
  next
    case False
    let ?f = "f\<lparr>readEOF := False, rxdFrame := (rxdFrame f)\<lparr>fr_msg := ?buf'\<rparr>,
        msgRemainingBytes := length bs'\<rparr>"
    have "PFramer_rxMsg f q s = (Inr True, ?f, q, s')"
      using g(4,7) r(1,2) bs'(1) buf le False by (simp add: PFramer_rxMsg_def Let_def)
    moreover have "awaiting ?f gs (rx_data s' @ W')"
      using st g False bs' len le \<open>take (?n - length bs') ?buf' @ bs' = fr_msg g\<close>
      by (auto simp: awaiting_def frame_wf_def)
    ultimately show ?thesis
      using us' [of gs] r(4)
      by (intro advancesI [where f' = ?f and ?ds = "[]" and gs' = gs and s' = s']) simp_all
  qed
qed

lemma tryRead_advances:
  assumes "awaiting f gs W" "list_all frame_ok gs" "rx_pure s" "rx_data s \<noteq> []" "W = rx_data s @ W'"
    "unsplit gs W s"
  shows "advances f q s gs W' (PFramer_tryRead f q s)"
  using advance_header [OF assms(1) _ assms(2-)] advance_len [OF assms(1) _ assms(2-)]
    advance_msg [OF assms(1) _ assms(2-)]
  by (cases "fm_state f") (auto simp: PFramer_tryRead_def)

text \<open>Without data \<open>readAll\<close> gives up and waits; only the length field may have its bytes swapped.\<close>

lemma readAll_idle:
  assumes "awaiting f gs W" "rx_pure s" "rx_data s = []"
  obtains f' where "PFramer_readAll f q s = (Inr (), f', q, [])" "awaiting f' gs W" "fm_fd f' = fm_fd f"
proof -
  have r: "sys_recv n s = (RecvFail EAGAIN, [])" for n
    using assms(2,3) by (induction s rule: rx_pure.induct) auto
  have "\<exists>f'. PFramer_tryRead f q s = (Inr False, f', q, []) \<and> awaiting f' gs W \<and> fm_fd f' = fm_fd f"
  proof (cases "fm_state f")
    case RX_HEADER
    with assms(1) r show ?thesis
      by (auto simp: PFramer_tryRead_def PFramer_rxHeader_def PFramer_tryRecv_def awaiting_def)
  next
    case RX_LEN
    with assms(1) r show ?thesis
      by (auto simp: PFramer_tryRead_def PFramer_rxLen_def PFramer_tryRecv_def awaiting_def Let_def)
  next
    case RX_MSG
    with assms(1) have "msgRemainingBytes f \<noteq> 0"
        "length (fr_msg (rxdFrame f)) = unat (fr_len (rxdFrame f))"
        "msgRemainingBytes f \<le> unat (fr_len (rxdFrame f))"
      by (auto simp: awaiting_def frame_wf_def)
    with RX_MSG assms(1) r show ?thesis
      by (auto simp: PFramer_tryRead_def PFramer_rxMsg_def PFramer_tryRecv_def awaiting_def Let_def)
  qed
  then show thesis using that by (auto simp: readAll_unfold)
qed

lemma unsplit_sub:
  "unsplit gs W s \<Longrightarrow> set (len_marks gs') \<subseteq> set (len_marks gs) \<Longrightarrow> unsplit gs' W s"
  by (auto simp: unsplit_def list_all_iff)

lemma len_marks_append: "set (len_marks gs') \<subseteq> set (len_marks (ds @ gs'))"
  by (induction ds) auto

lemma readAll_stream:
  assumes "awaiting f gs (rx_data s @ W')" "list_all frame_ok gs" "rx_pure s"
    "unsplit gs (rx_data s @ W') s"
  shows "\<exists>f' ds gs'. PFramer_readAll f q s =
           (Inr (), f', fold pushItem (map (Pair (fm_fd f)) ds) q, []) \<and>
         gs = ds @ gs' \<and> awaiting f' gs' W' \<and> fm_fd f' = fm_fd f"
  using assms
proof (induction f q s arbitrary: gs rule: readAll_induct)
  case (Step f q s)
  show ?case
  proof (cases "rx_data s = []")
    case True
    with Step.prems readAll_idle [of f gs W' s q] show ?thesis
      by (metis append_Nil fold_simps(1) id_apply list.simps(8))
  next
    case False
    from tryRead_advances [OF Step.prems(1-3) False refl Step.prems(4), of q]
    obtain f1 s1 ds gs1 where 1: "PFramer_tryRead f q s =
          (Inr True, f1, fold pushItem (map (Pair (fm_fd f)) ds) q, s1)"
        "gs = ds @ gs1" "awaiting f1 gs1 (rx_data s1 @ W')" "fm_fd f1 = fm_fd f" "rx_pure s1"
        "unsplit gs1 (rx_data s1 @ W') s1"
      by (auto simp: advances_def)
    have "list_all frame_ok gs1" using Step.prems(2) 1(2) by simp
    from Step.IH [OF 1(1) 1(3) this 1(5,6)] obtain f' ds' gs' where 2:
        "PFramer_readAll f1 (fold pushItem (map (Pair (fm_fd f)) ds) q) s1 =
           (Inr (), f', fold pushItem (map (Pair (fm_fd f1)) ds') (fold pushItem (map (Pair (fm_fd f)) ds) q), [])"
        "gs1 = ds' @ gs'" "awaiting f' gs' W'" "fm_fd f' = fm_fd f1"
      by blast
    show ?thesis
      by (rule exI [of _ f'], rule exI [of _ "ds @ ds'"], rule exI [of _ gs'])
        (use 1 2 in \<open>simp add: readAll_unfold\<close>)
  qed
qed

text \<open>
  The event loop calls \<open>readAll\<close> once per readiness event; between two events the socket delivers
  a batch of its own.
\<close>

fun read_batches ::
    "framer \<Rightarrow> work_queue \<Rightarrow> rx_event list list \<Rightarrow> fault + (framer \<times> work_queue)" where
  "read_batches f q [] = Inr (f, q)"
| "read_batches f q (b # bs) =
     (case PFramer_readAll f q b of
        (Inl e, _) \<Rightarrow> Inl e
      | (Inr _, f', q', _) \<Rightarrow> read_batches f' q' bs)"

fun unsplit_batches :: "frame list \<Rightarrow> bytes \<Rightarrow> rx_event list list \<Rightarrow> bool" where
  "unsplit_batches gs W [] = True"
| "unsplit_batches gs W (b # bs) = (unsplit gs W b \<and> unsplit_batches gs (drop (rx_size b) W) bs)"

lemma unsplit_batches_sub:
  "unsplit_batches gs W bs \<Longrightarrow> set (len_marks gs') \<subseteq> set (len_marks gs) \<Longrightarrow> unsplit_batches gs' W bs"
  by (induction bs arbitrary: W) (auto intro: unsplit_sub)

lemma read_batches_stream:
  assumes "awaiting f gs (concat (map rx_data bs))" "list_all frame_ok gs" "list_all rx_pure bs"
    "unsplit_batches gs (concat (map rx_data bs)) bs"
  shows "\<exists>f' ds gs'. read_batches f q bs = Inr (f', fold pushItem (map (Pair (fm_fd f)) ds) q) \<and>
           gs = ds @ gs' \<and> awaiting f' gs' [] \<and> fm_fd f' = fm_fd f"
  using assms
proof (induction bs arbitrary: f gs q)
  case Nil
  then show ?case by (intro exI [of _ f] exI [of _ "[]"] exI [of _ gs]) simp
next
  case (Cons b bs)
  let ?W = "concat (map rx_data bs)"
  have "awaiting f gs (rx_data b @ ?W)" "rx_pure b" "unsplit gs (rx_data b @ ?W) b"
    using Cons.prems by simp_all
  from readAll_stream [OF this(1) Cons.prems(2) this(2,3), of q]
  obtain f1 ds gs1 where 1: "PFramer_readAll f q b =
        (Inr (), f1, fold pushItem (map (Pair (fm_fd f)) ds) q, [])"
      "gs = ds @ gs1" "awaiting f1 gs1 ?W" "fm_fd f1 = fm_fd f"
    by blast
  have "unsplit_batches gs1 ?W bs"
    using Cons.prems(4) len_marks_append [of gs1 ds] 1(2)
    by (auto simp: rx_size_data intro: unsplit_batches_sub)
  with Cons.IH [OF 1(3), of "fold pushItem (map (Pair (fm_fd f)) ds) q"] Cons.prems(2,3) 1(2)
  obtain f' ds' gs' where 2:
      "read_batches f1 (fold pushItem (map (Pair (fm_fd f)) ds) q) bs =
         Inr (f', fold pushItem (map (Pair (fm_fd f1)) ds') (fold pushItem (map (Pair (fm_fd f)) ds) q))"
      "gs1 = ds' @ gs'" "awaiting f' gs' []" "fm_fd f' = fm_fd f1"
    by auto
  show ?case
    by (rule exI [of _ f'], rule exI [of _ "ds @ ds'"], rule exI [of _ gs']) (use 1 2 in simp)
qed

lemma awaiting_Nil_frames: "awaiting f gs [] \<Longrightarrow> gs = [] \<and> fm_state f = RX_HEADER"
  by (cases gs) (auto simp: awaiting_def wire_def split: rx_state.splits)

lemma awaiting_new: "awaiting (PFramer_new fd fill) gs (wires gs)"
  by (simp add: awaiting_def PFramer_new_def)

section \<open>Where the stream is not received as sent\<close>

lemma tryRead_header_data:
  "fm_state f = RX_HEADER \<Longrightarrow> header_ok h \<Longrightarrow> bs \<noteq> [] \<Longrightarrow>
   PFramer_tryRead f q (RxData (h # bs) # s) =
     (Inr True, f\<lparr>readEOF := False, rxdFrame := (rxdFrame f)\<lparr>fr_header := h\<rparr>, fm_state := RX_LEN,
        lenRemainingBytes := 2\<rparr>, q, RxData bs # s)"
  by (cases bs) (simp_all add: PFramer_tryRead_def PFramer_rxHeader_def PFramer_tryRecv_def Let_def)

lemma unat_join_0: "unat (join_bytes b 0) = unat b"
  by (simp add: unat_join_bytes)

lemma join_0_eq_0: "join_bytes b 0 = 0 \<longleftrightarrow> b = 0"
  using unat_join_0 [of b] by (metis unat_eq_0)

lemma store_len_0: "store_len 0 [a] 0 = join_bytes a 0"
  using hi_byte_join [of 0 0] by (simp add: store_len_def join_bytes_def hi_byte_def)

lemma readAll_split_length:
  assumes h: "header_ok h" and hi: "hi \<noteq> 0" and m: "length m = unat hi"
  obtains f' where
    "PFramer_readAll (PFramer_new fd fill) q [RxData [h, hi], RxData (lo # m)] =
      (Inr (), f', pushItem (fd, \<lparr>fr_header = h, fr_len = join_bytes hi 0, fr_msg = m\<rparr>) q, [])"
proof -
  let ?f = "PFramer_new fd fill" and ?g = "\<lparr>fr_header = h, fr_len = join_bytes hi 0, fr_msg = m\<rparr>"
  let ?f1 = "?f\<lparr>readEOF := False, rxdFrame := (rxdFrame ?f)\<lparr>fr_header := h\<rparr>, fm_state := RX_LEN,
      lenRemainingBytes := 2\<rparr>"
  let ?f2 = "?f1\<lparr>rxdFrame := (rxdFrame ?f1)\<lparr>fr_len := join_bytes 0 hi\<rparr>, lenRemainingBytes := 1\<rparr>"
  let ?f3 = "?f2\<lparr>rxdFrame := (rxdFrame ?f2)\<lparr>fr_len := join_bytes hi 0, fr_msg := replicate (unat hi) fill\<rparr>,
      lenRemainingBytes := 0, fm_state := RX_MSG, msgRemainingBytes := unat hi, rxd_dynamic := True\<rparr>"
  have nz: "m \<noteq> []"
    using hi m by (auto simp: unat_eq_0)
  have s1: "PFramer_readAll ?f q [RxData [h, hi], RxData (lo # m)] =
      PFramer_readAll ?f1 q [RxData [hi], RxData (lo # m)]"
    by (rule readAll_unfold) (simp add: tryRead_header_data h PFramer_new_def)
  have s2: "PFramer_readAll ?f1 q [RxData [hi], RxData (lo # m)] = PFramer_readAll ?f2 q [RxData (lo # m)]"
    by (rule readAll_unfold)
      (simp add: PFramer_tryRead_def PFramer_rxLen_def PFramer_tryRecv_def Let_def PFramer_new_def
        empty_frame_def store_len_0)
  have s3: "PFramer_readAll ?f2 q [RxData (lo # m)] = PFramer_readAll ?f3 q [RxData m]"
    by (rule readAll_unfold)
      (use nz in \<open>simp add: PFramer_tryRead_def PFramer_rxLen_def PFramer_tryRecv_def Let_def PFramer_new_def
        PFramer_allocMsg_def store_len_def unat_join_0\<close>)
  have "awaiting ?f3 [?g] (rx_data [RxData m] @ [])"
    using nz m by (auto simp: awaiting_def frame_wf_def unat_join_0)
  moreover have "list_all frame_ok [?g]"
    using h hi m by (simp add: frame_ok_def frame_wf_def unat_join_0 join_0_eq_0)
  moreover have "unsplit [?g] (rx_data [RxData m] @ []) [RxData m]"
    by (simp add: unsplit_def)
  ultimately obtain f' ds gs' where r: "PFramer_readAll ?f3 q [RxData m] =
        (Inr (), f', fold pushItem (map (Pair (fm_fd ?f3)) ds) q, [])"
      "[?g] = ds @ gs'" "awaiting f' gs' []"
    using readAll_stream [of ?f3 "[?g]" "[RxData m]" "[]" q] by auto
  then have "ds = [?g]"
    using awaiting_Nil_frames by fastforce
  with r(1) s1 s2 s3 show thesis
    by (intro that [of f']) (simp add: PFramer_new_def)
qed

lemma readAll_empty_frame:
  assumes "header_ok h" "rest \<noteq> []"
  shows "PFramer_readAll (PFramer_new fd fill) q [RxData (h # 0 # 0 # rest)] =
     (Inr (), PFramer_new fd fill, pushItem (fd, \<lparr>fr_header = h, fr_len = 0, fr_msg = []\<rparr>) q,
      [RxData rest])"
proof -
  let ?f = "PFramer_new fd fill"
  let ?f1 = "?f\<lparr>readEOF := False, rxdFrame := (rxdFrame ?f)\<lparr>fr_header := h\<rparr>, fm_state := RX_LEN,
      lenRemainingBytes := 2\<rparr>"
  let ?f2 = "?f1\<lparr>lenRemainingBytes := 0, fm_state := RX_MSG, rxd_dynamic := True\<rparr>"
  have z: "join_bytes 0 0 = 0"
    by (simp add: join_bytes_def)
  have "PFramer_readAll ?f q [RxData (h # 0 # 0 # rest)] = PFramer_readAll ?f1 q [RxData (0 # 0 # rest)]"
    by (rule readAll_unfold) (simp add: tryRead_header_data assms PFramer_new_def)
  also have "\<dots> = PFramer_readAll ?f2 q [RxData rest]"
    by (rule readAll_unfold)
      (use assms in \<open>simp add: PFramer_tryRead_def PFramer_rxLen_def PFramer_tryRecv_def Let_def
        PFramer_new_def PFramer_allocMsg_def store_len_def empty_frame_def z\<close>)
  also have "\<dots> = (Inr (), PFramer_new fd fill,
      pushItem (fd, \<lparr>fr_header = h, fr_len = 0, fr_msg = []\<rparr>) q, [RxData rest])"
    by (rule readAll_unfold)
      (simp add: PFramer_tryRead_def PFramer_rxMsg_def PFramer_tryRecv_def Let_def
        PFramer_new_def pushFrame_eq empty_frame_def)
  finally show ?thesis .
qed

section \<open>Properties\<close>

text \<open>C13: Whatever bytes, errors and interruptions the peer's socket produces, \<open>readAll\<close> terminates
  and keeps the receiver well-formed: it never writes outside the message buffer and never erases a
  frame that owns data, it can end only normally or with the socket's own error, and every frame it
  pushes carries this client's descriptor, a valid header and exactly the declared number of bytes.\<close>

theorem PFramer_readAll_safe:
  assumes "framer_wf f"
  shows "case PFramer_readAll f q s of (r, f', q', s') \<Rightarrow>
           framer_wf f' \<and> fm_fd f' = fm_fd f \<and>
           (case r of Inl e \<Rightarrow> (\<exists>n. e = SystemError n) | Inr _ \<Rightarrow> True) \<and>
           (\<exists>its. q' = fold pushItem its q \<and> list_all (item_ok (fm_fd f)) its)"
  using readAll_ok [OF assms, of q s] by (simp add: step_ok_def)

theorem PFramer_readAll_safe_witness:
  "case PFramer_readAll (PFramer_new 5 0xAA) WorkQueue_init
      [RxData [0xF1, 0], RxErr (EOTHER 104)] of (r, f', q', s') \<Rightarrow>
     framer_wf f' \<and> fm_fd f' = 5 \<and>
     (case r of Inl e \<Rightarrow> (\<exists>n. e = SystemError n) | Inr _ \<Rightarrow> True) \<and>
     (\<exists>its. q' = fold pushItem its WorkQueue_init \<and> list_all (item_ok 5) its)"
  using PFramer_readAll_safe [OF framer_wf_new, of 5 "0xAA" WorkQueue_init
      "[RxData [0xF1, 0], RxErr (EOTHER 104)]"]
  by (simp add: PFramer_new_def)

text \<open>C7: A stream of well-formed, non-empty frames is received exactly as it was sent, however the
  network cuts it: over any number of readiness events, each delivering any chunks, as long as no
  chunk ends between the two bytes of a length field, the receiver pushes exactly those frames, in
  order, each once, and ends in its start state waiting for the next header.\<close>

theorem PFramer_receives_stream:
  assumes "list_all frame_ok gs" "list_all rx_pure bs" "concat (map rx_data bs) = wires gs"
    "unsplit_batches gs (wires gs) bs"
  shows "\<exists>f'. read_batches (PFramer_new fd fill) q bs = Inr (f', fold pushItem (map (Pair fd) gs) q) \<and>
           fm_state f' = RX_HEADER \<and> framer_wf f'"
proof -
  have "awaiting (PFramer_new fd fill) gs (concat (map rx_data bs))"
    using awaiting_new [of fd fill gs] assms(3) by simp
  from read_batches_stream [OF this assms(1,2), of q] assms(3,4)
  obtain f' ds gs' where r: "read_batches (PFramer_new fd fill) q bs =
        Inr (f', fold pushItem (map (Pair fd) ds) q)" "gs = ds @ gs'" "awaiting f' gs' []"
    by (auto simp: PFramer_new_def)
  with awaiting_Nil_frames [OF r(3)] show ?thesis
    by (auto simp: awaiting_def framer_wf_def)
qed

theorem PFramer_receives_stream_witness:
  "\<exists>f'. read_batches (PFramer_new 5 0) WorkQueue_init
          [[RxData [0xF0], RxData [0, 2, 7]], [RxData [8, 0xF1]], [RxData [0, 1], RxData [9]]] =
        Inr (f', fold pushItem (map (Pair 5)
          [\<lparr>fr_header = 0xF0, fr_len = 2, fr_msg = [7, 8]\<rparr>, \<lparr>fr_header = 0xF1, fr_len = 1, fr_msg = [9]\<rparr>])
          WorkQueue_init) \<and>
        fm_state f' = RX_HEADER \<and> framer_wf f'"
proof (rule PFramer_receives_stream)
  let ?gs = "[\<lparr>fr_header = 0xF0, fr_len = 2, fr_msg = [7, 8]\<rparr>, \<lparr>fr_header = 0xF1, fr_len = 1, fr_msg = [9]\<rparr>]"
  let ?bs = "[[RxData [0xF0], RxData [0, 2, 7]], [RxData [8, 0xF1]], [RxData [0, 1], RxData [9 :: byte]]]"
  show "list_all frame_ok ?gs"
    by (simp add: frame_ok_def frame_wf_def header_ok_def)
  show "list_all rx_pure ?bs" by simp
  show "concat (map rx_data ?bs) = wires ?gs"
    by (simp add: wire_def hi_byte_def lo_byte_def)
  show "unsplit_batches ?gs (wires ?gs) ?bs"
    by (simp add: unsplit_def wire_def)
qed

text \<open>When the network does cut between the two length bytes, the frame is mis-read: for every
  header, high byte \<open>hi\<close> (not zero) and low byte \<open>lo\<close>, the receiver takes the length to be \<open>hi\<close>
  instead of \<open>256 * hi + lo\<close>, whatever \<open>lo\<close> is, and pushes a frame truncated to the first \<open>hi\<close> bytes
  of the message. (The second byte is stored past the field, and the field is byte-swapped twice.)\<close>

lemma PFramer_split_length_misread:
  assumes "header_ok h" "hi \<noteq> 0" "length m = unat hi"
  shows "\<exists>f' len. PFramer_readAll (PFramer_new fd fill) q [RxData [h, hi], RxData (lo # m)] =
           (Inr (), f', pushItem (fd, \<lparr>fr_header = h, fr_len = len, fr_msg = m\<rparr>) q, []) \<and>
         unat len = unat hi \<and> unat len \<noteq> 256 * unat hi + unat lo"
proof -
  have "unat hi \<noteq> 0"
    using assms(2) by (simp add: unat_eq_0)
  then have "unat hi \<noteq> 256 * unat hi + unat lo" by simp
  with readAll_split_length [OF assms, of fd fill q lo] show ?thesis
    by (metis unat_join_0)
qed

end
