(* ===== verification/PDeframers.thy ===== *)
theory PDeframers
  imports WorkQueues Sockets
begin

text \<open>
  \<open>PDeframer\<close> (\<open>protocom/PDeframer.h\<close>, \<open>PDeframer.cpp\<close>): the non-blocking sender of one client. It
  holds one frame at a time and writes header, length and message in as many \<open>send\<close> calls as the
  socket needs.

  The length is converted to network order in place by every \<open>tryWrite\<close> in state \<open>TX_LEN\<close> and
  converted back only when both bytes are out, and it is sent from
  \<open>&txdFrame.len + sizeof(PFrame::len) - lenRemainingBytes\<close>, which with one byte remaining points
  past the field. \<open>df_pad\<close> is the byte there, the padding before \<open>msg\<close>, any byte. The argument
  \<open>out\<close> is what the socket has accepted so far.
\<close>

datatype tx_state = TX_HEADER | TX_LEN | TX_MSG

record deframer =
  assocFd :: int
  df_state :: tx_state
  df_msgRemaining :: nat
  df_lenRemaining :: nat
  txdFrame :: frame
  writeInProgress :: bool
  writeEOF :: bool
  writeAgain :: bool
  df_pad :: byte

definition PDeframer_resetState :: "deframer \<Rightarrow> deframer" where
  "PDeframer_resetState d =
     d\<lparr>writeAgain := False, writeEOF := False, df_state := TX_HEADER, df_msgRemaining := 0,
       df_lenRemaining := 0\<rparr>"

text \<open>\<open>resetAll\<close> also forgets the frame and the descriptor; only the constructor calls it.\<close>

definition PDeframer_resetAll :: "deframer \<Rightarrow> deframer" where
  "PDeframer_resetAll d =
     PDeframer_resetState
       (d\<lparr>txdFrame := \<lparr>fr_header = 0, fr_len = 0, fr_msg = []\<rparr>, assocFd := - 1,
          writeInProgress := False\<rparr>)"

definition PDeframer_new :: "byte \<Rightarrow> deframer" where
  "PDeframer_new pad =
     PDeframer_resetAll
       \<lparr>assocFd = 0, df_state = TX_HEADER, df_msgRemaining = 0, df_lenRemaining = 0,
        txdFrame = \<lparr>fr_header = 0, fr_len = 0, fr_msg = []\<rparr>, writeInProgress = False,
        writeEOF = False, writeAgain = False, df_pad = pad\<rparr>"

definition isWriteInProgress :: "deframer \<Rightarrow> bool" where
  "isWriteInProgress d = writeInProgress d"

definition isWriteEof :: "deframer \<Rightarrow> bool" where
  "isWriteEof d = writeEOF d"

definition isWriteAgain :: "deframer \<Rightarrow> bool" where
  "isWriteAgain d = writeAgain d"

definition PDeframer_setSentItem :: "work_item \<Rightarrow> deframer \<Rightarrow> bool \<times> deframer" where
  "PDeframer_setSentItem itm d =
     (if writeInProgress d then (False, d)
      else (True, PDeframer_resetState
              (d\<lparr>txdFrame := snd itm, assocFd := fst itm, writeInProgress := True\<rparr>)))"

definition PDeframer_trySend ::
    "bytes \<Rightarrow> deframer \<Rightarrow> tx_event list \<Rightarrow> bytes \<Rightarrow>
     (fault + nat) \<times> deframer \<times> tx_event list \<times> bytes" where
  "PDeframer_trySend buf d s out =
     (if buf = [] then (Inr 0, d, s, out)
      else case sys_send (length buf) s of
        (Sent k, s') \<Rightarrow>
          if k = 0 then (Inr 0, d\<lparr>writeEOF := True\<rparr>, s', out)
          else (Inr k, d\<lparr>writeAgain := False\<rparr>, s', out @ take k buf)
      | (SendFail e, s') \<Rightarrow>
          if e = EAGAIN then (Inr 0, d\<lparr>writeAgain := True\<rparr>, s', out)
          else (Inl (SystemError e), d, s', out))"

text \<open>The bytes from \<open>&txdFrame.len + 2 - rem\<close> on, \<open>rem\<close> of them.\<close>

definition len_buffer :: "nat \<Rightarrow> deframer \<Rightarrow> bytes" where
  "len_buffer rem d =
     (if rem = 2 then [lo_byte (fr_len (txdFrame d)), hi_byte (fr_len (txdFrame d))]
      else if rem = 1 then [df_pad d]
      else [])"

definition PDeframer_txHeader ::
    "deframer \<Rightarrow> tx_event list \<Rightarrow> bytes \<Rightarrow> (fault + bool) \<times> deframer \<times> tx_event list \<times> bytes" where
  "PDeframer_txHeader d s out =
     (case PDeframer_trySend [fr_header (txdFrame d)] d s out of
        (Inl e, d1, s1, o1) \<Rightarrow> (Inl e, d1, s1, o1)
      | (Inr n, d1, s1, o1) \<Rightarrow>
          (Inr (0 < n), if n = 1 then d1\<lparr>df_state := TX_LEN, df_lenRemaining := 2\<rparr> else d1, s1, o1))"

definition PDeframer_txLen ::
    "deframer \<Rightarrow> tx_event list \<Rightarrow> bytes \<Rightarrow> (fault + bool) \<times> deframer \<times> tx_event list \<times> bytes" where
  "PDeframer_txLen d s out =
     (let d0 = d\<lparr>txdFrame := (txdFrame d)\<lparr>fr_len := htons (fr_len (txdFrame d))\<rparr>\<rparr>
      in case PDeframer_trySend (len_buffer (df_lenRemaining d0) d0) d0 s out of
        (Inl e, d1, s1, o1) \<Rightarrow> (Inl e, d1, s1, o1)
      | (Inr n, d1, s1, o1) \<Rightarrow>
          (let d2 = d1\<lparr>df_lenRemaining := df_lenRemaining d1 - n\<rparr>;
               l = ntohs (fr_len (txdFrame d2));
               d3 = (if df_lenRemaining d2 = 0
                     then d2\<lparr>txdFrame := (txdFrame d2)\<lparr>fr_len := l\<rparr>, df_state := TX_MSG,
                             df_msgRemaining := unat l\<rparr>
                     else d2)
           in (Inr (0 < n), d3, s1, o1)))"

definition PDeframer_txMsg ::
    "deframer \<Rightarrow> tx_event list \<Rightarrow> bytes \<Rightarrow> (fault + bool) \<times> deframer \<times> tx_event list \<times> bytes" where
  "PDeframer_txMsg d s out =
     (let off = unat (fr_len (txdFrame d)) - df_msgRemaining d
      in if df_msgRemaining d \<noteq> 0 \<and> length (fr_msg (txdFrame d)) < off + df_msgRemaining d
         then (Inl OutOfBounds, d, s, out)
         else case PDeframer_trySend (take (df_msgRemaining d) (drop off (fr_msg (txdFrame d)))) d s out of
           (Inl e, d1, s1, o1) \<Rightarrow> (Inl e, d1, s1, o1)
         | (Inr n, d1, s1, o1) \<Rightarrow>
             (let d2 = d1\<lparr>df_msgRemaining := df_msgRemaining d1 - n\<rparr>
              in (Inr (0 < n), if df_msgRemaining d2 = 0 then d2\<lparr>writeInProgress := False\<rparr> else d2,
                  s1, o1)))"

definition PDeframer_tryWrite ::
    "deframer \<Rightarrow> tx_event list \<Rightarrow> bytes \<Rightarrow> (fault + bool) \<times> deframer \<times> tx_event list \<times> bytes" where
  "PDeframer_tryWrite d s out =
     (if \<not> writeInProgress d then (Inr False, d, s, out)
      else case df_state d of
        TX_HEADER \<Rightarrow> PDeframer_txHeader d s out
      | TX_LEN \<Rightarrow> PDeframer_txLen d s out
      | TX_MSG \<Rightarrow> PDeframer_txMsg d s out)"

section \<open>The write loop\<close>

lemma trySend_size:
  "PDeframer_trySend buf d s out = (Inr n, d', s', out') \<Longrightarrow> tx_size s = n + tx_size s' \<or> n = 0"
  by (auto simp: PDeframer_trySend_def send_size split: if_splits prod.splits send_result.splits)

lemma tryWrite_progress:
  assumes "PDeframer_tryWrite d s out = (Inr True, d', s', out')"
  shows "tx_size s' < tx_size s"
  using assms
  by (auto simp: PDeframer_tryWrite_def PDeframer_txHeader_def PDeframer_txLen_def
      PDeframer_txMsg_def Let_def split: tx_state.splits prod.splits sum.splits if_splits
      dest!: trySend_size)

function PDeframer_writeAll ::
    "deframer \<Rightarrow> tx_event list \<Rightarrow> bytes \<Rightarrow> (fault + bool) \<times> deframer \<times> tx_event list \<times> bytes" where
  "PDeframer_writeAll d s out =
     (case PDeframer_tryWrite d s out of
        (Inl e, d', s', out') \<Rightarrow> (Inl e, d', s', out')
      | (Inr True, d', s', out') \<Rightarrow> PDeframer_writeAll d' s' out'
      | (Inr False, d', s', out') \<Rightarrow> (Inr (\<not> writeInProgress d'), d', s', out'))"
  by pat_completeness auto
termination
  by (relation "measure (\<lambda>(d, s, out). tx_size s)") (auto dest: tryWrite_progress [OF sym])

declare PDeframer_writeAll.simps [simp del]

lemma writeAll_unfold:
  "PDeframer_tryWrite d s out = (Inr True, d', s', out') \<Longrightarrow>
     PDeframer_writeAll d s out = PDeframer_writeAll d' s' out'"
  "PDeframer_tryWrite d s out = (Inr False, d', s', out') \<Longrightarrow>
     PDeframer_writeAll d s out = (Inr (\<not> writeInProgress d'), d', s', out')"
  "PDeframer_tryWrite d s out = (Inl e, d', s', out') \<Longrightarrow>
     PDeframer_writeAll d s out = (Inl e, d', s', out')"
  by (simp_all add: PDeframer_writeAll.simps [of d s out])

lemma writeAll_induct [case_names Step]:
  assumes "\<And>d s out. (\<And>d' s' out'. PDeframer_tryWrite d s out = (Inr True, d', s', out') \<Longrightarrow>
      P d' s' out') \<Longrightarrow> P d s out"
  shows "P d s out"
proof (induction "tx_size s" arbitrary: d s out rule: less_induct)
  case less
  show ?case
    by (rule assms) (blast intro: less tryWrite_progress)
qed

section \<open>Sending a frame\<close>

text \<open>\<open>sending d g W\<close>: of the wire form of \<open>g\<close> the bytes \<open>W\<close> have not been accepted yet.\<close>

definition sending :: "deframer \<Rightarrow> frame \<Rightarrow> bytes \<Rightarrow> bool" where
  "sending d g W \<longleftrightarrow>
     (if \<not> writeInProgress d then W = []
      else txdFrame d = g \<and> frame_wf g \<and>
        (case df_state d of
           TX_HEADER \<Rightarrow> W = wire g
         | TX_LEN \<Rightarrow> df_lenRemaining d = 2 \<and> W = tl (wire g)
         | TX_MSG \<Rightarrow> df_msgRemaining d = length W \<and>
             (\<exists>sent. fr_msg g = sent @ W)))"

text \<open>The condition on the socket: it takes both length bytes in one call, right after the header.\<close>

definition len_room :: "deframer \<Rightarrow> tx_event list \<Rightarrow> bool" where
  "len_room d s \<longleftrightarrow>
     (if \<not> writeInProgress d then True
      else case df_state d of
        TX_HEADER \<Rightarrow> 0 < tx_size s \<longrightarrow> 2 \<le> tx_avail (tx_drop 1 s)
      | TX_LEN \<Rightarrow> 2 \<le> tx_avail s
      | TX_MSG \<Rightarrow> True)"

lemma trySend_pure:
  assumes "tx_pure s" "buf \<noteq> []" "0 < tx_size s"
  obtains k s' where "PDeframer_trySend buf d s out = (Inr k, d\<lparr>writeAgain := False\<rparr>, s', out @ take k buf)"
    "0 < k" "k = min (length buf) (tx_avail s)" "tx_pure s'" "tx_size s = k + tx_size s'"
    "tx_drop k s = tx_drop 0 s'"
proof -
  obtain k s' where k: "sys_send (length buf) s = (Sent k, s')" "0 < k"
      "k = min (length buf) (tx_avail s)" "tx_pure s'" "tx_size s = k + tx_size s'"
      "tx_drop k s = tx_drop 0 s'"
    using send_pure [OF assms(1) _ assms(3), of "length buf"] assms(2) by auto
  have "PDeframer_trySend buf d s out = (Inr k, d\<lparr>writeAgain := False\<rparr>, s', out @ take k buf)"
    using k(1,2) assms(2) by (simp add: PDeframer_trySend_def)
  with k(2-) that show thesis by blast
qed

text \<open>One call of \<open>tryWrite\<close> with something left to send and room for it.\<close>

lemma tryWrite_sends:
  assumes snd: "sending d g W" and prog: "writeInProgress d" "W \<noteq> []"
    and s: "tx_pure s" "0 < tx_size s" "len_room d s"
  shows "\<exists>d' s' k. PDeframer_tryWrite d s out = (Inr True, d', s', out @ take k W) \<and> 0 < k \<and>
     k \<le> length W \<and> tx_size s = k + tx_size s' \<and> sending d' g (drop k W) \<and> tx_pure s' \<and>
     len_room d' s' \<and> df_state d' \<noteq> TX_HEADER"
proof (cases "df_state d")
  case TX_HEADER
  with snd prog have g: "txdFrame d = g" "frame_wf g" "W = wire g"
    by (auto simp: sending_def)
  from trySend_pure [OF s(1) _ s(2), of "[fr_header g]" d out]
  obtain k s' where k: "PDeframer_trySend [fr_header g] d s out =
        (Inr k, d\<lparr>writeAgain := False\<rparr>, s', out @ take k [fr_header g])"
      "0 < k" "k = min (length [fr_header g]) (tx_avail s)" "tx_pure s'" "tx_size s = k + tx_size s'"
      "tx_drop k s = tx_drop 0 s'"
    by blast
  then have k1: "k = 1" by simp
  with s(3) k TX_HEADER prog s(2) have "2 \<le> tx_avail s'"
    by (simp add: len_room_def)
  with TX_HEADER prog g k k1 show ?thesis
    by (intro exI [of _ "d\<lparr>writeAgain := False, df_state := TX_LEN, df_lenRemaining := 2\<rparr>"]
        exI [of _ s'] exI [of _ 1])
      (simp add: PDeframer_tryWrite_def PDeframer_txHeader_def sending_def len_room_def wire_def)
next
  case TX_LEN
  with snd prog have g: "txdFrame d = g" "frame_wf g" "W = tl (wire g)" "df_lenRemaining d = 2"
    by (auto simp: sending_def)
  from TX_LEN prog s(3) have av: "2 \<le> tx_avail s" by (simp add: len_room_def)
  let ?l = "fr_len g"
  let ?d0 = "d\<lparr>txdFrame := g\<lparr>fr_len := htons ?l\<rparr>\<rparr>"
  let ?buf = "[hi_byte ?l, lo_byte ?l]"
  have buf: "len_buffer 2 ?d0 = ?buf"
    by (simp add: len_buffer_def htons_def)
  from trySend_pure [OF s(1) _ s(2), of ?buf ?d0 out]
  obtain k s' where k: "PDeframer_trySend ?buf ?d0 s out =
        (Inr k, ?d0\<lparr>writeAgain := False\<rparr>, s', out @ take k ?buf)"
      "0 < k" "k = min (length ?buf) (tx_avail s)" "tx_pure s'" "tx_size s = k + tx_size s'"
      "tx_drop k s = tx_drop 0 s'"
    by blast
  with av have k2: "k = 2" by simp
  let ?d = "d\<lparr>writeAgain := False, txdFrame := g, df_state := TX_MSG, df_lenRemaining := 0,
      df_msgRemaining := unat ?l\<rparr>"
  have "PDeframer_tryWrite d s out = (Inr True, ?d, s', out @ ?buf)"
    using TX_LEN prog g k k2 buf
    by (simp add: PDeframer_tryWrite_def PDeframer_txLen_def Let_def)
  moreover have "sending ?d g (fr_msg g)"
    using prog g by (simp add: sending_def frame_wf_def)
  ultimately show ?thesis
    using TX_LEN prog g k(4,5) k2
    by (intro exI [of _ ?d] exI [of _ s'] exI [of _ 2]) (simp add: len_room_def wire_def)
next
  case TX_MSG
  with snd prog obtain sent where g: "txdFrame d = g" "frame_wf g" "df_msgRemaining d = length W"
      "fr_msg g = sent @ W"
    by (auto simp: sending_def)
  then have off: "unat (fr_len g) - length W = length sent" "unat (fr_len g) = length sent + length W"
    by (simp_all add: frame_wf_def)
  from trySend_pure [OF s(1) prog(2) s(2), of d out]
  obtain k s' where k: "PDeframer_trySend W d s out = (Inr k, d\<lparr>writeAgain := False\<rparr>, s', out @ take k W)"
      "0 < k" "k = min (length W) (tx_avail s)" "tx_pure s'" "tx_size s = k + tx_size s'"
      "tx_drop k s = tx_drop 0 s'"
    by blast
  let ?d = "d\<lparr>writeAgain := False, df_msgRemaining := length W - k,
      writeInProgress := (length W - k \<noteq> 0)\<rparr>"
  have "PDeframer_tryWrite d s out = (Inr True, ?d, s', out @ take k W)"
    using TX_MSG prog g k off
    by (simp add: PDeframer_tryWrite_def PDeframer_txMsg_def Let_def)
  moreover have "sending ?d g (drop k W)"
    using TX_MSG prog g k(3) by (auto simp: sending_def intro: exI [of _ "sent @ take k W"])
  ultimately show ?thesis
    using TX_MSG k(2-5) by (intro exI [of _ ?d] exI [of _ s'] exI [of _ k]) (simp add: len_room_def)
qed

lemma tryWrite_idle:
  assumes snd: "sending d g W" and s: "tx_pure s" "W \<noteq> [] \<longrightarrow> tx_size s = 0" "len_room d s"
  shows "\<exists>d' s'. PDeframer_tryWrite d s out = (Inr False, d', s', out) \<and> sending d' g W \<and>
     (writeInProgress d' \<longleftrightarrow> W \<noteq> []) \<and> (df_state d' = df_state d)"
proof (cases "writeInProgress d \<and> W \<noteq> []")
  case True
  then have "tx_size s = 0" using s(2) by simp
  note r = send_empty [OF s(1) this]
  from True snd show ?thesis
  proof (cases "df_state d")
    case TX_HEADER
    with True snd r show ?thesis
      by (auto simp: PDeframer_tryWrite_def PDeframer_txHeader_def PDeframer_trySend_def sending_def)
  next
    case TX_LEN
    with s(3) True \<open>tx_size s = 0\<close> tx_avail_le [of s] show ?thesis
      by (simp add: len_room_def)
  next
    case TX_MSG
    with True snd r show ?thesis
      by (auto simp: PDeframer_tryWrite_def PDeframer_txMsg_def PDeframer_trySend_def sending_def
          frame_wf_def Let_def)
  qed
next
  case False
  then show ?thesis
    using snd
    by (cases "df_state d")
      (auto simp: PDeframer_tryWrite_def PDeframer_txMsg_def PDeframer_trySend_def sending_def wire_def
        Let_def split: if_splits)
qed

lemma len_room_state:
  assumes "len_room d s" "tx_size s = 0" "df_state d \<noteq> TX_HEADER" "writeInProgress d"
  shows "df_state d = TX_MSG"
  using assms tx_avail_le [of s] by (cases "df_state d") (auto simp: len_room_def)

lemma writeAll_sends:
  assumes "sending d g W" "tx_pure s" "len_room d s"
  shows "\<exists>d' s'. PDeframer_writeAll d s out =
           (Inr (\<not> writeInProgress d'), d', s', out @ take (tx_size s) W) \<and>
         sending d' g (drop (tx_size s) W) \<and> (writeInProgress d' \<longleftrightarrow> drop (tx_size s) W \<noteq> []) \<and>
         (writeInProgress d' \<longrightarrow> df_state d' = (if tx_size s = 0 then df_state d else TX_MSG))"
  using assms
proof (induction d s out arbitrary: W rule: writeAll_induct)
  case (Step d s out)
  show ?case
  proof (cases "W \<noteq> [] \<longrightarrow> tx_size s = 0")
    case True
    from tryWrite_idle [OF Step.prems(1,2) True Step.prems(3), of out] True
    show ?thesis
      by (auto simp: writeAll_unfold)
  next
    case False
    with Step.prems(1) have "writeInProgress d"
      by (auto simp: sending_def split: if_splits)
    with tryWrite_sends [OF Step.prems(1) _ _ Step.prems(2) _ Step.prems(3), of out] False
    obtain d1 s1 k where 1: "PDeframer_tryWrite d s out = (Inr True, d1, s1, out @ take k W)"
        "0 < k" "k \<le> length W" "tx_size s = k + tx_size s1" "sending d1 g (drop k W)" "tx_pure s1"
        "len_room d1 s1" "df_state d1 \<noteq> TX_HEADER"
      by blast
    from Step.IH [OF 1(1) 1(5-7)] obtain d' s' where 2: "PDeframer_writeAll d1 s1 (out @ take k W) =
          (Inr (\<not> writeInProgress d'), d', s', (out @ take k W) @ take (tx_size s1) (drop k W))"
        "sending d' g (drop (tx_size s1) (drop k W))"
        "writeInProgress d' \<longleftrightarrow> drop (tx_size s1) (drop k W) \<noteq> []"
        "writeInProgress d' \<longrightarrow> df_state d' = (if tx_size s1 = 0 then df_state d1 else TX_MSG)"
      by blast
    have "take k W @ take (tx_size s1) (drop k W) = take (tx_size s) W"
      by (simp add: 1(4) take_add)
    moreover have "df_state d' = TX_MSG" if "writeInProgress d'"
    proof -
      have "writeInProgress d1"
        using that 2(3) 1(5) by (auto simp: sending_def split: if_splits)
      with that 2(4) len_room_state [OF 1(7) _ 1(8)] show ?thesis
        by (auto split: if_splits)
    qed
    ultimately show ?thesis
      using 1 2 by (intro exI [of _ d'] exI [of _ s']) (auto simp: writeAll_unfold add.commute)
  qed
qed

text \<open>One \<open>writeAll\<close> per readiness event; between two events the socket frees some more room.\<close>

fun write_batches :: "deframer \<Rightarrow> tx_event list list \<Rightarrow> bytes \<Rightarrow> fault + (deframer \<times> bytes)" where
  "write_batches d [] out = Inr (d, out)"
| "write_batches d (b # bs) out =
     (case PDeframer_writeAll d b out of
        (Inl e, _) \<Rightarrow> Inl e
      | (Inr _, d', _, out') \<Rightarrow> write_batches d' bs out')"

definition header_room :: "tx_event list list \<Rightarrow> bool" where
  "header_room bs \<longleftrightarrow>
     (case dropWhile (\<lambda>b. tx_size b = 0) bs of
        [] \<Rightarrow> True
      | b # _ \<Rightarrow> 2 \<le> tx_avail (tx_drop 1 b))"

lemma write_batches_sends:
  assumes "sending d g W" "list_all tx_pure bs"
    "writeInProgress d \<longrightarrow> df_state d = TX_MSG \<or> df_state d = TX_HEADER \<and> header_room bs"
    "writeInProgress d \<longleftrightarrow> W \<noteq> []"
  shows "\<exists>d'. write_batches d bs out = Inr (d', out @ take (sum_list (map tx_size bs)) W) \<and>
           sending d' g (drop (sum_list (map tx_size bs)) W) \<and>
           (writeInProgress d' \<longleftrightarrow> drop (sum_list (map tx_size bs)) W \<noteq> [])"
  using assms
proof (induction bs arbitrary: d W out)
  case Nil
  then show ?case by simp
next
  case (Cons b bs)
  have "len_room d b"
    using Cons.prems(3) by (auto simp: len_room_def header_room_def split: tx_state.splits)
  moreover have "tx_pure b" using Cons.prems(2) by simp
  ultimately obtain d1 s1 where 1: "PDeframer_writeAll d b out =
        (Inr (\<not> writeInProgress d1), d1, s1, out @ take (tx_size b) W)"
      "sending d1 g (drop (tx_size b) W)" "writeInProgress d1 \<longleftrightarrow> drop (tx_size b) W \<noteq> []"
      "writeInProgress d1 \<longrightarrow> df_state d1 = (if tx_size b = 0 then df_state d else TX_MSG)"
    using writeAll_sends [OF Cons.prems(1), of b out] by blast
  have "writeInProgress d" if "writeInProgress d1"
    using that 1(3) Cons.prems(1) by (auto simp: sending_def split: if_splits)
  then have "writeInProgress d1 \<longrightarrow> df_state d1 = TX_MSG \<or> df_state d1 = TX_HEADER \<and> header_room bs"
    using 1(4) Cons.prems(3) by (auto simp: header_room_def split: if_splits)
  with Cons.IH [OF 1(2) _ _ 1(3), of "out @ take (tx_size b) W"] Cons.prems(2) obtain d' where
      "write_batches d1 bs (out @ take (tx_size b) W) =
         Inr (d', (out @ take (tx_size b) W) @ take (sum_list (map tx_size bs)) (drop (tx_size b) W))"
      "sending d' g (drop (sum_list (map tx_size bs)) (drop (tx_size b) W))"
      "writeInProgress d' \<longleftrightarrow> drop (sum_list (map tx_size bs)) (drop (tx_size b) W) \<noteq> []"
    by auto
  with 1(1) show ?case
    by (simp add: take_add add.commute)
qed

lemma sending_setSentItem:
  assumes "\<not> writeInProgress d" "frame_wf g"
  shows "fst (PDeframer_setSentItem (fd, g) d) \<and>
         sending (snd (PDeframer_setSentItem (fd, g) d)) g (wire g) \<and>
         df_state (snd (PDeframer_setSentItem (fd, g) d)) = TX_HEADER"
  using assms by (simp add: PDeframer_setSentItem_def PDeframer_resetState_def sending_def)

lemma sending_Nil_done:
  "sending d g [] \<Longrightarrow> PDeframer_tryWrite d s out = (Inr False, d\<lparr>writeInProgress := False\<rparr>, s, out)"
  by (cases "df_state d")
    (auto simp: sending_def wire_def PDeframer_tryWrite_def PDeframer_txMsg_def PDeframer_trySend_def
      split: if_splits)

lemma unat_ntohs_ne:
  "hi_byte w \<noteq> lo_byte w \<Longrightarrow> ntohs w \<noteq> w"
  by (metis ntohs_def lo_byte_join)

lemma writeAll_interrupted_length:
  assumes g: "frame_wf g" "unat (fr_len g) < unat (ntohs (fr_len g))" and d: "\<not> writeInProgress d"
  shows "\<exists>d1. PDeframer_writeAll (snd (PDeframer_setSentItem (fd, g) d)) [TxRoom 1] out =
           (Inr False, d1, [], out @ [fr_header g]) \<and>
         (\<exists>d2. PDeframer_writeAll d1 [TxRoom (Suc (Suc n))] (out @ [fr_header g]) =
            (Inl OutOfBounds, d2, (if n = 0 then [] else [TxRoom n]),
             out @ [fr_header g, lo_byte (fr_len g), hi_byte (fr_len g)]))"
proof -
  let ?d0 = "snd (PDeframer_setSentItem (fd, g) d)"
  let ?d1 = "?d0\<lparr>df_state := TX_LEN, df_lenRemaining := 2\<rparr>"
  let ?d2 = "?d1\<lparr>txdFrame := g\<lparr>fr_len := htons (fr_len g)\<rparr>, writeAgain := True\<rparr>"
  let ?d3 = "?d2\<lparr>txdFrame := g\<lparr>fr_len := ntohs (fr_len g)\<rparr>, writeAgain := False, df_state := TX_MSG,
      df_lenRemaining := 0, df_msgRemaining := unat (ntohs (fr_len g))\<rparr>"
  note defs = PDeframer_setSentItem_def PDeframer_resetState_def PDeframer_tryWrite_def
    PDeframer_txHeader_def PDeframer_txLen_def PDeframer_txMsg_def PDeframer_trySend_def Let_def
  have h: "PDeframer_tryWrite ?d0 [TxRoom 1] out = (Inr True, ?d1, [], out @ [fr_header g])"
    using d by (simp add: defs)
  have l: "PDeframer_tryWrite ?d1 [] (out @ [fr_header g]) = (Inr False, ?d2, [], out @ [fr_header g])"
    using d by (simp add: defs len_buffer_def)
  have m: "PDeframer_tryWrite ?d2 [TxRoom (Suc (Suc n))] (out @ [fr_header g]) =
      (Inr True, ?d3, (if n = 0 then [] else [TxRoom n]),
       out @ [fr_header g, lo_byte (fr_len g), hi_byte (fr_len g)])"
    using d by (simp add: defs len_buffer_def)
  have o: "PDeframer_tryWrite ?d3 s out' = (Inl OutOfBounds, ?d3, s, out')" for s out'
    using d g by (simp add: defs frame_wf_def)
  have "PDeframer_writeAll ?d0 [TxRoom 1] out = (Inr False, ?d2, [], out @ [fr_header g])"
    using writeAll_unfold(1) [OF h] writeAll_unfold(2) [OF l] d by (simp add: defs)
  moreover have "PDeframer_writeAll ?d2 [TxRoom (Suc (Suc n))] (out @ [fr_header g]) =
      (Inl OutOfBounds, ?d3, (if n = 0 then [] else [TxRoom n]),
       out @ [fr_header g, lo_byte (fr_len g), hi_byte (fr_len g)])"
    using writeAll_unfold(1) [OF m] writeAll_unfold(3) [OF o] by simp
  ultimately show ?thesis by blast
qed

section \<open>Properties\<close>

text \<open>C15: A frame given to an idle sender is put on the wire exactly: header byte, length in network
  order, message, once and in order, over any number of readiness events with any room in the send
  buffer, as long as the buffer takes the two length bytes in the same call right after the header
  and has room for the whole frame in the end; the sender is then idle again.\<close>

theorem PDeframer_sends_frame:
  assumes "\<not> writeInProgress d" "frame_wf g" "list_all tx_pure bs" "header_room bs"
    "length (wire g) \<le> sum_list (map tx_size bs)"
  shows "\<exists>d'. write_batches (snd (PDeframer_setSentItem (fd, g) d)) bs out = Inr (d', out @ wire g) \<and>
           \<not> writeInProgress d'"
proof -
  let ?d = "snd (PDeframer_setSentItem (fd, g) d)"
  from sending_setSentItem [OF assms(1,2), of fd]
  have s: "sending ?d g (wire g)" "df_state ?d = TX_HEADER" by simp_all
  moreover have "writeInProgress ?d \<longleftrightarrow> wire g \<noteq> []"
    using assms(1) by (simp add: PDeframer_setSentItem_def PDeframer_resetState_def wire_def)
  ultimately show ?thesis
    using write_batches_sends [OF s(1) assms(3), of out] assms(4,5) by auto
qed

theorem PDeframer_sends_frame_witness:
  "\<exists>d'. write_batches (snd (PDeframer_setSentItem (5, \<lparr>fr_header = 0xF0, fr_len = 2, fr_msg = [7, 8]\<rparr>)
           (PDeframer_new 0))) [[], [TxRoom 3, TxRoom 1], [TxRoom 9]] [1] =
         Inr (d', [1] @ wire \<lparr>fr_header = 0xF0, fr_len = 2, fr_msg = [7, 8]\<rparr>) \<and> \<not> writeInProgress d'"
  by (rule PDeframer_sends_frame)
    (simp_all add: PDeframer_new_def PDeframer_resetAll_def PDeframer_resetState_def frame_wf_def header_room_def)

text \<open>If the send buffer is full when the length is due, the frame goes out wrong: after the header
  is accepted and the length would block, the next \<open>writeAll\<close> sends the length bytes in the
  opposite order and then, whenever the swapped length is larger than the real one, passes more
  bytes to \<open>send\<close> than the message has (a read beyond the message).\<close>

lemma PDeframer_interrupted_length:
  assumes "\<not> writeInProgress d" "frame_wf g" "unat (fr_len g) < unat (ntohs (fr_len g))"
  shows "\<exists>d1 d2. PDeframer_writeAll (snd (PDeframer_setSentItem (fd, g) d)) [TxRoom 1] out =
           (Inr False, d1, [], out @ [fr_header g]) \<and>
         PDeframer_writeAll d1 [TxRoom (Suc (Suc n))] (out @ [fr_header g]) =
           (Inl OutOfBounds, d2, (if n = 0 then [] else [TxRoom n]),
            out @ [fr_header g, lo_byte (fr_len g), hi_byte (fr_len g)])"
  using writeAll_interrupted_length [OF assms(2,3,1), of fd out n] by blast

end
