(* ===== verification/Servers.thy ===== *)
theory Servers
  imports Workers PFramers PDeframers
begin

text \<open>
  \<open>Server\<close> (\<open>Server.cpp\<close>, \<open>protocom/Server.h\<close>): the epoll loop that owns the connections, and the loop of
  the worker's thread, which runs beside it on the same state. The record \<open>server\<close> is that shared state,
  with what the kernel keeps for the process: the open descriptors, the epoll interest list, the
  counter of the event descriptor and the bytes each socket took.

  Interleaving is explicit: an action of one thread is atomic and a run is a list of actions. The loop's
  actions hold \<open>fdTableMtx\<close>; the worker's do not always (it reads the table without the lock in \<open>closeClient\<close>),
  so a data race inside an action is not modelled. What the kernel answers during an action comes with it.
\<close>

section \<open>State\<close>

record conn_ctx =
  cc_framer :: framer
  cc_deframer :: deframer
  txReady :: bool
  cc_fd :: int
  client_addr :: nat

record server =
  worker :: "server_worker option"
  srv_auth :: "authenticator option"
  wqIn :: work_queue
  wqOut :: work_queue
  srv_fd :: int
  epollFd :: int
  eventFdOut :: int
  info_string :: string
  fdInfoTable :: "int \<rightharpoonup> conn_ctx"
  userHandlerFactory :: "user_factory option"
  running :: bool
  k_open :: "int set"
  k_interest :: "int set"
  k_count :: nat
  k_sent :: "int \<Rightarrow> bytes"

text \<open>The answers of \<open>accept4\<close>, and what a call of \<open>epoll_wait\<close> reports with the answers that follow:
  \<open>ev_stale\<close> is what a read of the destroyed connection context gives (see \<open>closeClient_ctx\<close>).\<close>

record accepted =
  ac_fd :: int
  ac_addr :: nat
  ac_added :: bool
  ac_seed :: nat
  ac_fill :: byte

datatype accept_result = AcceptFail errno | AcceptOk accepted

record epoll_event =
  ev_fd :: int
  ev_in :: bool
  ev_out :: bool
  ev_err :: bool
  ev_hup :: bool
  ev_rx :: "rx_event list"
  ev_tx :: "tx_event list"
  ev_accept :: accept_result
  ev_stale :: int

datatype wait_result = WaitFail errno | WaitEvents "epoll_event list"

section \<open>The kernel's part\<close>

definition k_close :: "int \<Rightarrow> server \<Rightarrow> server" where
  "k_close fd s = s\<lparr>k_open := k_open s - {fd}, k_interest := k_interest s - {fd}\<rparr>"

definition k_notify :: "server \<Rightarrow> server" where
  "k_notify s = s\<lparr>k_count := snd (eventfd_write (k_count s))\<rparr>"

definition epollDelClient :: "int \<Rightarrow> server \<Rightarrow> bool \<times> server" where
  "epollDelClient client_fd s =
     (if client_fd \<notin> k_interest s then (False, s)
      else (True, s\<lparr>k_interest := k_interest s - {client_fd}\<rparr>))"

text \<open>A descriptor that has just been accepted is not in the interest list: closing removes it from there.\<close>

definition epollAddClient :: "int \<Rightarrow> bool \<Rightarrow> server \<Rightarrow> bool \<times> server" where
  "epollAddClient client_fd added s =
     (if \<not> added then (False, s)
      else (True, s\<lparr>k_interest := insert client_fd (k_interest s)\<rparr>))"

section \<open>Construction\<close>

definition Server_new :: "int \<Rightarrow> int \<Rightarrow> errno \<Rightarrow> fault + server" where
  "Server_new epfd evfd e =
     (if epfd < 1 then Inl (SystemError e)
      else if evfd < 1 then Inl (SystemError e)
      else Inr \<lparr>worker = None, srv_auth = None, wqIn = WorkQueue_init, wqOut = WorkQueue_init, srv_fd = - 1,
                epollFd = epfd, eventFdOut = evfd, info_string = ''A server.'', fdInfoTable = Map.empty,
                userHandlerFactory = Some NullUserHandlerFactory, running = False, k_open = {epfd, evfd},
                k_interest = {}, k_count = 0, k_sent = (\<lambda>fd. [])\<rparr>)"

text \<open>
  \<open>bindSock\<close>: the new descriptor, then what the kernel says to \<open>bind\<close>, \<open>listen\<close> and both \<open>epoll_ctl\<close> calls; it refuses
  to add a descriptor that is already in the interest list (\<open>EEXIST\<close>).
\<close>

definition epoll_add :: "int \<Rightarrow> bool \<Rightarrow> server \<Rightarrow> bool \<times> server" where
  "epoll_add newfd added s =
     (if \<not> added \<or> newfd \<in> k_interest s then (False, s)
      else (True, s\<lparr>k_interest := insert newfd (k_interest s)\<rparr>))"

definition bindSock :: "int \<Rightarrow> bool \<Rightarrow> bool \<Rightarrow> bool \<Rightarrow> bool \<Rightarrow> server \<Rightarrow> bool \<times> server" where
  "bindSock newfd bound listening added1 added2 s =
     (let s = s\<lparr>srv_fd := newfd\<rparr>
      in if newfd = - 1 then (False, s)
         else let s = s\<lparr>k_open := insert newfd (k_open s)\<rparr>
         in if \<not> bound then (False, s)
            else if \<not> listening then (False, s)
            else case epoll_add newfd added1 s of
                   (False, s) \<Rightarrow> (False, s)
                 | (True, s) \<Rightarrow>
                     (case epoll_add (eventFdOut s) added2 s of
                        (False, s) \<Rightarrow> (False, s)
                      | (True, s) \<Rightarrow> (True, s\<lparr>running := True\<rparr>)))"

lemmas bindSock_defs = bindSock_def epoll_add_def Let_def

definition ConnectionContext_new :: "int \<Rightarrow> nat \<Rightarrow> byte \<Rightarrow> conn_ctx" where
  "ConnectionContext_new fd addr fill =
     \<lparr>cc_framer = PFramer_new fd fill, cc_deframer = PDeframer_new fill, txReady = False, cc_fd = fd,
      client_addr = addr\<rparr>"

definition setAuthenticator :: "authenticator option \<Rightarrow> server \<Rightarrow> server" where
  "setAuthenticator a s = s\<lparr>srv_auth := a\<rparr>"

definition getAuthenticator :: "server \<Rightarrow> authenticator option" where
  "getAuthenticator s = srv_auth s"

definition setUserHandlerFactory :: "user_factory option \<Rightarrow> server \<Rightarrow> server" where
  "setUserHandlerFactory fac s = s\<lparr>userHandlerFactory := fac\<rparr>"

definition setInfoString :: "string \<Rightarrow> server \<Rightarrow> server" where
  "setInfoString t s = s\<lparr>info_string := t\<rparr>"

definition getEventFdOut :: "server \<Rightarrow> int" where
  "getEventFdOut s = eventFdOut s"

definition isRunning :: "server \<Rightarrow> bool" where
  "isRunning s = running s"

section \<open>Connections\<close>

definition createHandler_conn :: "accepted \<Rightarrow> server \<Rightarrow> bool \<times> server" where
  "createHandler_conn a s =
     (case worker s of
        None \<Rightarrow> (False, s)
      | Some w \<Rightarrow>
          let cctx = ConnectionContext_new (ac_fd a) (ac_addr a) (ac_fill a);
              table = (case fdInfoTable s (ac_fd a) of
                         Some _ \<Rightarrow> fdInfoTable s
                       | None \<Rightarrow> (fdInfoTable s)(ac_fd a \<mapsto> cctx))
          in (True, s\<lparr>fdInfoTable := table, worker := Some (createContext (ac_fd a) (ac_seed a) w)\<rparr>))"

definition destroyHandler :: "int \<Rightarrow> server \<Rightarrow> server" where
  "destroyHandler clientfd s =
     (case worker s of
        None \<Rightarrow> s
      | Some w \<Rightarrow> s\<lparr>fdInfoTable := (fdInfoTable s)(clientfd := None),
                     worker := Some (destroyContext clientfd w)\<rparr>)"

text \<open>
  \<open>closeClient(ConnectionContext&)\<close> erases the table entry its argument lives in and then reads the
  descriptor from it once more: \<open>stale\<close> is the value of that read from freed memory.
\<close>

definition closeClient_ctx :: "int \<Rightarrow> conn_ctx \<Rightarrow> server \<Rightarrow> server" where
  "closeClient_ctx stale cctx s =
     (let s = snd (epollDelClient (cc_fd cctx) s);
          s = k_close (cc_fd cctx) s;
          s = s\<lparr>fdInfoTable := (fdInfoTable s)(cc_fd cctx := None)\<rparr>
      in case worker s of
           None \<Rightarrow> s
         | Some w \<Rightarrow> s\<lparr>worker := Some (destroyContext stale w)\<rparr>)"

text \<open>\<open>closeClient(int)\<close>, which the worker's thread calls, closes before it removes the interest.\<close>

definition closeClient_fd :: "int \<Rightarrow> server \<Rightarrow> server" where
  "closeClient_fd fd s =
     (case fdInfoTable s fd of
        None \<Rightarrow> s
      | Some cctx \<Rightarrow>
          let s = k_close (cc_fd cctx) s;
              s = snd (epollDelClient (cc_fd cctx) s)
          in destroyHandler (cc_fd cctx) s)"

text \<open>A new socket has sent nothing yet.\<close>

definition acceptClient :: "accept_result \<Rightarrow> server \<Rightarrow> server" where
  "acceptClient r s =
     (case r of
        AcceptFail e \<Rightarrow> if e = ECONNABORTED then s else s\<lparr>running := False\<rparr>
      | AcceptOk a \<Rightarrow>
          let s = s\<lparr>k_open := insert (ac_fd a) (k_open s), k_sent := (k_sent s)(ac_fd a := [])\<rparr>;
              (added, s) = epollAddClient (ac_fd a) (ac_added a) s;
              s = (if \<not> added then k_close (ac_fd a) s else s)
          in snd (createHandler_conn a s))"

section \<open>Data\<close>

text \<open>\<open>cctx.txReady = cctx.deframer.writeAll()\<close> on the table entry \<open>fd\<close>.\<close>

definition conn_writeAll :: "int \<Rightarrow> tx_event list \<Rightarrow> conn_ctx \<Rightarrow> server \<Rightarrow> fault + server" where
  "conn_writeAll fd tx cctx s =
     (let sock = assocFd (cc_deframer cctx)
      in case PDeframer_writeAll (cc_deframer cctx) tx (k_sent s sock) of
           (Inl e, _) \<Rightarrow> Inl e
         | (Inr ready, d, _, out) \<Rightarrow>
             Inr (s\<lparr>fdInfoTable := (fdInfoTable s)(fd \<mapsto> cctx\<lparr>cc_deframer := d, txReady := ready\<rparr>),
                    k_sent := (k_sent s)(sock := out)\<rparr>))"

definition handleDataOut :: "tx_event list \<Rightarrow> server \<Rightarrow> fault + server" where
  "handleDataOut tx s =
     (case fetchItemNonBlocking (wqOut s) of
        (None, q) \<Rightarrow> Inr (s\<lparr>wqOut := q\<rparr>)
      | (Some itmOut, q) \<Rightarrow>
          let s = s\<lparr>wqOut := q\<rparr>
          in case fdInfoTable s (fst itmOut) of
               None \<Rightarrow> Inr s
             | Some cctx \<Rightarrow>
                 (case PDeframer_setSentItem itmOut (cc_deframer cctx) of
                    (True, d) \<Rightarrow> conn_writeAll (fst itmOut) tx (cctx\<lparr>cc_deframer := d\<rparr>) s
                  | (False, _) \<Rightarrow> Inr s))"

definition handleDataIn :: "int \<Rightarrow> rx_event list \<Rightarrow> int \<Rightarrow> conn_ctx \<Rightarrow> server \<Rightarrow> fault + server" where
  "handleDataIn fd rx stale cctx s =
     (case PFramer_readAll (cc_framer cctx) (wqIn s) rx of
        (Inl e, _) \<Rightarrow> Inl e
      | (Inr _, f, q, _) \<Rightarrow>
          let cctx = cctx\<lparr>cc_framer := f\<rparr>;
              s = s\<lparr>wqIn := q, fdInfoTable := (fdInfoTable s)(fd \<mapsto> cctx)\<rparr>
          in if isReadEof f then Inr (closeClient_ctx stale cctx s) else Inr s)"

section \<open>The event loop\<close>

text \<open>An event on the socket of a client.\<close>

definition client_ready :: "epoll_event \<Rightarrow> conn_ctx \<Rightarrow> server \<Rightarrow> fault + server" where
  "client_ready ev cctx s =
     (if \<not> ev_out ev then Inr s
      else if isWriteInProgress (cc_deframer cctx) then conn_writeAll (ev_fd ev) (ev_tx ev) cctx s
      else Inr (s\<lparr>fdInfoTable := (fdInfoTable s)(ev_fd ev \<mapsto> cctx\<lparr>txReady := True\<rparr>)\<rparr>))"

definition client_event :: "epoll_event \<Rightarrow> conn_ctx \<Rightarrow> server \<Rightarrow> fault + server" where
  "client_event ev cctx s =
     (if ev_err ev then Inr (closeClient_ctx (ev_stale ev) cctx s)
      else if ev_hup ev then Inr (closeClient_ctx (ev_stale ev) cctx s)
      else case client_ready ev cctx s of
             Inl e \<Rightarrow> Inl e
           | Inr s \<Rightarrow>
               if \<not> ev_in ev then Inr s
               else case fdInfoTable s (ev_fd ev) of
                      None \<Rightarrow> Inr s
                    | Some cctx \<Rightarrow> handleDataIn (ev_fd ev) (ev_rx ev) (ev_stale ev) cctx s)"

definition handle_event :: "epoll_event \<Rightarrow> server \<Rightarrow> fault + server" where
  "handle_event ev s =
     (if ev_fd ev = srv_fd s then
        (if ev_err ev then Inr (s\<lparr>running := False\<rparr>)
         else if ev_in ev then Inr (acceptClient (ev_accept ev) s)
         else Inr s)
      else if ev_fd ev = eventFdOut s then
        (case eventfd_read (k_count s) of
           (False, _) \<Rightarrow> Inr s
         | (True, n) \<Rightarrow> handleDataOut (ev_tx ev) (s\<lparr>k_count := n\<rparr>))
      else case fdInfoTable s (ev_fd ev) of
             None \<Rightarrow> Inr s
           | Some cctx \<Rightarrow> client_event ev cctx s)"

fun handle_events :: "epoll_event list \<Rightarrow> server \<Rightarrow> fault + server" where
  "handle_events [] s = Inr s"
| "handle_events (ev # evs) s =
     (case handle_event ev s of Inl e \<Rightarrow> Inl e | Inr s' \<Rightarrow> handle_events evs s')"

text \<open>The result of one \<open>epoll_wait\<close>; an interrupted wait has no events.\<close>

definition handle_wait :: "wait_result \<Rightarrow> server \<Rightarrow> fault + server" where
  "handle_wait r s =
     (case r of
        WaitFail e \<Rightarrow> if e \<noteq> EINTR then Inr (s\<lparr>running := False\<rparr>) else Inr s
      | WaitEvents evs \<Rightarrow> handle_events evs s)"

definition Server_run_start :: "server \<Rightarrow> server" where
  "Server_run_start s =
     s\<lparr>worker := Some (ServerWorker_start (ServerWorker_new (userHandlerFactory s) (eventFdOut s)))\<rparr>"

fun Server_run_loop :: "wait_result list \<Rightarrow> server \<Rightarrow> fault + server" where
  "Server_run_loop [] s = Inr s"
| "Server_run_loop (r # rs) s =
     (if \<not> running s then Inr s
      else case handle_wait r s of Inl e \<Rightarrow> Inl e | Inr s' \<Rightarrow> Server_run_loop rs s')"

section \<open>The worker's loop\<close>

definition set_pc :: "worker_pc \<Rightarrow> server \<Rightarrow> server" where
  "set_pc pc s = (case worker s of None \<Rightarrow> s | Some w \<Rightarrow> s\<lparr>worker := Some (w\<lparr>runnerThread := Some pc\<rparr>)\<rparr>)"

text \<open>
  The body of the loop for one item, up to the call of \<open>closeClient\<close>, with the point the thread goes on from.
  The context's sink starts empty and its frames go to \<open>wqOut\<close>.
\<close>

definition worker_process ::
    "proto_env \<Rightarrow> work_item \<Rightarrow> server_worker \<Rightarrow> server \<Rightarrow> fault + (worker_pc \<times> server)" where
  "worker_process E msg w s =
     (case handlerTable w (fst msg) of
        None \<Rightarrow> Inr (AtTest, s)
      | Some ctx \<Rightarrow>
          if \<not> isActive ctx
          then Inr (AtTest, s\<lparr>worker := Some (w\<lparr>handlerTable := (handlerTable w)(fst msg := None)\<rparr>)\<rparr>)
          else case ProtocolContext_handleFrame E (getAuthenticator s) (snd msg) ctx of
                 Inl e \<Rightarrow> Inl e
               | Inr ctx' \<Rightarrow>
                   let (q, n) = sink_frames (fst msg) (case ctx_io ctx' of None \<Rightarrow> [] | Some ws \<Rightarrow> ws)
                                  (wqOut s, k_count s);
                       table = (handlerTable w)(fst msg \<mapsto> setIO (Some []) ctx')
                   in Inr (if \<not> isActive ctx' then Closing (fst msg) else AtTest,
                           s\<lparr>wqOut := q, k_count := n, worker := Some (w\<lparr>handlerTable := table\<rparr>)\<rparr>))"

text \<open>One step of the worker's thread.\<close>

definition worker_step :: "proto_env \<Rightarrow> server \<Rightarrow> fault + server" where
  "worker_step E s =
     (case worker s of
        None \<Rightarrow> Inr s
      | Some w \<Rightarrow>
          (case runnerThread w of
             None \<Rightarrow> Inr s
           | Some AtTest \<Rightarrow> Inr (set_pc (if shouldStop w then Exited else AtFetch) s)
           | Some AtFetch \<Rightarrow> Inr (set_pc InWait (s\<lparr>wqIn := fetchBlocking_enter (wqIn s)\<rparr>))
           | Some InWait \<Rightarrow>
               (case fetchBlocking_wake (wqIn s) of
                  (FetchWait, q) \<Rightarrow> Inr s
                | (FetchThrow _, q) \<Rightarrow> Inr (set_pc AtTest (s\<lparr>wqIn := q\<rparr>))
                | (FetchGot itm, q) \<Rightarrow> Inr (set_pc (Processing itm) (s\<lparr>wqIn := q\<rparr>)))
           | Some (Processing itm) \<Rightarrow>
               (case worker_process E itm w s of Inl e \<Rightarrow> Inl e | Inr (pc, s') \<Rightarrow> Inr (set_pc pc s'))
           | Some (Closing fd) \<Rightarrow> Inr (set_pc AtTest (closeClient_fd fd s))
           | Some Exited \<Rightarrow> Inr s))"

section \<open>Stopping\<close>

text \<open>\<open>stop\<close> up to the join of the worker's thread, and after it; the join waits.\<close>

definition Server_stop_begin :: "server \<Rightarrow> server" where
  "Server_stop_begin s =
     (let s = k_notify (s\<lparr>running := False\<rparr>)
      in case worker s of
           None \<Rightarrow> s
         | Some w \<Rightarrow> let (w, q) = ServerWorker_stop_begin w (wqIn s)
                     in s\<lparr>worker := Some w, wqIn := q\<rparr>)"

definition Server_stop_end :: "server \<Rightarrow> server option" where
  "Server_stop_end s =
     (case worker s of
        None \<Rightarrow> Some s
      | Some w \<Rightarrow> (case ServerWorker_join w of None \<Rightarrow> None | Some _ \<Rightarrow> Some (s\<lparr>worker := None\<rparr>)))"

definition Server_terminate_begin :: "server \<Rightarrow> fault + server" where
  "Server_terminate_begin s =
     (case worker s of
        None \<Rightarrow> Inl NullDereference
      | Some w \<Rightarrow> let (w, q) = ServerWorker_stop_begin w (wqIn s)
                  in Inr (s\<lparr>running := False, worker := Some w, wqIn := q\<rparr>))"

text \<open>The destructor after its call of the worker's \<open>stop\<close>.\<close>

definition Server_destroy_end :: "server \<Rightarrow> server option" where
  "Server_destroy_end s =
     (case Server_stop_end s of
        None \<Rightarrow> None
      | Some s \<Rightarrow>
          let s = s\<lparr>srv_auth := None, userHandlerFactory := None\<rparr>;
              s = (if srv_fd s \<noteq> - 1 then k_close (srv_fd s) s else s)
          in Some (k_close (eventFdOut s) (k_close (epollFd s) s)))"

section \<open>Runs\<close>

text \<open>The actions of the threads: the event loop, the worker, and the application.\<close>

datatype action =
    LoopEvent epoll_event
  | WorkerStep
  | StopBegin
  | SetAuthenticator "authenticator option"

fun server_exec :: "proto_env \<Rightarrow> action \<Rightarrow> server \<Rightarrow> fault + server" where
  "server_exec E (LoopEvent ev) s = handle_event ev s"
| "server_exec E WorkerStep s = worker_step E s"
| "server_exec E StopBegin s = Inr (Server_stop_begin s)"
| "server_exec E (SetAuthenticator a) s = Inr (setAuthenticator a s)"

inductive server_run :: "proto_env \<Rightarrow> server \<Rightarrow> action list \<Rightarrow> server \<Rightarrow> bool" for E :: proto_env where
  srv_nil: "server_run E s [] s"
| srv_step: "server_exec E a s = Inr s' \<Longrightarrow> server_run E s' as s'' \<Longrightarrow> server_run E s (a # as) s''"

inductive_cases server_run_NilE: "server_run E s [] s'"
inductive_cases server_run_ConsE: "server_run E s (a # as) s'"

end
