(* ===== verification/ServerFacts.thy ===== *)
theory ServerFacts
  imports Servers
begin

text \<open>
  Facts about the server of \<open>Servers\<close>: the invariant \<open>server_inv\<close> that ties the tables of connections and
  sessions together, and the frame condition \<open>only\<close>: which descriptors an operation leaves alone. Every
  action keeps the one and satisfies the other for the descriptors it \<open>touches\<close> (\<open>server_exec_keeps\<close>).
\<close>

section \<open>The invariant\<close>

definition conn_ok :: "int \<Rightarrow> conn_ctx \<Rightarrow> bool" where
  "conn_ok fd c \<longleftrightarrow>
     cc_fd c = fd \<and> fm_fd (cc_framer c) = fd \<and> framer_wf (cc_framer c) \<and>
     (writeInProgress (cc_deframer c) \<longrightarrow> assocFd (cc_deframer c) = fd)"

definition session_ok :: "proto_context \<Rightarrow> bool" where
  "session_ok x \<longleftrightarrow> state_ok (ctx_state x) \<and> ctx_io x = Some []"

text \<open>
  The connections and the worker's sessions are in step; a session that has ended is only there until the
  worker has closed its connection.
\<close>

definition sessions_ok :: "server_worker \<Rightarrow> bool" where
  "sessions_ok w \<longleftrightarrow>
     (\<forall>fd x. handlerTable w fd = Some x \<longrightarrow>
        session_ok x \<and> (isActive x \<or> runnerThread w = Some (Closing fd)))"

definition tables_ok :: "(int \<rightharpoonup> conn_ctx) \<Rightarrow> server_worker option \<Rightarrow> bool" where
  "tables_ok t wo \<longleftrightarrow>
     (\<forall>fd c. t fd = Some c \<longrightarrow> conn_ok fd c) \<and>
     (case wo of
        None \<Rightarrow> t = Map.empty
      | Some w \<Rightarrow> dom (handlerTable w) = dom t \<and> sessions_ok w)"

definition items_ok :: "work_queue \<Rightarrow> bool" where
  "items_ok q \<longleftrightarrow> itemLimit q = 0 \<and> (\<forall>it\<in>set (wq_items q). frame_wf (snd it) \<and> header_ok (fr_header (snd it)))"

definition server_inv :: "server \<Rightarrow> bool" where
  "server_inv s \<longleftrightarrow> tables_ok (fdInfoTable s) (worker s) \<and> items_ok (wqIn s) \<and> itemLimit (wqOut s) = 0"

definition session :: "server \<Rightarrow> int \<Rightarrow> proto_context option" where
  "session s fd = (case worker s of None \<Rightarrow> None | Some w \<Rightarrow> handlerTable w fd)"

named_theorems kernel_simps \<open>what the kernel operations leave unchanged\<close>

lemma k_close_fields [kernel_simps]:
  "worker (k_close fd s) = worker s" "fdInfoTable (k_close fd s) = fdInfoTable s"
  "wqIn (k_close fd s) = wqIn s" "wqOut (k_close fd s) = wqOut s" "k_sent (k_close fd s) = k_sent s"
  "k_count (k_close fd s) = k_count s" "srv_fd (k_close fd s) = srv_fd s"
  "eventFdOut (k_close fd s) = eventFdOut s" "srv_auth (k_close fd s) = srv_auth s"
  by (simp_all add: k_close_def)

lemma epollDel_fields [kernel_simps]:
  "worker (snd (epollDelClient fd s)) = worker s" "fdInfoTable (snd (epollDelClient fd s)) = fdInfoTable s"
  "wqIn (snd (epollDelClient fd s)) = wqIn s" "wqOut (snd (epollDelClient fd s)) = wqOut s"
  "k_sent (snd (epollDelClient fd s)) = k_sent s" "k_count (snd (epollDelClient fd s)) = k_count s" "srv_fd (snd (epollDelClient fd s)) = srv_fd s"
  "eventFdOut (snd (epollDelClient fd s)) = eventFdOut s"
  "srv_auth (snd (epollDelClient fd s)) = srv_auth s"
  by (simp_all add: epollDelClient_def)

lemma epollAdd_fields [kernel_simps]:
  "worker (snd (epollAddClient fd b s)) = worker s" "fdInfoTable (snd (epollAddClient fd b s)) = fdInfoTable s"
  "wqIn (snd (epollAddClient fd b s)) = wqIn s" "wqOut (snd (epollAddClient fd b s)) = wqOut s"
  "k_sent (snd (epollAddClient fd b s)) = k_sent s" "k_count (snd (epollAddClient fd b s)) = k_count s" "srv_fd (snd (epollAddClient fd b s)) = srv_fd s"
  "eventFdOut (snd (epollAddClient fd b s)) = eventFdOut s"
  by (simp_all add: epollAddClient_def)

lemma conn_ok_new: "conn_ok fd (ConnectionContext_new fd addr fill)"
  by (simp add: conn_ok_def ConnectionContext_new_def framer_wf_new)
    (simp add: PFramer_new_def PDeframer_new_def PDeframer_resetAll_def PDeframer_resetState_def)

lemma session_ok_new: "session_ok (new_session fac seed) \<and> isActive (new_session fac seed)"
  using new_session_state(2) [of fac seed] by (simp add: session_ok_def isActive_def del: new_session_state(2))

text \<open>Table updates that keep the tables in step.\<close>

lemma tables_ok_conn:
  "tables_ok t wo \<Longrightarrow> fd \<in> dom t \<Longrightarrow> conn_ok fd c \<Longrightarrow> tables_ok (t(fd \<mapsto> c)) wo"
  by (auto simp: tables_ok_def split: option.splits)

lemma tables_ok_session:
  "\<lbrakk>tables_ok t (Some w); fd \<in> dom t; session_ok x; isActive x \<or> pc = Closing fd; \<forall>g. runnerThread w \<noteq> Some (Closing g)\<rbrakk> \<Longrightarrow>
     tables_ok t (Some (w\<lparr>handlerTable := (handlerTable w)(fd \<mapsto> x), runnerThread := Some pc\<rparr>))"
  by (auto simp: tables_ok_def sessions_ok_def)

lemma tables_ok_erase:
  "tables_ok t (Some w) \<Longrightarrow> tables_ok (t(fd := None)) (Some (destroyContext fd w))"
  by (auto simp: tables_ok_def sessions_ok_def destroyContext_def)

text \<open>The thread may move on when no session waits to be closed, or when that session is gone.\<close>

lemma tables_ok_pc:
  "tables_ok t (Some w) \<Longrightarrow> \<forall>g. runnerThread w = Some (Closing g) \<longrightarrow> t g = None \<Longrightarrow>
     tables_ok t (Some (w\<lparr>runnerThread := Some pc\<rparr>))"
  unfolding tables_ok_def sessions_ok_def by simp (metis domIff option.distinct(1))

lemma tables_ok_stop [simp]:
  "tables_ok t (Some (w\<lparr>shouldStop := b\<rparr>)) = tables_ok t (Some w)"
  by (simp add: tables_ok_def sessions_ok_def)

lemma tables_ok_create:
  assumes "tables_ok t (Some w)"
  shows "tables_ok (case t (ac_fd a) of Some _ \<Rightarrow> t
           | None \<Rightarrow> t(ac_fd a \<mapsto> ConnectionContext_new (ac_fd a) (ac_addr a) (ac_fill a)))
         (Some (createContext (ac_fd a) seed w))"
proof (cases "t (ac_fd a)")
  case None
  with assms have "handlerTable w (ac_fd a) = None"
    by (auto simp: tables_ok_def)
  with None assms conn_ok_new session_ok_new show ?thesis
    by (auto simp: tables_ok_def sessions_ok_def createContext_table createContext_pc)
next
  case (Some c)
  then have "ac_fd a \<in> dom (handlerTable w)"
    using assms by (simp add: tables_ok_def domI)
  then obtain x where "handlerTable w (ac_fd a) = Some x" by blast
  with Some assms show ?thesis
    by (simp add: tables_ok_def sessions_ok_def createContext_table createContext_pc)
qed

lemma tables_ok_connD: "tables_ok t wo \<Longrightarrow> t fd = Some c \<Longrightarrow> conn_ok fd c"
  by (simp add: tables_ok_def)

section \<open>The operations keep the invariant\<close>

lemma closeClient_ctx_inv:
  assumes "server_inv s" "fdInfoTable s fd = Some c" "cc_fd c = fd"
  shows "server_inv (closeClient_ctx fd c s)"
proof (cases "worker s")
  case None
  with assms show ?thesis by (simp add: server_inv_def tables_ok_def)
next
  case (Some w)
  with assms tables_ok_erase [of "fdInfoTable s" w fd] show ?thesis
    by (simp add: server_inv_def closeClient_ctx_def Let_def kernel_simps)
qed

lemma closeClient_fd_inv: "server_inv s \<Longrightarrow> server_inv (closeClient_fd fd s)"
  using tables_ok_erase [of "fdInfoTable s"]
  by (auto simp: server_inv_def closeClient_fd_def destroyHandler_def Let_def kernel_simps
      split: option.splits)

lemma createHandler_conn_inv: "server_inv s \<Longrightarrow> server_inv (snd (createHandler_conn a s))"
  using tables_ok_create [of "fdInfoTable s" _ a "ac_seed a"]
  by (cases "worker s") (simp_all add: createHandler_conn_def server_inv_def Let_def)

lemma acceptClient_inv:
  assumes "server_inv s"
  shows "server_inv (acceptClient r s)"
proof (cases r)
  case (AcceptFail e)
  with assms show ?thesis by (simp add: acceptClient_def server_inv_def)
next
  case (AcceptOk a)
  let ?s = "s\<lparr>k_open := insert (ac_fd a) (k_open s), k_sent := (k_sent s)(ac_fd a := [])\<rparr>"
  have "server_inv ?s" using assms by (simp add: server_inv_def)
  then have "server_inv (if b then k_close (ac_fd a) (snd (epollAddClient (ac_fd a) (ac_added a) ?s))
      else snd (epollAddClient (ac_fd a) (ac_added a) ?s))" for b
    by (simp add: server_inv_def kernel_simps)
  from createHandler_conn_inv [OF this] AcceptOk show ?thesis
    by (simp add: acceptClient_def Let_def split_beta)
qed

lemma trySend_fields:
  "PDeframer_trySend buf d s out = (r, d', s', out') \<Longrightarrow>
     assocFd d' = assocFd d \<and> writeInProgress d' = writeInProgress d"
  by (auto simp: PDeframer_trySend_def split: if_splits prod.splits send_result.splits)

lemma tryWrite_fields:
  "PDeframer_tryWrite d s out = (r, d', s', out') \<Longrightarrow>
     assocFd d' = assocFd d \<and> (writeInProgress d' \<longrightarrow> writeInProgress d)"
  by (auto simp: PDeframer_tryWrite_def PDeframer_txHeader_def PDeframer_txLen_def PDeframer_txMsg_def Let_def
      split: tx_state.splits prod.splits sum.splits if_splits dest!: trySend_fields)

lemma writeAll_fields:
  "PDeframer_writeAll d s out = (r, d', s', out') \<Longrightarrow>
     assocFd d' = assocFd d \<and> (writeInProgress d' \<longrightarrow> writeInProgress d)"
proof (induction d s out arbitrary: r d' s' out' rule: writeAll_induct)
  case (Step d s out)
  obtain r1 d1 s1 o1 where t: "PDeframer_tryWrite d s out = (r1, d1, s1, o1)" by (metis prod_cases4)
  from tryWrite_fields [OF t] have f: "assocFd d1 = assocFd d" "writeInProgress d1 \<longrightarrow> writeInProgress d" by auto
  consider "r1 = Inr True" | "r1 = Inr False" | e where "r1 = Inl e" by (cases r1) auto
  then show ?case
  proof cases
    case 1
    then have "PDeframer_writeAll d1 s1 o1 = (r, d', s', out')"
      using Step.prems t by (simp add: writeAll_unfold)
    from Step.IH [OF t [unfolded 1] this] f show ?thesis by auto
  qed (use Step.prems t f in \<open>auto simp: writeAll_unfold\<close>)
qed

text \<open>Writing on a connection: only its entry and its socket change.\<close>

lemma conn_writeAll_spec:
  assumes "conn_writeAll fd tx c s = Inr s'" "conn_ok fd c" "writeInProgress (cc_deframer c)"
  shows "\<exists>c' out. conn_ok fd c' \<and>
    s' = s\<lparr>fdInfoTable := (fdInfoTable s)(fd \<mapsto> c'), k_sent := (k_sent s)(fd := out)\<rparr>"
proof -
  obtain r d' s1 out where w: "PDeframer_writeAll (cc_deframer c) tx (k_sent s (assocFd (cc_deframer c))) =
      (r, d', s1, out)" by (metis prod_cases4)
  with assms(1) obtain ready where "r = Inr ready"
    by (cases r) (auto simp: conn_writeAll_def)
  with w assms have "s' = s\<lparr>fdInfoTable := (fdInfoTable s)(fd \<mapsto> c\<lparr>cc_deframer := d', txReady := ready\<rparr>),
      k_sent := (k_sent s)(fd := out)\<rparr>"
    by (simp add: conn_writeAll_def conn_ok_def)
  moreover have "conn_ok fd (c\<lparr>cc_deframer := d', txReady := ready\<rparr>)"
    using assms(2,3) writeAll_fields [OF w] by (simp add: conn_ok_def)
  ultimately show ?thesis by blast
qed

lemma items_ok_push1: "items_ok q \<Longrightarrow> item_ok fd it \<Longrightarrow> items_ok (pushItem it q)"
  by (simp add: items_ok_def item_ok_def pushItem_def)

lemma items_ok_push: "items_ok q \<Longrightarrow> list_all (item_ok fd) its \<Longrightarrow> items_ok (fold pushItem its q)"
  by (induction its arbitrary: q) (auto intro: items_ok_push1)

text \<open>Reading on a connection: its entry changes, frames of its descriptor are queued, or it is closed.\<close>

lemma handleDataIn_spec:
  assumes "handleDataIn fd rx stale c s = Inr s'" "conn_ok fd c"
  shows "\<exists>f its s1. conn_ok fd (c\<lparr>cc_framer := f\<rparr>) \<and> list_all (item_ok fd) its \<and>
    s1 = s\<lparr>wqIn := fold pushItem its (wqIn s), fdInfoTable := (fdInfoTable s)(fd \<mapsto> c\<lparr>cc_framer := f\<rparr>)\<rparr> \<and>
    s' = (if isReadEof f then closeClient_ctx stale (c\<lparr>cc_framer := f\<rparr>) s1 else s1)"
proof -
  have c: "framer_wf (cc_framer c)" "fm_fd (cc_framer c) = fd" "cc_fd c = fd"
    using assms(2) by (simp_all add: conn_ok_def)
  obtain r f q rest where w: "PFramer_readAll (cc_framer c) (wqIn s) rx = (r, f, q, rest)" by (metis prod_cases4)
  with readAll_ok [OF c(1), of "wqIn s" rx] c(2) obtain its where
    ok: "framer_wf f" "fm_fd f = fd" "q = fold pushItem its (wqIn s)" "list_all (item_ok fd) its"
    by (auto simp: step_ok_def)
  from w assms(1) obtain u where r: "r = Inr u"
    by (cases r) (auto simp: handleDataIn_def)
  have "conn_ok fd (c\<lparr>cc_framer := f\<rparr>)"
    using assms(2) ok by (simp add: conn_ok_def)
  moreover let ?s1 = "s\<lparr>wqIn := fold pushItem its (wqIn s), fdInfoTable := (fdInfoTable s)(fd \<mapsto> c\<lparr>cc_framer := f\<rparr>)\<rparr>"
  have "s' = (if isReadEof f then closeClient_ctx stale (c\<lparr>cc_framer := f\<rparr>) ?s1 else ?s1)"
    using assms(1) w r ok(3) by (simp add: handleDataIn_def Let_def split: if_splits)
  ultimately show ?thesis
    using ok(4) by (intro exI [of _ f] exI [of _ its] exI [of _ ?s1] conjI refl)
qed

section \<open>What a step leaves alone\<close>

definition queue_moves :: "int set \<Rightarrow> work_queue \<Rightarrow> work_queue \<Rightarrow> bool" where
  "queue_moves A q q' \<longleftrightarrow> (\<exists>n ws. wq_items q' = drop n (wq_items q) @ ws \<and> fst ` set ws \<subseteq> A)"

text \<open>\<open>only A s s'\<close>: nothing changed outside the connections in \<open>A\<close>, and the queues only got items for them.\<close>

definition only :: "int set \<Rightarrow> server \<Rightarrow> server \<Rightarrow> bool" where
  "only A s s' \<longleftrightarrow>
     (\<forall>fd. fd \<notin> A \<longrightarrow> fdInfoTable s' fd = fdInfoTable s fd \<and> session s' fd = session s fd \<and>
        k_sent s' fd = k_sent s fd) \<and>
     queue_moves A (wqIn s) (wqIn s') \<and> queue_moves A (wqOut s) (wqOut s')"

definition keeps :: "int set \<Rightarrow> server \<Rightarrow> fault + server \<Rightarrow> bool" where
  "keeps A s r \<longleftrightarrow> (\<forall>s'. r = Inr s' \<longrightarrow> server_inv s' \<and> only A s s')"

lemma queue_movesI: "wq_items q' = drop n (wq_items q) @ ws \<Longrightarrow> fst ` set ws \<subseteq> A \<Longrightarrow> queue_moves A q q'"
  unfolding queue_moves_def by blast

lemma queue_moves_items: "wq_items q' = wq_items q \<Longrightarrow> queue_moves A q q'"
  by (rule queue_movesI [of _ 0 _ "[]"]) simp_all

lemma queue_moves_refl [simp]: "queue_moves A q q"
  by (simp add: queue_moves_items)

lemma queue_moves_trans:
  assumes "queue_moves A q q'" "queue_moves A q' q''"
  shows "queue_moves A q q''"
proof -
  from assms(1) obtain n ws where 1: "wq_items q' = drop n (wq_items q) @ ws" "fst ` set ws \<subseteq> A"
    unfolding queue_moves_def by blast
  from assms(2) obtain m vs where 2: "wq_items q'' = drop m (wq_items q') @ vs" "fst ` set vs \<subseteq> A"
    unfolding queue_moves_def by blast
  let ?ws = "drop (m - length (drop n (wq_items q))) ws"
  have "wq_items q'' = drop (m + n) (wq_items q) @ (?ws @ vs)"
    by (simp add: 1 2)
  moreover have "fst ` set ?ws \<subseteq> A"
    by (rule subset_trans [OF image_mono [OF set_drop_subset] 1(2)])
  then have "fst ` set (?ws @ vs) \<subseteq> A"
    using 2(2) by (simp add: image_Un)
  ultimately show ?thesis by (rule queue_movesI)
qed

lemma queue_moves_push: "fst it \<in> A \<Longrightarrow> queue_moves A q (pushItem it q)"
  by (cases "itemLimit q \<noteq> 0 \<and> itemLimit q \<le> length (wq_items q)")
    (simp_all add: pushItem_def queue_movesI [of _ 0 _ "[it]"])

lemma queue_moves_pushes: "list_all (\<lambda>it. fst it \<in> A) its \<Longrightarrow> queue_moves A q (fold pushItem its q)"
proof (induction its arbitrary: q)
  case (Cons it its)
  then show ?case
    using queue_moves_trans [OF queue_moves_push, of it A q] by simp
qed simp

lemma queue_moves_fetch: "fetchItemNonBlocking q = (r, q') \<Longrightarrow> queue_moves A q q'"
  by (cases "wq_items q") (auto simp: fetchItemNonBlocking_def queue_movesI [of _ 1 _ "[]"])

lemma only_refl [simp]: "only A s s"
  by (simp add: only_def)

lemma only_trans: "only A s s' \<Longrightarrow> only A s' s'' \<Longrightarrow> only A s s''"
  unfolding only_def using queue_moves_trans by fastforce

lemma keepsI: "(\<And>s'. r = Inr s' \<Longrightarrow> server_inv s' \<and> only A s s') \<Longrightarrow> keeps A s r"
  by (simp add: keeps_def)

lemma keeps_Inl [simp]: "keeps A s (Inl e)"
  by (simp add: keeps_def)

lemma keeps_Inr [simp]: "keeps A s (Inr s') = (server_inv s' \<and> only A s s')"
  by (simp add: keeps_def)

lemma session_worker [simp]:
  "session (s\<lparr>worker := wo\<rparr>) fd = (case wo of None \<Rightarrow> None | Some w \<Rightarrow> handlerTable w fd)"
  by (simp add: session_def)

lemma closeClient_ctx_only: "cc_fd c = fd \<Longrightarrow> only {fd} s (closeClient_ctx fd c s)"
  by (auto simp: only_def closeClient_ctx_def Let_def kernel_simps session_def destroyContext_def
      split: option.split)

lemma closeClient_fd_only: "server_inv s \<Longrightarrow> only {fd} s (closeClient_fd fd s)"
  by (auto simp: only_def closeClient_fd_def destroyHandler_def Let_def kernel_simps session_def destroyContext_def
      server_inv_def conn_ok_def dest: tables_ok_connD split: option.split)

lemma createHandler_conn_only: "only {ac_fd a} s (snd (createHandler_conn a s))"
  by (auto simp: only_def createHandler_conn_def Let_def session_def createContext_def split: option.split)

lemma acceptClient_only:
  "only (case r of AcceptFail e \<Rightarrow> {} | AcceptOk a \<Rightarrow> {ac_fd a}) s (acceptClient r s)"
proof (cases r)
  case (AcceptFail e)
  then show ?thesis by (simp add: acceptClient_def only_def session_def)
next
  case (AcceptOk a)
  let ?s = "s\<lparr>k_open := insert (ac_fd a) (k_open s), k_sent := (k_sent s)(ac_fd a := [])\<rparr>"
  have "only {ac_fd a} s (if b then k_close (ac_fd a) (snd (epollAddClient (ac_fd a) (ac_added a) ?s))
      else snd (epollAddClient (ac_fd a) (ac_added a) ?s))" for b
    by (simp add: only_def session_def kernel_simps)
  from only_trans [OF this createHandler_conn_only [of a]] AcceptOk show ?thesis
    by (simp add: acceptClient_def Let_def split_beta)
qed

section \<open>Every action keeps the invariant\<close>

lemma server_inv_connD: "server_inv s \<Longrightarrow> fdInfoTable s fd = Some c \<Longrightarrow> conn_ok fd c"
  unfolding server_inv_def by (blast dest: tables_ok_connD)

lemma conn_update_keeps:
  assumes "server_inv s" "fd \<in> dom (fdInfoTable s)" "conn_ok fd c"
  shows "keeps {fd} s (Inr (s\<lparr>fdInfoTable := (fdInfoTable s)(fd \<mapsto> c), k_sent := (k_sent s)(fd := out)\<rparr>))"
  using assms tables_ok_conn by (auto simp: server_inv_def only_def session_def)

lemma conn_writeAll_keeps:
  assumes "server_inv s" "fd \<in> dom (fdInfoTable s)" "conn_ok fd c" "writeInProgress (cc_deframer c)"
  shows "keeps {fd} s (conn_writeAll fd tx c s)"
proof (rule keepsI)
  fix s'
  assume "conn_writeAll fd tx c s = Inr s'"
  from conn_writeAll_spec [OF this assms(3,4)] obtain c' out where "conn_ok fd c'"
    "s' = s\<lparr>fdInfoTable := (fdInfoTable s)(fd \<mapsto> c'), k_sent := (k_sent s)(fd := out)\<rparr>" by blast
  with conn_update_keeps [OF assms(1,2)] show "server_inv s' \<and> only {fd} s s'" by simp
qed

lemma setSentItem_conn:
  "PDeframer_setSentItem (fd, g) (cc_deframer c) = (True, d) \<Longrightarrow> conn_ok fd c \<Longrightarrow>
     conn_ok fd (c\<lparr>cc_deframer := d\<rparr>) \<and> writeInProgress d"
  by (auto simp: PDeframer_setSentItem_def PDeframer_resetState_def conn_ok_def split: if_splits)

text \<open>The items the event descriptor announces: at most the first.\<close>

definition head_fds :: "work_queue \<Rightarrow> int set" where
  "head_fds q = set (map fst (take 1 (wq_items q)))"

lemma handleDataOut_keeps:
  assumes "server_inv s"
  shows "keeps (head_fds (wqOut s)) s (handleDataOut tx s)"
proof (cases "wq_items (wqOut s)")
  case Nil
  with assms show ?thesis
    by (simp add: handleDataOut_def fetchItemNonBlocking_def head_fds_def)
next
  case (Cons it rest)
  obtain fd g where it: "it = (fd, g)" by fastforce
  let ?s = "s\<lparr>wqOut := (wqOut s)\<lparr>wq_items := rest\<rparr>\<rparr>"
  have h: "head_fds (wqOut s) = {fd}" and f: "fetchItemNonBlocking (wqOut s) = (Some (fd, g), (wqOut s)\<lparr>wq_items := rest\<rparr>)"
    using Cons it by (simp_all add: head_fds_def fetchItemNonBlocking_def)
  have inv: "server_inv ?s" and o: "only {fd} s ?s"
    using assms queue_moves_fetch [OF f] by (simp_all add: server_inv_def only_def session_def)
  show ?thesis
  proof (cases "fdInfoTable s fd")
    case None
    with f inv o h show ?thesis by (simp add: handleDataOut_def)
  next
    case (Some c)
    obtain ok d where d: "PDeframer_setSentItem (fd, g) (cc_deframer c) = (ok, d)" by fastforce
    show ?thesis
    proof (cases ok)
      case True
      with setSentItem_conn [of fd g c d] server_inv_connD [OF assms Some] d
      have "conn_ok fd (c\<lparr>cc_deframer := d\<rparr>)" "writeInProgress (cc_deframer (c\<lparr>cc_deframer := d\<rparr>))" by simp_all
      from conn_writeAll_keeps [OF inv _ this, of tx] Some
      have "keeps {fd} ?s (conn_writeAll fd tx (c\<lparr>cc_deframer := d\<rparr>) ?s)" by (simp add: domI)
      with o have "keeps {fd} s (conn_writeAll fd tx (c\<lparr>cc_deframer := d\<rparr>) ?s)"
        by (auto simp: keeps_def intro: only_trans)
      with f Some d True h show ?thesis by (simp add: handleDataOut_def)
    next
      case False
      with f inv o h Some d show ?thesis by (simp add: handleDataOut_def)
    qed
  qed
qed

lemma handleDataIn_keeps:
  assumes "server_inv s" "fdInfoTable s fd = Some c0" "conn_ok fd c"
  shows "keeps {fd} s (handleDataIn fd rx fd c s)"
proof (rule keepsI)
  fix s'
  assume "handleDataIn fd rx fd c s = Inr s'"
  from handleDataIn_spec [OF this assms(3)] obtain f its s1 where f:
    "conn_ok fd (c\<lparr>cc_framer := f\<rparr>)" "list_all (item_ok fd) its"
    "s1 = s\<lparr>wqIn := fold pushItem its (wqIn s), fdInfoTable := (fdInfoTable s)(fd \<mapsto> c\<lparr>cc_framer := f\<rparr>)\<rparr>"
    "s' = (if isReadEof f then closeClient_ctx fd (c\<lparr>cc_framer := f\<rparr>) s1 else s1)" by blast
  have "list_all (\<lambda>it. fst it \<in> {fd}) its"
    using f(2) by (auto simp: list_all_iff item_ok_def)
  from queue_moves_pushes [OF this] have o: "only {fd} s s1"
    by (simp add: f(3) only_def session_def)
  have i: "server_inv s1"
    using assms f items_ok_push [OF _ f(2)] tables_ok_conn [OF _ _ f(1), of "fdInfoTable s"]
    by (simp add: server_inv_def domI)
  have c: "cc_fd (c\<lparr>cc_framer := f\<rparr>) = fd"
    using f(1) by (simp add: conn_ok_def)
  have "fdInfoTable s1 fd = Some (c\<lparr>cc_framer := f\<rparr>)"
    by (simp add: f(3))
  from closeClient_ctx_inv [OF i this c] only_trans [OF o closeClient_ctx_only [OF c]] i o f(4)
  show "server_inv s' \<and> only {fd} s s'" by simp
qed

lemma keeps_trans:
  "keeps A s (Inr s1) \<Longrightarrow> keeps A s1 r \<Longrightarrow> keeps A s r"
  by (auto simp: keeps_def intro: only_trans)

lemma client_ready_keeps:
  assumes "server_inv s" "fdInfoTable s (ev_fd ev) = Some c"
  shows "keeps {ev_fd ev} s (client_ready ev c s)"
proof -
  have c: "conn_ok (ev_fd ev) c"
    by (rule server_inv_connD [OF assms])
  then have "conn_ok (ev_fd ev) (c\<lparr>txReady := True\<rparr>)"
    by (simp add: conn_ok_def)
  from conn_update_keeps [OF assms(1) _ this, of "k_sent s (ev_fd ev)"] assms(2)
  have "keeps {ev_fd ev} s (Inr (s\<lparr>fdInfoTable := (fdInfoTable s)(ev_fd ev \<mapsto> c\<lparr>txReady := True\<rparr>)\<rparr>))"
    by (simp add: domI)
  with conn_writeAll_keeps [OF assms(1) _ c, of "ev_tx ev"] assms show ?thesis
    by (simp add: client_ready_def isWriteInProgress_def domI)
qed

lemma client_event_keeps:
  assumes "server_inv s" "fdInfoTable s (ev_fd ev) = Some c" "ev_stale ev = ev_fd ev"
  shows "keeps {ev_fd ev} s (client_event ev c s)"
proof -
  have c: "cc_fd c = ev_fd ev"
    using server_inv_connD [OF assms(1,2)] by (simp add: conn_ok_def)
  have close: "keeps {ev_fd ev} s (Inr (closeClient_ctx (ev_stale ev) c s))"
    using closeClient_ctx_inv [OF assms(1,2) c] closeClient_ctx_only [OF c] assms(3) by simp
  show ?thesis
  proof (cases "ev_err ev \<or> ev_hup ev")
    case True
    with close show ?thesis by (auto simp: client_event_def)
  next
    case False
    show ?thesis
    proof (cases "client_ready ev c s")
      case (Inl e)
      with False show ?thesis by (simp add: client_event_def)
    next
      case (Inr s1)
      with client_ready_keeps [OF assms(1,2)] have k: "keeps {ev_fd ev} s (Inr s1)" by simp
      then have i: "server_inv s1" by simp
      show ?thesis
      proof (cases "fdInfoTable s1 (ev_fd ev)")
        case None
        with False Inr k show ?thesis by (simp add: client_event_def)
      next
        case (Some c1)
        from keeps_trans [OF k handleDataIn_keeps [OF i Some server_inv_connD [OF i Some]]] k
        show ?thesis
          using False Inr Some assms(3) by (simp add: client_event_def)
      qed
    qed
  qed
qed

text \<open>The connections an action of the event loop or of the worker may touch.\<close>

fun touches :: "action \<Rightarrow> server \<Rightarrow> int set" where
  "touches (LoopEvent ev) s =
     (if ev_fd ev = srv_fd s
      then (case ev_accept ev of AcceptFail e \<Rightarrow> {} | AcceptOk a \<Rightarrow> {ac_fd a})
      else if ev_fd ev = eventFdOut s then head_fds (wqOut s)
      else {ev_fd ev})"
| "touches WorkerStep s =
     (case worker s of
        None \<Rightarrow> {}
      | Some w \<Rightarrow> (case runnerThread w of Some (Processing itm) \<Rightarrow> {fst itm} | Some (Closing fd) \<Rightarrow> {fd} | _ \<Rightarrow> {}))"
| "touches StopBegin s = {}"
| "touches (SetAuthenticator a) s = {}"

lemma handle_event_keeps:
  assumes "server_inv s" "ev_stale ev = ev_fd ev"
  shows "keeps (touches (LoopEvent ev) s) s (handle_event ev s)"
proof (cases "ev_fd ev = srv_fd s")
  case True
  have r: "keeps A s (Inr (s\<lparr>running := False\<rparr>))" for A
    using assms(1) by (simp add: server_inv_def only_def session_def)
  show ?thesis
    using acceptClient_inv [OF assms(1)] acceptClient_only r True assms(1)
    by (simp add: handle_event_def)
next
  case False
  note srv = False
  show ?thesis
  proof (cases "ev_fd ev = eventFdOut s")
    case True
    let ?s = "\<lambda>n. s\<lparr>k_count := n\<rparr>"
    have i: "server_inv (?s n)" and o: "keeps A s (Inr (?s n))" for n A
      using assms(1) by (simp_all add: server_inv_def only_def session_def)
    have "keeps (head_fds (wqOut s)) s (handleDataOut tx (?s n))" for tx n
      using keeps_trans [OF o handleDataOut_keeps [OF i]] by simp
    with srv True assms(1) show ?thesis
      by (simp add: handle_event_def eventfd_read_def)
  next
    case False
    with srv assms client_event_keeps [OF assms(1) _ assms(2)] show ?thesis
      by (simp add: handle_event_def split: option.split)
  qed
qed

lemma handleFrame_session:
  assumes "session_ok x" "ProtocolContext_handleFrame E auth f x = Inr x'"
  obtains ws where "ctx_io x' = Some ws" "length ws \<le> 2" "session_ok (setIO (Some []) x')"
proof -
  have ok: "state_ok (ctx_state x)" and io: "ctx_io x = Some []"
    using assms(1) by (simp_all add: session_ok_def)
  from handleFrame_step [OF ok assms(2)] obtain hs where hs:
    "phase_step (finalStateFactory x) (phase_of (ctx_state x)) (frame_event E auth f x) hs (phase_of (ctx_state x'))"
    "sent hs x x'" .
  from hs(1) have "length hs \<le> 2" by (induction rule: phase_step.induct) simp_all
  moreover obtain ws where ws: "ctx_io x' = Some ws" "map fr_header ws = hs"
    using hs(2) io by (auto simp: sent_def)
  ultimately have "length ws \<le> 2" by (metis length_map)
  moreover have "session_ok (setIO (Some []) x')"
    using handleFrame_state_ok [OF ok assms(2)] by (simp add: session_ok_def setIO_def)
  ultimately show thesis using that ws(1) by blast
qed

lemma isActive_setIO [simp]: "isActive (setIO io x) = isActive x"
  by (simp add: isActive_def setIO_def)

lemma set_pc_only [simp]: "only A s (set_pc pc s') = only A s s'"
  by (cases "worker s'") (simp_all add: set_pc_def only_def session_def)

lemma set_pc_inv:
  assumes "server_inv s" "\<forall>w g. worker s = Some w \<longrightarrow> runnerThread w = Some (Closing g) \<longrightarrow> fdInfoTable s g = None"
  shows "server_inv (set_pc pc s)"
proof (cases "worker s")
  case None
  with assms(1) show ?thesis by (simp add: set_pc_def)
next
  case (Some w)
  with assms tables_ok_pc [of "fdInfoTable s" w pc] show ?thesis
    by (simp add: set_pc_def server_inv_def)
qed

text \<open>One frame: the session moves on, the replies are queued, and the thread knows what to do next.\<close>

lemma worker_process_spec:
  assumes "worker_process E msg w s = Inr (pc, s')" "handlerTable w (fst msg) = Some x" "session_ok x" "isActive x"
  obtains x' ws q n where "ProtocolContext_handleFrame E (getAuthenticator s) (snd msg) x = Inr x'" "ctx_io x' = Some ws"
    "length ws \<le> 2" "session_ok (setIO (Some []) x')" "(q, n) = sink_frames (fst msg) ws (wqOut s, k_count s)"
    "q = fold pushItem (map (Pair (fst msg)) ws) (wqOut s)"
    "s' = s\<lparr>wqOut := q, k_count := n,
       worker := Some (w\<lparr>handlerTable := (handlerTable w)(fst msg \<mapsto> setIO (Some []) x')\<rparr>)\<rparr>"
    "pc = (if isActive x' then AtTest else Closing (fst msg))"
proof -
  obtain x' where h: "ProtocolContext_handleFrame E (getAuthenticator s) (snd msg) x = Inr x'"
    using assms by (cases "ProtocolContext_handleFrame E (getAuthenticator s) (snd msg) x")
      (simp_all add: worker_process_def)
  from handleFrame_session [OF assms(3) h] obtain ws where ws: "ctx_io x' = Some ws" "length ws \<le> 2"
    "session_ok (setIO (Some []) x')" .
  obtain q n where qn: "sink_frames (fst msg) ws (wqOut s, k_count s) = (q, n)" by fastforce
  have "q = fold pushItem (map (Pair (fst msg)) ws) (wqOut s)"
    using sink_frames_queue [of "fst msg" ws "wqOut s" "k_count s"] qn by simp
  with that [OF h ws qn [symmetric]] assms h ws(1) qn show thesis
    by (auto simp: worker_process_def Let_def split: if_splits)
qed

lemma worker_process_keeps:
  assumes "server_inv s" "worker s = Some w" "runnerThread w = Some (Processing msg)"
    "worker_process E msg w s = Inr (pc, s')"
  shows "server_inv (set_pc pc s') \<and> only {fst msg} s s'"
proof (cases "handlerTable w (fst msg)")
  case None
  with assms set_pc_inv [OF assms(1)] show ?thesis by (simp add: worker_process_def)
next
  case (Some x)
  let ?fd = "fst msg"
  have t: "tables_ok (fdInfoTable s) (Some w)" and lim: "itemLimit (wqOut s) = 0"
    using assms by (simp_all add: server_inv_def)
  with Some assms(3) have x: "session_ok x" "isActive x" by (auto simp: tables_ok_def sessions_ok_def)
  have "?fd \<in> dom (handlerTable w)" using Some by blast
  with t have dom: "?fd \<in> dom (fdInfoTable s)" by (simp add: tables_ok_def)
  from worker_process_spec [OF assms(4) Some x] obtain x' ws q n where r:
    "session_ok (setIO (Some []) x')" "q = fold pushItem (map (Pair ?fd) ws) (wqOut s)"
    "s' = s\<lparr>wqOut := q, k_count := n, worker := Some (w\<lparr>handlerTable := (handlerTable w)(?fd \<mapsto> setIO (Some []) x')\<rparr>)\<rparr>"
    "pc = (if isActive x' then AtTest else Closing ?fd)" .
  have "queue_moves {?fd} (wqOut s) q" "itemLimit q = 0"
    using queue_moves_pushes [of "{?fd}" "map (Pair ?fd) ws"] lim r(2) by (simp_all add: list_all_iff)
  moreover have "isActive (setIO (Some []) x') \<or> pc = Closing ?fd"
    using r(4) by simp
  from tables_ok_session [OF t dom r(1) this] assms(3)
  have "tables_ok (fdInfoTable s)
      (Some (w\<lparr>handlerTable := (handlerTable w)(?fd \<mapsto> setIO (Some []) x'), runnerThread := Some pc\<rparr>))" by simp
  ultimately show ?thesis
    using assms(1,2) by (simp add: r(3) server_inv_def only_def session_def set_pc_def)
qed

lemma closeClient_fd_table:
  assumes "server_inv s"
  shows "fdInfoTable (closeClient_fd fd s) fd = None" "worker s = Some w \<Longrightarrow>
    (\<exists>t. worker (closeClient_fd fd s) = Some (w\<lparr>handlerTable := t\<rparr>))"
proof -
  have t: "tables_ok (fdInfoTable s) (worker s)" using assms by (simp add: server_inv_def)
  have c: "cc_fd c = fd" if "fdInfoTable s fd = Some c" for c
    using server_inv_connD [OF assms that] by (simp add: conn_ok_def)
  show "fdInfoTable (closeClient_fd fd s) fd = None"
    using t c by (auto simp: closeClient_fd_def destroyHandler_def Let_def kernel_simps tables_ok_def
        split: option.splits)
  show "\<exists>t. worker (closeClient_fd fd s) = Some (w\<lparr>handlerTable := t\<rparr>)" if "worker s = Some w"
    using that by (cases "fdInfoTable s fd")
      (auto simp: closeClient_fd_def destroyHandler_def destroyContext_def Let_def kernel_simps
        intro: exI [of _ "handlerTable w"])
qed

lemma worker_step_keeps:
  assumes "server_inv s"
  shows "keeps (touches WorkerStep s) s (worker_step E s)"
proof (cases "worker s")
  case None
  with assms show ?thesis by (simp add: worker_step_def)
next
  case (Some w)
  have move: "keeps A s (Inr (set_pc pc (s\<lparr>wqIn := q\<rparr>)))"
    if "items_ok q" "queue_moves A (wqIn s) q" "\<forall>g. runnerThread w \<noteq> Some (Closing g)" for A q pc
  proof -
    have "server_inv (s\<lparr>wqIn := q\<rparr>)" "only A s (s\<lparr>wqIn := q\<rparr>)"
      using assms that by (simp_all add: server_inv_def only_def session_def)
    with set_pc_inv [of "s\<lparr>wqIn := q\<rparr>" pc] Some that(3) show ?thesis by simp
  qed
  have items: "items_ok (wqIn s)" using assms by (simp add: server_inv_def)
  show ?thesis
  proof (cases "runnerThread w")
    case None
    with Some assms show ?thesis by (simp add: worker_step_def)
  next
    case (Some pc)
    note w = \<open>worker s = Some w\<close> Some
    show ?thesis
    proof (cases pc)
      case AtTest
      with w move [of "wqIn s" "{}"] items show ?thesis by (simp add: worker_step_def)
    next
      case AtFetch
      with w move [of "fetchBlocking_enter (wqIn s)" "{}"] items show ?thesis
        by (simp add: worker_step_def fetchBlocking_enter_def items_ok_def queue_moves_items)
    next
      case InWait
      obtain r q where k: "fetchBlocking_wake (wqIn s) = (r, q)" by fastforce
      then have "items_ok q" "queue_moves {} (wqIn s) q"
        using items by (auto simp: fetchBlocking_wake_def items_ok_def queue_movesI [of _ 1 _ "[]"]
            split: if_splits list.splits)
      with w InWait k move [of q "{}"] assms show ?thesis
        by (cases r) (simp_all add: worker_step_def)
    next
      case (Processing itm)
      show ?thesis
      proof (cases "worker_process E itm w s")
        case (Inl e)
        with w Processing show ?thesis by (simp add: worker_step_def)
      next
        case (Inr r)
        obtain pc' s' where r: "r = (pc', s')" by fastforce
        with worker_process_keeps [OF assms w(1), of itm E pc' s'] w Processing Inr show ?thesis
          by (simp add: worker_step_def)
      qed
    next
      case (Closing fd)
      let ?s = "closeClient_fd fd s"
      obtain t where "worker ?s = Some (w\<lparr>handlerTable := t\<rparr>)"
        using closeClient_fd_table(2) [OF assms w(1)] by blast
      with closeClient_fd_table(1) [OF assms, of fd] w(2) Closing
      have "server_inv (set_pc AtTest ?s)"
        by (intro set_pc_inv closeClient_fd_inv assms) auto
      with w Closing closeClient_fd_only [OF assms, of fd] show ?thesis
        by (simp add: worker_step_def)
    next
      case Exited
      with w assms show ?thesis by (simp add: worker_step_def)
    qed
  qed
qed

text \<open>The read from freed memory gives the descriptor that was there.\<close>

fun sane_action :: "action \<Rightarrow> bool" where
  "sane_action (LoopEvent ev) = (ev_stale ev = ev_fd ev)"
| "sane_action _ = True"

lemma server_exec_keeps:
  assumes "server_inv s" "sane_action a"
  shows "keeps (touches a s) s (server_exec E a s)"
proof (cases a)
  case (LoopEvent ev)
  with assms handle_event_keeps [OF assms(1)] show ?thesis by simp
next
  case WorkerStep
  with worker_step_keeps [OF assms(1)] show ?thesis by simp
next
  case StopBegin
  have "items_ok (cancelFetch (wqIn s))" "queue_moves {} (wqIn s) (cancelFetch (wqIn s))"
    using assms(1) by (simp_all add: server_inv_def items_ok_def cancelFetch_def queue_moves_items)
  with StopBegin assms(1) show ?thesis
    by (cases "worker s") (simp_all add: Server_stop_begin_def k_notify_def ServerWorker_stop_begin_def Let_def
        server_inv_def only_def session_def)
next
  case (SetAuthenticator x)
  with assms(1) show ?thesis
    by (simp add: setAuthenticator_def server_inv_def only_def session_def)
qed

lemma server_run_inv:
  "server_run E s as s' \<Longrightarrow> server_inv s \<Longrightarrow> list_all sane_action as \<Longrightarrow> server_inv s'"
proof (induction rule: server_run.induct)
  case (srv_step a s s1 as s2)
  with server_exec_keeps [of s a E] show ?case by (simp add: keeps_def)
qed simp

end
