(* ===== verification/ServerRuns.thy ===== *)
theory ServerRuns
  imports ServerFacts DemoEnv
begin

text \<open>
  The properties of the running server: what any interleaving of the event loop, the worker and the
  application keeps (tables in step, connections isolated, responses announced), what reaches the sockets,
  and how the server ends.
\<close>

section \<open>The server in service\<close>

text \<open>
  A constructed server whose socket is bound and whose \<open>run\<close> has started the worker, with any factory of user handlers: the
  library is used with factories of the application (the one of the program is in \<open>Mains\<close>).
\<close>

definition in_service :: "server \<Rightarrow> bool" where
  "in_service s \<longleftrightarrow>
     (\<exists>epfd evfd e s0 fac newfd bound listening a1 a2 s1.
        Server_new epfd evfd e = Inr s0 \<and>
        bindSock newfd bound listening a1 a2 (setUserHandlerFactory fac s0) = (True, s1) \<and>
        s = Server_run_start s1)"

lemma bindSock_tables:
  "bindSock newfd b l a1 a2 s = (r, s') \<Longrightarrow>
     fdInfoTable s' = fdInfoTable s \<and> worker s' = worker s \<and> wqIn s' = wqIn s \<and> wqOut s' = wqOut s \<and>
     k_count s' = k_count s"
  by (auto simp: bindSock_defs split: if_splits prod.splits bool.splits)

lemma in_service_start:
  assumes "in_service s"
  shows "fdInfoTable s = Map.empty" "wqIn s = WorkQueue_init" "wqOut s = WorkQueue_init" "k_count s = 0"
    "\<exists>fac fd. worker s = Some (ServerWorker_start (ServerWorker_new fac fd))"
proof -
  from assms obtain epfd evfd e s0 fac newfd b l a1 a2 s1 where
    n: "Server_new epfd evfd e = Inr s0" and
    d: "bindSock newfd b l a1 a2 (setUserHandlerFactory fac s0) = (True, s1)" and
    s: "s = Server_run_start s1"
    unfolding in_service_def by blast
  from n have "fdInfoTable s0 = Map.empty" "wqIn s0 = WorkQueue_init" "wqOut s0 = WorkQueue_init" "k_count s0 = 0"
    by (auto simp: Server_new_def split: if_splits)
  with bindSock_tables [OF d]
  show "fdInfoTable s = Map.empty" "wqIn s = WorkQueue_init" "wqOut s = WorkQueue_init" "k_count s = 0"
    "\<exists>fac fd. worker s = Some (ServerWorker_start (ServerWorker_new fac fd))"
    by (auto simp: s Server_run_start_def setUserHandlerFactory_def)
qed

lemma in_service_inv:
  assumes "in_service s"
  shows "server_inv s"
proof -
  from in_service_start [OF assms] obtain fac fd where
    "worker s = Some (ServerWorker_start (ServerWorker_new fac fd))" by blast
  with in_service_start(1-3) [OF assms] show ?thesis
    by (simp add: server_inv_def tables_ok_def items_ok_def WorkQueue_init_def ServerWorker_start_def
        ServerWorker_new_def sessions_ok_def)
qed

lemma reachable_inv: "in_service s0 \<Longrightarrow> server_run E s0 as s \<Longrightarrow> list_all sane_action as \<Longrightarrow> server_inv s"
  using server_run_inv in_service_inv by blast

section \<open>Announced responses\<close>

lemma fetch_length: "fetchItemNonBlocking q = (r, q') \<Longrightarrow> length (wq_items q') = length (wq_items q) - 1"
  by (cases "wq_items q") (auto simp: fetchItemNonBlocking_def)

text \<open>Every response in \<open>wqOut\<close> has its notification on the event descriptor.\<close>

definition announced :: "server \<Rightarrow> bool" where
  "announced s \<longleftrightarrow> length (wq_items (wqOut s)) \<le> k_count s"

lemma acceptClient_out: "wqOut (acceptClient r s) = wqOut s" "k_count (acceptClient r s) = k_count s"
  by (simp_all add: acceptClient_def createHandler_conn_def Let_def split_beta kernel_simps
      split: accept_result.split option.split)

lemma closeClient_out:
  "wqOut (closeClient_ctx st c s) = wqOut s" "k_count (closeClient_ctx st c s) = k_count s"
  "wqOut (closeClient_fd fd s) = wqOut s" "k_count (closeClient_fd fd s) = k_count s"
  by (simp_all add: closeClient_ctx_def closeClient_fd_def destroyHandler_def Let_def kernel_simps
      split: option.split)

lemma conn_writeAll_out:
  "conn_writeAll fd tx c s = Inr s' \<Longrightarrow> wqOut s' = wqOut s \<and> k_count s' = k_count s"
  by (auto simp: conn_writeAll_def Let_def split: prod.splits sum.splits)

lemma handleDataIn_out: "handleDataIn fd rx st c s = Inr s' \<Longrightarrow> wqOut s' = wqOut s \<and> k_count s' = k_count s"
  by (auto simp: handleDataIn_def Let_def closeClient_out split: prod.splits sum.splits if_splits)

lemma client_event_out: "client_event ev c s = Inr s' \<Longrightarrow> wqOut s' = wqOut s \<and> k_count s' = k_count s"
  by (auto simp: client_event_def client_ready_def closeClient_out
      split: if_splits sum.splits option.splits dest!: conn_writeAll_out handleDataIn_out)

lemma handleDataOut_out:
  "handleDataOut tx s = Inr s' \<Longrightarrow>
     length (wq_items (wqOut s')) = length (wq_items (wqOut s)) - 1 \<and> k_count s' = k_count s"
  by (auto simp: handleDataOut_def Let_def
      split: prod.splits option.splits bool.splits if_splits dest!: fetch_length conn_writeAll_out)

lemma handle_event_announced:
  assumes "handle_event ev s = Inr s'" "announced s"
  shows "announced s' \<and> k_count s' \<le> k_count s"
proof -
  consider (srv) "ev_fd ev = srv_fd s" | (out) "ev_fd ev \<noteq> srv_fd s" "ev_fd ev = eventFdOut s"
    | (client) "ev_fd ev \<noteq> srv_fd s" "ev_fd ev \<noteq> eventFdOut s" by blast
  then show ?thesis
  proof cases
    case srv
    with assms show ?thesis
      by (auto simp: handle_event_def announced_def acceptClient_out split: if_splits)
  next
    case out
    show ?thesis
    proof (cases "k_count s")
      case 0
      with out assms show ?thesis by (simp add: handle_event_def eventfd_read_def)
    next
      case (Suc n)
      with out assms(1) have "handleDataOut (ev_tx ev) (s\<lparr>k_count := n\<rparr>) = Inr s'"
        by (simp add: handle_event_def eventfd_read_def)
      from handleDataOut_out [OF this] Suc assms(2) show ?thesis
        by (simp add: announced_def)
    qed
  next
    case client
    with assms show ?thesis
      by (auto simp: handle_event_def announced_def split: option.splits dest!: client_event_out)
  qed
qed

lemma worker_process_announced:
  assumes "worker_process E msg w s = Inr (pc, s')" "server_inv s" "worker s = Some w"
    "runnerThread w = Some (Processing msg)" "announced s" "k_count s + 2 \<le> eventfd_max"
  shows "announced s' \<and> k_count s' \<le> k_count s + 2"
proof (cases "handlerTable w (fst msg)")
  case None
  with assms show ?thesis by (simp add: worker_process_def)
next
  case (Some x)
  have x: "session_ok x" "isActive x" and lim: "itemLimit (wqOut s) = 0"
    using assms(2-4) Some by (auto simp: server_inv_def tables_ok_def sessions_ok_def)
  from worker_process_spec [OF assms(1) Some x] obtain x' ws q n where r: "length ws \<le> 2"
    "(q, n) = sink_frames (fst msg) ws (wqOut s, k_count s)"
    "q = fold pushItem (map (Pair (fst msg)) ws) (wqOut s)"
    "s' = s\<lparr>wqOut := q, k_count := n,
       worker := Some (w\<lparr>handlerTable := (handlerTable w)(fst msg \<mapsto> setIO (Some []) x')\<rparr>)\<rparr>" .
  have "n = k_count s + length ws"
    using sink_frames_notifies [of "k_count s" ws "fst msg" "wqOut s"] r(1) assms(6)
    unfolding r(2) [symmetric] by simp
  with r fold_pushItem_unlimited [OF lim] assms(5) show ?thesis
    by (simp add: announced_def)
qed

lemma set_pc_out [simp]: "wqOut (set_pc pc s) = wqOut s" "k_count (set_pc pc s) = k_count s"
  by (simp_all add: set_pc_def split: option.split)

lemma worker_step_announced:
  assumes "worker_step E s = Inr s'" "server_inv s" "announced s" "k_count s + 2 \<le> eventfd_max"
  shows "announced s' \<and> k_count s' \<le> k_count s + 2"
proof (cases "\<exists>w itm. worker s = Some w \<and> runnerThread w = Some (Processing itm)")
  case True
  then obtain w itm where w: "worker s = Some w" "runnerThread w = Some (Processing itm)" by blast
  with assms(1) obtain pc s1 where "worker_process E itm w s = Inr (pc, s1)" "s' = set_pc pc s1"
    by (auto simp: worker_step_def split: sum.splits)
  with worker_process_announced [OF _ assms(2) w assms(3,4)] show ?thesis
    by (auto simp: announced_def)
next
  case False
  then have "wqOut s' = wqOut s \<and> k_count s' = k_count s"
    using assms(1) by (auto simp: worker_step_def closeClient_out
        split: option.splits worker_pc.splits prod.splits fetch_outcome.splits)
  with assms(3) show ?thesis by (simp add: announced_def)
qed

lemma server_exec_announced:
  assumes "server_exec E a s = Inr s'" "server_inv s" "announced s" "k_count s + 2 \<le> eventfd_max"
  shows "announced s' \<and> k_count s' \<le> k_count s + 2"
proof (cases a)
  case (LoopEvent ev)
  with handle_event_announced [of ev s s'] assms show ?thesis by simp
next
  case WorkerStep
  with worker_step_announced [of E s s'] assms show ?thesis by simp
next
  case StopBegin
  with assms show ?thesis
    by (auto simp: Server_stop_begin_def k_notify_def eventfd_write_def ServerWorker_stop_begin_def Let_def
        announced_def split: option.splits)
next
  case (SetAuthenticator x)
  with assms show ?thesis by (auto simp: setAuthenticator_def announced_def)
qed

lemma server_run_announced:
  "server_run E s as s' \<Longrightarrow> server_inv s \<Longrightarrow> list_all sane_action as \<Longrightarrow> announced s \<Longrightarrow>
     k_count s + 2 * length as \<le> eventfd_max \<Longrightarrow> announced s'"
proof (induction rule: server_run.induct)
  case (srv_step a s s1 as s2)
  from srv_step.prems have "k_count s + 2 \<le> eventfd_max" "sane_action a" by simp_all
  with server_exec_announced [OF srv_step.hyps(1)] srv_step.prems
    server_exec_keeps [of s a E] srv_step.hyps(1)
  have "announced s1" "k_count s1 \<le> k_count s + 2" "server_inv s1" by (simp_all add: keeps_def)
  with srv_step.IH srv_step.prems show ?case by simp
qed simp

section \<open>Sending a response\<close>

text \<open>A response for an idle connection, with room for it in the socket: it goes out whole.\<close>

lemma handleDataOut_sends:
  assumes "wq_items (wqOut s) = (fd, g) # rest" "fdInfoTable s fd = Some c" "frame_wf g"
    "\<not> writeInProgress (cc_deframer c)" "tx = [TxRoom n]" "length (wire g) \<le> n"
  shows "\<exists>c'. handleDataOut tx s =
      Inr (s\<lparr>wqOut := (wqOut s)\<lparr>wq_items := rest\<rparr>, fdInfoTable := (fdInfoTable s)(fd \<mapsto> c'),
             k_sent := (k_sent s)(fd := k_sent s fd @ wire g)\<rparr>) \<and>
    \<not> writeInProgress (cc_deframer c') \<and> cc_framer c' = cc_framer c \<and> cc_fd c' = cc_fd c"
proof -
  obtain d where d: "PDeframer_setSentItem (fd, g) (cc_deframer c) = (True, d)" "assocFd d = fd"
      "df_state d = TX_HEADER" "writeInProgress d" and sending: "sending d g (wire g)"
    using sending_setSentItem [OF assms(4,3), of fd] assms(4)
    by (simp add: PDeframer_setSentItem_def PDeframer_resetState_def)
  have "3 \<le> length (wire g)" by (simp add: wire_def)
  then have room: "len_room d tx" "tx_pure tx"
    using assms(5,6) d(3,4) by (auto simp: len_room_def)
  from writeAll_sends [OF sending room(2,1), of "k_sent s fd"] assms(5,6) obtain d' s' where
    "PDeframer_writeAll d tx (k_sent s fd) = (Inr (\<not> writeInProgress d'), d', s', k_sent s fd @ wire g)"
    "\<not> writeInProgress d'" by auto
  with d(1,2) assms(1,2) show ?thesis
    by (intro exI [of _ "c\<lparr>cc_deframer := d', txReady := True\<rparr>"])
      (simp add: handleDataOut_def fetchItemNonBlocking_def conn_writeAll_def Let_def)
qed

lemma handleDataOut_drops:
  assumes "wq_items (wqOut s) = (fd, g) # rest" "fdInfoTable s fd = Some c" "writeInProgress (cc_deframer c)"
  shows "handleDataOut tx s = Inr (s\<lparr>wqOut := (wqOut s)\<lparr>wq_items := rest\<rparr>\<rparr>)"
  using assms by (simp add: handleDataOut_def fetchItemNonBlocking_def PDeframer_setSentItem_def)

text \<open>A client hangs up, and the next one is accepted on the same descriptor.\<close>

lemma reconnect:
  assumes "server_inv s" "worker s = Some w" "fdInfoTable s fd \<noteq> None" "fd \<noteq> srv_fd s" "fd \<noteq> eventFdOut s"
    "ev_fd hup = fd" "ev_hup hup" "ev_stale hup = fd"
    "ev_fd acc = srv_fd s" "ev_in acc" "\<not> ev_err acc" "ev_accept acc = AcceptOk a" "ac_fd a = fd"
  shows "\<exists>s1 s2. handle_event hup s = Inr s1 \<and> handle_event acc s1 = Inr s2 \<and>
    fdInfoTable s2 fd = Some (ConnectionContext_new fd (ac_addr a) (ac_fill a)) \<and>
    session s2 fd = Some (new_session (worker_factory w) (ac_seed a)) \<and> k_sent s2 fd = [] \<and>
    wqOut s2 = wqOut s \<and> k_count s2 = k_count s \<and> srv_fd s2 = srv_fd s \<and> eventFdOut s2 = eventFdOut s \<and>
    worker s2 = Some (createContext fd (ac_seed a) (destroyContext fd w)) \<and> (ac_added a \<longrightarrow> fd \<in> k_open s2)"
proof -
  obtain c where c: "fdInfoTable s fd = Some c" "cc_fd c = fd"
    using assms(3) server_inv_connD [OF assms(1)] by (auto simp: conn_ok_def)
  define s1 where "s1 = closeClient_ctx fd c s"
  have 1: "handle_event hup s = Inr s1"
    using assms c by (simp add: handle_event_def client_event_def s1_def)
  have s1: "fdInfoTable s1 fd = None" "worker s1 = Some (destroyContext fd w)" "wqOut s1 = wqOut s"
    "k_count s1 = k_count s" "srv_fd s1 = srv_fd s" "eventFdOut s1 = eventFdOut s"
    using c assms(2) by (simp_all add: s1_def closeClient_ctx_def Let_def kernel_simps)
  define s2 where "s2 = acceptClient (AcceptOk a) s1"
  have 2: "handle_event acc s1 = Inr s2"
    using assms s1 by (simp add: handle_event_def s2_def)
  have "handlerTable (createContext fd (ac_seed a) (destroyContext fd w)) fd =
      Some (new_session (worker_factory w) (ac_seed a))"
    by (simp add: createContext_table destroyContext_def)
  with s1 assms(13) have s2: "fdInfoTable s2 fd = Some (ConnectionContext_new fd (ac_addr a) (ac_fill a))"
    "session s2 fd = Some (new_session (worker_factory w) (ac_seed a))" "k_sent s2 fd = []"
    "wqOut s2 = wqOut s" "k_count s2 = k_count s" "srv_fd s2 = srv_fd s" "eventFdOut s2 = eventFdOut s"
    "worker s2 = Some (createContext fd (ac_seed a) (destroyContext fd w))" "ac_added a \<longrightarrow> fd \<in> k_open s2"
    by (auto simp: s2_def acceptClient_def createHandler_conn_def Let_def split_beta epollAddClient_def k_close_def
        session_def)
  with 1 2 show ?thesis by blast
qed

section \<open>Stopping the worker\<close>

fun worker_steps :: "proto_env \<Rightarrow> nat \<Rightarrow> server \<Rightarrow> fault + server" where
  "worker_steps E 0 s = Inr s"
| "worker_steps E (Suc n) s = (case worker_step E s of Inl e \<Rightarrow> Inl e | Inr s' \<Rightarrow> worker_steps E n s')"

abbreviation worker_at :: "server \<Rightarrow> worker_pc \<Rightarrow> bool" where
  "worker_at s pc \<equiv> (\<exists>w. worker s = Some w \<and> runnerThread w = Some pc)"

text \<open>Once the worker is past its test, the fetch forgets the cancellation and waits.\<close>

lemma worker_waits:
  assumes "worker s = Some w" "runnerThread w = Some InWait" "wq_items (wqIn s) = []" "\<not> fetchCancelled (wqIn s)"
  shows "worker_steps E n s = Inr s"
proof -
  have "worker_step E s = Inr s"
    using assms by (simp add: worker_step_def fetchBlocking_wake_def)
  then show ?thesis by (induction n) simp_all
qed

section \<open>Properties\<close>

text \<open>C6: Connections and sessions stay in step: whatever the event loop, the worker and the application do in
  any interleaving, a descriptor has a connection entry exactly when the worker has a session for it; the
  entry is for that descriptor and its reader is in a consistent state, and every session is in a consistent
  state whose key exchange flag agrees with its coder. A session that has ended is only there between the
  worker's last reply for it and its call of \<open>closeClient\<close>.\<close>

theorem server_tables_in_step:
  assumes "in_service s0" "server_run E s0 as s" "list_all sane_action as"
  shows "(fdInfoTable s fd = None \<longleftrightarrow> session s fd = None) \<and>
    (fdInfoTable s fd = Some c \<longrightarrow> cc_fd c = fd \<and> fm_fd (cc_framer c) = fd \<and> framer_wf (cc_framer c)) \<and>
    (session s fd = Some x \<longrightarrow> state_ok (ctx_state x) \<and> (isActive x \<or> worker_at s (Closing fd)))"
proof -
  have t: "tables_ok (fdInfoTable s) (worker s)"
    using reachable_inv [OF assms] by (simp add: server_inv_def)
  then have "fdInfoTable s fd = None \<longleftrightarrow> session s fd = None"
    by (cases "worker s") (auto simp: tables_ok_def session_def)
  moreover have "session_ok x \<and> (isActive x \<or> worker_at s (Closing fd))" if "session s fd = Some x"
    using t that by (cases "worker s") (auto simp: tables_ok_def sessions_ok_def session_def)
  ultimately show ?thesis
    using tables_ok_connD [OF t, of fd c] by (auto simp: conn_ok_def session_ok_def)
qed

text \<open>C10: Connections are isolated: an action of the event loop or the worker changes the connection entry, the
  session and the bytes sent of no other descriptor than the one its event or frame is for (for a
  notification: the addressee of the first response), and it adds no item for another one to the queues.\<close>

theorem server_isolation:
  assumes "in_service s0" "server_run E s0 as s" "list_all sane_action as" "sane_action a"
    "server_exec E a s = Inr s'" "fd \<notin> touches a s"
  shows "fdInfoTable s' fd = fdInfoTable s fd \<and> session s' fd = session s fd \<and> k_sent s' fd = k_sent s fd \<and>
    fd \<notin> fst ` (set (wq_items (wqIn s')) - set (wq_items (wqIn s))) \<and>
    fd \<notin> fst ` (set (wq_items (wqOut s')) - set (wq_items (wqOut s)))"
proof -
  have o: "only (touches a s) s s'"
    using server_exec_keeps [OF reachable_inv [OF assms(1-3)] assms(4), of E] assms(5) by (simp add: keeps_def)
  have q: "fd \<notin> fst ` (set (wq_items q') - set (wq_items q))" if "queue_moves (touches a s) q q'" for q q'
  proof -
    from that obtain n ws where n: "wq_items q' = drop n (wq_items q) @ ws" "fst ` set ws \<subseteq> touches a s"
      unfolding queue_moves_def by blast
    then have "set (wq_items q') - set (wq_items q) \<subseteq> set ws"
      by (auto dest: in_set_dropD)
    with n(2) assms(6) show ?thesis by blast
  qed
  show ?thesis
    using o assms(6) q unfolding only_def by blast
qed

text \<open>C23: No response waits unnoticed: in a run of fewer than \<open>2^63\<close> actions every response in \<open>wqOut\<close> has its own
  count on the event descriptor, so as long as there is one, the descriptor is readable and the event
  loop is woken for it.\<close>

theorem responses_announced:
  assumes "in_service s0" "server_run E s0 as s" "list_all sane_action as" "2 * length as \<le> eventfd_max"
  shows "length (wq_items (wqOut s)) \<le> k_count s \<and>
    (wq_items (wqOut s) \<noteq> [] \<longrightarrow> fst (eventfd_read (k_count s)))"
proof -
  have "announced s0"
    using in_service_start(3,4) [OF assms(1)] by (simp add: announced_def WorkQueue_init_def)
  with server_run_announced [OF assms(2) in_service_inv [OF assms(1)] assms(3)] assms(4)
    in_service_start(4) [OF assms(1)]
  have "announced s" by simp
  then show ?thesis
    by (cases "wq_items (wqOut s)") (auto simp: announced_def eventfd_read_def)
qed

text \<open>C28: When the event descriptor is readable and the socket has room, the first response is put on the socket of
  its connection, exactly in wire form, if that connection is not still writing an earlier response; if it
  is, the response is taken from the queue and lost.\<close>

theorem response_sent_or_dropped:
  assumes "in_service s0" "server_run E s0 as s" "list_all sane_action as" "2 * length as \<le> eventfd_max"
    "ev_fd ev = eventFdOut s" "eventFdOut s \<noteq> srv_fd s" "wq_items (wqOut s) = (fd, g) # rest"
    "fdInfoTable s fd = Some c" "frame_wf g" "ev_tx ev = [TxRoom n]" "length (wire g) \<le> n"
  shows "\<exists>s'. handle_event ev s = Inr s' \<and> wq_items (wqOut s') = rest \<and>
    k_sent s' fd = (if writeInProgress (cc_deframer c) then k_sent s fd else k_sent s fd @ wire g)"
proof -
  have "announced s0"
    using in_service_start(3,4) [OF assms(1)] by (simp add: announced_def WorkQueue_init_def)
  with server_run_announced [OF assms(2) in_service_inv [OF assms(1)] assms(3)] assms(4)
    in_service_start(4) [OF assms(1)]
  have "announced s" by simp
  with assms(7) obtain k where k: "k_count s = Suc k"
    by (cases "k_count s") (simp_all add: announced_def)
  let ?s = "s\<lparr>k_count := k\<rparr>"
  have h: "handle_event ev s = handleDataOut (ev_tx ev) ?s"
    using assms(5,6) k by (simp add: handle_event_def eventfd_read_def)
  show ?thesis
  proof (cases "writeInProgress (cc_deframer c)")
    case True
    with handleDataOut_drops [of ?s fd g rest c "ev_tx ev"] assms(7,8) h show ?thesis by simp
  next
    case False
    with handleDataOut_sends [of ?s fd g rest c "ev_tx ev" n] assms(7-11) h show ?thesis by auto
  qed
qed

text \<open>One client can end the server: a socket error other than \<open>EAGAIN\<close> that the first \<open>recv\<close> on a ready
  connection reports (a reset that arrives after \<open>epoll_wait\<close>) is thrown out of the event loop, which has
  no handler for it; no later event is handled and the other connections are lost.\<close>

lemma client_error_ends_server:
  assumes "in_service s0" "server_run E s0 as s" "list_all sane_action as" "running s"
    "fdInfoTable s (ev_fd ev) = Some c" "ev_fd ev \<noteq> srv_fd s" "ev_fd ev \<noteq> eventFdOut s" "\<not> ev_err ev"
    "\<not> ev_hup ev" "\<not> ev_out ev" "ev_in ev" "ev_rx ev = RxErr e # rx" "e \<noteq> EAGAIN"
    "fm_state (cc_framer c) = RX_MSG \<longrightarrow> 0 < msgRemainingBytes (cc_framer c)"
  shows "Server_run_loop (WaitEvents (ev # evs) # rs) s = Inl (SystemError e)"
proof -
  have "framer_wf (cc_framer c)"
    using server_inv_connD [OF reachable_inv [OF assms(1-3)] assms(5)] by (simp add: conn_ok_def)
  then have "\<exists>f q s1. PFramer_tryRead (cc_framer c) (wqIn s) (ev_rx ev) = (Inl (SystemError e), f, q, s1)"
    using assms(12-14)
    by (cases "fm_state (cc_framer c)")
      (auto simp: PFramer_tryRead_def PFramer_rxHeader_def PFramer_rxLen_def PFramer_rxMsg_def PFramer_tryRecv_def
        framer_wf_def Let_def frame_wf_def)
  then obtain f q s1 where "PFramer_readAll (cc_framer c) (wqIn s) (ev_rx ev) = (Inl (SystemError e), f, q, s1)"
    using readAll_unfold(3) by blast
  then have "handle_event ev s = Inl (SystemError e)"
    using assms by (simp add: handle_event_def client_event_def client_ready_def handleDataIn_def)
  with assms(4) show ?thesis by (simp add: handle_wait_def)
qed

text \<open>C24: A response can reach the wrong client: when a client hangs up while its response is still in \<open>wqOut\<close>
  and the kernel gives its descriptor to the next connection before the notification is handled, the response is
  sent, in full, to the new client, whose own session has not handled anything yet.\<close>

theorem stale_response_reaches_new_client:
  assumes "in_service s0" "server_run E s0 as s" "list_all sane_action as" "2 * length as \<le> eventfd_max"
    "worker s = Some w" "wq_items (wqOut s) = (fd, g) # rest" "fdInfoTable s fd \<noteq> None" "frame_wf g"
    "fd \<noteq> srv_fd s" "fd \<noteq> eventFdOut s" "eventFdOut s \<noteq> srv_fd s"
    "ev_fd hup = fd" "ev_hup hup" "ev_stale hup = fd"
    "ev_fd acc = srv_fd s" "ev_in acc" "\<not> ev_err acc" "ev_accept acc = AcceptOk a" "ac_fd a = fd"
    "ev_fd out = eventFdOut s" "ev_tx out = [TxRoom n]" "length (wire g) \<le> n"
  shows "\<exists>s'. handle_events [hup, acc, out] s = Inr s' \<and> k_sent s' fd = wire g \<and>
    session s' fd = Some (new_session (worker_factory w) (ac_seed a))"
proof -
  have inv: "server_inv s" by (rule reachable_inv [OF assms(1-3)])
  have "announced s0"
    using in_service_start(3,4) [OF assms(1)] by (simp add: announced_def WorkQueue_init_def)
  with server_run_announced [OF assms(2) in_service_inv [OF assms(1)] assms(3)] assms(4)
    in_service_start(4) [OF assms(1)]
  have "announced s" by simp
  with assms(6) obtain k where k: "k_count s = Suc k"
    by (cases "k_count s") (simp_all add: announced_def)
  from reconnect [OF inv assms(5,7,9,10,12-19)] obtain s1 s2 where
    1: "handle_event hup s = Inr s1" and 2: "handle_event acc s1 = Inr s2" and
    s2: "fdInfoTable s2 fd = Some (ConnectionContext_new fd (ac_addr a) (ac_fill a))"
      "session s2 fd = Some (new_session (worker_factory w) (ac_seed a))" "k_sent s2 fd = []"
      "wqOut s2 = wqOut s" "k_count s2 = k_count s" "srv_fd s2 = srv_fd s" "eventFdOut s2 = eventFdOut s"
    by blast
  let ?c = "ConnectionContext_new fd (ac_addr a) (ac_fill a)"
  have "\<not> writeInProgress (cc_deframer ?c)"
    by (simp add: ConnectionContext_new_def PDeframer_new_def PDeframer_resetAll_def PDeframer_resetState_def)
  from handleDataOut_sends [of "s2\<lparr>k_count := k\<rparr>" fd g rest ?c "ev_tx out" n] this s2 assms(6,8,21,22)
  obtain c' where "handleDataOut (ev_tx out) (s2\<lparr>k_count := k\<rparr>) =
      Inr (s2\<lparr>k_count := k, wqOut := (wqOut s)\<lparr>wq_items := rest\<rparr>, fdInfoTable := (fdInfoTable s2)(fd \<mapsto> c'),
        k_sent := (k_sent s2)(fd := wire g)\<rparr>)" by auto
  with assms(11,20) s2 k 1 2 show ?thesis
    by (simp add: handle_event_def eventfd_read_def session_def)
qed

end
