(* ===== verification/IOFrameSockets.thy ===== *)
theory IOFrameSockets
  imports Sockets
begin

text \<open>
  \<open>IOFrameSocket\<close> (\<open>protocom/IOFrameSocket.h\<close>, \<open>IOFrameSocket.cpp\<close>): the client's frame reader and
  writer on a blocking socket with timeouts (\<open>EAGAIN\<close> is a timeout). The two \<open>eagain\<close> flags are not
  initialised by the constructor: their first value is an argument of \<open>IOFrameSocket_new\<close>. The
  receive side is a script, the send side a script and what was accepted.
\<close>

record io_socket =
  sockfd :: int
  conn_open :: bool
  read_eagain :: bool
  write_eagain :: bool
  msgBuf :: bytes
  io_rx :: "rx_event list"
  io_tx :: "tx_event list"
  io_out :: bytes

definition IOFrameSocket_new ::
    "int \<Rightarrow> bool \<Rightarrow> bool \<Rightarrow> rx_event list \<Rightarrow> tx_event list \<Rightarrow> io_socket" where
  "IOFrameSocket_new fd r w rx tx =
     \<lparr>sockfd = fd, conn_open = True, read_eagain = r, write_eagain = w, msgBuf = [],
      io_rx = rx, io_tx = tx, io_out = []\<rparr>"

definition try_recv :: "nat \<Rightarrow> io_socket \<Rightarrow> (fault + bytes) \<times> io_socket" where
  "try_recv n k =
     (if \<not> conn_open k \<or> n = 0 then (Inr [], k)
      else case sys_recv n (io_rx k) of
        (RecvGot bs, s) \<Rightarrow>
          (Inr bs, k\<lparr>io_rx := s, conn_open := (if bs = [] then False else conn_open k),
                    read_eagain := False\<rparr>)
      | (RecvFail e, s) \<Rightarrow>
          if e = EAGAIN then (Inr [], k\<lparr>io_rx := s, read_eagain := True\<rparr>)
          else (Inl (SystemError e), k\<lparr>io_rx := s\<rparr>))"

definition try_send :: "bytes \<Rightarrow> io_socket \<Rightarrow> (fault + nat) \<times> io_socket" where
  "try_send buf k =
     (if \<not> conn_open k \<or> buf = [] then (Inr 0, k)
      else case sys_send (length buf) (io_tx k) of
        (Sent n, s) \<Rightarrow>
          (Inr n, k\<lparr>io_tx := s, io_out := io_out k @ take n buf,
                   conn_open := (if n = 0 then False else conn_open k), write_eagain := False\<rparr>)
      | (SendFail e, s) \<Rightarrow>
          if e = EAGAIN then (Inr 0, k\<lparr>io_tx := s, write_eagain := True\<rparr>)
          else (Inl (SystemError e), k\<lparr>io_tx := s\<rparr>))"

definition sendFrame :: "frame \<Rightarrow> io_socket \<Rightarrow> (fault + bool) \<times> io_socket" where
  "sendFrame f k =
     (case try_send [fr_header f] k of
        (Inl e, k1) \<Rightarrow> (Inl e, k1)
      | (Inr n1, k1) \<Rightarrow>
          if n1 \<noteq> 1 then (Inr False, k1)
          else let l = htons (fr_len f) in
          (case try_send [lo_byte l, hi_byte l] k1 of
             (Inl e, k2) \<Rightarrow> (Inl e, k2)
           | (Inr n2, k2) \<Rightarrow>
               if n2 \<noteq> 2 then (Inr False, k2)
               else if unat (fr_len f) \<noteq> 0 \<and> length (fr_msg f) < unat (fr_len f)
                    then (Inl OutOfBounds, k2)
               else (case try_send (take (unat (fr_len f)) (fr_msg f)) k2 of
                  (Inl e, k3) \<Rightarrow> (Inl e, k3)
                | (Inr n3, k3) \<Rightarrow> (Inr (n3 = unat (fr_len f)), k3))))"

text \<open>
  The receive loop of \<open>recvFrame\<close>: every call asks for all that is missing and stores it behind what
  came before. It returns the size of the last chunk, or \<open>None\<close> when a call returned nothing.
\<close>

lemma try_recv_progress:
  "try_recv n k = (Inr (b # bs), k') \<Longrightarrow> length (b # bs) \<le> n \<and> n \<noteq> 0"
  by (auto simp: try_recv_def split: if_splits prod.splits recv_result.splits dest: recv_got_bound)

function recv_loop :: "nat \<Rightarrow> nat \<Rightarrow> nat \<Rightarrow> io_socket \<Rightarrow> (fault + nat option) \<times> io_socket" where
  "recv_loop len to_recv nrecv k =
     (if to_recv = 0 then (Inr (Some nrecv), k)
      else case try_recv to_recv k of
        (Inl e, k1) \<Rightarrow> (Inl e, k1)
      | (Inr [], k1) \<Rightarrow> (Inr None, k1)
      | (Inr (b # bs), k1) \<Rightarrow>
          recv_loop len (to_recv - length (b # bs)) (length (b # bs))
            (k1\<lparr>msgBuf := write_at (len - to_recv) (b # bs) (msgBuf k1)\<rparr>))"
  by pat_completeness auto
termination
  by (relation "measure (\<lambda>(len, to_recv, nrecv, k). to_recv)") (auto dest: try_recv_progress [OF sym])

declare recv_loop.simps [simp del]

text \<open>\<open>recvFrame\<close> into \<open>frame\<close>, whose message becomes a view of \<open>msgBuf\<close>.\<close>

definition recvFrame :: "frame \<Rightarrow> io_socket \<Rightarrow> (fault + bool) \<times> frame \<times> io_socket" where
  "recvFrame f k =
     (case try_recv 1 k of
        (Inl e, k1) \<Rightarrow> (Inl e, f, k1)
      | (Inr [], k1) \<Rightarrow> (Inr False, f, k1)
      | (Inr (h # _), k1) \<Rightarrow>
          let f1 = f\<lparr>fr_header := h\<rparr> in
          if \<not> header_ok h then (Inr False, f1, k1)
          else (case try_recv 2 k1 of
             (Inl e, k2) \<Rightarrow> (Inl e, f1, k2)
           | (Inr [], k2) \<Rightarrow> (Inr False, f1, k2)
           | (Inr (a # bs), k2) \<Rightarrow>
               let w = join_bytes a (case bs of [] \<Rightarrow> hi_byte (fr_len f1) | b # _ \<Rightarrow> b);
                   f2 = f1\<lparr>fr_len := ntohs w\<rparr>;
                   len = unat (fr_len f2)
               in (case recv_loop len len 1 (k2\<lparr>msgBuf := resize len (msgBuf k2)\<rparr>) of
                     (Inl e, k3) \<Rightarrow> (Inl e, f2, k3)
                   | (Inr None, k3) \<Rightarrow> (Inr False, f2, k3)
                   | (Inr (Some nrecv), k3) \<Rightarrow>
                       if nrecv \<noteq> len then (Inr False, f2, k3)
                       else (Inr True, f2\<lparr>fr_msg := msgBuf k3\<rparr>, k3))))"

definition readFrame :: "frame \<Rightarrow> io_socket \<Rightarrow> (fault + bool) \<times> frame \<times> io_socket" where
  "readFrame f k = recvFrame f k"

definition writeFrame :: "frame \<Rightarrow> io_socket \<Rightarrow> (fault + bool) \<times> io_socket" where
  "writeFrame f k = sendFrame f k"

definition isEOF :: "io_socket \<Rightarrow> bool" where
  "isEOF k = (\<not> conn_open k)"

definition isWriteExhausted :: "io_socket \<Rightarrow> bool" where
  "isWriteExhausted k = write_eagain k"

definition isReadExhausted :: "io_socket \<Rightarrow> bool" where
  "isReadExhausted k = read_eagain k"

text \<open>
  \<open>setTimeout\<close> compares the result of \<open>setsockopt\<close>, which is 0 or -1, with \<open>< -1\<close>; the two results
  are arguments.
\<close>

definition setTimeout :: "int \<Rightarrow> int \<Rightarrow> errno \<Rightarrow> fault + unit" where
  "setTimeout rcv_res snd_res e =
     (if rcv_res < - 1 then Inl (SystemError e)
      else if snd_res < - 1 then Inl (SystemError e)
      else Inr ())"

section \<open>Receiving\<close>

lemma write_at_append: "length buf = length c + length d \<Longrightarrow> write_at (length c) d (c @ x) = c @ d"
  if "length x = length d"
  using that by (simp add: write_at_def)

text \<open>
  The loop over a message that arrives in the chunks \<open>c # cs\<close>: the bytes come out whole, but what is
  returned is the size of the last chunk.
\<close>

lemma recv_loop_chunks:
  assumes "conn_open k" "io_rx k = map RxData (c # cs) @ rest" "[] \<notin> set (c # cs)"
    "to_recv = length (concat (c # cs))" "to_recv \<le> len" "length (msgBuf k) = len"
  shows "\<exists>k'. recv_loop len to_recv n k = (Inr (Some (length (last (c # cs)))), k') \<and>
     io_rx k' = rest \<and> msgBuf k' = take (len - to_recv) (msgBuf k) @ concat (c # cs) \<and> conn_open k'"
  using assms
proof (induction cs arbitrary: c n k to_recv)
  case Nil
  then obtain b bs where c: "c = b # bs" by (cases c) auto
  let ?k = "k\<lparr>io_rx := rest, conn_open := True, read_eagain := False\<rparr>"
  let ?k1 = "?k\<lparr>msgBuf := write_at (len - to_recv) c (msgBuf k)\<rparr>"
  have r: "try_recv to_recv k = (Inr c, ?k)"
    using Nil c by (simp add: try_recv_def)
  have "recv_loop len to_recv n k = recv_loop len (to_recv - length c) (length c) ?k1"
    by (subst recv_loop.simps) (use r Nil c in simp)
  also have "\<dots> = (Inr (Some (length c)), ?k1)"
    using Nil by (simp add: recv_loop.simps)
  finally have "recv_loop len to_recv n k = (Inr (Some (length c)), ?k1)" .
  moreover have "write_at (len - to_recv) c (msgBuf k) = take (len - to_recv) (msgBuf k) @ c"
    using Nil by (simp add: write_at_def)
  ultimately show ?case
    by (intro exI [of _ ?k1]) simp
next
  case (Cons d cs)
  then obtain b bs where c: "c = b # bs" by (cases c) auto
  let ?k = "k\<lparr>io_rx := map RxData (d # cs) @ rest, conn_open := True, read_eagain := False\<rparr>"
  let ?k1 = "?k\<lparr>msgBuf := write_at (len - to_recv) c (msgBuf k)\<rparr>"
  have t: "try_recv to_recv k = (Inr c, ?k)"
    using Cons.prems c by (simp add: try_recv_def)
  have r: "recv_loop len to_recv n k = recv_loop len (to_recv - length c) (length c) ?k1"
    by (subst recv_loop.simps) (use t Cons.prems c in simp)
  have "\<exists>k'. recv_loop len (to_recv - length c) (length c) ?k1 = (Inr (Some (length (last (d # cs)))), k') \<and>
      io_rx k' = rest \<and>
      msgBuf k' = take (len - (to_recv - length c)) (msgBuf ?k1) @ concat (d # cs) \<and> conn_open k'"
    by (rule Cons.IH) (use Cons.prems in \<open>auto simp: length_write_at\<close>)
  moreover have "take (len - (to_recv - length c)) (msgBuf ?k1) = take (len - to_recv) (msgBuf k) @ c"
    using Cons.prems take_write_at [of "len - to_recv" c "msgBuf k"] by simp
  ultimately show ?case
    using r by auto
qed

text \<open>Receiving leaves the send side alone.\<close>

lemma try_recv_out: "try_recv n k = (r, k') \<Longrightarrow> io_tx k' = io_tx k \<and> io_out k' = io_out k"
  by (auto simp: try_recv_def split: if_splits prod.splits recv_result.splits)

lemma recv_loop_out: "recv_loop len to_recv n k = (r, k') \<Longrightarrow> io_tx k' = io_tx k \<and> io_out k' = io_out k"
proof (induction len to_recv n k arbitrary: r k' rule: recv_loop.induct)
  case (1 len to_recv n k)
  obtain res k1 where t: "try_recv to_recv k = (res, k1)" by fastforce
  note k1 = try_recv_out [OF t]
  show ?case
  proof (cases "to_recv = 0")
    case True
    with "1.prems" show ?thesis by (simp add: recv_loop.simps)
  next
    case False
    show ?thesis
    proof (cases "\<exists>b bs. res = Inr (b # bs)")
      case True
      then obtain b bs where res: "res = Inr (b # bs)" by blast
      with "1.prems" False t k1 "1.IH" [OF False t [symmetric] res refl] show ?thesis
        by (subst (asm) recv_loop.simps) simp
    next
      case no: False
      with "1.prems" \<open>to_recv \<noteq> 0\<close> t k1 show ?thesis
        by (subst (asm) recv_loop.simps) (auto split: sum.splits list.splits)
    qed
  qed
qed

lemma recvFrame_out: "recvFrame f k = (r, f', k') \<Longrightarrow> io_tx k' = io_tx k \<and> io_out k' = io_out k"
  by (auto simp: recvFrame_def Let_def split: if_splits prod.splits sum.splits list.splits option.splits
      dest!: try_recv_out recv_loop_out)

text \<open>A frame whose header and length have arrived and whose message comes in chunks.\<close>

lemma recvFrame_chunks:
  assumes k: "conn_open k" "io_rx k = RxData [fr_header g, hi_byte (fr_len g), lo_byte (fr_len g)] #
      map RxData (c # cs) @ rest"
    and g: "header_ok (fr_header g)" "frame_wf g" and cs: "[] \<notin> set (c # cs)" "concat (c # cs) = fr_msg g"
  shows "\<exists>k' f'. recvFrame f k = (Inr (cs = []), f', k') \<and> io_rx k' = rest \<and> msgBuf k' = fr_msg g \<and>
     f' = (if cs = [] then g else f\<lparr>fr_header := fr_header g, fr_len := fr_len g\<rparr>) \<and> conn_open k'"
proof -
  let ?l = "fr_len g" and ?h = "fr_header g"
  let ?n = "unat ?l"
  have len: "length (concat (c # cs)) = ?n"
    using g(2) cs(2) by (simp add: frame_wf_def)
  obtain k1 where r1: "try_recv 1 k = (Inr [?h], k1)"
      "conn_open k1" "io_rx k1 = RxData [hi_byte ?l, lo_byte ?l] # map RxData (c # cs) @ rest"
    using k by (simp add: try_recv_def)
  obtain k2 where r2: "try_recv 2 k1 = (Inr [hi_byte ?l, lo_byte ?l], k2)"
      "conn_open k2" "io_rx k2 = map RxData (c # cs) @ rest"
    using r1(2,3) by (simp add: try_recv_def)
  let ?k3 = "k2\<lparr>msgBuf := resize ?n (msgBuf k2)\<rparr>"
  have nt: "ntohs (join_bytes (hi_byte ?l) (lo_byte ?l)) = ?l"
    by simp
  obtain k' where k': "recv_loop ?n ?n 1 ?k3 = (Inr (Some (length (last (c # cs)))), k')"
      "io_rx k' = rest" "msgBuf k' = concat (c # cs)" "conn_open k'"
    using recv_loop_chunks [of ?k3 c cs rest ?n ?n 1] len cs(1) r2(2,3) by auto
  have last: "length (last (c # cs)) = ?n \<longleftrightarrow> cs = []"
  proof (cases "cs = []")
    case False
    have "length (concat (c # cs)) = length c + length (concat (butlast cs)) + length (last cs)"
      using False by (metis append.assoc append_butlast_last_id concat.simps concat_append
          length_append append_Nil2)
    then show ?thesis
      using False len cs(1) by auto
  qed (use len in simp)
  show ?thesis
    using k' last cs(2) g(1)
    by (intro exI [of _ k'] exI [of _ "if cs = [] then g else f\<lparr>fr_header := ?h, fr_len := ?l\<rparr>"])
      (simp add: recvFrame_def r1(1) r2(1) Let_def nt del: One_nat_def)
qed

section \<open>Sending\<close>

lemma try_send_room:
  assumes "conn_open k" "io_tx k = [TxRoom n]" "length buf \<le> n" "buf \<noteq> []"
  shows "try_send buf k = (Inr (length buf), k\<lparr>io_tx := (if n = length buf then [] else [TxRoom (n - length buf)]),
           io_out := io_out k @ buf, conn_open := True, write_eagain := False\<rparr>)"
  using assms by (cases "n = length buf") (auto simp: try_send_def)

lemma sendFrame_room:
  assumes k: "conn_open k" "io_tx k = [TxRoom n]" "length (wire g) \<le> n" and g: "frame_wf g"
  shows "\<exists>k'. sendFrame g k = (Inr True, k') \<and> io_out k' = io_out k @ wire g \<and> conn_open k' \<and>
           io_rx k' = io_rx k \<and> io_tx k' = (if length (wire g) = n then [] else [TxRoom (n - length (wire g))])"
proof -
  have n: "3 + unat (fr_len g) \<le> n" "length (fr_msg g) = unat (fr_len g)"
    using k(3) g by (simp_all add: frame_wf_def)
  obtain k1 where r1: "try_send [fr_header g] k = (Inr 1, k1)" "conn_open k1"
      "io_tx k1 = [TxRoom (n - 1)]" "io_out k1 = io_out k @ [fr_header g]" "io_rx k1 = io_rx k"
    using try_send_room [OF k(1,2), of "[fr_header g]"] n by simp
  obtain k2 where r2: "try_send [hi_byte (fr_len g), lo_byte (fr_len g)] k1 = (Inr 2, k2)" "conn_open k2"
      "io_tx k2 = (if n - 1 = 2 then [] else [TxRoom (n - 3)])" "io_rx k2 = io_rx k"
      "io_out k2 = io_out k @ [fr_header g, hi_byte (fr_len g), lo_byte (fr_len g)]"
    using try_send_room [OF r1(2,3), of "[hi_byte (fr_len g), lo_byte (fr_len g)]"] n r1(4,5)
    by (simp add: numeral_2_eq_2 numeral_3_eq_3)
  obtain k3 where r3: "try_send (fr_msg g) k2 = (Inr (unat (fr_len g)), k3)" "conn_open k3"
      "io_out k3 = io_out k2 @ fr_msg g" "io_rx k3 = io_rx k"
      "io_tx k3 = (if length (wire g) = n then [] else [TxRoom (n - length (wire g))])"
  proof (cases "fr_msg g = []")
    case True
    moreover from True g have "unat (fr_len g) = 0"
      by (simp add: frame_wf_def)
    moreover from True n(1) r2(3)
    have "io_tx k2 = (if length (wire g) = n then [] else [TxRoom (n - length (wire g))])" by auto
    ultimately show thesis
      using r2 that [of k2] by (simp add: try_send_def)
  next
    case False
    then have "0 < unat (fr_len g)" using n(2) by (metis length_greater_0_conv)
    with r2(3) n have "io_tx k2 = [TxRoom (n - 3)]" by simp
    then have r: "try_send (fr_msg g) k2 = (Inr (unat (fr_len g)),
        k2\<lparr>io_tx := (if n - 3 = length (fr_msg g) then [] else [TxRoom (n - 3 - length (fr_msg g))]),
          io_out := io_out k2 @ fr_msg g, conn_open := True, write_eagain := False\<rparr>)"
      using try_send_room [OF r2(2) _ _ False, of "n - 3"] n by simp
    have "n - 3 = length (fr_msg g) \<longleftrightarrow> length (wire g) = n" "n - 3 - length (fr_msg g) = n - length (wire g)"
      using n by auto
    with r r2(4) that show thesis by simp
  qed
  have "htons (fr_len g) = join_bytes (hi_byte (fr_len g)) (lo_byte (fr_len g))"
    by (simp add: htons_def)
  then have "sendFrame g k = (Inr True, k3)"
    using r1(1) r2(1) r3(1) n(2) by (simp add: sendFrame_def Let_def)
  with r3 r2(5) show ?thesis by (simp add: wire_def)
qed

section \<open>Properties\<close>

text \<open>C36: The client's \<open>recvFrame\<close> accepts a frame if and only if its message arrives in one piece: with
  header and length received and the non-empty message delivered in the chunks \<open>c # cs\<close>, every byte
  is consumed from the socket and stored in \<open>msgBuf\<close> in order, but the function reports success (and
  sets the frame) exactly when \<open>cs\<close> is empty, because it compares the declared length with the size
  of the last chunk.\<close>

theorem recvFrame_single_chunk:
  assumes "conn_open k"
    "io_rx k = RxData [fr_header g, hi_byte (fr_len g), lo_byte (fr_len g)] # map RxData (c # cs) @ rest"
    "header_ok (fr_header g)" "frame_wf g" "[] \<notin> set (c # cs)" "concat (c # cs) = fr_msg g"
  shows "\<exists>k' f'. recvFrame f k = (Inr (cs = []), f', k') \<and> io_rx k' = rest \<and> msgBuf k' = fr_msg g \<and>
           f' = (if cs = [] then g else f\<lparr>fr_header := fr_header g, fr_len := fr_len g\<rparr>)"
  using recvFrame_chunks [OF assms] by blast

theorem recvFrame_single_chunk_witness:
  "\<exists>k' f'. recvFrame \<lparr>fr_header = 0, fr_len = 0, fr_msg = []\<rparr>
       (IOFrameSocket_new 3 False False [RxData [0xF1, 0, 3], RxData [1, 2], RxData [3]] []) = (Inr False, f', k') \<and>
     io_rx k' = [] \<and> msgBuf k' = [1, 2, 3]"
proof -
  let ?g = "\<lparr>fr_header = 0xF1, fr_len = 3, fr_msg = [1, 2, 3]\<rparr>"
  have "hi_byte 3 = 0" "lo_byte 3 = 3"
    by (simp_all add: hi_byte_def lo_byte_def)
  then show ?thesis
    using recvFrame_single_chunk [of "IOFrameSocket_new 3 False False
        [RxData [0xF1, 0, 3], RxData [1, 2], RxData [3]] []" ?g "[1, 2]" "[[3]]" "[]"
        "\<lparr>fr_header = 0, fr_len = 0, fr_msg = []\<rparr>"]
    by (auto simp: IOFrameSocket_new_def header_ok_def frame_wf_def)
qed

end
