(* ===== verification/Exchanges.thy ===== *)
theory Exchanges
  imports Sessions
begin

text \<open>
  Messages between the two ends: which frames carry a message for a coder with a given key, that encoding
  produces such frames, and what a server session answers to the frames of a correct client (key exchange,
  request for authentication, authentication). The client's side is in \<open>Clients\<close>.
\<close>

section \<open>Frames that carry a message\<close>

fun coder_key :: "coder \<Rightarrow> bytes option" where
  "coder_key (Plain _) = None"
| "coder_key (Encr e) = Some (ec_key e)"

lemma coder_key_Some: "coder_key k = Some key \<longleftrightarrow> (\<exists>e. k = Encr e \<and> ec_key e = key)"
  by (cases k) auto

lemma coder_key_None: "coder_key k = None \<longleftrightarrow> (\<exists>b. k = Plain b)"
  by (cases k) auto

text \<open>Every coder with this key decodes the frame, into any message of the class, to a message that reads \<open>v\<close>.\<close>

definition carries ::
    "gcm_lib \<Rightarrow> 'm lite \<Rightarrow> ('m \<Rightarrow> 'v) \<Rightarrow> ('m \<Rightarrow> bool) \<Rightarrow> bytes option \<Rightarrow> 'v \<Rightarrow> frame \<Rightarrow> bool" where
  "carries G T view target key v g \<longleftrightarrow>
     frame_wf g \<and> header_ok (fr_header g) \<and> fr_msg g \<noteq> [] \<and>
     (\<forall>k m0. coder_key k = key \<longrightarrow> target m0 \<longrightarrow>
       (\<exists>m k'. coder_decode G T g m0 k = (True, m, k') \<and> view m = v \<and> target m \<and> coder_key k' = key))"

text \<open>Such a frame is well-formed and not empty.\<close>

definition sound_frame :: "frame \<Rightarrow> bool" where
  "sound_frame g \<longleftrightarrow> frame_wf g \<and> header_ok (fr_header g) \<and> fr_msg g \<noteq> []"

lemma carries_sound: "carries G T view target key v g \<Longrightarrow> sound_frame g"
  by (simp add: carries_def sound_frame_def)

lemma carries_decode:
  assumes "carries G T view target (coder_key k) v g" "target m0"
  obtains m k' where "coder_decode G T g m0 k = (True, m, k')" "view m = v" "target m" "coder_key k' = coder_key k"
  using assms unfolding carries_def by blast

lemma plain_carries:
  assumes T: "lite_message T view ok target" and m: "ok m" "target m"
    and le: "0 < fst (lt_ByteSizeLong T m)" "fst (lt_ByteSizeLong T m) \<le> 65535"
  shows "\<exists>g m' fb. MessageCoder_encode T f m buf = (True, g, m', fb) \<and> carries G T view target None (view m) g \<and>
    length (fr_msg g) = fst (lt_ByteSizeLong T m) \<and> target m' \<and> view m' = view m"
proof -
  from lite_message.plain_encode [OF T m(1) le(2), of f buf] obtain bs m' where e:
    "MessageCoder_encode T f m buf =
       (True, \<lparr>fr_header = 0xF0, fr_len = word_of_nat (length bs), fr_msg = bs\<rparr>, m', bs)"
    "length bs = fst (lt_ByteSizeLong T m)" "view m' = view m" "target m \<longrightarrow> target m'"
    "\<And>m0. target m0 \<Longrightarrow> \<exists>r. lt_ParseFromArray T bs m0 = (True, r) \<and> view r = view m \<and> target r"
    by blast
  let ?g = "\<lparr>fr_header = 0xF0, fr_len = word_of_nat (length bs), fr_msg = bs\<rparr>"
  have n: "unat (word_of_nat (length bs) :: u16) = length bs"
    using e(2) le(2) by (simp add: unat_of_nat)
  have dec: "\<exists>r k'. coder_decode G T ?g m0 k = (True, r, k') \<and> view r = view m \<and> target r \<and> coder_key k' = None"
    if "coder_key k = None" "target m0" for k m0
  proof -
    from e(5) [OF that(2)] obtain r where "lt_ParseFromArray T bs m0 = (True, r)" "view r = view m" "target r"
      by blast
    with that(1) n show ?thesis
      by (auto simp: coder_key_None coder_decode_def MessageCoder_decode_def frame_content_def)
  qed
  have "carries G T view target None (view m) ?g"
    unfolding carries_def using dec n e(2) le(1)
    by (auto simp: frame_wf_def header_ok_cases)
  with e m(2) show ?thesis by auto
qed

lemma encr_carries:
  assumes T: "lite_message T view ok target" and G: "aead G" and m: "ok m" "target m"
    and le: "fst (lt_ByteSizeLong T m) \<le> 65503"
  shows "\<exists>g m' e'. EncrMessageCoder_encode G T f m r e = (True, g, m', e') \<and>
    carries G T view target (Some (ec_key e)) (view m) g \<and>
    length (fr_msg g) = fst (lt_ByteSizeLong T m) + 32 \<and> target m' \<and> view m' = view m \<and> ec_key e' = ec_key e"
proof -
  obtain g m' e' where enc: "EncrMessageCoder_encode G T f m r e = (True, g, m', e')"
    by (metis prod_cases4 aead.encr_roundtrip [OF G T m(1) le m(2) refl])
  have all: "frame_wf g \<and> fr_header g = 0xF1 \<and> unat (fr_len g) = fst (lt_ByteSizeLong T m) + 32 \<and> target m' \<and>
      view m' = view m \<and> ec_key e' = ec_key e \<and>
      (\<exists>m'' e''. EncrMessageCoder_decode G T g m0 c = (True, m'', e'') \<and> view m'' = view m \<and> target m'' \<and>
         ec_key e'' = ec_key c)"
    if "ec_key c = ec_key e" "target m0" for c m0
    using aead.encr_roundtrip [OF G T m(1) le that(2,1), of f r] m(2) enc by auto
  have dec: "\<exists>r k'. coder_decode G T g m0 k = (True, r, k') \<and> view r = view m \<and> target r \<and>
      coder_key k' = Some (ec_key e)" if "coder_key k = Some (ec_key e)" "target m0" for k m0
  proof -
    from that(1) obtain c where c: "k = Encr c" "ec_key c = ec_key e" by (auto simp: coder_key_Some)
    from all [OF c(2) that(2)] c show ?thesis by (auto simp: coder_decode_def)
  qed
  have "carries G T view target (Some (ec_key e)) (view m) g"
    unfolding carries_def using all [OF refl m(2)] dec by (auto simp: header_ok_cases frame_wf_def)
  with enc all [OF refl m(2)] show ?thesis
    by (auto simp: frame_wf_def)
qed

lemma coder_encode_carries:
  assumes T: "lite_message T view ok target" and G: "aead G" and m: "ok m" "target m"
    and le: "fst (lt_ByteSizeLong T m) \<le> 65503" "is_encr k \<or> 0 < fst (lt_ByteSizeLong T m)"
  shows "\<exists>g m' k'. coder_encode G T f m r k = (True, g, m', k') \<and>
    carries G T view target (coder_key k) (view m) g \<and>
    length (fr_msg g) \<le> fst (lt_ByteSizeLong T m) + 32 \<and> target m' \<and> view m' = view m \<and>
    coder_key k' = coder_key k"
proof (cases k)
  case (Plain b)
  have "0 < fst (lt_ByteSizeLong T m)" "fst (lt_ByteSizeLong T m) \<le> 65535"
    using le Plain by simp_all
  from plain_carries [OF T m this, of f "frame_bytes b" G] obtain g m' fb where
    "MessageCoder_encode T f m (frame_bytes b) = (True, g, m', fb)" "carries G T view target None (view m) g"
    "length (fr_msg g) = fst (lt_ByteSizeLong T m)" "target m'" "view m' = view m" by blast
  with Plain show ?thesis by (simp add: coder_encode_def)
next
  case (Encr e)
  from encr_carries [OF T G m le(1), of f r e] obtain g m' e' where
    "EncrMessageCoder_encode G T f m r e = (True, g, m', e')"
    "carries G T view target (Some (ec_key e)) (view m) g"
    "length (fr_msg g) = fst (lt_ByteSizeLong T m) + 32" "target m'" "view m' = view m" "ec_key e' = ec_key e"
    by blast
  with Encr show ?thesis by (simp add: coder_encode_def)
qed

section \<open>The messages of the protocol and their sizes\<close>

text \<open>A request for a key exchange or authentication carries at most a 32-byte public key.\<close>

definition ccreq_small :: "ClientConnectedStateRequest \<Rightarrow> bool" where
  "ccreq_small m \<longleftrightarrow> ClientConnectedStateRequest_wf m \<and> ClientConnectedStateRequest_known m \<and>
     (case cc_kex m of None \<Rightarrow> True | Some k \<Rightarrow> length (km_pkey k) \<le> 32)"

context wire_runtime
begin

lemma kex_size_small:
  assumes "case k of None \<Rightarrow> True | Some k \<Rightarrow> length (km_pkey k) \<le> 32 \<and> km_unknown k = []"
  shows "kex_size L p k \<le> 60"
proof (cases k)
  case (Some k')
  with assms size_bytes_le [of "km_pkey k'"] size_enum_le [of "km_alg k'"]
  have "fst (KexMsg_ByteSizeLong L k') \<le> 50"
    by (auto simp: KexMsg_ByteSizeLong_def Let_def wire_max_def)
  with Some size_message_le [of "fst (KexMsg_ByteSizeLong L k')"] show ?thesis
    by (auto simp: kex_size_def wire_max_def)
qed (simp add: kex_size_def)

lemma ccreq_small_size:
  assumes "ccreq_small m"
  shows "fst (lt_ByteSizeLong (ccreq_lite L) m) \<le> 80"
proof -
  have "kex_size L (cc_has_bits m AND 1 \<noteq> 0) (cc_kex m) \<le> 60"
    using assms by (intro kex_size_small)
      (auto simp: ccreq_small_def pb_wf_defs KexMsg_blank_def split: option.splits)
  then show ?thesis
    using assms size_enum_le [of "cc_type m"]
    by (simp add: ccreq_small_def ClientConnectedStateRequest_known_def ccreq_lite_def lite_of_def
        ClientConnectedStateRequest_ByteSizeLong_fields Let_def)
qed

lemma ccreq_size_pos: "cc_type m \<noteq> 0 \<Longrightarrow> 0 < fst (lt_ByteSizeLong (ccreq_lite L) m)"
  by (simp add: ccreq_lite_def lite_of_def ClientConnectedStateRequest_ByteSizeLong_fields Let_def)

lemma scresp_small_size_100:
  assumes "scresp_small m"
  shows "fst (lt_ByteSizeLong (scresp_lite L) m) \<le> 100"
proof -
  have "kex_size L (sc_has_bits m AND 2 \<noteq> 0) (sc_kex m) \<le> 60"
    using assms by (intro kex_size_small)
      (auto simp: scresp_small_def pb_wf_defs KexMsg_blank_def split: option.splits)
  then show ?thesis
    using assms size_enum_le [of "sc_status m"]
    by (simp add: scresp_small_def ServerConnectedStateResponse_known_def scresp_lite_def lite_of_def
        ServerConnectedStateResponse_ByteSizeLong_fields Let_def)
qed

lemma scresp_size_pos: "sc_status m \<noteq> 0 \<Longrightarrow> 0 < fst (lt_ByteSizeLong (scresp_lite L) m)"
  by (simp add: scresp_lite_def lite_of_def ServerConnectedStateResponse_ByteSizeLong_fields Let_def)

lemma saresp_size_pos: "sa_status m \<noteq> 0 \<Longrightarrow> 0 < fst (lt_ByteSizeLong (saresp_lite L) m)"
  by (simp add: saresp_lite_def lite_of_def ServerAuthResponse_ByteSizeLong_fields Let_def)

lemma careq_size_pos: "ca_request m \<noteq> 0 \<Longrightarrow> 0 < fst (lt_ByteSizeLong (careq_lite L) m)"
  by (simp add: careq_lite_def lite_of_def ClientAuthRequest_ByteSizeLong_fields Let_def)

lemma careq_size_le:
  assumes "ca_unknown m = []" "length (ca_username m) + length (ca_authcredential m) \<le> 60000"
  shows "fst (lt_ByteSizeLong (careq_lite L) m) \<le> length (ca_username m) + length (ca_authcredential m) + 23"
proof -
  have "length (ca_username m) \<le> wire_max" "length (ca_authcredential m) \<le> wire_max"
    using assms(2) by (simp_all add: wire_max_def)
  with assms(1) size_enum_le [of "ca_request m"] size_string_le [of "ca_username m"]
    size_bytes_le [of "ca_authcredential m"] size_string_le [of "ca_authcredential m"]
  show ?thesis
    by (simp add: careq_lite_def lite_of_def ClientAuthRequest_ByteSizeLong_fields Let_def)
qed

end

section \<open>Replies of the server\<close>

abbreviation "carries_ccreq E \<equiv>
  carries (gcm E) (lt_ccreq E) ClientConnectedStateRequest_view ClientConnectedStateRequest_wf"
abbreviation "carries_scresp E \<equiv>
  carries (gcm E) (lt_scresp E) ServerConnectedStateResponse_view ServerConnectedStateResponse_wf"
abbreviation "carries_careq E \<equiv> carries (gcm E) (lt_careq E) ClientAuthRequest_view ClientAuthRequest_wf"
abbreviation "carries_saresp E \<equiv> carries (gcm E) (lt_saresp E) ServerAuthResponse_view ServerAuthResponse_wf"

lemma encode_and_write_carries:
  assumes T: "lite_message T view ok target" and G: "aead (gcm E)" and m: "ok m" "target m"
    and le: "fst (lt_ByteSizeLong T m) \<le> 65503" "is_encr k \<or> 0 < fst (lt_ByteSizeLong T m)"
    and io: "ctx_io c = Some out"
  shows "\<exists>g m' k' c'. encode_and_write E T m k c = Inr (m', k', c') \<and>
    carries (gcm E) T view target (coder_key k) (view m) g \<and> ctx_io c' = Some (out @ [g]) \<and>
    coder_key k' = coder_key k \<and> target m' \<and> ctx_state c' = ctx_state c \<and>
    finalStateFactory c' = finalStateFactory c"
proof -
  from coder_encode_carries [OF T G m le, of no_frame "ctx_rng c"] obtain g m' k' where
    "coder_encode (gcm E) T no_frame m (ctx_rng c) k = (True, g, m', k')"
    "carries (gcm E) T view target (coder_key k) (view m) g" "target m'" "coder_key k' = coder_key k" by blast
  with io show ?thesis
    by (simp add: encode_and_write_def io_writeFrame_def getIO_def)
qed

text \<open>A status of the connected handler, with or without its public key.\<close>

lemma Connected_reply:
  assumes E: "env_ok E L" and h: "scresp_small (ch_response h)" "s \<noteq> 0" and io: "ctx_io c = Some out"
    and v: "snd (ServerConnectedStateResponse_view (ch_response h)) = v"
  shows "\<exists>g h' c'. Connected_respWithStatus E s h c = Inr (h', c') \<and>
    carries_scresp E (coder_key (ch_coder h)) (s, v) g \<and> ctx_io c' = Some (out @ [g]) \<and>
    coder_key (ch_coder h') = coder_key (ch_coder h) \<and> isKexComplete h' = isKexComplete h \<and>
    ch_request h' = ch_request h \<and> ServerConnectedStateResponse_wf (ch_response h') \<and>
    finalStateFactory c' = finalStateFactory c"
proof -
  have w: "wire_runtime L" and a: "aead (gcm E)" and T: "lt_scresp E = scresp_lite L"
    using E by (simp_all add: env_ok_def)
  let ?m = "ServerConnectedStateResponse_set_status s (ch_response h)"
  have small: "scresp_small ?m" using h(1) by simp
  then have m: "scresp_ok ?m" "ServerConnectedStateResponse_wf ?m"
    by (simp_all add: scresp_small_def scresp_ok_def)
  have s: "sc_status ?m = s" and view: "ServerConnectedStateResponse_view ?m = (s, v)"
    using v by (auto simp: ServerConnectedStateResponse_set_status_def
        ServerConnectedStateResponse_internal_set_status_def ServerConnectedStateResponse_view_def)
  have le: "fst (lt_ByteSizeLong (scresp_lite L) ?m) \<le> 65503"
    using wire_runtime.scresp_small_size_100 [OF w small] by simp
  have pos: "is_encr (ch_coder h) \<or> 0 < fst (lt_ByteSizeLong (scresp_lite L) ?m)"
    using wire_runtime.scresp_size_pos [OF w] s h(2) by simp
  from encode_and_write_carries [OF wire_runtime.scresp_message [OF w] a m le pos io]
  obtain g m' k' c' where "encode_and_write E (scresp_lite L) ?m (ch_coder h) c = Inr (m', k', c')"
    "carries (gcm E) (scresp_lite L) ServerConnectedStateResponse_view ServerConnectedStateResponse_wf
       (coder_key (ch_coder h)) (s, v) g" "ctx_io c' = Some (out @ [g])"
    "coder_key k' = coder_key (ch_coder h)" "ServerConnectedStateResponse_wf m'"
    "finalStateFactory c' = finalStateFactory c" unfolding view by blast
  then show ?thesis
    by (simp add: Connected_respWithStatus_def T)
qed

lemma Auth_reply:
  assumes E: "env_ok E L" and h: "saresp_small (ah_response h)" "s \<noteq> 0" and io: "ctx_io c = Some out"
  shows "\<exists>g h' c'. Auth_respWithStatus E s h c = Inr (h', c') \<and>
    carries_saresp E (coder_key (ah_coder h)) (s, None) g \<and> ctx_io c' = Some (out @ [g]) \<and>
    coder_key (ah_coder h') = coder_key (ah_coder h) \<and> remainingAttempts h' = remainingAttempts h \<and>
    ah_request h' = ah_request h \<and> ServerAuthResponse_wf (ah_response h') \<and>
    finalStateFactory c' = finalStateFactory c"
proof -
  have w: "wire_runtime L" and a: "aead (gcm E)" and T: "lt_saresp E = saresp_lite L"
    using E by (simp_all add: env_ok_def)
  let ?m = "ServerAuthResponse_set_status s (ah_response h)"
  have small: "saresp_small ?m" using h(1) by simp
  have s: "sa_status ?m = s" and view: "ServerAuthResponse_view ?m = (s, None)"
    using h(1) by (auto simp: ServerAuthResponse_set_status_def saresp_small_def
        ServerAuthResponse_internal_set_status_def ServerAuthResponse_view_def)
  have "sa_has_bits ?m = 0" "sa_unknown ?m = []"
    using small by (simp_all add: saresp_small_def)
  then have le: "fst (lt_ByteSizeLong (saresp_lite L) ?m) \<le> 65503"
    using wire_runtime.size_enum_le [OF w, of s] s
    by (simp add: saresp_lite_def lite_of_def ServerAuthResponse_ByteSizeLong_fields Let_def)
  have pos: "is_encr (ah_coder h) \<or> 0 < fst (lt_ByteSizeLong (saresp_lite L) ?m)"
    using wire_runtime.saresp_size_pos [OF w] s h(2) by simp
  from encode_and_write_carries [OF wire_runtime.saresp_message [OF w] a saresp_small_ok [OF small]
      saresp_small_wf [OF small] le pos io]
  obtain g m' k' c' where "encode_and_write E (saresp_lite L) ?m (ah_coder h) c = Inr (m', k', c')"
    "carries (gcm E) (saresp_lite L) ServerAuthResponse_view ServerAuthResponse_wf
       (coder_key (ah_coder h)) (s, None) g" "ctx_io c' = Some (out @ [g])"
    "coder_key k' = coder_key (ah_coder h)" "ServerAuthResponse_wf m'"
    "finalStateFactory c' = finalStateFactory c" unfolding view by blast
  then show ?thesis
    by (simp add: Auth_respWithStatus_def T)
qed

text \<open>A session whose messages are well-formed and whose frames go to a sink.\<close>

definition session_wf :: "proto_context \<Rightarrow> bool" where
  "session_wf c \<longleftrightarrow>
     (case ctx_state c of
        Some (HConnected h) \<Rightarrow> ClientConnectedStateRequest_wf (ch_request h) \<and>
          ServerConnectedStateResponse_wf (ch_response h) \<and> isKexComplete h = is_encr (ch_coder h)
      | Some (HAuth h) \<Rightarrow> ClientAuthRequest_wf (ah_request h) \<and> ServerAuthResponse_wf (ah_response h)
      | _ \<Rightarrow> True)"

lemma new_session_wf: "session_wf (new_session fac r)"
  by (simp add: session_wf_def new_session_def setIO_def ProtocolContext_new_def ProtocolConnectedHandler_new_def
      pb_wf_defs ClientConnectedStateRequest_new_def ServerConnectedStateResponse_new_def)

lemma request_of_view:
  assumes "ClientConnectedStateRequest_view m = (t, k)"
  shows "ClientConnectedStateRequest_type m = t"
    "k = Some (a, p) \<Longrightarrow> ClientConnectedStateRequest_has_kex m \<and>
       KexMsg_alg (ClientConnectedStateRequest_kex m) = a \<and> KexMsg_pkey (ClientConnectedStateRequest_kex m) = p"
  using assms
  by (auto simp: ClientConnectedStateRequest_view_def ClientConnectedStateRequest_type_def
      ClientConnectedStateRequest_internal_type_def ClientConnectedStateRequest_has_kex_def kex_view_def
      ClientConnectedStateRequest_kex_def ClientConnectedStateRequest_internal_kex_def KexMsg_view_def
      KexMsg_defs split: if_splits)

lemma kex_response_view:
  assumes "scresp_small m" "sc_kex m = None \<or> KexMsg_blank (the (sc_kex m))"
  shows "snd (ServerConnectedStateResponse_view (kex_response p m)) = (Some (KexMsg_KexAlg_KEX_ECDH, p), None)"
  using assms
  by (auto simp: kex_response_def ServerConnectedStateResponse_defs KexMsg_defs KexMsg_view_def
      ServerConnectedStateResponse_view_def kex_view_def scresp_small_def has_bit split: option.splits)

lemma kex_response_small:
  assumes "scresp_small m" "length p = 32"
  shows "scresp_small (kex_response p m)"
  unfolding kex_response_def
  by (intro mutable_kex_small assms(1)) (simp_all add: KexMsg_defs assms(2))

text \<open>The handler's response after the reset at the start of \<open>handleFrame\<close>.\<close>

lemma reset_response:
  assumes "ServerConnectedStateResponse_wf m"
  shows "scresp_small (ServerConnectedStateResponse_set_status s (ServerConnectedStateResponse_Clear m))"
    "snd (ServerConnectedStateResponse_view
       (ServerConnectedStateResponse_set_status s (ServerConnectedStateResponse_Clear m))) = (None, None)"
    "sc_kex (ServerConnectedStateResponse_set_status s (ServerConnectedStateResponse_Clear m)) = None \<or>
     KexMsg_blank (the (sc_kex (ServerConnectedStateResponse_set_status s (ServerConnectedStateResponse_Clear m))))"
proof -
  let ?m = "ServerConnectedStateResponse_set_status s (ServerConnectedStateResponse_Clear m)"
  show small: "scresp_small ?m" using Clear_small [OF assms] by simp
  have z: "sc_has_bits ?m = 0"
    by (simp add: ServerConnectedStateResponse_defs Let_def)
  show "snd (ServerConnectedStateResponse_view ?m) = (None, None)"
    using z by (simp add: ServerConnectedStateResponse_view_def kex_view_def)
  show "sc_kex ?m = None \<or> KexMsg_blank (the (sc_kex ?m))"
    using small z by (auto simp: scresp_small_def pb_wf_defs split: option.splits)
qed

lemma server_kex:
  assumes E: "env_ok E L" and wf: "session_wf c" and io: "ctx_io c = Some out"
    and st: "ctx_state c = Some (HConnected h)" "\<not> isKexComplete h"
    and f: "carries_ccreq E None (ClientConnectedStateRequest_RequestType_REQUEST_KEX,
      Some (KexMsg_KexAlg_KEX_ECDH, snd (GenerateKeyPair (dh E) r))) f"
  shows "\<exists>g h' c' s. ProtocolContext_handleFrame E auth f c = Inr c' \<and> ctx_state c' = Some (HConnected h') \<and>
    isKexComplete h' \<and> coder_key (ch_coder h') = Some (TruncatedFinal (dh E) s 32) \<and>
    Agree (dh E) (fst (GenerateKeyPair (dh E) r)) (snd (GenerateKeyPair (dh E) (ctx_rng c))) = Some s \<and>
    carries_scresp E None (ServerConnectedStateResponse_ResponseStatus_OK,
      Some (KexMsg_KexAlg_KEX_ECDH, snd (GenerateKeyPair (dh E) (ctx_rng c))), None) g \<and>
    ctx_io c' = Some (out @ [g]) \<and> session_wf c' \<and> finalStateFactory c' = finalStateFactory c"
proof -
  have ka: "key_agreement (dh E)" using E by (simp add: env_ok_def)
  let ?pk = "snd (GenerateKeyPair (dh E) (ctx_rng c))"
  have h: "ClientConnectedStateRequest_wf (ch_request h)" "ServerConnectedStateResponse_wf (ch_response h)"
    "coder_key (ch_coder h) = None"
    using wf st by (auto simp: session_wf_def coder_key_None elim: is_encr.elims)
  from carries_decode [OF f [folded h(3)] h(1)] obtain req k where d:
    "coder_decode (gcm E) (lt_ccreq E) f (ch_request h) (ch_coder h) = (True, req, k)"
    "ClientConnectedStateRequest_view req = (ClientConnectedStateRequest_RequestType_REQUEST_KEX,
       Some (KexMsg_KexAlg_KEX_ECDH, snd (GenerateKeyPair (dh E) r)))"
    "ClientConnectedStateRequest_wf req" "coder_key k = None" unfolding h(3) by blast
  note req = request_of_view [OF d(2)]
  let ?resp = "ServerConnectedStateResponse_set_status ServerConnectedStateResponse_ResponseStatus_INVALID_REQUEST
      (ServerConnectedStateResponse_Clear (ch_response h))"
  define h2 where "h2 = h\<lparr>ch_response := ?resp, ch_request := req, ch_coder := k\<rparr>"
  note resp = reset_response [OF h(2)]
  have h2: "\<not> isKexComplete h2" "ch_request h2 = req" "ch_coder h2 = k" "ch_response h2 = ?resp"
    using st(2) by (simp_all add: h2_def)
  have a1: "ClientConnectedStateRequest_has_kex (ch_request h2)"
    "KexMsg_alg (ClientConnectedStateRequest_kex (ch_request h2)) = KexMsg_KexAlg_KEX_ECDH"
    "KexMsg_pkey (ClientConnectedStateRequest_kex (ch_request h2)) = snd (GenerateKeyPair (dh E) r)"
    using req(2) by (simp_all add: h2)
  obtain s where s: "Agree (dh E) (fst (GenerateKeyPair (dh E) (ctx_rng c))) (snd (GenerateKeyPair (dh E) r)) = Some s"
    "Agree (dh E) (fst (GenerateKeyPair (dh E) r)) ?pk = Some s"
    using key_agreement.agreement [OF ka, of "ctx_rng c" r] by blast
  let ?h3 = "h2\<lparr>ch_response := kex_response ?pk (ch_response h2), isKexComplete := True\<rparr>"
  let ?c3 = "c\<lparr>ctx_rng := ctx_rng c + 2\<rparr>"
  have small: "scresp_small (ch_response ?h3)"
    using kex_response_small [OF resp(1) key_agreement.public_length [OF ka]] by (simp add: h2)
  have view: "snd (ServerConnectedStateResponse_view (ch_response ?h3)) = (Some (KexMsg_KexAlg_KEX_ECDH, ?pk), None)"
    using kex_response_view [OF resp(1,3)] by (simp add: h2)
  from Connected_reply [OF E small _ _ view, of ServerConnectedStateResponse_ResponseStatus_OK ?c3 out] io
  obtain g h4 c4 where reply: "Connected_respWithStatus E ServerConnectedStateResponse_ResponseStatus_OK ?h3 ?c3 = Inr (h4, c4)"
    "carries_scresp E None (ServerConnectedStateResponse_ResponseStatus_OK, Some (KexMsg_KexAlg_KEX_ECDH, ?pk), None) g"
    "ctx_io c4 = Some (out @ [g])" "isKexComplete h4" "ch_request h4 = req"
    "ServerConnectedStateResponse_wf (ch_response h4)" "finalStateFactory c4 = finalStateFactory c"
    using d(4) h2(2,3) by auto
  let ?h5 = "h4\<lparr>ch_coder := Encr (EncrMessageCoder_new (gcm E) (TruncatedFinal (dh E) s 32) (Suc (ctx_rng c)))\<rparr>"
  have "handleKex E h2 c = Inr (?h5, c4)"
    using handleKex_accepts [OF h2(1) a1(1) refl a1(2) _ _ refl, of E c s] a1(3) s(1) reply(1)
      key_agreement.public_length [OF ka] by simp
  then have "ProtocolContext_handleFrame E auth f c = Inr (c4\<lparr>ctx_state := Some (HConnected ?h5)\<rparr>)"
    using st(1) d(1) req(1)
    by (simp add: ProtocolContext_handleFrame_def Connected_handleFrame_def Let_def keep_connected_def h2_def)
  with reply s(2) d(3) show ?thesis
    by (intro exI [of _ g] exI [of _ ?h5] exI [of _ "c4\<lparr>ctx_state := Some (HConnected ?h5)\<rparr>"] exI [of _ s])
      (simp add: session_wf_def EncrMessageCoder_new_def)
qed

lemma server_auth_request:
  assumes E: "env_ok E L" and wf: "session_wf c" and io: "ctx_io c = Some out"
    and st: "ctx_state c = Some (HConnected h)" "isKexComplete h" "coder_key (ch_coder h) = key"
    and f: "carries_ccreq E key (ClientConnectedStateRequest_RequestType_REQUEST_AUTH, None) f"
  shows "\<exists>g h' c'. ProtocolContext_handleFrame E auth f c = Inr c' \<and> ctx_state c' = Some (HAuth h') \<and>
    coder_key (ah_coder h') = key \<and> remainingAttempts h' = 5 \<and>
    carries_scresp E key (ServerConnectedStateResponse_ResponseStatus_OK, None, None) g \<and>
    ctx_io c' = Some (out @ [g]) \<and> session_wf c' \<and> finalStateFactory c' = finalStateFactory c"
proof -
  have h: "ClientConnectedStateRequest_wf (ch_request h)" "ServerConnectedStateResponse_wf (ch_response h)"
    using wf st(1) by (simp_all add: session_wf_def)
  from carries_decode [OF f [folded st(3)] h(1)] obtain req k where d:
    "coder_decode (gcm E) (lt_ccreq E) f (ch_request h) (ch_coder h) = (True, req, k)"
    "ClientConnectedStateRequest_view req = (ClientConnectedStateRequest_RequestType_REQUEST_AUTH, None)"
    "ClientConnectedStateRequest_wf req" "coder_key k = key" unfolding st(3) by blast
  note req = request_of_view [OF d(2)]
  let ?resp = "ServerConnectedStateResponse_set_status ServerConnectedStateResponse_ResponseStatus_INVALID_REQUEST
      (ServerConnectedStateResponse_Clear (ch_response h))"
  let ?h2 = "h\<lparr>ch_response := ?resp, ch_request := req, ch_coder := k\<rparr>"
  note resp = reset_response [OF h(2), of ServerConnectedStateResponse_ResponseStatus_INVALID_REQUEST]
  from Connected_reply [OF E, of ?h2 ServerConnectedStateResponse_ResponseStatus_OK c out "(None, None)"] resp(1,2) io d(4)
  obtain g h3 c3 where reply: "Connected_respWithStatus E ServerConnectedStateResponse_ResponseStatus_OK ?h2 c = Inr (h3, c3)"
    "carries_scresp E key (ServerConnectedStateResponse_ResponseStatus_OK, None, None) g"
    "ctx_io c3 = Some (out @ [g])" "coder_key (ch_coder h3) = key" "finalStateFactory c3 = finalStateFactory c"
    by auto
  let ?h4 = "ProtocolAuthenticationHandler_new (ch_coder h3)"
  have "ProtocolContext_handleFrame E auth f c = Inr (setState (Some (HAuth ?h4)) c3)"
    using st(1,2) d(1) req(1) reply(1)
    by (simp add: ProtocolContext_handleFrame_def Connected_handleFrame_def Let_def handleAuthRequest_def)
  with reply show ?thesis
    by (intro exI [of _ g] exI [of _ ?h4] exI [of _ "setState (Some (HAuth ?h4)) c3"])
      (simp add: session_wf_def setState_def ProtocolAuthenticationHandler_new_def ClientAuthRequest_wf_def
        ClientAuthRequest_new_def ServerAuthResponse_wf_def ServerAuthResponse_new_def)
qed

text \<open>What the authenticator of the moment says of a request.\<close>

definition lets_in :: "authenticator option \<Rightarrow> ClientAuthRequest \<Rightarrow> bool" where
  "lets_in auth req \<longleftrightarrow> (case auth of None \<Rightarrow> True | Some a \<Rightarrow> authenticate req a)"

lemma server_authenticate:
  assumes E: "env_ok E L" and wf: "session_wf c" and io: "ctx_io c = Some out"
    and st: "ctx_state c = Some (HAuth h)" "coder_key (ah_coder h) = key" "finalStateFactory c = fac"
    and f: "carries_careq E key (ClientAuthRequest_RequestType_AUTH_SUPPLY, u, p) f"
  shows "\<exists>req g c'. ProtocolContext_handleFrame E auth f c = Inr c' \<and>
    ClientAuthRequest_view req = (ClientAuthRequest_RequestType_AUTH_SUPPLY, u, p) \<and>
    carries_saresp E key (if lets_in auth req then ServerAuthResponse_ResponseStatus_AUTH_ACCEPT
      else if 0 < remainingAttempts h then ServerAuthResponse_ResponseStatus_AUTH_CONTINUE
      else ServerAuthResponse_ResponseStatus_AUTH_REJECT, None) g \<and>
    ctx_io c' = Some (out @ [g]) \<and>
    phase_of (ctx_state c') = (if lets_in auth req then entry_phase fac
      else if 0 < remainingAttempts h then Authenticating (remainingAttempts h - 1) else Closed) \<and>
    session_wf c' \<and> finalStateFactory c' = fac \<and>
    (\<forall>h'. ctx_state c' = Some (HAuth h') \<longrightarrow> coder_key (ah_coder h') = key) \<and>
    (\<forall>h'. ctx_state c' = Some (HUser h') \<longrightarrow> coder_key (uh_coder h') = key)"
proof -
  have h: "ClientAuthRequest_wf (ah_request h)" "ServerAuthResponse_wf (ah_response h)"
    using wf st(1) by (simp_all add: session_wf_def)
  from carries_decode [OF f [folded st(2)] h(1)] obtain req k where d:
    "coder_decode (gcm E) (lt_careq E) f (ah_request h) (ah_coder h) = (True, req, k)"
    "ClientAuthRequest_view req = (ClientAuthRequest_RequestType_AUTH_SUPPLY, u, p)"
    "coder_key k = key" "ClientAuthRequest_wf req" unfolding st(2) by blast
  have t: "ClientAuthRequest_request req = ClientAuthRequest_RequestType_AUTH_SUPPLY"
    using d(2) by (simp add: ClientAuthRequest_view_def ClientAuthRequest_request_def
        ClientAuthRequest_internal_request_def)
  define h2 where "h2 = h\<lparr>ah_response := ServerAuthResponse_set_status ServerAuthResponse_ResponseStatus_INVALID_REQUEST
      (ServerAuthResponse_Clear (ah_response h)), ah_request := req, ah_coder := k\<rparr>"
  have h2: "saresp_small (ah_response h2)" "coder_key (ah_coder h2) = key" "ah_request h2 = req"
    "remainingAttempts h2 = remainingAttempts h"
    using saresp_small_Clear [OF h(2)] d(3) by (simp_all add: h2_def)
  have r: "ProtocolContext_handleFrame E auth f c = doAuth E auth h2 c"
    using st(1) d(1) t
    by (simp add: ProtocolContext_handleFrame_def Auth_handleFrame_def Let_def Auth_dispatch_def h2_def)
  have reply: "\<exists>g h' c'. Auth_respWithStatus E s (h2\<lparr>remainingAttempts := n\<rparr>) c = Inr (h', c') \<and>
      carries_saresp E key (s, None) g \<and> ctx_io c' = Some (out @ [g]) \<and> remainingAttempts h' = n \<and>
      coder_key (ah_coder h') = key \<and> ah_request h' = req \<and> ServerAuthResponse_wf (ah_response h') \<and>
      finalStateFactory c' = fac" if "s \<noteq> 0" for s n
    using Auth_reply [OF E _ that io, of "h2\<lparr>remainingAttempts := n\<rparr>"] h2(1-3) st(3) by auto
  have created: "session_wf (c'\<lparr>ctx_state := createHandler x k'\<rparr>) \<and> createHandler x k' \<noteq> Some (HAuth h') \<and>
      (createHandler x k' = Some (HUser hu) \<longrightarrow> uh_coder hu = k')" for c' x k' h' hu
    by (cases x) (auto simp: session_wf_def TestUserHandler_new_def)
  have same: "h2\<lparr>remainingAttempts := remainingAttempts h\<rparr> = h2"
    by (simp add: h2_def)
  consider (yes) "lets_in auth req" | (again) "\<not> lets_in auth req" "0 < remainingAttempts h"
    | (no) "\<not> lets_in auth req" "\<not> 0 < remainingAttempts h" by blast
  then show ?thesis
  proof cases
    case yes
    then have "doAuth E auth h2 c = proceedAuth E h2 c"
      using h2(3) by (auto simp: doAuth_def lets_in_def split: option.splits)
    moreover obtain g h' c' where
      "Auth_respWithStatus E ServerAuthResponse_ResponseStatus_AUTH_ACCEPT h2 c = Inr (h', c')"
      "carries_saresp E key (ServerAuthResponse_ResponseStatus_AUTH_ACCEPT, None) g"
      "ctx_io c' = Some (out @ [g])" "finalStateFactory c' = fac" "coder_key (ah_coder h') = key"
      using reply [of ServerAuthResponse_ResponseStatus_AUTH_ACCEPT "remainingAttempts h"] same by auto
    ultimately show ?thesis
      using yes r d(2)
      by (intro exI [of _ req] exI [of _ g])
        (cases fac; simp add: proceedAuth_def getFinalStateFactory_def setState_def entry_phase_created created;
         simp add: session_wf_def)
  next
    case again
    then have "doAuth E auth h2 c = keep_auth (Auth_respWithStatus E ServerAuthResponse_ResponseStatus_AUTH_CONTINUE
        (h2\<lparr>remainingAttempts := remainingAttempts h - 1\<rparr>) c)"
      using h2(3,4) by (auto simp: doAuth_def lets_in_def split: option.splits)
    moreover obtain g h' c' where
      "Auth_respWithStatus E ServerAuthResponse_ResponseStatus_AUTH_CONTINUE
         (h2\<lparr>remainingAttempts := remainingAttempts h - 1\<rparr>) c = Inr (h', c')"
      "carries_saresp E key (ServerAuthResponse_ResponseStatus_AUTH_CONTINUE, None) g"
      "ctx_io c' = Some (out @ [g])" "remainingAttempts h' = remainingAttempts h - 1"
      "coder_key (ah_coder h') = key" "ah_request h' = req" "ServerAuthResponse_wf (ah_response h')"
      "finalStateFactory c' = fac"
      using reply [of ServerAuthResponse_ResponseStatus_AUTH_CONTINUE "remainingAttempts h - 1"] by auto
    ultimately show ?thesis
      using again r d(2,4) by (intro exI [of _ req] exI [of _ g]) (auto simp: keep_auth_def session_wf_def)
  next
    case no
    then have "doAuth E auth h2 c = (case Auth_respWithStatus E ServerAuthResponse_ResponseStatus_AUTH_REJECT h2 c of
        Inl e \<Rightarrow> Inl e | Inr (h, c) \<Rightarrow> Inr (setState None c))"
      using h2(3,4) by (auto simp: doAuth_def lets_in_def split: option.splits)
    moreover obtain g h' c' where
      "Auth_respWithStatus E ServerAuthResponse_ResponseStatus_AUTH_REJECT h2 c = Inr (h', c')"
      "carries_saresp E key (ServerAuthResponse_ResponseStatus_AUTH_REJECT, None) g" "ctx_io c' = Some (out @ [g])"
      "finalStateFactory c' = fac"
      using reply [of ServerAuthResponse_ResponseStatus_AUTH_REJECT "remainingAttempts h"] same by auto
    ultimately show ?thesis
      using no r d(2) by (intro exI [of _ req] exI [of _ g]) (auto simp: setState_def session_wf_def)
  qed
qed

section \<open>The user handler\<close>

abbreviation carries_ureq :: "proto_env \<Rightarrow> bytes option \<Rightarrow> bytes \<Rightarrow> frame \<Rightarrow> bool" where
  "carries_ureq E \<equiv> carries (gcm E) (lt_ureq E) UserRequest_view (\<lambda>m. True)"

abbreviation carries_uresp :: "proto_env \<Rightarrow> bytes option \<Rightarrow> bytes \<Rightarrow> frame \<Rightarrow> bool" where
  "carries_uresp E \<equiv> carries (gcm E) (lt_uresp E) ServerResponse_view (\<lambda>m. True)"

text \<open>What the test handler answers.\<close>

definition echo :: "bytes \<Rightarrow> bytes" where
  "echo s = ascii ''You said: '' @ s"

lemma length_echo [simp]: "length (echo s) = length s + 10"
  by (simp add: echo_def ascii_def)

lemma server_echo:
  assumes E: "env_ok E L" and io: "ctx_io c = Some out"
    and st: "ctx_state c = Some (HUser h)" "coder_key (uh_coder h) = Some key"
    and s: "VerifyUtf8 L (echo s)" "length s \<le> 65000"
    and f: "carries_ureq E (Some key) s f"
  shows "\<exists>g h' c'. ProtocolContext_handleFrame E auth f c = Inr c' \<and> ctx_state c' = Some (HUser h') \<and>
    coder_key (uh_coder h') = Some key \<and> carries_uresp E (Some key) (echo s) g \<and>
    ctx_io c' = Some (out @ [g]) \<and> finalStateFactory c' = finalStateFactory c"
proof -
  have w: "wire_runtime L" and a: "aead (gcm E)" and T: "lt_uresp E = uresp_lite L"
    using E by (simp_all add: env_ok_def)
  from carries_decode [OF f [folded st(2)], of "uh_request h"] obtain req k where d:
    "coder_decode (gcm E) (lt_ureq E) f (uh_request h) (uh_coder h) = (True, req, k)"
    "UserRequest_view req = s" "coder_key k = Some key" unfolding st(2) by blast
  define m where "m = ServerResponse_set_msg (echo s) (ServerResponse_Clear (uh_response h))"
  have m: "sr_msg m = echo s" "sr_unknown m = []"
    by (simp_all add: m_def ServerResponse_set_msg_def ServerResponse_Clear_def Let_def)
  then have ok: "uresp_ok L m" and view: "ServerResponse_view m = echo s"
    using s(1) by (simp_all add: uresp_ok_def ServerResponse_utf8_def ServerResponse_view_def)
  have "fst (ServerResponse_ByteSizeLong L m) \<le> length (sr_msg m) + 6"
    using m s(2) by (intro wire_runtime.ServerResponse_size_le [OF w]) (simp_all add: wire_max_def)
  then have le: "fst (lt_ByteSizeLong (uresp_lite L) m) \<le> 65503"
    using m s(2) by (simp add: uresp_lite_def lite_of_def)
  have enc: "is_encr k \<or> 0 < fst (lt_ByteSizeLong (uresp_lite L) m)"
    using d(3) by (cases k) simp_all
  from encode_and_write_carries [OF wire_runtime.uresp_message [OF w] a ok TrueI le enc io]
  obtain g m' k' c' where e: "encode_and_write E (uresp_lite L) m k c = Inr (m', k', c')"
    "carries_uresp E (Some key) (echo s) g" "ctx_io c' = Some (out @ [g])" "coder_key k' = Some key"
    "finalStateFactory c' = finalStateFactory c" unfolding view d(3) T by blast
  have "UserRequest_msg req = s" using d(2) by (simp add: UserRequest_view_msg)
  then have "ProtocolContext_handleFrame E auth f c =
      Inr (c'\<lparr>ctx_state := Some (HUser (h\<lparr>uh_request := req, uh_coder := k', uh_response := m'\<rparr>))\<rparr>)"
    using st(1) d(1) e(1)
    by (simp add: ProtocolContext_handleFrame_def User_handleFrame_def handleMsg_def sendResp_def T
        echo_def [symmetric] m_def [symmetric])
  with e show ?thesis by auto
qed

end
