(* ===== verification/Clients.thy ===== *)
theory Clients
  imports IOFrameSockets Exchanges
begin

text \<open>
  \<open>Client\<close> (\<open>Client.cpp\<close>, \<open>protocom/Client.h\<close>): the client's end of a connection. What the operating system
  does for one call of \<open>connect\<close> is the argument \<open>dial\<close>: the results of \<open>socket\<close>, \<open>setsockopt\<close> and
  \<open>connect\<close>, the uninitialised flags of the new frame socket and the scripts of its two directions.
  \<open>connect_sock\<close> is only called with the timeout 0, with which \<open>IOFrameSocket\<close> sets none. Every
  operation returns the client also when it throws, because the object stays.

  The console output of the code is left out.
\<close>

record dial =
  d_socket :: int
  d_rcvtimeo :: int
  d_sndtimeo :: int
  d_connect :: int
  d_read_eagain :: bool
  d_write_eagain :: bool
  d_rx :: "rx_event list"
  d_tx :: "tx_event list"

record client =
  remAddr :: "string \<times> nat"
  cl_fd :: int
  isConnected :: bool
  isAuthenticated :: bool
  cl_io :: "io_socket option"
  cl_coder :: coder
  cl_rng :: nat

text \<open>The constructor leaves \<open>isAuthenticated\<close> as it is in memory.\<close>

definition Client_new :: "string \<Rightarrow> nat \<Rightarrow> bool \<Rightarrow> nat \<Rightarrow> client" where
  "Client_new ip port memory rng =
     \<lparr>remAddr = (ip, port), cl_fd = - 1, isConnected = False, isAuthenticated = memory, cl_io = None,
      cl_coder = Plain \<lparr>frame_bytes = []\<rparr>, cl_rng = rng\<rparr>"

definition connect_sock :: "dial \<Rightarrow> client \<Rightarrow> bool \<times> client" where
  "connect_sock d c =
     (if isConnected c then (True, c)
      else let c = c\<lparr>cl_fd := d_socket d\<rparr>
      in if d_rcvtimeo d < 0 then (False, c)
         else if d_sndtimeo d < 0 then (False, c)
         else if d_socket d = - 1 \<or> d_connect d \<noteq> 0 then (False, c)
         else (True, c\<lparr>cl_io := Some (IOFrameSocket_new (d_socket d) (d_read_eagain d) (d_write_eagain d)
                          (d_rx d) (d_tx d)), isConnected := True\<rparr>))"

text \<open>The destructor: the descriptor it closes, if any.\<close>

definition Client_destroy :: "client \<Rightarrow> int option" where
  "Client_destroy c = (if isConnected c then Some (cl_fd c) else None)"

definition fetchMsg :: "gcm_lib \<Rightarrow> 'm lite \<Rightarrow> 'm \<Rightarrow> client \<Rightarrow> (fault + bool) \<times> 'm \<times> client" where
  "fetchMsg G T msg c =
     (case cl_io c of
        None \<Rightarrow> (Inl NullDereference, msg, c)
      | Some io \<Rightarrow>
          (case readFrame no_frame io of
             (Inl e, _, io) \<Rightarrow> (Inl e, msg, c\<lparr>cl_io := Some io\<rparr>)
           | (Inr got, f, io) \<Rightarrow>
               let c = c\<lparr>cl_io := Some io\<rparr>
               in if \<not> got then (Inr False, msg, c)
                  else let (ok, msg, k) = coder_decode G T f msg (cl_coder c)
                       in (Inr ok, msg, c\<lparr>cl_coder := k\<rparr>)))"

definition sendMsg :: "gcm_lib \<Rightarrow> 'm lite \<Rightarrow> 'm \<Rightarrow> client \<Rightarrow> (fault + bool) \<times> 'm \<times> client" where
  "sendMsg G T msg c =
     (let (ok, f, msg, k) = coder_encode G T no_frame msg (cl_rng c) (cl_coder c);
          c = c\<lparr>cl_coder := k, cl_rng := Suc (cl_rng c)\<rparr>
      in if \<not> ok then (Inr False, msg, c)
         else case cl_io c of
                None \<Rightarrow> (Inl NullDereference, msg, c)
              | Some io \<Rightarrow> (case writeFrame f io of (r, io) \<Rightarrow> (r, msg, c\<lparr>cl_io := Some io\<rparr>)))"

definition fetchRequest ::
    "gcm_lib \<Rightarrow> 'a lite \<Rightarrow> 'b lite \<Rightarrow> 'a \<Rightarrow> 'b \<Rightarrow> client \<Rightarrow> (fault + bool) \<times> 'b \<times> client" where
  "fetchRequest G S T req resp c =
     (case sendMsg G S req c of
        (Inr True, _, c) \<Rightarrow> fetchMsg G T resp c
      | (r, _, c) \<Rightarrow> (r, resp, c))"

section \<open>Connecting\<close>

text \<open>The request for authentication at the end of \<open>connect\<close>; \<open>req\<close> and \<open>resp\<close> are used again.\<close>

definition Client_request_auth ::
    "proto_env \<Rightarrow> ClientConnectedStateRequest \<Rightarrow> ServerConnectedStateResponse \<Rightarrow> client \<Rightarrow>
     (fault + bool) \<times> client" where
  "Client_request_auth E req resp c =
     (let req = ClientConnectedStateRequest_set_type ClientConnectedStateRequest_RequestType_REQUEST_AUTH
                  (ClientConnectedStateRequest_Clear req)
      in case sendMsg (gcm E) (lt_ccreq E) req c of
           (Inr True, _, c) \<Rightarrow>
             (case fetchMsg (gcm E) (lt_scresp E) resp c of
                (Inr True, resp, c) \<Rightarrow>
                  if ServerConnectedStateResponse_status resp \<noteq> ServerConnectedStateResponse_ResponseStatus_OK
                  then (Inr False, c)
                  else (Inr True, c\<lparr>isConnected := True\<rparr>)
              | (r, _, c) \<Rightarrow> (r, c))
         | (r, _, c) \<Rightarrow> (r, c))"

text \<open>The key from the response; a failing \<open>getKey256\<close> is only printed.\<close>

definition Client_agree ::
    "proto_env \<Rightarrow> x25519_kex \<Rightarrow> ClientConnectedStateRequest \<Rightarrow> ServerConnectedStateResponse \<Rightarrow> client \<Rightarrow>
     (fault + bool) \<times> client" where
  "Client_agree E kexProto req resp c =
     (let kexMsg = ServerConnectedStateResponse_kex resp;
          (loaded, kexProto) =
            (if KexMsg_alg kexMsg \<noteq> KexMsg_KexAlg_KEX_ECDH then (False, kexProto)
             else loadOtherKeyArr (KexMsg_pkey kexMsg) kexProto)
      in if \<not> loaded then (Inr False, c)
         else case agree (dh E) kexProto of
                Inl e \<Rightarrow> (Inl e, c)
              | Inr (agreed, kexProto) \<Rightarrow>
                  if \<not> agreed then (Inr False, c)
                  else let (_, agreedKey) = getKey256 (dh E) (replicate 32 0) kexProto;
                           mcoder = EncrMessageCoder_new (gcm E) agreedKey (cl_rng c)
                       in Client_request_auth E req resp
                            (c\<lparr>cl_coder := Encr mcoder, cl_rng := Suc (cl_rng c)\<rparr>))"

definition Client_exchange_keys ::
    "proto_env \<Rightarrow> x25519_kex \<Rightarrow> ClientConnectedStateRequest \<Rightarrow> client \<Rightarrow> (fault + bool) \<times> client" where
  "Client_exchange_keys E kexProto req c =
     (case sendMsg (gcm E) (lt_ccreq E) req c of
        (Inr True, req, c) \<Rightarrow>
          (case fetchMsg (gcm E) (lt_scresp E) ServerConnectedStateResponse_new c of
             (Inr True, resp, c) \<Rightarrow>
               if ServerConnectedStateResponse_status resp \<noteq> ServerConnectedStateResponse_ResponseStatus_OK
               then (Inr False, c)
               else if \<not> ServerConnectedStateResponse_has_kex resp then (Inr False, c)
               else Client_agree E kexProto req resp c
           | (r, _, c) \<Rightarrow> (r, c))
      | (r, _, c) \<Rightarrow> (r, c))"

definition Client_connect :: "proto_env \<Rightarrow> dial \<Rightarrow> client \<Rightarrow> (fault + bool) \<times> client" where
  "Client_connect E d c =
     (case connect_sock d c of
        (False, c) \<Rightarrow> (Inr False, c)
      | (True, c) \<Rightarrow>
          let kexProto = x25519_init (dh E) (cl_rng c) (x25519_new 0 (garbage E (cl_rng c)));
              c = c\<lparr>cl_rng := Suc (cl_rng c)\<rparr>
          in case getPubKey kexProto of
               None \<Rightarrow> (Inr False, c)
             | Some pubkey \<Rightarrow>
                 let req = ClientConnectedStateRequest_set_type
                       ClientConnectedStateRequest_RequestType_REQUEST_KEX ClientConnectedStateRequest_new;
                     req = ClientConnectedStateRequest_mutable_kex (KexMsg_set_alg KexMsg_KexAlg_KEX_ECDH) req;
                     req = ClientConnectedStateRequest_mutable_kex (KexMsg_set_pkey pubkey) req
                 in Client_exchange_keys E kexProto req c)"

section \<open>Authenticating\<close>

definition Client_authenticate :: "proto_env \<Rightarrow> bytes \<Rightarrow> bytes \<Rightarrow> client \<Rightarrow> (fault + bool) \<times> client" where
  "Client_authenticate E username password c =
     (let authr = ClientAuthRequest_set_request ClientAuthRequest_RequestType_AUTH_SUPPLY ClientAuthRequest_new;
          authr = ClientAuthRequest_mutable_username (\<lambda>s. s @ username) authr;
          authr = ClientAuthRequest_mutable_authcredential (\<lambda>s. s @ password) authr
      in case sendMsg (gcm E) (lt_careq E) authr c of
           (Inr True, _, c) \<Rightarrow>
             (case fetchMsg (gcm E) (lt_saresp E) ServerAuthResponse_new c of
                (Inr True, authResponse, c) \<Rightarrow>
                  if ServerAuthResponse_status authResponse \<noteq> ServerAuthResponse_ResponseStatus_AUTH_ACCEPT
                  then (Inr False, c)
                  else (Inr True, c\<lparr>isAuthenticated := True\<rparr>)
              | (r, _, c) \<Rightarrow> (r, c))
         | (r, _, c) \<Rightarrow> (r, c))"

definition hasConnected :: "client \<Rightarrow> bool" where
  "hasConnected c = isConnected c"

definition hasAuthenticated :: "client \<Rightarrow> bool" where
  "hasAuthenticated c = isAuthenticated c"

definition hasServerClosed :: "client \<Rightarrow> fault + bool" where
  "hasServerClosed c = (case cl_io c of None \<Rightarrow> Inl NullDereference | Some io \<Rightarrow> Inr (isEOF io))"

end
