(* ===== verification/ClientRuns.thy ===== *)
theory ClientRuns
  imports Clients
begin

text \<open>
  What the client relies on and achieves. The locale \<open>frame_io\<close> is the interface \<open>IFrameIO\<close> as the client uses
  it: a channel that is ready delivers the next frame and takes a frame that fits. It is interpreted on
  \<open>IOFrameSocket\<close>. With it and the replies of the server (\<open>Exchanges\<close>), a handshake and an
  authentication between a client and a server session are followed through from both ends.
\<close>

section \<open>The frame channel\<close>

locale frame_io =
  fixes readF :: "frame \<Rightarrow> 's \<Rightarrow> (fault + bool) \<times> frame \<times> 's"
    and writeF :: "frame \<Rightarrow> 's \<Rightarrow> (fault + bool) \<times> 's"
    and ready :: "'s \<Rightarrow> frame list \<Rightarrow> nat \<Rightarrow> bool"
    and outp :: "'s \<Rightarrow> bytes"
  assumes write_ready: "\<lbrakk>ready s gs n; frame_wf f; length (wire f) \<le> n\<rbrakk> \<Longrightarrow>
      \<exists>s'. writeF f s = (Inr True, s') \<and> ready s' gs (n - length (wire f)) \<and> outp s' = outp s @ wire f"
    and read_ready: "ready s (g # gs) n \<Longrightarrow>
      \<exists>s'. readF f s = (Inr True, g, s') \<and> ready s' gs n \<and> outp s' = outp s"
begin

lemma request_reply:
  assumes "ready s (g # gs) n" "frame_wf f" "length (wire f) \<le> n"
  obtains s1 s2 where "writeF f s = (Inr True, s1)" "readF f0 s1 = (Inr True, g, s2)"
    "ready s2 gs (n - length (wire f))" "outp s2 = outp s @ wire f"
proof -
  obtain s1 where s1: "writeF f s = (Inr True, s1)" "ready s1 (g # gs) (n - length (wire f))"
    "outp s1 = outp s @ wire f"
    using write_ready [OF assms] by blast
  obtain s2 where "readF f0 s1 = (Inr True, g, s2)" "ready s2 gs (n - length (wire f))" "outp s2 = outp s1"
    using read_ready [OF s1(2)] by blast
  with s1 that show thesis by simp
qed

end

text \<open>A frame as the socket delivers it when header and length arrive together and the message in one piece.\<close>

definition deliver :: "frame \<Rightarrow> rx_event list" where
  "deliver g = [RxData [fr_header g, hi_byte (fr_len g), lo_byte (fr_len g)], RxData (fr_msg g)]"

definition tx_room :: "nat \<Rightarrow> tx_event list" where
  "tx_room n = (if n = 0 then [] else [TxRoom n])"

definition io_ready :: "io_socket \<Rightarrow> frame list \<Rightarrow> nat \<Rightarrow> bool" where
  "io_ready k gs n \<longleftrightarrow>
     conn_open k \<and> io_rx k = concat (map deliver gs) \<and> io_tx k = tx_room n \<and>
     (\<forall>g\<in>set gs. frame_wf g \<and> header_ok (fr_header g) \<and> fr_msg g \<noteq> [])"

interpretation lio: frame_io readFrame writeFrame io_ready io_out
proof
  fix s gs n f
  assume s: "io_ready s gs n" and f: "frame_wf f" "length (wire f) \<le> n"
  then have "io_tx s = [TxRoom n]" "conn_open s"
    by (auto simp: io_ready_def tx_room_def)
  from sendFrame_room [OF this(2,1) f(2,1)] s f
  show "\<exists>s'. writeFrame f s = (Inr True, s') \<and> io_ready s' gs (n - length (wire f)) \<and> io_out s' = io_out s @ wire f"
    by (auto simp: writeFrame_def io_ready_def tx_room_def)
next
  fix s g gs n f
  assume s: "io_ready s (g # gs) n"
  then have "conn_open s" "header_ok (fr_header g)" "frame_wf g" "fr_msg g \<noteq> []"
    "io_rx s = RxData [fr_header g, hi_byte (fr_len g), lo_byte (fr_len g)] # map RxData (fr_msg g # []) @
       concat (map deliver gs)"
    by (auto simp: io_ready_def deliver_def)
  from recvFrame_chunks [OF this(1,5,2,3), of f] this(4)
  obtain k' where k': "recvFrame f s = (Inr True, g, k')" "io_rx k' = concat (map deliver gs)" "conn_open k'"
    by auto
  with s recvFrame_out [OF k'(1)]
  show "\<exists>s'. readFrame f s = (Inr True, g, s') \<and> io_ready s' gs n \<and> io_out s' = io_out s"
    by (auto simp: readFrame_def io_ready_def)
qed

section \<open>The client's messages\<close>

text \<open>A client whose channel is ready, with a coder of the given key.\<close>

definition channel_ready :: "client \<Rightarrow> frame list \<Rightarrow> nat \<Rightarrow> bool" where
  "channel_ready c gs n \<longleftrightarrow> (\<exists>k. cl_io c = Some k \<and> io_ready k gs n)"

definition client_out :: "client \<Rightarrow> bytes" where
  "client_out c = (case cl_io c of None \<Rightarrow> [] | Some k \<Rightarrow> io_out k)"

lemma channel_ready_fields [simp]:
  "channel_ready (c\<lparr>cl_rng := r\<rparr>) gs n = channel_ready c gs n"
  "channel_ready (c\<lparr>cl_coder := k\<rparr>) gs n = channel_ready c gs n"
  "channel_ready (c\<lparr>isConnected := b\<rparr>) gs n = channel_ready c gs n"
  "channel_ready (c\<lparr>isAuthenticated := b\<rparr>) gs n = channel_ready c gs n"
  "client_out (c\<lparr>cl_rng := r\<rparr>) = client_out c"
  "client_out (c\<lparr>cl_coder := k\<rparr>) = client_out c"
  "client_out (c\<lparr>isConnected := b\<rparr>) = client_out c"
  "client_out (c\<lparr>isAuthenticated := b\<rparr>) = client_out c"
  by (simp_all add: channel_ready_def client_out_def)

text \<open>
  A request and its reply. The frame that is sent depends on the message, the coder and the randomness only,
  not on what will be received.
\<close>

lemma exchange:
  assumes T: "lite_message T view ok target" and G: "aead G" and m: "ok m" "target m"
    and le: "fst (lt_ByteSizeLong T m) \<le> 65503" "is_encr k \<or> 0 < fst (lt_ByteSizeLong T m)"
    and room: "fst (lt_ByteSizeLong T m) + 35 \<le> n"
  shows "\<exists>f m'. carries G T view target (coder_key k) (view m) f \<and> target m' \<and> view m' = view m \<and>
    length (wire f) \<le> fst (lt_ByteSizeLong T m) + 35 \<and>
    (\<forall>c g gs v m0. cl_coder c = k \<longrightarrow> cl_rng c = r \<longrightarrow> channel_ready c (g # gs) n \<longrightarrow>
       carries G S view' target' (coder_key k) v g \<longrightarrow> target' m0 \<longrightarrow>
       (\<exists>c1 resp c2. sendMsg G T m c = (Inr True, m', c1) \<and> fetchMsg G S m0 c1 = (Inr True, resp, c2) \<and>
          view' resp = v \<and> target' resp \<and> channel_ready c2 gs (n - length (wire f)) \<and>
          client_out c2 = client_out c @ wire f \<and> coder_key (cl_coder c2) = coder_key k \<and> cl_rng c2 = Suc r \<and>
          isConnected c2 = isConnected c \<and> isAuthenticated c2 = isAuthenticated c))"
proof -
  from coder_encode_carries [OF T G m le, of no_frame r] obtain f m' k' where f:
    "coder_encode G T no_frame m r k = (True, f, m', k')" "carries G T view target (coder_key k) (view m) f"
    "length (fr_msg f) \<le> fst (lt_ByteSizeLong T m) + 32" "target m'" "view m' = view m"
    "coder_key k' = coder_key k" by blast
  have wf: "frame_wf f" and fits: "length (wire f) \<le> n"
    using f(2,3) room by (simp_all add: carries_def)
  have "\<exists>c1 resp c2. sendMsg G T m c = (Inr True, m', c1) \<and> fetchMsg G S m0 c1 = (Inr True, resp, c2) \<and>
      view' resp = v \<and> target' resp \<and> channel_ready c2 gs (n - length (wire f)) \<and>
      client_out c2 = client_out c @ wire f \<and> coder_key (cl_coder c2) = coder_key k \<and> cl_rng c2 = Suc r \<and>
      isConnected c2 = isConnected c \<and> isAuthenticated c2 = isAuthenticated c"
    if c: "cl_coder c = k" "cl_rng c = r" "channel_ready c (g # gs) n"
      and g: "carries G S view' target' (coder_key k) v g" and m0: "target' m0" for c g gs v m0
  proof -
    from c(3) obtain io where io: "cl_io c = Some io" "io_ready io (g # gs) n"
      by (auto simp: channel_ready_def)
    from lio.request_reply [OF io(2) wf fits, of no_frame] obtain io1 io2 where io':
      "writeFrame f io = (Inr True, io1)" "readFrame no_frame io1 = (Inr True, g, io2)"
      "io_ready io2 gs (n - length (wire f))" "io_out io2 = io_out io @ wire f" .
    from carries_decode [OF g [folded f(6)] m0] obtain resp k2 where
      "coder_decode G S g m0 k' = (True, resp, k2)" "view' resp = v" "target' resp" "coder_key k2 = coder_key k"
      unfolding f(6) by blast
    with f(1) c io(1) io' show ?thesis
      by (simp add: sendMsg_def fetchMsg_def channel_ready_def client_out_def)
  qed
  with f show ?thesis
    by (intro exI [of _ f] exI [of _ m']) (simp add: carries_def)
qed

text \<open>A request of the application: \<open>fetchRequest\<close> returns what the server's reply carries.\<close>

lemma fetchRequest_exchange:
  assumes "lite_message T view ok target" "aead G" "ok m" "target m" "fst (lt_ByteSizeLong T m) \<le> 65503"
    "is_encr k \<or> 0 < fst (lt_ByteSizeLong T m)" "fst (lt_ByteSizeLong T m) + 35 \<le> n"
  shows "\<exists>f. carries G T view target (coder_key k) (view m) f \<and>
    (\<forall>c g gs v m0. cl_coder c = k \<longrightarrow> cl_rng c = r \<longrightarrow> channel_ready c (g # gs) n \<longrightarrow>
       carries G S view' target' (coder_key k) v g \<longrightarrow> target' m0 \<longrightarrow>
       (\<exists>resp c'. fetchRequest G T S m m0 c = (Inr True, resp, c') \<and> view' resp = v \<and>
          client_out c' = client_out c @ wire f \<and> coder_key (cl_coder c') = coder_key k))"
proof -
  from exchange [OF assms, where r = r and S = S and view' = view' and target' = target']
  obtain f m' where f: "carries G T view target (coder_key k) (view m) f"
    and x: "\<And>c g gs v m0. cl_coder c = k \<Longrightarrow> cl_rng c = r \<Longrightarrow> channel_ready c (g # gs) n \<Longrightarrow>
       carries G S view' target' (coder_key k) v g \<Longrightarrow> target' m0 \<Longrightarrow>
       \<exists>c1 resp c2. sendMsg G T m c = (Inr True, m', c1) \<and> fetchMsg G S m0 c1 = (Inr True, resp, c2) \<and>
          view' resp = v \<and> client_out c2 = client_out c @ wire f \<and> coder_key (cl_coder c2) = coder_key k"
    by blast
  have "\<exists>resp c'. fetchRequest G T S m m0 c = (Inr True, resp, c') \<and> view' resp = v \<and>
      client_out c' = client_out c @ wire f \<and> coder_key (cl_coder c') = coder_key k"
    if "cl_coder c = k" "cl_rng c = r" "channel_ready c (g # gs) n" "carries G S view' target' (coder_key k) v g"
      "target' m0" for c g gs v m0
    using x [OF that] by (auto simp: fetchRequest_def)
  with f show ?thesis by blast
qed

section \<open>The handshake\<close>

text \<open>The requests of \<open>connect\<close>.\<close>

definition kex_request :: "bytes \<Rightarrow> ClientConnectedStateRequest" where
  "kex_request pubkey =
     ClientConnectedStateRequest_mutable_kex (KexMsg_set_pkey pubkey)
       (ClientConnectedStateRequest_mutable_kex (KexMsg_set_alg KexMsg_KexAlg_KEX_ECDH)
         (ClientConnectedStateRequest_set_type ClientConnectedStateRequest_RequestType_REQUEST_KEX
           ClientConnectedStateRequest_new))"

lemma kex_request_props:
  assumes "length p = 32"
  shows "ccreq_small (kex_request p)" "cc_type (kex_request p) = 1"
    "ClientConnectedStateRequest_view (kex_request p) = (1, Some (1, p))"
  using assms
  by (simp_all add: kex_request_def ccreq_small_def pb_wf_defs ClientConnectedStateRequest_defs KexMsg_defs
      KexMsg_view_def)

lemma auth_request_props:
  assumes "ClientConnectedStateRequest_wf m"
  shows "ccreq_small (ClientConnectedStateRequest_set_type t (ClientConnectedStateRequest_Clear m))"
    "cc_type (ClientConnectedStateRequest_set_type t (ClientConnectedStateRequest_Clear m)) = t"
    "ClientConnectedStateRequest_view (ClientConnectedStateRequest_set_type t (ClientConnectedStateRequest_Clear m)) =
       (t, None)"
  using assms
  by (auto simp: ccreq_small_def pb_wf_defs ClientConnectedStateRequest_defs KexMsg_blank_def KexMsg_Clear_def
      Let_def split: option.splits)

lemma ccreq_small_ok: "ccreq_small m \<Longrightarrow> ccreq_ok m" "ccreq_small m \<Longrightarrow> ClientConnectedStateRequest_wf m"
  by (simp_all add: ccreq_small_def ccreq_ok_def)

text \<open>An exchange with a request of the connected state.\<close>

lemma connected_exchange:
  assumes E: "env_ok E L" and m: "ccreq_small m" "cc_type m \<noteq> 0" and n: "115 \<le> n"
  shows "\<exists>f m'. carries_ccreq E (coder_key k) (ClientConnectedStateRequest_view m) f \<and>
    ClientConnectedStateRequest_wf m' \<and> length (wire f) \<le> 115 \<and>
    (\<forall>c g gs v m0. cl_coder c = k \<longrightarrow> cl_rng c = r \<longrightarrow> channel_ready c (g # gs) n \<longrightarrow>
       carries_scresp E (coder_key k) v g \<longrightarrow> ServerConnectedStateResponse_wf m0 \<longrightarrow>
       (\<exists>c1 resp c2. sendMsg (gcm E) (lt_ccreq E) m c = (Inr True, m', c1) \<and>
          fetchMsg (gcm E) (lt_scresp E) m0 c1 = (Inr True, resp, c2) \<and>
          ServerConnectedStateResponse_view resp = v \<and> ServerConnectedStateResponse_wf resp \<and>
          channel_ready c2 gs (n - length (wire f)) \<and>
          client_out c2 = client_out c @ wire f \<and> coder_key (cl_coder c2) = coder_key k \<and> cl_rng c2 = Suc r \<and>
          isConnected c2 = isConnected c \<and> isAuthenticated c2 = isAuthenticated c))"
proof -
  have w: "wire_runtime L" and a: "aead (gcm E)" and T: "lt_ccreq E = ccreq_lite L"
    using E by (simp_all add: env_ok_def)
  have size: "fst (lt_ByteSizeLong (lt_ccreq E) m) \<le> 80" "is_encr k \<or> 0 < fst (lt_ByteSizeLong (lt_ccreq E) m)"
    using wire_runtime.ccreq_small_size [OF w m(1)] wire_runtime.ccreq_size_pos [OF w m(2)] T by simp_all
  have lim: "fst (lt_ByteSizeLong (lt_ccreq E) m) \<le> 65503" "fst (lt_ByteSizeLong (lt_ccreq E) m) + 35 \<le> n"
    using size(1) n by simp_all
  from exchange [OF wire_runtime.ccreq_message [OF w, folded T] a ccreq_small_ok [OF m(1)] lim(1) size(2) lim(2),
      where target' = ServerConnectedStateResponse_wf and r = r and S = "lt_scresp E" and
      view' = ServerConnectedStateResponse_view] size(1)
  show ?thesis by fastforce
qed

lemma response_of_view:
  assumes "ServerConnectedStateResponse_view m = (s, k, i)"
  shows "ServerConnectedStateResponse_status m = s"
    "k = Some (a, p) \<Longrightarrow> ServerConnectedStateResponse_has_kex m \<and>
       KexMsg_alg (ServerConnectedStateResponse_kex m) = a \<and> KexMsg_pkey (ServerConnectedStateResponse_kex m) = p"
  using assms
  by (auto simp: ServerConnectedStateResponse_view_def ServerConnectedStateResponse_status_def
      ServerConnectedStateResponse_internal_status_def ServerConnectedStateResponse_has_kex_def kex_view_def
      ServerConnectedStateResponse_kex_def ServerConnectedStateResponse_internal_kex_def KexMsg_view_def
      KexMsg_defs split: if_splits)

lemma Client_agree_key:
  assumes "ServerConnectedStateResponse_view resp = (s, Some (KexMsg_KexAlg_KEX_ECDH, p), i)" "length p = 32"
    "Agree (dh E) (fst (GenerateKeyPair (dh E) r)) p = Some x"
  shows "Client_agree E (x25519_init (dh E) r (x25519_new 0 b)) req resp c =
    Client_request_auth E req resp
      (c\<lparr>cl_coder := Encr (EncrMessageCoder_new (gcm E) (TruncatedFinal (dh E) x 32) (cl_rng c)),
         cl_rng := Suc (cl_rng c)\<rparr>)"
  using response_of_view(2) [OF assms(1) refl] assms(2,3)
  by (simp add: Client_agree_def kex_defs Let_def)

text \<open>The operating system lets the client through.\<close>

definition dial_ok :: "dial \<Rightarrow> bool" where
  "dial_ok d \<longleftrightarrow> 0 \<le> d_rcvtimeo d \<and> 0 \<le> d_sndtimeo d \<and> d_socket d \<noteq> - 1 \<and> d_connect d = 0"

lemma connect_sock_ok:
  assumes "dial_ok d" "\<not> isConnected c"
  shows "connect_sock d c = (True, c\<lparr>cl_fd := d_socket d,
    cl_io := Some (IOFrameSocket_new (d_socket d) (d_read_eagain d) (d_write_eagain d) (d_rx d) (d_tx d)),
    isConnected := True\<rparr>)"
  using assms by (simp add: connect_sock_def dial_ok_def Let_def)

text \<open>The handshake, with any further frames already waiting behind the two replies.\<close>

lemma handshake_on:
  assumes E: "env_ok E L" and d: "dial_ok d" "d_tx d = [TxRoom n]" "230 \<le> n"
    and c: "\<not> isConnected c" "coder_key (cl_coder c) = None"
    and cs: "session_wf cs" "ctx_io cs = Some out" "ctx_state cs = Some (HConnected h)" "\<not> isKexComplete h"
  shows "\<exists>f1 f2 g1 g2 cs' h' key.
    run_frames E [(a1, f1), (a2, f2)] cs = Inr cs' \<and> ctx_io cs' = Some (out @ [g1, g2]) \<and>
    ctx_state cs' = Some (HAuth h') \<and> remainingAttempts h' = 5 \<and> coder_key (ah_coder h') = Some key \<and>
    session_wf cs' \<and> finalStateFactory cs' = finalStateFactory cs \<and> length (wire f1) + length (wire f2) \<le> 230 \<and>
    (\<exists>cs1. ProtocolContext_handleFrame E a1 f1 cs = Inr cs1 \<and> ctx_io cs1 = Some (out @ [g1])) \<and>
    list_all sound_frame [f1, f2, g1, g2] \<and>
    (\<forall>gs. list_all sound_frame gs \<longrightarrow>
       (\<exists>c'. Client_connect E (d\<lparr>d_rx := concat (map deliver (g1 # g2 # gs))\<rparr>) c = (Inr True, c') \<and>
          client_out c' = wire f1 @ wire f2 \<and> coder_key (cl_coder c') = Some key \<and> isConnected c' \<and>
          channel_ready c' gs (n - length (wire f1) - length (wire f2)) \<and> cl_rng c' = cl_rng c + 4 \<and>
          isAuthenticated c' = isAuthenticated c))"
proof -
  have ka: "key_agreement (dh E)" using E by (simp add: env_ok_def)
  note len = key_agreement.public_length [OF ka]
  let ?r = "cl_rng c"
  let ?pk = "snd (GenerateKeyPair (dh E) ?r)" and ?qk = "snd (GenerateKeyPair (dh E) (ctx_rng cs))"
  let ?kex = "x25519_init (dh E) ?r (x25519_new 0 (garbage E ?r))"
  have n1: "115 \<le> n" using d(3) by simp
  have new: "ServerConnectedStateResponse_wf ServerConnectedStateResponse_new"
    by (simp add: pb_wf_defs ServerConnectedStateResponse_new_def)
  note req = kex_request_props [OF len, of ?r]
  have req1: "cc_type (kex_request ?pk) \<noteq> 0" by (simp add: req(2))
  obtain f1 m1 where f1: "carries_ccreq E None (1, Some (1, ?pk)) f1" "ClientConnectedStateRequest_wf m1"
    "length (wire f1) \<le> 115"
    and x1: "\<And>c' g gs v. cl_coder c' = cl_coder c \<Longrightarrow> cl_rng c' = Suc ?r \<Longrightarrow> channel_ready c' (g # gs) n \<Longrightarrow>
       carries_scresp E None v g \<Longrightarrow>
       \<exists>c1 resp c2. sendMsg (gcm E) (lt_ccreq E) (kex_request ?pk) c' = (Inr True, m1, c1) \<and>
          fetchMsg (gcm E) (lt_scresp E) ServerConnectedStateResponse_new c1 = (Inr True, resp, c2) \<and>
          ServerConnectedStateResponse_view resp = v \<and> ServerConnectedStateResponse_wf resp \<and>
          channel_ready c2 gs (n - length (wire f1)) \<and>
          client_out c2 = client_out c' @ wire f1 \<and> cl_rng c2 = Suc (Suc ?r) \<and> isConnected c2 = isConnected c' \<and>
          isAuthenticated c2 = isAuthenticated c'"
    using connected_exchange [OF E req(1) req1 n1, of "cl_coder c" "Suc ?r"] new unfolding req(3) c(2) by blast
  from server_kex [OF E cs, of ?r f1 a1] f1(1) obtain g1 h1 cs1 s where s1:
    "ProtocolContext_handleFrame E a1 f1 cs = Inr cs1" "ctx_state cs1 = Some (HConnected h1)" "isKexComplete h1"
    "coder_key (ch_coder h1) = Some (TruncatedFinal (dh E) s 32)"
    "Agree (dh E) (fst (GenerateKeyPair (dh E) ?r)) ?qk = Some s"
    "carries_scresp E None (1, Some (1, ?qk), None) g1" "ctx_io cs1 = Some (out @ [g1])" "session_wf cs1"
    "finalStateFactory cs1 = finalStateFactory cs" by auto
  let ?key = "TruncatedFinal (dh E) s 32"
  let ?k2 = "Encr (EncrMessageCoder_new (gcm E) ?key (Suc (Suc ?r)))"
  have k2: "coder_key ?k2 = Some ?key" by (simp add: EncrMessageCoder_new_def)
  let ?n2 = "n - length (wire f1)"
  have n2: "115 \<le> ?n2" using f1(3) d(3) by simp
  note areq = auth_request_props [OF f1(2), of 2]
  let ?areq = "ClientConnectedStateRequest_set_type 2 (ClientConnectedStateRequest_Clear m1)"
  have areq1: "cc_type ?areq \<noteq> 0" by (simp add: areq(2))
  obtain f2 m2 where f2: "carries_ccreq E (Some ?key) (2, None) f2" "length (wire f2) \<le> 115"
    and x2: "\<And>c' g gs v resp. cl_coder c' = ?k2 \<Longrightarrow> cl_rng c' = Suc (Suc (Suc ?r)) \<Longrightarrow>
       channel_ready c' (g # gs) ?n2 \<Longrightarrow> carries_scresp E (Some ?key) v g \<Longrightarrow> ServerConnectedStateResponse_wf resp \<Longrightarrow>
       \<exists>c1 resp' c2. sendMsg (gcm E) (lt_ccreq E) ?areq c' = (Inr True, m2, c1) \<and>
          fetchMsg (gcm E) (lt_scresp E) resp c1 = (Inr True, resp', c2) \<and>
          ServerConnectedStateResponse_view resp' = v \<and> channel_ready c2 gs (?n2 - length (wire f2)) \<and>
          client_out c2 = client_out c' @ wire f2 \<and> coder_key (cl_coder c2) = Some ?key \<and>
          isConnected c2 = isConnected c' \<and> cl_rng c2 = Suc (Suc (Suc (Suc ?r))) \<and> isAuthenticated c2 = isAuthenticated c'"
    using connected_exchange [OF E areq(1) areq1 n2, of ?k2 "Suc (Suc (Suc ?r))"]
    unfolding areq(3) k2 by blast
  from server_auth_request [OF E s1(8,7,2,3,4), of f2 a2] f2(1) obtain g2 h2 cs2 where s2:
    "ProtocolContext_handleFrame E a2 f2 cs1 = Inr cs2" "ctx_state cs2 = Some (HAuth h2)"
    "coder_key (ah_coder h2) = Some ?key" "remainingAttempts h2 = 5" "carries_scresp E (Some ?key) (1, None, None) g2"
    "ctx_io cs2 = Some (out @ [g1, g2])" "session_wf cs2" "finalStateFactory cs2 = finalStateFactory cs"
    using s1(9) by auto
  have client: "\<exists>c'. Client_connect E (d\<lparr>d_rx := concat (map deliver (g1 # g2 # gs))\<rparr>) c = (Inr True, c') \<and>
      client_out c' = wire f1 @ wire f2 \<and> coder_key (cl_coder c') = Some ?key \<and> isConnected c' \<and>
      channel_ready c' gs (n - length (wire f1) - length (wire f2)) \<and> cl_rng c' = ?r + 4 \<and>
      isAuthenticated c' = isAuthenticated c" if "list_all sound_frame gs" for gs
  proof -
    let ?d = "d\<lparr>d_rx := concat (map deliver (g1 # g2 # gs))\<rparr>"
    define c0 where "c0 = c\<lparr>cl_fd := d_socket d, cl_io := Some (IOFrameSocket_new (d_socket d) (d_read_eagain d)
      (d_write_eagain d) (concat (map deliver (g1 # g2 # gs))) (d_tx d)), isConnected := True, cl_rng := Suc ?r\<rparr>"
    have c0: "cl_coder c0 = cl_coder c" "cl_rng c0 = Suc ?r" "channel_ready c0 (g1 # g2 # gs) n" "client_out c0 = []" "isConnected c0"
      "isAuthenticated c0 = isAuthenticated c"
      using s1(6) s2(5) d(2,3) that
      by (simp_all add: c0_def channel_ready_def client_out_def io_ready_def IOFrameSocket_new_def tx_room_def carries_def list_all_iff
          sound_frame_def)
    obtain c1 resp c2 where e1: "sendMsg (gcm E) (lt_ccreq E) (kex_request ?pk) c0 = (Inr True, m1, c1)"
      "fetchMsg (gcm E) (lt_scresp E) ServerConnectedStateResponse_new c1 = (Inr True, resp, c2)"
      "ServerConnectedStateResponse_view resp = (1, Some (1, ?qk), None)" "ServerConnectedStateResponse_wf resp"
      "channel_ready c2 (g2 # gs) ?n2" "client_out c2 = wire f1" "cl_rng c2 = Suc (Suc ?r)" "isConnected c2"
      "isAuthenticated c2 = isAuthenticated c"
      using x1 [OF c0(1-3) s1(6)] c0(4-6) by auto
    let ?c3 = "c2\<lparr>cl_coder := ?k2, cl_rng := Suc (cl_rng c2)\<rparr>"
    obtain c4 resp' c5 where e2: "sendMsg (gcm E) (lt_ccreq E) ?areq ?c3 = (Inr True, m2, c4)"
      "fetchMsg (gcm E) (lt_scresp E) resp c4 = (Inr True, resp', c5)"
      "ServerConnectedStateResponse_view resp' = (1, None, None)" "channel_ready c5 gs (?n2 - length (wire f2))"
      "client_out c5 = wire f1 @ wire f2" "coder_key (cl_coder c5) = Some ?key"
      "cl_rng c5 = Suc (Suc (Suc (Suc ?r)))" "isAuthenticated c5 = isAuthenticated c"
      using x2 [of ?c3 g2 gs, OF _ _ _ s2(5) e1(4)] e1(5-7,9) by auto
    have "Client_connect E ?d c = Client_exchange_keys E ?kex (kex_request ?pk) c0"
      using d(1) c(1) connect_sock_ok [of ?d c]
      by (simp add: Client_connect_def dial_ok_def kex_request_def c0_def x25519_init_def getPubKey_def Let_def)
    also have "\<dots> = Client_agree E ?kex m1 resp c2"
      using e1(1,2) response_of_view [OF e1(3)] by (simp add: Client_exchange_keys_def)
    also have "\<dots> = Client_request_auth E m1 resp ?c3"
      using Client_agree_key [of resp 1 ?qk None E ?r s _ m1 c2] e1(3,7) len s1(5) by simp
    also have "\<dots> = (Inr True, c5\<lparr>isConnected := True\<rparr>)"
      using e2(1,2) response_of_view(1) [OF e2(3)] by (simp add: Client_request_auth_def)
    finally have conn: "Client_connect E ?d c = (Inr True, c5\<lparr>isConnected := True\<rparr>)" .
    with e2 show ?thesis by simp
  qed
  show ?thesis
    by (rule exI [of _ f1], rule exI [of _ f2], rule exI [of _ g1], rule exI [of _ g2], rule exI [of _ cs2],
        rule exI [of _ h2], rule exI [of _ ?key])
      (use client s1 s2 f1(3) f2(2) carries_sound [OF f1(1)] carries_sound [OF f2(1)] carries_sound [OF s1(6)]
        carries_sound [OF s2(5)] in simp)
qed

lemma handshake:
  assumes E: "env_ok E L" and d: "dial_ok d" "d_tx d = [TxRoom n]" "230 \<le> n"
    and c: "\<not> isConnected c" "coder_key (cl_coder c) = None"
    and cs: "session_wf cs" "ctx_io cs = Some out" "ctx_state cs = Some (HConnected h)" "\<not> isKexComplete h"
  shows "\<exists>f1 f2 g1 g2 c' cs' h' key.
    Client_connect E (d\<lparr>d_rx := deliver g1 @ deliver g2\<rparr>) c = (Inr True, c') \<and>
    client_out c' = wire f1 @ wire f2 \<and> coder_key (cl_coder c') = Some key \<and> isConnected c' \<and>
    channel_ready c' [] (n - length (wire f1) - length (wire f2)) \<and>
    run_frames E [(a1, f1), (a2, f2)] cs = Inr cs' \<and> ctx_io cs' = Some (out @ [g1, g2]) \<and>
    ctx_state cs' = Some (HAuth h') \<and> remainingAttempts h' = 5 \<and> coder_key (ah_coder h') = Some key \<and>
    session_wf cs' \<and> finalStateFactory cs' = finalStateFactory cs \<and> length (wire f1) + length (wire f2) \<le> 230 \<and>
    (\<exists>cs1. ProtocolContext_handleFrame E a1 f1 cs = Inr cs1 \<and> ctx_io cs1 = Some (out @ [g1])) \<and>
    list_all sound_frame [f1, f2, g1, g2]"
proof -
  from handshake_on [OF assms, of a1 a2]
  obtain f1 f2 g1 g2 and cs' :: proto_context and h' :: auth_handler and key where 1:
    "run_frames E [(a1, f1), (a2, f2)] cs = Inr cs'" "ctx_io cs' = Some (out @ [g1, g2])"
    "ctx_state cs' = Some (HAuth h')" "remainingAttempts h' = 5" "coder_key (ah_coder h') = Some key" "session_wf cs'"
    "finalStateFactory cs' = finalStateFactory cs" "length (wire f1) + length (wire f2) \<le> 230"
    "list_all sound_frame [f1, f2, g1, g2]"
    and first: "\<exists>cs1. ProtocolContext_handleFrame E a1 f1 cs = Inr cs1 \<and> ctx_io cs1 = Some (out @ [g1])"
    and c: "\<And>gs. list_all sound_frame gs \<Longrightarrow>
      \<exists>c'. Client_connect E (d\<lparr>d_rx := concat (map deliver (g1 # g2 # gs))\<rparr>) c = (Inr True, c') \<and>
        client_out c' = wire f1 @ wire f2 \<and> coder_key (cl_coder c') = Some key \<and> isConnected c' \<and>
        channel_ready c' gs (n - length (wire f1) - length (wire f2))" by blast
  from c [of "[]"] obtain c' where "Client_connect E (d\<lparr>d_rx := deliver g1 @ deliver g2\<rparr>) c = (Inr True, c')"
    "client_out c' = wire f1 @ wire f2" "coder_key (cl_coder c') = Some key" "isConnected c'"
    "channel_ready c' [] (n - length (wire f1) - length (wire f2))" by auto
  with 1 first show ?thesis by blast
qed

section \<open>Authentication\<close>

definition login_request :: "bytes \<Rightarrow> bytes \<Rightarrow> ClientAuthRequest" where
  "login_request u p =
     ClientAuthRequest_mutable_authcredential (\<lambda>s. s @ p)
       (ClientAuthRequest_mutable_username (\<lambda>s. s @ u)
         (ClientAuthRequest_set_request ClientAuthRequest_RequestType_AUTH_SUPPLY ClientAuthRequest_new))"

lemma login_request_props:
  "ca_has_bits (login_request u p) = 3" "ca_username (login_request u p) = u"
  "ca_authcredential (login_request u p) = p" "ca_request (login_request u p) = 1"
  "ca_unknown (login_request u p) = []"
  by (simp_all add: login_request_def ClientAuthRequest_mutable_authcredential_def
      ClientAuthRequest_internal_mutable_authcredential_def ClientAuthRequest_mutable_username_def
      ClientAuthRequest_internal_mutable_username_def ClientAuthRequest_set_request_def
      ClientAuthRequest_internal_set_request_def ClientAuthRequest_new_def)

lemma login_request_view:
  "ClientAuthRequest_view (login_request u p) = (1, Some u, Some p)" "ClientAuthRequest_wf (login_request u p)"
  by (simp_all add: ClientAuthRequest_view_def ClientAuthRequest_wf_def login_request_props)

lemma channel_ready_deliver:
  assumes "cl_io c = Some k" "conn_open k" "io_tx k = [TxRoom n]" "carries G T view target key v g" "0 < n"
  shows "channel_ready (c\<lparr>cl_io := Some (k\<lparr>io_rx := deliver g\<rparr>)\<rparr>) [g] n"
  using assms by (simp add: channel_ready_def io_ready_def tx_room_def carries_def)

lemma authenticate_exchange:
  assumes E: "env_ok E L" and c: "cl_io c = Some k" "conn_open k" "io_tx k = [TxRoom n]"
    and key: "coder_key (cl_coder c) = key"
    and up: "VerifyUtf8 L u" "length u + length p \<le> 60000" "length u + length p + 60 \<le> n"
    and cs: "session_wf cs" "ctx_io cs = Some out" "ctx_state cs = Some (HAuth h)" "coder_key (ah_coder h) = key"
      "finalStateFactory cs = fac"
  shows "\<exists>f g req c' cs'.
    Client_authenticate E u p (c\<lparr>cl_io := Some (k\<lparr>io_rx := deliver g\<rparr>)\<rparr>) = (Inr (lets_in auth req), c') \<and>
    client_out c' = io_out k @ wire f \<and> isAuthenticated c' = (lets_in auth req \<or> isAuthenticated c) \<and>
    coder_key (cl_coder c') = key \<and>
    ProtocolContext_handleFrame E auth f cs = Inr cs' \<and> ctx_io cs' = Some (out @ [g]) \<and>
    ClientAuthRequest_view req = (ClientAuthRequest_RequestType_AUTH_SUPPLY, Some u, Some p) \<and>
    phase_of (ctx_state cs') = (if lets_in auth req then entry_phase fac
      else if 0 < remainingAttempts h then Authenticating (remainingAttempts h - 1) else Closed) \<and>
    session_wf cs' \<and> (\<forall>h'. ctx_state cs' = Some (HAuth h') \<longrightarrow> coder_key (ah_coder h') = key) \<and>
    (\<forall>h'. ctx_state cs' = Some (HUser h') \<longrightarrow> coder_key (uh_coder h') = key) \<and>
    channel_ready c' [] (n - length (wire f)) \<and> length (wire f) \<le> length u + length p + 58 \<and>
    list_all sound_frame [f, g]"
proof -
  have w: "wire_runtime L" and a: "aead (gcm E)" and T: "lt_careq E = careq_lite L"
    using E by (simp_all add: env_ok_def)
  let ?m = "login_request u p"
  have ok: "careq_ok L ?m"
    using up(1) login_request_view(2) by (simp add: careq_ok_def login_request_props ClientAuthRequest_utf8_def)
  have size: "fst (lt_ByteSizeLong (lt_careq E) ?m) \<le> length u + length p + 23"
    "is_encr (cl_coder c) \<or> 0 < fst (lt_ByteSizeLong (lt_careq E) ?m)"
    using wire_runtime.careq_size_le [OF w, of ?m] wire_runtime.careq_size_pos [OF w, of ?m] up(2) T
    by (simp_all add: login_request_props)
  have lim: "fst (lt_ByteSizeLong (lt_careq E) ?m) \<le> 65503" "fst (lt_ByteSizeLong (lt_careq E) ?m) + 35 \<le> n"
    using size(1) up(2,3) by simp_all
  from exchange [OF wire_runtime.careq_message [OF w, folded T] a ok login_request_view(2) lim(1) size(2) lim(2),
      where target' = ServerAuthResponse_wf and r = "cl_rng c" and S = "lt_saresp E" and
      view' = ServerAuthResponse_view]
  obtain f m' where f: "carries_careq E key (1, Some u, Some p) f"
      "length (wire f) \<le> fst (lt_ByteSizeLong (lt_careq E) ?m) + 35"
    and x: "\<And>c' g v m0. cl_coder c' = cl_coder c \<Longrightarrow> cl_rng c' = cl_rng c \<Longrightarrow> channel_ready c' [g] n \<Longrightarrow>
       carries_saresp E key v g \<Longrightarrow> ServerAuthResponse_wf m0 \<Longrightarrow>
       \<exists>c1 resp c2. sendMsg (gcm E) (lt_careq E) ?m c' = (Inr True, m', c1) \<and>
          fetchMsg (gcm E) (lt_saresp E) m0 c1 = (Inr True, resp, c2) \<and> ServerAuthResponse_view resp = v \<and>
          channel_ready c2 [] (n - length (wire f)) \<and>
          client_out c2 = client_out c' @ wire f \<and> coder_key (cl_coder c2) = key \<and>
          isAuthenticated c2 = isAuthenticated c'"
    unfolding login_request_view(1) key by blast
  from server_authenticate [OF E cs(1-5), of "Some u" "Some p" f auth] f(1) obtain req g cs' where s:
    "ProtocolContext_handleFrame E auth f cs = Inr cs'"
    "ClientAuthRequest_view req = (ClientAuthRequest_RequestType_AUTH_SUPPLY, Some u, Some p)"
    "carries_saresp E key (if lets_in auth req then ServerAuthResponse_ResponseStatus_AUTH_ACCEPT
      else if 0 < remainingAttempts h then ServerAuthResponse_ResponseStatus_AUTH_CONTINUE
      else ServerAuthResponse_ResponseStatus_AUTH_REJECT, None) g" "ctx_io cs' = Some (out @ [g])"
    "phase_of (ctx_state cs') = (if lets_in auth req then entry_phase fac
      else if 0 < remainingAttempts h then Authenticating (remainingAttempts h - 1) else Closed)"
    "session_wf cs'" "\<forall>h'. ctx_state cs' = Some (HAuth h') \<longrightarrow> coder_key (ah_coder h') = key"
    "\<forall>h'. ctx_state cs' = Some (HUser h') \<longrightarrow> coder_key (uh_coder h') = key" by auto
  let ?c = "c\<lparr>cl_io := Some (k\<lparr>io_rx := deliver g\<rparr>)\<rparr>"
  have new: "ServerAuthResponse_wf ServerAuthResponse_new"
    by (simp add: ServerAuthResponse_wf_def ServerAuthResponse_new_def)
  have "channel_ready ?c [g] n"
    by (rule channel_ready_deliver [OF c s(3)]) (use up(3) in simp)
  from x [OF _ _ this s(3) new] obtain c1 resp c2 where e:
    "sendMsg (gcm E) (lt_careq E) ?m ?c = (Inr True, m', c1)"
    "fetchMsg (gcm E) (lt_saresp E) ServerAuthResponse_new c1 = (Inr True, resp, c2)"
    "ServerAuthResponse_view resp = (if lets_in auth req then ServerAuthResponse_ResponseStatus_AUTH_ACCEPT
      else if 0 < remainingAttempts h then ServerAuthResponse_ResponseStatus_AUTH_CONTINUE
      else ServerAuthResponse_ResponseStatus_AUTH_REJECT, None)"
    "client_out c2 = client_out ?c @ wire f" "coder_key (cl_coder c2) = key" "isAuthenticated c2 = isAuthenticated ?c"
    "channel_ready c2 [] (n - length (wire f))"
    by auto
  have st: "ServerAuthResponse_status resp = ServerAuthResponse_ResponseStatus_AUTH_ACCEPT \<longleftrightarrow> lets_in auth req"
    using e(3) by (simp add: ServerAuthResponse_view_def ServerAuthResponse_status_def
        ServerAuthResponse_internal_status_def split: if_splits)
  have "Client_authenticate E u p ?c =
      (Inr (lets_in auth req), if lets_in auth req then c2\<lparr>isAuthenticated := True\<rparr> else c2)"
    using e(1,2) st by (simp add: Client_authenticate_def login_request_def Let_def)
  then show ?thesis
    by (intro exI [of _ f] exI [of _ g] exI [of _ req]
        exI [of _ "if lets_in auth req then c2\<lparr>isAuthenticated := True\<rparr> else c2"] exI [of _ cs'])
      (use s e c(1) f(2) size(1) carries_sound [OF f(1)] carries_sound [OF s(3)] in \<open>auto simp: client_out_def\<close>)
qed

section \<open>User requests\<close>

text \<open>A request to the test handler: the client gets its own words back.\<close>

lemma echo_exchange:
  assumes E: "env_ok E L" and c: "cl_io c = Some k" "conn_open k" "io_tx k = [TxRoom n]"
    and key: "coder_key (cl_coder c) = Some key"
    and m: "ur_msg m = s" "ur_unknown m = []" "VerifyUtf8 L s" "VerifyUtf8 L (echo s)" "length s \<le> 60000"
      "length s + 60 \<le> n"
    and cs: "ctx_io cs = Some out" "ctx_state cs = Some (HUser h)" "coder_key (uh_coder h) = Some key"
  shows "\<exists>f g resp c' cs' h'.
    fetchRequest (gcm E) (lt_ureq E) (lt_uresp E) m m0 (c\<lparr>cl_io := Some (k\<lparr>io_rx := deliver g\<rparr>)\<rparr>) =
      (Inr True, resp, c') \<and> ServerResponse_msg resp = echo s \<and> client_out c' = io_out k @ wire f \<and>
    ProtocolContext_handleFrame E auth f cs = Inr cs' \<and> ctx_io cs' = Some (out @ [g]) \<and>
    ctx_state cs' = Some (HUser h') \<and> coder_key (uh_coder h') = Some key \<and> list_all sound_frame [f, g]"
proof -
  have w: "wire_runtime L" and a: "aead (gcm E)" and T: "lt_ureq E = ureq_lite L"
    using E by (simp_all add: env_ok_def)
  have ok: "ureq_ok L m"
    using m(1-3) by (simp add: ureq_ok_def UserRequest_utf8_def)
  have "fst (UserRequest_ByteSizeLong L m) \<le> length (ur_msg m) + 6"
    using m(1,2,5) by (intro wire_runtime.UserRequest_size_le [OF w]) (simp_all add: wire_max_def)
  then have lim: "fst (lt_ByteSizeLong (lt_ureq E) m) \<le> 65503" "fst (lt_ByteSizeLong (lt_ureq E) m) + 35 \<le> n"
    using m(1,5,6) by (simp_all add: T ureq_lite_def lite_of_def)
  have enc: "is_encr (cl_coder c) \<or> 0 < fst (lt_ByteSizeLong (lt_ureq E) m)"
    using key by (cases "cl_coder c") simp_all
  from fetchRequest_exchange [OF wire_runtime.ureq_message [OF w, folded T] a ok TrueI lim(1) enc lim(2),
      where target' = "\<lambda>m. True" and r = "cl_rng c" and S = "lt_uresp E" and view' = ServerResponse_view]
  obtain f where f: "carries_ureq E (Some key) s f"
    and x: "\<And>c' g v. cl_coder c' = cl_coder c \<Longrightarrow> cl_rng c' = cl_rng c \<Longrightarrow> channel_ready c' [g] n \<Longrightarrow>
       carries_uresp E (Some key) v g \<Longrightarrow>
       \<exists>resp c2. fetchRequest (gcm E) (lt_ureq E) (lt_uresp E) m m0 c' = (Inr True, resp, c2) \<and>
          ServerResponse_view resp = v \<and> client_out c2 = client_out c' @ wire f"
    unfolding key UserRequest_view_def m(1) by blast
  have "length s \<le> 65000" using m(5) by simp
  from server_echo [OF E cs m(4) this f, of auth] obtain g h' cs' where s:
    "ProtocolContext_handleFrame E auth f cs = Inr cs'" "ctx_state cs' = Some (HUser h')"
    "coder_key (uh_coder h') = Some key" "carries_uresp E (Some key) (echo s) g" "ctx_io cs' = Some (out @ [g])"
    by blast
  let ?c = "c\<lparr>cl_io := Some (k\<lparr>io_rx := deliver g\<rparr>)\<rparr>"
  have "channel_ready ?c [g] n"
    by (rule channel_ready_deliver [OF c s(4)]) (use m(6) in simp)
  from x [OF _ _ this s(4)] obtain resp c2 where
    "fetchRequest (gcm E) (lt_ureq E) (lt_uresp E) m m0 ?c = (Inr True, resp, c2)"
    "ServerResponse_view resp = echo s" "client_out c2 = client_out ?c @ wire f" by auto
  with s c(1) carries_sound [OF f] carries_sound [OF s(4)] show ?thesis
    by (intro exI [of _ f] exI [of _ g] exI [of _ resp] exI [of _ c2] exI [of _ cs'] exI [of _ h'])
      (simp add: client_out_def ServerResponse_view_msg)
qed

section \<open>What every call keeps\<close>

lemma coder_encode_key: "coder_encode G T f m r k = (b, g, m', k') \<Longrightarrow> coder_key k' = coder_key k"
  by (auto simp: coder_encode_def EncrMessageCoder_encode_def Let_def
      split: coder.splits prod.splits if_splits gcm_result.splits)

lemma coder_decode_key: "coder_decode G T g m k = (b, m', k') \<Longrightarrow> coder_key k' = coder_key k"
  by (auto simp: coder_decode_def EncrMessageCoder_decode_def Let_def
      split: coder.splits prod.splits if_splits gcm_result.splits)

text \<open>What no message changes: the flags and the key.\<close>

definition same_status :: "client \<Rightarrow> client \<Rightarrow> bool" where
  "same_status c c' \<longleftrightarrow>
     isConnected c' = isConnected c \<and> isAuthenticated c' = isAuthenticated c \<and>
     coder_key (cl_coder c') = coder_key (cl_coder c)"

lemma sendMsg_status: "sendMsg G T m c = (r, m', c') \<Longrightarrow> same_status c c'"
  by (auto simp: sendMsg_def same_status_def Let_def split: prod.splits if_splits option.splits
      dest!: coder_encode_key)

lemma fetchMsg_status: "fetchMsg G T m c = (r, m', c') \<Longrightarrow> same_status c c'"
  by (auto simp: fetchMsg_def same_status_def Let_def split: prod.splits if_splits option.splits sum.splits
      dest!: coder_decode_key)

lemma request_auth_status:
  assumes "Client_request_auth E req resp c = (r, c')" "isConnected c"
  shows "same_status c c'"
  using assms
  by (auto simp: Client_request_auth_def Let_def same_status_def
      split: prod.splits sum.splits bool.splits if_splits
      dest!: sendMsg_status [unfolded same_status_def] fetchMsg_status [unfolded same_status_def])

text \<open>
  The answer a client whose coder is \<open>K0\<close> takes from the socket \<open>k0\<close>: it has written one frame, and the next frame it
  reads decodes to \<open>resp\<close>, which is \<open>OK\<close> and has a key of the exchange the client knows.
\<close>

definition kex_answer :: "proto_env \<Rightarrow> io_socket \<Rightarrow> coder \<Rightarrow> ServerConnectedStateResponse \<Rightarrow> bool" where
  "kex_answer E k0 K0 resp \<longleftrightarrow>
     (\<exists>f1 k f k' K K'. writeFrame f1 k0 = (Inr True, k) \<and> readFrame no_frame k = (Inr True, f, k') \<and>
        coder_key K = coder_key K0 \<and>
        coder_decode (gcm E) (lt_scresp E) f ServerConnectedStateResponse_new K = (True, resp, K') \<and>
        ServerConnectedStateResponse_status resp = ServerConnectedStateResponse_ResponseStatus_OK \<and>
        ServerConnectedStateResponse_has_kex resp \<and>
        KexMsg_alg (ServerConnectedStateResponse_kex resp) = KexMsg_KexAlg_KEX_ECDH \<and>
        length (KexMsg_pkey (ServerConnectedStateResponse_kex resp)) = 32)"

lemma Client_agree_status:
  assumes "Client_agree E kex req resp c = (r, c')" "isConnected c"
  shows "isConnected c' \<and> isAuthenticated c' = isAuthenticated c \<and>
    (r = Inr True \<longrightarrow> KexMsg_alg (ServerConnectedStateResponse_kex resp) = KexMsg_KexAlg_KEX_ECDH \<and>
       length (KexMsg_pkey (ServerConnectedStateResponse_kex resp)) = 32 \<and>
       (\<exists>s. Agree (dh E) (privKey kex) (KexMsg_pkey (ServerConnectedStateResponse_kex resp)) = Some s \<and>
         coder_key (cl_coder c') = Some (TruncatedFinal (dh E) s 32)))"
proof -
  let ?m = "ServerConnectedStateResponse_kex resp"
  show ?thesis
  proof (cases "KexMsg_alg ?m = KexMsg_KexAlg_KEX_ECDH \<and> length (KexMsg_pkey ?m) = 32")
    case False
    with assms show ?thesis
      by (auto simp: Client_agree_def loadOtherKeyArr_def Let_def split: if_splits)
  next
    case True
    show ?thesis
    proof (cases "Agree (dh E) (privKey kex) (KexMsg_pkey ?m)")
      case None
      with True assms show ?thesis
        by (auto simp: Client_agree_def loadOtherKeyArr_def agree_def)
    next
      case (Some s)
      let ?c = "c\<lparr>cl_coder := Encr (EncrMessageCoder_new (gcm E) (TruncatedFinal (dh E) s 32) (cl_rng c)),
        cl_rng := Suc (cl_rng c)\<rparr>"
      have "Client_request_auth E req resp ?c = (r, c')"
        using assms(1) True Some by (simp add: Client_agree_def kex_defs Let_def)
      from request_auth_status [OF this] assms(2) True Some show ?thesis
        by (auto simp: same_status_def EncrMessageCoder_new_def)
    qed
  qed
qed

lemma sendMsg_writes:
  assumes "sendMsg G T m c = (Inr True, m', c')"
  shows "\<exists>f k0 k. cl_io c = Some k0 \<and> writeFrame f k0 = (Inr True, k) \<and> cl_io c' = Some k"
  using assms by (auto simp: sendMsg_def Let_def split: prod.splits if_splits option.splits)

lemma fetchMsg_reads:
  assumes "fetchMsg G T m c = (Inr True, m', c')"
  shows "\<exists>f k k' K'. cl_io c = Some k \<and> readFrame no_frame k = (Inr True, f, k') \<and>
    coder_decode G T f m (cl_coder c) = (True, m', K')"
  using assms by (auto simp: fetchMsg_def Let_def split: prod.splits if_splits option.splits sum.splits)

lemma exchange_keys_status:
  assumes "Client_exchange_keys E kex req c = (r, c')" "isConnected c"
  shows "isConnected c' \<and> isAuthenticated c' = isAuthenticated c \<and>
    (r = Inr True \<longrightarrow> (\<exists>k0 resp s. cl_io c = Some k0 \<and> kex_answer E k0 (cl_coder c) resp \<and>
       Agree (dh E) (privKey kex) (KexMsg_pkey (ServerConnectedStateResponse_kex resp)) = Some s \<and>
       coder_key (cl_coder c') = Some (TruncatedFinal (dh E) s 32)))"
proof -
  obtain r1 m1 c1 where s: "sendMsg (gcm E) (lt_ccreq E) req c = (r1, m1, c1)"
    using prod_cases3 by blast
  obtain r2 m2 c2 where f: "fetchMsg (gcm E) (lt_scresp E) ServerConnectedStateResponse_new c1 = (r2, m2, c2)"
    using prod_cases3 by blast
  have c1: "isConnected c1" "isAuthenticated c1 = isAuthenticated c" "coder_key (cl_coder c1) = coder_key (cl_coder c)"
    using sendMsg_status [OF s] assms(2) by (simp_all add: same_status_def)
  have c2: "isConnected c2" "isAuthenticated c2 = isAuthenticated c"
    using fetchMsg_status [OF f] c1 by (simp_all add: same_status_def)
  show ?thesis
  proof (cases "r1 = Inr True \<and> r2 = Inr True \<and>
      ServerConnectedStateResponse_status m2 = ServerConnectedStateResponse_ResponseStatus_OK \<and>
      ServerConnectedStateResponse_has_kex m2")
    case True
    then have "Client_agree E kex m1 m2 c2 = (r, c')"
      using assms(1) s f by (simp add: Client_exchange_keys_def)
    note a = Client_agree_status [OF this c2(1)]
    from True sendMsg_writes [of "gcm E" "lt_ccreq E" req c m1 c1] s obtain f1 k0 k where k0: "cl_io c = Some k0"
      "writeFrame f1 k0 = (Inr True, k)" "cl_io c1 = Some k" by auto
    from True fetchMsg_reads [of "gcm E" "lt_scresp E" ServerConnectedStateResponse_new c1 m2 c2] f k0(3)
    obtain g k' K' where g: "readFrame no_frame k = (Inr True, g, k')"
      "coder_decode (gcm E) (lt_scresp E) g ServerConnectedStateResponse_new (cl_coder c1) = (True, m2, K')" by auto
    have "kex_answer E k0 (cl_coder c) m2" if "r = Inr True"
      unfolding kex_answer_def using k0(2) g c1(3) True a that by blast
    with a c2(2) k0(1) show ?thesis by auto
  next
    case False
    then have "c' \<in> {c1, c2} \<and> r \<noteq> Inr True"
      using assms(1) s f by (auto simp: Client_exchange_keys_def split: sum.splits bool.splits if_splits)
    with c1 c2 show ?thesis by auto
  qed
qed

lemma connect_status:
  assumes "Client_connect E d c = (r, c')" "connect_sock d c = (True, c0)"
  shows "isConnected c' \<and> isAuthenticated c' = isAuthenticated c \<and>
    (r = Inr True \<longrightarrow> (\<exists>k0 resp s. cl_io c0 = Some k0 \<and> kex_answer E k0 (cl_coder c) resp \<and>
       Agree (dh E) (fst (GenerateKeyPair (dh E) (cl_rng c))) (KexMsg_pkey (ServerConnectedStateResponse_kex resp)) = Some s \<and>
       coder_key (cl_coder c') = Some (TruncatedFinal (dh E) s 32)))"
proof -
  have 0: "isConnected c0" "isAuthenticated c0 = isAuthenticated c" "cl_rng c0 = cl_rng c" "cl_coder c0 = cl_coder c"
    using assms(2) by (auto simp: connect_sock_def Let_def split: if_splits)
  let ?kex = "x25519_init (dh E) (cl_rng c) (x25519_new 0 (garbage E (cl_rng c)))"
  obtain req where "Client_exchange_keys E ?kex req (c0\<lparr>cl_rng := Suc (cl_rng c)\<rparr>) = (r, c')"
    using assms 0(3) by (auto simp: Client_connect_def getPubKey_def x25519_init_def Let_def)
  from exchange_keys_status [OF this] 0 show ?thesis
    by (simp add: x25519_init_def)
qed

section \<open>Properties\<close>

text \<open>C3: The handshake works: a new client and a new session of any server, whatever randomness, memory and
  authenticators, over a channel that delivers the server's frames whole, agree on one key. \<open>connect\<close>
  returns true, having sent exactly two frames; the session answers them with the two frames the client
  receives, and waits for authentication with all its attempts and the client's key.\<close>

theorem handshake_completes:
  assumes "env_ok E L" "dial_ok d" "d_tx d = [TxRoom n]" "230 \<le> n"
  shows "\<exists>f1 f2 g1 g2 c cs h key.
    Client_connect E (d\<lparr>d_rx := deliver g1 @ deliver g2\<rparr>) (Client_new ip port mem r) = (Inr True, c) \<and>
    client_out c = wire f1 @ wire f2 \<and> coder_key (cl_coder c) = Some key \<and>
    run_frames E [(a1, f1), (a2, f2)] (new_session fac r') = Inr cs \<and> ctx_io cs = Some [g1, g2] \<and>
    ctx_state cs = Some (HAuth h) \<and> remainingAttempts h = 5 \<and> coder_key (ah_coder h) = Some key \<and>
    session_wf cs"
proof -
  have c: "\<not> isConnected (Client_new ip port mem r)" "coder_key (cl_coder (Client_new ip port mem r)) = None"
    by (simp_all add: Client_new_def)
  have cs: "ctx_io (new_session fac r') = Some []"
    "ctx_state (new_session fac r') = Some (HConnected ProtocolConnectedHandler_new)"
    "\<not> isKexComplete ProtocolConnectedHandler_new"
    by (simp_all add: new_session_def setIO_def ProtocolContext_new_def ProtocolConnectedHandler_new_def)
  from handshake [OF assms c new_session_wf cs, of a1 a2] show ?thesis
    unfolding append_Nil by (elim exE conjE) (intro exI conjI, assumption+)
qed

text \<open>C8: Client and server agree on the outcome of an authentication: with the key shared and a valid UTF-8 name,
  the frame that \<open>authenticate\<close> sends reaches the session's authenticator as exactly the name and
  credential given; the client returns true, and notes that it is authenticated, if and only if the authenticator
  accepted them, and the session moves to the user handler, to one attempt less or to its end.\<close>

theorem authenticate_verdict:
  assumes "env_ok E L" "cl_io c = Some k" "conn_open k" "io_tx k = [TxRoom n]" "coder_key (cl_coder c) = key"
    "VerifyUtf8 L u" "length u + length p \<le> 60000" "length u + length p + 60 \<le> n"
    "session_wf cs" "ctx_io cs = Some out" "ctx_state cs = Some (HAuth h)" "coder_key (ah_coder h) = key"
  shows "\<exists>f g req c' cs'.
    Client_authenticate E u p (c\<lparr>cl_io := Some (k\<lparr>io_rx := deliver g\<rparr>)\<rparr>) = (Inr (lets_in auth req), c') \<and>
    client_out c' = io_out k @ wire f \<and> hasAuthenticated c' = (lets_in auth req \<or> hasAuthenticated c) \<and>
    ProtocolContext_handleFrame E auth f cs = Inr cs' \<and> ctx_io cs' = Some (out @ [g]) \<and>
    ClientAuthRequest_view req = (ClientAuthRequest_RequestType_AUTH_SUPPLY, Some u, Some p) \<and>
    phase_of (ctx_state cs') = (if lets_in auth req then entry_phase (finalStateFactory cs)
      else if 0 < remainingAttempts h then Authenticating (remainingAttempts h - 1) else Closed) \<and>
    session_wf cs'"
  using authenticate_exchange [OF assms refl, of auth] unfolding hasAuthenticated_def by blast

text \<open>C16: \<open>connect\<close> never reports success without encryption: if it returns true, whatever the server sent, then
  the next frame the client read, after writing its first one, decoded to an \<open>OK\<close> with a 32-byte X25519 key, and
  the client's coder encrypts with the key derived from its own fresh private key and exactly that public key.\<close>

theorem connect_true_encrypts:
  assumes "Client_connect E d c = (Inr True, c')"
  shows "\<exists>k0 resp s. cl_io (snd (connect_sock d c)) = Some k0 \<and> kex_answer E k0 (cl_coder c) resp \<and>
    Agree (dh E) (fst (GenerateKeyPair (dh E) (cl_rng c))) (KexMsg_pkey (ServerConnectedStateResponse_kex resp)) = Some s \<and>
    coder_key (cl_coder c') = Some (TruncatedFinal (dh E) s 32) \<and> is_encr (cl_coder c') \<and> hasConnected c' \<and>
    hasAuthenticated c' = hasAuthenticated c"
proof -
  obtain c0 where c0: "connect_sock d c = (True, c0)"
    using assms by (auto simp: Client_connect_def split: prod.splits bool.splits)
  from connect_status [OF assms this] obtain k0 resp s where *: "isConnected c'" "isAuthenticated c' = isAuthenticated c"
    "cl_io c0 = Some k0" "kex_answer E k0 (cl_coder c) resp"
    "Agree (dh E) (fst (GenerateKeyPair (dh E) (cl_rng c))) (KexMsg_pkey (ServerConnectedStateResponse_kex resp)) = Some s"
    "coder_key (cl_coder c') = Some (TruncatedFinal (dh E) s 32)" by auto
  moreover from *(6) have "is_encr (cl_coder c')" by (cases "cl_coder c'") simp_all
  ultimately show ?thesis using c0 by (auto simp: hasConnected_def hasAuthenticated_def)
qed

text \<open>A failed handshake still counts as a connection: once the socket is connected, \<open>hasConnected\<close> is true
  after \<open>connect\<close> whether it returned true, returned false or threw, and a second \<open>connect\<close> does not dial
  again but talks on over the old socket.\<close>

lemma failed_handshake_stays_connected:
  assumes "fst (connect_sock d c)" "Client_connect E d c = (r, c')"
  shows "hasConnected c' \<and> connect_sock d' c' = (True, c') \<and> Client_destroy c' = Some (cl_fd c')"
proof -
  obtain c0 where "connect_sock d c = (True, c0)" using assms(1) by (metis fst_conv surj_pair)
  from connect_status [OF assms(2) this] show ?thesis
    by (simp add: hasConnected_def connect_sock_def Client_destroy_def)
qed

end
