(* ===== verification/ClientSessions.thy ===== *)
theory ClientSessions
  imports ClientRuns
begin

text \<open>
  A whole conversation, from \<open>connect\<close> to the user's requests, between a client and a server session with
  the test handler. The channel between them delivers every frame whole: the frames of the handshake are
  there when the client dials, each later one arrives when the client waits for it (\<open>receives\<close>).
\<close>

definition receives :: "frame \<Rightarrow> client \<Rightarrow> client" where
  "receives g c = (case cl_io c of None \<Rightarrow> c | Some k \<Rightarrow> c\<lparr>cl_io := Some (k\<lparr>io_rx := deliver g\<rparr>)\<rparr>)"

lemma receives_io: "cl_io c = Some k \<Longrightarrow> receives g c = c\<lparr>cl_io := Some (k\<lparr>io_rx := deliver g\<rparr>)\<rparr>"
  by (simp add: receives_def)

lemma channel_readyE:
  assumes "channel_ready c [] n" "0 < n"
  obtains k where "cl_io c = Some k" "conn_open k" "io_tx k = [TxRoom n]" "client_out c = io_out k"
  using assms by (auto simp: channel_ready_def io_ready_def tx_room_def client_out_def)

lemma password_lets_in:
  assumes "ClientAuthRequest_view req = (t, Some u, Some p)"
  shows "lets_in (Some (addUser u (PasswordAuthentication p) a)) req"
proof -
  have u: "ClientAuthRequest_username req = u"
    using assms by (simp add: ClientAuthRequest_view_def ClientAuthRequest_username_def
        ClientAuthRequest_internal_username_def split: if_splits)
  have "auths_of u (addUser u (PasswordAuthentication p) a) = auths_of u a @ [PasswordAuthentication p]"
    using auths_of_exec [of u "AddUser u (PasswordAuthentication p)" a] by simp
  then show ?thesis
    using assms u
    by (auto simp: lets_in_def authenticate_auths ClientAuthRequest_view_def PasswordAuthentication_verify_def
        ClientAuthRequest_has_authcredential_def ClientAuthRequest_authcredential_def
        ClientAuthRequest_internal_authcredential_def split: if_splits)
qed

section \<open>One reply for each frame\<close>

text \<open>Each frame \<open>f\<close> of the list, handled under the authenticator \<open>a\<close>, is answered with the frame \<open>g\<close>.\<close>

fun answers ::
    "proto_env \<Rightarrow> (authenticator option \<times> frame \<times> frame) list \<Rightarrow> proto_context \<Rightarrow> proto_context \<Rightarrow> bool" where
  "answers E [] x x' \<longleftrightarrow> x' = x"
| "answers E ((a, f, g) # r) x x' \<longleftrightarrow>
     (\<exists>x1 out. ProtocolContext_handleFrame E a f x = Inr x1 \<and> ctx_io x = Some out \<and>
        ctx_io x1 = Some (out @ [g]) \<and> answers E r x1 x')"

lemma answers_append: "answers E (r @ r') x x' \<longleftrightarrow> (\<exists>x1. answers E r x x1 \<and> answers E r' x1 x')"
  by (induction E r x x' rule: answers.induct) auto

lemma answers_run:
  "answers E r x x' \<Longrightarrow> ctx_io x = Some out \<Longrightarrow>
     run_frames E (map (\<lambda>(a, f, g). (a, f)) r) x = Inr x' \<and> ctx_io x' = Some (out @ map (snd \<circ> snd) r)"
  by (induction E r x x' arbitrary: out rule: answers.induct) fastforce+

section \<open>From the dial to the login\<close>

lemma login:
  assumes E: "env_ok E L" and d: "dial_ok d" "d_tx d = [TxRoom n]"
    and up: "VerifyUtf8 L u" "length u + length p \<le> 60000" "length u + length p + 290 \<le> n"
  shows "\<exists>f1 f2 f3 g1 g2 g3 c1 c2 cs key m.
    Client_connect E (d\<lparr>d_rx := deliver g1 @ deliver g2\<rparr>) (Client_new ip port mem r) = (Inr True, c1) \<and>
    Client_authenticate E u p (receives g3 c1) = (Inr True, c2) \<and> isAuthenticated c2 \<and>
    client_out c2 = wire f1 @ wire f2 @ wire f3 \<and> coder_key (cl_coder c2) = Some key \<and>
    channel_ready c2 [] m \<and> n \<le> m + length u + length p + 288 \<and>
    answers E [(a1, f1, g1), (a2, f2, g2), (Some (addUser u (PasswordAuthentication p) a), f3, g3)]
      (new_session fac r') cs \<and>
    phase_of (ctx_state cs) = entry_phase fac \<and>
    (\<forall>h. ctx_state cs = Some (HUser h) \<longrightarrow> coder_key (uh_coder h) = Some key) \<and>
    list_all sound_frame [f1, f2, f3, g1, g2, g3]"
proof -
  let ?c0 = "Client_new ip port mem r" and ?cs0 = "new_session fac r'"
  let ?a = "Some (addUser u (PasswordAuthentication p) a)"
  have c0: "\<not> isConnected ?c0" "coder_key (cl_coder ?c0) = None"
    by (simp_all add: Client_new_def)
  have "\<not> isKexComplete ProtocolConnectedHandler_new"
    by (simp add: ProtocolConnectedHandler_new_def)
  moreover have "230 \<le> n" using up(3) by simp
  ultimately obtain f1 f2 g1 g2 and c1 :: client and cs1 cs0 :: proto_context and h1 :: auth_handler and key where 1:
    "Client_connect E (d\<lparr>d_rx := deliver g1 @ deliver g2\<rparr>) ?c0 = (Inr True, c1)"
    "client_out c1 = wire f1 @ wire f2" "coder_key (cl_coder c1) = Some key"
    "channel_ready c1 [] (n - length (wire f1) - length (wire f2))"
    "run_frames E [(a1, f1), (a2, f2)] ?cs0 = Inr cs1" "ctx_io cs1 = Some [g1, g2]" "ctx_state cs1 = Some (HAuth h1)"
    "coder_key (ah_coder h1) = Some key" "session_wf cs1" "finalStateFactory cs1 = fac"
    "length (wire f1) + length (wire f2) \<le> 230" "ProtocolContext_handleFrame E a1 f1 ?cs0 = Inr cs0"
    "ctx_io cs0 = Some [g1]" "list_all sound_frame [f1, f2, g1, g2]"
    using handshake [OF E d _ c0 new_session_wf [of "fac" r'] new_session_state(5,1),
        where ?a1.0 = a1 and ?a2.0 = a2]
    unfolding new_session_state(4) append_Nil by blast
  have ans: "answers E [(a1, f1, g1), (a2, f2, g2)] ?cs0 cs1"
    using 1(5,6,12,13) by (auto split: sum.splits)
  let ?n1 = "n - length (wire f1) - length (wire f2)"
  have n1: "length u + length p + 60 \<le> ?n1" using 1(11) up(3) by simp
  then have "0 < ?n1" by simp
  from channel_readyE [OF 1(4) this] obtain k1 where k1: "cl_io c1 = Some k1" "conn_open k1"
    "io_tx k1 = [TxRoom ?n1]" "client_out c1 = io_out k1" .
  from authenticate_exchange [OF E k1(1-3) 1(3) up(1,2) n1 1(9,6,7,8,10), of ?a]
  obtain f3 g3 req and c2 :: client and cs2 :: proto_context where 2:
    "Client_authenticate E u p (receives g3 c1) = (Inr (lets_in ?a req), c2)"
    "client_out c2 = io_out k1 @ wire f3" "isAuthenticated c2 = (lets_in ?a req \<or> isAuthenticated c1)"
    "coder_key (cl_coder c2) = Some key" "ProtocolContext_handleFrame E ?a f3 cs1 = Inr cs2"
    "ctx_io cs2 = Some [g1, g2, g3]"
    "ClientAuthRequest_view req = (ClientAuthRequest_RequestType_AUTH_SUPPLY, Some u, Some p)"
    "phase_of (ctx_state cs2) = (if lets_in ?a req then entry_phase fac
       else if 0 < remainingAttempts h1 then Authenticating (remainingAttempts h1 - 1) else Closed)"
    "\<forall>h'. ctx_state cs2 = Some (HUser h') \<longrightarrow> coder_key (uh_coder h') = Some key"
    "channel_ready c2 [] (?n1 - length (wire f3))" "length (wire f3) \<le> length u + length p + 58"
    "list_all sound_frame [f3, g3]"
    unfolding receives_io [OF k1(1)] append_Cons append_Nil by blast
  have yes: "lets_in ?a req" by (rule password_lets_in [OF 2(7)])
  then have phase: "phase_of (ctx_state cs2) = entry_phase fac" using 2(8) by (simp only: if_True)
  have "answers E [(a1, f1, g1), (a2, f2, g2), (?a, f3, g3)] ?cs0 cs2"
    using ans 2(5,6) 1(6) answers_append [of E "[(a1, f1, g1), (a2, f2, g2)]" "[(?a, f3, g3)]" ?cs0 cs2] by auto
  moreover have "n \<le> ?n1 - length (wire f3) + length u + length p + 288"
    using 1(11) 2(11) by simp
  moreover have "list_all sound_frame [f1, f2, f3, g1, g2, g3]"
    using 1(14) 2(12) by simp
  ultimately show ?thesis
  proof (intro exI conjI)
    show "Client_authenticate E u p (receives g3 c1) = (Inr True, c2)" "isAuthenticated c2"
      using 2(1,3) yes by simp_all
    show "client_out c2 = wire f1 @ wire f2 @ wire f3"
      using 1(2) 2(2) k1(4) by simp
  qed (rule 1(1) 2(4) 2(9) 2(10) phase | assumption)+
qed

text \<open>Login and one request of the user.\<close>

lemma client_served:
  assumes "env_ok E L" "dial_ok d" "d_tx d = [TxRoom n]" "VerifyUtf8 L u" "VerifyUtf8 L s" "VerifyUtf8 L (echo s)"
    "length u + length p \<le> 60000" "length s \<le> 60000" "length u + length p + length s + 350 \<le> n"
  shows "\<exists>f1 f2 f3 f4 g1 g2 g3 g4 c1 c2 c3 resp cs.
    Client_connect E (d\<lparr>d_rx := deliver g1 @ deliver g2\<rparr>) (Client_new ip port mem r) = (Inr True, c1) \<and>
    Client_authenticate E u p (receives g3 c1) = (Inr True, c2) \<and> isAuthenticated c2 \<and>
    fetchRequest (gcm E) (lt_ureq E) (lt_uresp E) (UserRequest_set_msg s UserRequest_new) ServerResponse_new
      (receives g4 c2) = (Inr True, resp, c3) \<and> ServerResponse_msg resp = echo s \<and>
    client_out c3 = wire f1 @ wire f2 @ wire f3 @ wire f4 \<and>
    answers E [(a1, f1, g1), (a2, f2, g2), (Some (addUser u (PasswordAuthentication p) a), f3, g3), (a4, f4, g4)]
      (new_session (Some TestUserHandlerFactory) r') cs \<and> isActive cs \<and>
    list_all sound_frame [f1, f2, f3, f4, g1, g2, g3, g4]"
proof -
  let ?a = "Some (addUser u (PasswordAuthentication p) a)" and ?cs0 = "new_session (Some TestUserHandlerFactory) r'"
  have "length u + length p + 290 \<le> n" using assms(9) by simp
  from login [OF assms(1-4,7) this, of ip port mem r a1 a2 a "Some TestUserHandlerFactory" r']
  obtain f1 f2 f3 g1 g2 g3 and c1 c2 :: client and cs :: proto_context and key n' where 0:
    "phase_of (ctx_state cs) = Serving" "\<forall>h. ctx_state cs = Some (HUser h) \<longrightarrow> coder_key (uh_coder h) = Some key" and 1:
    "Client_connect E (d\<lparr>d_rx := deliver g1 @ deliver g2\<rparr>) (Client_new ip port mem r) = (Inr True, c1)"
    "Client_authenticate E u p (receives g3 c1) = (Inr True, c2)" "isAuthenticated c2"
    "client_out c2 = wire f1 @ wire f2 @ wire f3" "coder_key (cl_coder c2) = Some key"
    "channel_ready c2 [] n'" "n \<le> n' + length u + length p + 288"
    "answers E [(a1, f1, g1), (a2, f2, g2), (?a, f3, g3)] ?cs0 cs"
    "list_all sound_frame [f1, f2, f3, g1, g2, g3]"
    unfolding entry_phase.simps by blast
  from 0 obtain h where h: "ctx_state cs = Some (HUser h)" "coder_key (uh_coder h) = Some key" by auto
  have io: "ctx_io cs = Some [g1, g2, g3]"
    using answers_run [OF 1(8), of "[]"] by simp
  have room: "length s + 60 \<le> n'" using 1(7) assms(9) by simp
  then have "0 < n'" by simp
  from channel_readyE [OF 1(6) this] obtain k where k: "cl_io c2 = Some k" "conn_open k"
    "io_tx k = [TxRoom n']" "client_out c2 = io_out k" .
  let ?m = "UserRequest_set_msg s UserRequest_new"
  have m: "ur_msg ?m = s" "ur_unknown ?m = []"
    by (simp_all add: UserRequest_set_msg_def UserRequest_new_def)
  from echo_exchange [OF assms(1) k(1-3) 1(5) m assms(5,6,8) room io h, of ServerResponse_new a4]
  obtain f4 g4 resp and c3 :: client and cs' :: proto_context and h' :: user_handler where 2:
    "fetchRequest (gcm E) (lt_ureq E) (lt_uresp E) ?m ServerResponse_new (receives g4 c2) = (Inr True, resp, c3)"
    "ServerResponse_msg resp = echo s" "client_out c3 = io_out k @ wire f4"
    "ProtocolContext_handleFrame E a4 f4 cs = Inr cs'" "ctx_io cs' = Some [g1, g2, g3, g4]"
    "ctx_state cs' = Some (HUser h')" "list_all sound_frame [f4, g4]"
    unfolding receives_io [OF k(1)] append_Cons append_Nil by blast
  have "answers E [(a1, f1, g1), (a2, f2, g2), (?a, f3, g3), (a4, f4, g4)] ?cs0 cs'"
    using 1(8) 2(4,5) io answers_append [of E "[(a1, f1, g1), (a2, f2, g2), (?a, f3, g3)]" "[(a4, f4, g4)]" ?cs0 cs']
    by auto
  moreover have "list_all sound_frame [f1, f2, f3, f4, g1, g2, g3, g4]"
    using 1(9) 2(7) by simp
  ultimately show ?thesis
  proof (intro exI conjI)
    show "client_out c3 = wire f1 @ wire f2 @ wire f3 @ wire f4" using 1(4) 2(3) k(4) by simp
    show "isActive cs'" using 2(6) by (simp add: isActive_def)
  qed (rule 1(1-3) 2(1,2) | assumption)+
qed

end
