(* ===== verification/ServerServes.thy ===== *)
theory ServerServes
  imports ServerRuns ClientSessions SessionSinks
begin

text \<open>
  The components put together: a frame that arrives at an idle connection goes through the reader, the queue, the
  worker and its session, the queue of responses and the writer, and the replies of the session are on the
  socket. With the client of \<open>ClientSessions\<close> at the other end this follows a conversation through both programs.
\<close>

section \<open>A quiet server\<close>

text \<open>
  Nothing is queued or announced, the worker is at the test of its loop, and the connection \<open>fd\<close> with the
  session \<open>x\<close> is between two frames in both directions.
\<close>

definition conn_idle :: "int \<Rightarrow> conn_ctx \<Rightarrow> bool" where
  "conn_idle fd c \<longleftrightarrow>
     conn_ok fd c \<and> fm_state (cc_framer c) = RX_HEADER \<and> \<not> isReadEof (cc_framer c) \<and>
     \<not> writeInProgress (cc_deframer c)"

definition quiet :: "server \<Rightarrow> bool" where
  "quiet s \<longleftrightarrow>
     (\<exists>w. worker s = Some w \<and> runnerThread w = Some AtTest \<and> \<not> shouldStop w) \<and>
     wq_items (wqIn s) = [] \<and> itemLimit (wqIn s) = 0 \<and> wq_items (wqOut s) = [] \<and> itemLimit (wqOut s) = 0 \<and>
     k_count s = 0 \<and> eventFdOut s \<noteq> srv_fd s"

definition serving :: "server \<Rightarrow> int \<Rightarrow> proto_context \<Rightarrow> bool" where
  "serving s fd x \<longleftrightarrow>
     quiet s \<and> (\<exists>c. fdInfoTable s fd = Some c \<and> conn_idle fd c) \<and> session s fd = Some x \<and>
     fd \<noteq> srv_fd s \<and> fd \<noteq> eventFdOut s"

section \<open>Reading\<close>

lemma tryRecv_no_eof:
  "PFramer_tryRecv n f s = (r, f', s') \<Longrightarrow> rx_pure s \<Longrightarrow> \<not> readEOF f \<Longrightarrow> rx_pure s' \<and> \<not> readEOF f'"
proof -
  have "sys_recv n s = (RecvGot bs, s') \<Longrightarrow> rx_pure s \<Longrightarrow> bs \<noteq> [] \<and> rx_pure s'" if "n \<noteq> 0" for bs s'
    using that by (induction n s rule: sys_recv.induct) (auto split: if_splits)
  moreover have "sys_recv n s = (RecvFail e, s') \<Longrightarrow> rx_pure s \<Longrightarrow> rx_pure s'" for e s'
    by (induction n s rule: sys_recv.induct) (auto split: if_splits)
  ultimately show "PFramer_tryRecv n f s = (r, f', s') \<Longrightarrow> rx_pure s \<Longrightarrow> \<not> readEOF f \<Longrightarrow> ?thesis"
    by (fastforce simp: PFramer_tryRecv_def split: if_splits prod.splits recv_result.splits)
qed

lemma tryRead_no_eof:
  "PFramer_tryRead f q s = (r, f', q', s') \<Longrightarrow> rx_pure s \<Longrightarrow> \<not> readEOF f \<Longrightarrow> rx_pure s' \<and> \<not> readEOF f'"
  by (auto simp: PFramer_tryRead_def PFramer_rxHeader_def PFramer_rxLen_def PFramer_rxMsg_def Let_def
      PFramer_allocMsg_def PFramer_pushFrame_def PFramer_reset_def
      split: rx_state.splits prod.splits sum.splits if_splits list.splits dest!: tryRecv_no_eof)

lemma readAll_no_eof:
  "PFramer_readAll f q s = (r, f', q', s') \<Longrightarrow> rx_pure s \<Longrightarrow> \<not> readEOF f \<Longrightarrow> \<not> readEOF f'"
proof (induction f q s arbitrary: r f' q' s' rule: readAll_induct)
  case (Step f q s)
  obtain r1 f1 q1 s1 where t: "PFramer_tryRead f q s = (r1, f1, q1, s1)" by (metis prod_cases4)
  note n = tryRead_no_eof [OF t Step.prems(2,3)]
  consider "r1 = Inr True" | "r1 = Inr False" | e where "r1 = Inl e" by (cases r1) auto
  then show ?case
  proof cases
    case 1
    with t Step.prems(1) have "PFramer_readAll f1 q1 s1 = (r, f', q', s')"
      by (simp add: readAll_unfold)
    with Step.IH [OF t [unfolded 1]] n show ?thesis by blast
  qed (use t n Step.prems(1) in \<open>auto simp: readAll_unfold\<close>)
qed

text \<open>A readable event with whole frames: they are queued, and nothing else happens.\<close>

definition delivers :: "int \<Rightarrow> frame list \<Rightarrow> epoll_event \<Rightarrow> bool" where
  "delivers fd gs ev \<longleftrightarrow>
     ev_fd ev = fd \<and> ev_in ev \<and> \<not> ev_out ev \<and> \<not> ev_err ev \<and> \<not> ev_hup ev \<and>
     rx_pure (ev_rx ev) \<and> rx_data (ev_rx ev) = wires gs \<and> unsplit gs (wires gs) (ev_rx ev)"

lemma event_queues_frames:
  assumes "fdInfoTable s fd = Some c" "conn_idle fd c" "list_all frame_ok gs" "delivers fd gs ev"
    "fd \<noteq> srv_fd s" "fd \<noteq> eventFdOut s"
  shows "\<exists>c'. conn_idle fd c' \<and> handle_event ev s =
    Inr (s\<lparr>wqIn := fold pushItem (map (Pair fd) gs) (wqIn s), fdInfoTable := (fdInfoTable s)(fd \<mapsto> c')\<rparr>)"
proof -
  let ?f = "cc_framer c"
  have f: "fm_fd ?f = fd" "fm_state ?f = RX_HEADER" "\<not> readEOF ?f" "\<not> rxd_dynamic ?f" "cc_fd c = fd"
    using assms(2) by (auto simp: conn_idle_def conn_ok_def isReadEof_def framer_wf_def)
  have ev: "rx_pure (ev_rx ev)" "rx_data (ev_rx ev) = wires gs" "unsplit gs (wires gs) (ev_rx ev)"
    using assms(4) by (simp_all add: delivers_def)
  have "awaiting ?f gs (rx_data (ev_rx ev) @ [])"
    using f ev(2) by (simp add: awaiting_def)
  from readAll_stream [OF this assms(3) ev(1), of "wqIn s"] ev(2,3) f(1) obtain f' ds gs' where r:
    "PFramer_readAll ?f (wqIn s) (ev_rx ev) = (Inr (), f', fold pushItem (map (Pair fd) ds) (wqIn s), [])"
    "gs = ds @ gs'" "awaiting f' gs' []" "fm_fd f' = fd" by auto
  from awaiting_Nil_frames [OF r(3)] have e: "ds = gs" "fm_state f' = RX_HEADER" using r(2) by simp_all
  have eof: "\<not> isReadEof f'"
    using readAll_no_eof [OF r(1) ev(1) f(3)] by (simp add: isReadEof_def)
  have "\<not> rxd_dynamic f'" using r(3) e(2) by (simp add: awaiting_def)
  with e(2) eof r(4) assms(2) have "conn_idle fd (c\<lparr>cc_framer := f'\<rparr>)"
    by (simp add: conn_idle_def conn_ok_def framer_wf_def)
  moreover have "handle_event ev s = Inr (s\<lparr>wqIn := fold pushItem (map (Pair fd) gs) (wqIn s),
      fdInfoTable := (fdInfoTable s)(fd \<mapsto> c\<lparr>cc_framer := f'\<rparr>)\<rparr>)"
    using assms(1,4-6) r(1) e(1) eof
    by (simp add: delivers_def handle_event_def client_event_def client_ready_def handleDataIn_def)
  ultimately show ?thesis by blast
qed

section \<open>The worker's rounds\<close>

lemma server_run_append:
  "server_run E s as s1 \<Longrightarrow> server_run E s1 bs s2 \<Longrightarrow> server_run E s (as @ bs) s2"
  by (induction rule: server_run.induct) (auto intro: server_run.intros)

lemma server_run_one: "server_exec E a s = Inr s' \<Longrightarrow> server_run E s [a] s'"
  by (rule srv_step [OF _ srv_nil])

text \<open>Three steps to the next item.\<close>

lemma worker_fetch:
  assumes "worker s = Some w" "runnerThread w = Some AtTest" "\<not> shouldStop w" "wq_items (wqIn s) = itm # rest"
  shows "server_run E s (replicate 3 WorkerStep)
    (s\<lparr>wqIn := (wqIn s)\<lparr>fetchCancelled := False, wq_items := rest\<rparr>,
       worker := Some (w\<lparr>runnerThread := Some (Processing itm)\<rparr>)\<rparr>)"
proof -
  let ?q = "(wqIn s)\<lparr>fetchCancelled := False\<rparr>"
  let ?s1 = "s\<lparr>worker := Some (w\<lparr>runnerThread := Some AtFetch\<rparr>)\<rparr>"
  let ?s2 = "s\<lparr>wqIn := ?q, worker := Some (w\<lparr>runnerThread := Some InWait\<rparr>)\<rparr>"
  have "worker_step E s = Inr ?s1"
    using assms(1-3) by (simp add: worker_step_def set_pc_def)
  moreover have "worker_step E ?s1 = Inr ?s2"
    by (simp add: worker_step_def set_pc_def fetchBlocking_enter_def)
  moreover have "worker_step E ?s2 = Inr (s\<lparr>wqIn := ?q\<lparr>wq_items := rest\<rparr>,
      worker := Some (w\<lparr>runnerThread := Some (Processing itm)\<rparr>)\<rparr>)"
    using assms(4) by (simp add: worker_step_def set_pc_def fetchBlocking_wake_def)
  ultimately show ?thesis
    by (simp add: numeral_eq_Suc) (auto intro!: server_run.intros)
qed

text \<open>A fourth one for an item whose session stays active.\<close>

lemma worker_round:
  assumes "worker s = Some w" "runnerThread w = Some AtTest" "\<not> shouldStop w"
    "wq_items (wqIn s) = (fd, f) # rest" "handlerTable w fd = Some x" "isActive x"
    "ProtocolContext_handleFrame E (srv_auth s) f x = Inr x'" "isActive x'" "ctx_io x' = Some ws"
    "sink_frames fd ws (wqOut s, k_count s) = (q, n)"
  shows "server_run E s (replicate 4 WorkerStep)
    (s\<lparr>wqIn := (wqIn s)\<lparr>fetchCancelled := False, wq_items := rest\<rparr>, wqOut := q, k_count := n,
       worker := Some (w\<lparr>handlerTable := (handlerTable w)(fd \<mapsto> setIO (Some []) x')\<rparr>)\<rparr>)"
proof -
  let ?q = "(wqIn s)\<lparr>fetchCancelled := False\<rparr>"
  let ?s3 = "s\<lparr>wqIn := ?q\<lparr>wq_items := rest\<rparr>, worker := Some (w\<lparr>runnerThread := Some (Processing (fd, f))\<rparr>)\<rparr>"
  let ?s4 = "s\<lparr>wqIn := ?q\<lparr>wq_items := rest\<rparr>, wqOut := q, k_count := n,
    worker := Some (w\<lparr>handlerTable := (handlerTable w)(fd \<mapsto> setIO (Some []) x')\<rparr>)\<rparr>"
  have "w\<lparr>runnerThread := Some AtTest\<rparr> = w"
    using assms(2) by (cases w) simp
  then have "worker_step E ?s3 = Inr ?s4"
    using assms(1,5-10) by (simp add: worker_step_def worker_process_def set_pc_def getAuthenticator_def)
      (cases w; simp)
  then have "server_run E ?s3 [WorkerStep] ?s4" by (intro server_run_one) simp
  from server_run_append [OF worker_fetch [OF assms(1-4)] this]
  show ?thesis by (simp add: numeral_eq_Suc)
qed

lemma worker_serves:
  assumes "worker s = Some w" "runnerThread w = Some AtTest" "\<not> shouldStop w"
    "wq_items (wqIn s) = map (Pair fd) fs" "handlerTable w fd = Some x" "isActive x"
    "session_serves E (srv_auth s) fs x = Some (ws, x')" "itemLimit (wqOut s) = 0"
    "k_count s + length ws \<le> eventfd_max"
  shows "\<exists>q q'. server_run E s (replicate (4 * length fs) WorkerStep)
      (s\<lparr>wqIn := q, wqOut := q', k_count := k_count s + length ws,
         worker := Some (w\<lparr>handlerTable := (handlerTable w)(fd \<mapsto> x')\<rparr>)\<rparr>) \<and>
    wq_items q = [] \<and> itemLimit q = itemLimit (wqIn s) \<and>
    wq_items q' = wq_items (wqOut s) @ map (Pair fd) ws \<and> itemLimit q' = 0"
  using assms
proof (induction fs arbitrary: s w x ws)
  case Nil
  then have eq: "s\<lparr>wqIn := wqIn s, wqOut := wqOut s, k_count := k_count s + length ws,
      worker := Some (w\<lparr>handlerTable := (handlerTable w)(fd \<mapsto> x')\<rparr>)\<rparr> = s"
    by (simp add: map_upd_triv)
  show ?case
    by (rule exI [of _ "wqIn s"], rule exI [of _ "wqOut s"], unfold eq) (use Nil in \<open>simp add: srv_nil\<close>)
next
  case (Cons f fs)
  from Cons.prems(7) obtain x1 vs us where h: "ProtocolContext_handleFrame E (srv_auth s) f x = Inr x1"
    "ctx_io x1 = Some vs" "isActive x1" "session_serves E (srv_auth s) fs (setIO (Some []) x1) = Some (us, x')"
    "ws = vs @ us"
    by (auto split: sum.splits option.splits if_splits)
  obtain q1 n1 where qn: "sink_frames fd vs (wqOut s, k_count s) = (q1, n1)" by fastforce
  have q1: "wq_items q1 = wq_items (wqOut s) @ map (Pair fd) vs" "itemLimit q1 = 0" "n1 = k_count s + length vs"
    using sink_frames_queue [of fd vs "wqOut s" "k_count s"] fold_pushItem_unlimited [OF Cons.prems(8)]
      sink_frames_notifies [of "k_count s" vs fd "wqOut s"] qn Cons.prems(8,9) h(5) by simp_all
  have items: "wq_items (wqIn s) = (fd, f) # map (Pair fd) fs" using Cons.prems(4) by simp
  let ?w1 = "w\<lparr>handlerTable := (handlerTable w)(fd \<mapsto> setIO (Some []) x1)\<rparr>"
  let ?s1 = "s\<lparr>wqIn := (wqIn s)\<lparr>fetchCancelled := False, wq_items := map (Pair fd) fs\<rparr>, wqOut := q1, k_count := n1,
       worker := Some ?w1\<rparr>"
  have r: "server_run E s (replicate 4 WorkerStep) ?s1"
    by (rule worker_round [OF Cons.prems(1-3) items Cons.prems(5,6) h(1,3,2) qn])
  have "\<exists>q q'. server_run E ?s1 (replicate (4 * length fs) WorkerStep)
      (?s1\<lparr>wqIn := q, wqOut := q', k_count := k_count ?s1 + length us,
         worker := Some (?w1\<lparr>handlerTable := (handlerTable ?w1)(fd \<mapsto> x')\<rparr>)\<rparr>) \<and>
    wq_items q = [] \<and> itemLimit q = itemLimit (wqIn ?s1) \<and>
    wq_items q' = wq_items (wqOut ?s1) @ map (Pair fd) us \<and> itemLimit q' = 0"
    by (rule Cons.IH [where x = "setIO (Some []) x1"]) (use Cons.prems(2,3,9) q1 h(3-5) in simp_all)
  then obtain q q' where ih: "server_run E ?s1 (replicate (4 * length fs) WorkerStep)
      (?s1\<lparr>wqIn := q, wqOut := q', k_count := k_count ?s1 + length us,
         worker := Some (?w1\<lparr>handlerTable := (handlerTable ?w1)(fd \<mapsto> x')\<rparr>)\<rparr>)" (is "server_run _ _ _ ?s2")
    "wq_items q = []" "itemLimit q = itemLimit (wqIn ?s1)"
    "wq_items q' = wq_items (wqOut ?s1) @ map (Pair fd) us" "itemLimit q' = 0"
    by blast
  have eq: "s\<lparr>wqIn := q, wqOut := q', k_count := k_count s + length ws,
      worker := Some (w\<lparr>handlerTable := (handlerTable w)(fd \<mapsto> x')\<rparr>)\<rparr> = ?s2"
    using q1(3) h(5) by simp
  have acts: "replicate (4 * length (f # fs)) WorkerStep =
      replicate 4 WorkerStep @ replicate (4 * length fs) WorkerStep"
    by (simp add: replicate_add [symmetric])
  show ?case
    by (rule exI [of _ q], rule exI [of _ q'], unfold eq acts)
      (use server_run_append [OF r ih(1)] ih(2-5) q1(1) h(5) in simp)
qed

section \<open>Writing\<close>

text \<open>A notification, with room for the frame in the socket it will be written to.\<close>

definition announces :: "server \<Rightarrow> epoll_event \<Rightarrow> frame \<Rightarrow> bool" where
  "announces s ev g \<longleftrightarrow> ev_fd ev = eventFdOut s \<and> (\<exists>n. ev_tx ev = [TxRoom n] \<and> length (wire g) \<le> n)"

lemma notifications_send:
  assumes "wq_items (wqOut s) = map (Pair fd) ws" "k_count s = length ws" "fdInfoTable s fd = Some c" "conn_idle fd c"
    "list_all frame_wf ws" "list_all2 (announces s) outs ws" "eventFdOut s \<noteq> srv_fd s"
  shows "\<exists>c' q. conn_idle fd c' \<and> wq_items q = [] \<and> itemLimit q = itemLimit (wqOut s) \<and>
    server_run E s (map LoopEvent outs)
      (s\<lparr>wqOut := q, k_count := 0, fdInfoTable := (fdInfoTable s)(fd \<mapsto> c'),
         k_sent := (k_sent s)(fd := k_sent s fd @ wires ws)\<rparr>)"
  using assms
proof (induction ws arbitrary: s c outs)
  case Nil
  then have eq: "s\<lparr>wqOut := wqOut s, k_count := 0, fdInfoTable := (fdInfoTable s)(fd \<mapsto> c),
      k_sent := (k_sent s)(fd := k_sent s fd @ wires [])\<rparr> = s"
    by (simp add: map_upd_triv)
  show ?case
    by (rule exI [of _ c], rule exI [of _ "wqOut s"], unfold eq) (use Nil in \<open>simp add: srv_nil\<close>)
next
  case (Cons g ws)
  from Cons.prems(6) obtain ev evs where ev: "outs = ev # evs" "announces s ev g" "list_all2 (announces s) evs ws"
    by (auto simp: list_all2_Cons2)
  then obtain n where n: "ev_fd ev = eventFdOut s" "ev_tx ev = [TxRoom n]" "length (wire g) \<le> n"
    by (auto simp: announces_def)
  let ?s0 = "s\<lparr>k_count := length ws\<rparr>"
  from handleDataOut_sends [of ?s0 fd g "map (Pair fd) ws" c "ev_tx ev" n] Cons.prems(1,3-5) n
  obtain c1 where c1: "handleDataOut (ev_tx ev) ?s0 = Inr (?s0\<lparr>wqOut := (wqOut s)\<lparr>wq_items := map (Pair fd) ws\<rparr>,
      fdInfoTable := (fdInfoTable s)(fd \<mapsto> c1), k_sent := (k_sent s)(fd := k_sent s fd @ wire g)\<rparr>)"
    "\<not> writeInProgress (cc_deframer c1)" "cc_framer c1 = cc_framer c" "cc_fd c1 = cc_fd c"
    by (auto simp: conn_idle_def)
  let ?s1 = "?s0\<lparr>wqOut := (wqOut s)\<lparr>wq_items := map (Pair fd) ws\<rparr>,
      fdInfoTable := (fdInfoTable s)(fd \<mapsto> c1), k_sent := (k_sent s)(fd := k_sent s fd @ wire g)\<rparr>"
  have 1: "server_exec E (LoopEvent ev) s = Inr ?s1"
    using n(1) Cons.prems(2,7) c1(1) by (simp add: handle_event_def eventfd_read_def)
  have idle: "conn_idle fd c1"
    using c1(2-4) Cons.prems(4) by (simp add: conn_idle_def conn_ok_def)
  have evs: "list_all2 (announces ?s1) evs ws"
    using ev(3) by (simp add: announces_def [abs_def])
  have "\<exists>c' q. conn_idle fd c' \<and> wq_items q = [] \<and> itemLimit q = itemLimit (wqOut ?s1) \<and>
    server_run E ?s1 (map LoopEvent evs)
      (?s1\<lparr>wqOut := q, k_count := 0, fdInfoTable := (fdInfoTable ?s1)(fd \<mapsto> c'),
         k_sent := (k_sent ?s1)(fd := k_sent ?s1 fd @ wires ws)\<rparr>)"
    by (rule Cons.IH [OF _ _ _ idle _ evs]) (use Cons.prems(5,7) in simp_all)
  then obtain c' q where ih: "conn_idle fd c'" "wq_items q = []" "itemLimit q = itemLimit (wqOut ?s1)"
    "server_run E ?s1 (map LoopEvent evs)
      (?s1\<lparr>wqOut := q, k_count := 0, fdInfoTable := (fdInfoTable ?s1)(fd \<mapsto> c'),
         k_sent := (k_sent ?s1)(fd := k_sent ?s1 fd @ wires ws)\<rparr>)" (is "server_run _ _ _ ?s2")
    by blast
  have eq: "s\<lparr>wqOut := q, k_count := 0, fdInfoTable := (fdInfoTable s)(fd \<mapsto> c'),
      k_sent := (k_sent s)(fd := k_sent s fd @ wires (g # ws))\<rparr> = ?s2"
    by simp
  show ?case
    by (rule exI [of _ c'], rule exI [of _ q], unfold eq ev(1)) (use srv_step [OF 1 ih(4)] ih(1-3) in simp)
qed

section \<open>Frames in, replies out\<close>

definition serve_actions :: "epoll_event \<Rightarrow> frame list \<Rightarrow> epoll_event list \<Rightarrow> action list" where
  "serve_actions ev fs outs = LoopEvent ev # replicate (4 * length fs) WorkerStep @ map LoopEvent outs"

lemma serves:
  assumes "serving s fd x" "isActive x" "session_serves E (srv_auth s) fs x = Some (ws, x')"
    "list_all frame_ok fs" "list_all frame_wf ws" "delivers fd fs ev" "list_all2 (announces s) outs ws"
    "length ws \<le> eventfd_max"
  shows "\<exists>s'. server_run E s (serve_actions ev fs outs) s' \<and> serving s' fd x' \<and>
    k_sent s' = (k_sent s)(fd := k_sent s fd @ wires ws) \<and> srv_auth s' = srv_auth s \<and>
    eventFdOut s' = eventFdOut s \<and> srv_fd s' = srv_fd s \<and>
    (\<forall>g. g \<noteq> fd \<longrightarrow> fdInfoTable s' g = fdInfoTable s g \<and> session s' g = session s g)"
proof -
  from assms(1) obtain c w where s: "fdInfoTable s fd = Some c" "conn_idle fd c" "worker s = Some w"
    "runnerThread w = Some AtTest" "\<not> shouldStop w" "handlerTable w fd = Some x" "wq_items (wqIn s) = []"
    "itemLimit (wqIn s) = 0" "wq_items (wqOut s) = []" "itemLimit (wqOut s) = 0" "k_count s = 0"
    "eventFdOut s \<noteq> srv_fd s" "fd \<noteq> srv_fd s" "fd \<noteq> eventFdOut s"
    by (auto simp: serving_def quiet_def session_def)
  from event_queues_frames [OF s(1,2) assms(4,6) s(13,14)] obtain c1 where c1: "conn_idle fd c1"
    "handle_event ev s = Inr (s\<lparr>wqIn := fold pushItem (map (Pair fd) fs) (wqIn s), fdInfoTable := (fdInfoTable s)(fd \<mapsto> c1)\<rparr>)"
    by blast
  let ?s1 = "s\<lparr>wqIn := fold pushItem (map (Pair fd) fs) (wqIn s), fdInfoTable := (fdInfoTable s)(fd \<mapsto> c1)\<rparr>"
  have "wq_items (wqIn ?s1) = map (Pair fd) fs"
    using fold_pushItem_unlimited [OF s(8)] s(7) by simp
  from worker_serves [of ?s1 w fd fs x E ws x', OF _ s(4,5) this s(6) assms(2)] assms(3,8) s(3,10,11)
  obtain q q' where 2: "server_run E ?s1 (replicate (4 * length fs) WorkerStep)
      (?s1\<lparr>wqIn := q, wqOut := q', k_count := length ws, worker := Some (w\<lparr>handlerTable := (handlerTable w)(fd \<mapsto> x')\<rparr>)\<rparr>)"
    "wq_items q = []" "itemLimit q = 0" "wq_items q' = map (Pair fd) ws" "itemLimit q' = 0"
    using s(8,9) by auto
  let ?s2 = "?s1\<lparr>wqIn := q, wqOut := q', k_count := length ws,
    worker := Some (w\<lparr>handlerTable := (handlerTable w)(fd \<mapsto> x')\<rparr>)\<rparr>"
  have "list_all2 (announces ?s2) outs ws"
    using assms(7) by (simp add: announces_def [abs_def])
  from notifications_send [of ?s2 fd ws c1 outs E, OF _ _ _ c1(1) assms(5) this] 2(4,5) s(12)
  obtain c2 q2 where 3: "conn_idle fd c2" "wq_items q2 = []" "itemLimit q2 = 0"
    "server_run E ?s2 (map LoopEvent outs) (?s2\<lparr>wqOut := q2, k_count := 0, fdInfoTable := (fdInfoTable ?s2)(fd \<mapsto> c2),
       k_sent := (k_sent ?s2)(fd := k_sent ?s2 fd @ wires ws)\<rparr>)"
    by auto
  let ?s3 = "?s2\<lparr>wqOut := q2, k_count := 0, fdInfoTable := (fdInfoTable ?s2)(fd \<mapsto> c2),
       k_sent := (k_sent ?s2)(fd := k_sent ?s2 fd @ wires ws)\<rparr>"
  have "server_run E s (serve_actions ev fs outs) ?s3"
    using srv_step [of E "LoopEvent ev" s ?s1, OF _ server_run_append [OF 2(1) 3(4)]] c1(2)
    by (simp add: serve_actions_def)
  moreover have "serving ?s3 fd x'"
    using s 2(2,3) 3(1-3) by (simp add: serving_def quiet_def session_def)
  moreover have "\<forall>g. g \<noteq> fd \<longrightarrow> fdInfoTable ?s3 g = fdInfoTable s g \<and> session ?s3 g = session s g"
    using s(3) by (simp add: session_def)
  ultimately show ?thesis
    by (intro exI [of _ ?s3]) simp
qed

section \<open>A new client\<close>

lemma accepted_serving:
  assumes "quiet s" "worker s = Some w" "fdInfoTable s fd = None" "session s fd = None"
    "fd \<noteq> srv_fd s" "fd \<noteq> eventFdOut s" "ac_fd a = fd"
    "ev_fd ev = srv_fd s" "ev_in ev" "\<not> ev_err ev" "ev_accept ev = AcceptOk a"
  shows "\<exists>s'. handle_event ev s = Inr s' \<and> serving s' fd (new_session (worker_factory w) (ac_seed a)) \<and>
    k_sent s' fd = [] \<and> srv_auth s' = srv_auth s \<and> eventFdOut s' = eventFdOut s \<and> srv_fd s' = srv_fd s"
proof -
  let ?c = "ConnectionContext_new fd (ac_addr a) (ac_fill a)"
  have c: "conn_idle fd ?c"
    by (simp add: conn_idle_def conn_ok_def ConnectionContext_new_def PFramer_new_def PFramer_reset_def framer_wf_def
        isReadEof_def PDeframer_new_def PDeframer_resetAll_def PDeframer_resetState_def)
  have "handlerTable w fd = None" using assms(2,4) by (simp add: session_def)
  then have t: "handlerTable (createContext fd (ac_seed a) w) fd = Some (new_session (worker_factory w) (ac_seed a))"
    by (simp add: createContext_table)
  have "shouldStop (createContext fd (ac_seed a) w) = shouldStop w"
    by (simp add: createContext_def Let_def split: option.split)
  with assms c t show ?thesis
    by (auto simp: handle_event_def acceptClient_def createHandler_conn_def Let_def split_beta epollAddClient_def
        k_close_def serving_def quiet_def session_def createContext_pc)
qed

section \<open>A conversation\<close>

text \<open>One frame arrives, the worker handles it, and the loop sends the reply.\<close>

definition turn :: "epoll_event \<Rightarrow> epoll_event \<Rightarrow> action list" where
  "turn ev out = LoopEvent ev # replicate 4 WorkerStep @ [LoopEvent out]"

lemma serve_actions_turn: "serve_actions ev [f] [out] = turn ev out"
  by (simp add: serve_actions_def turn_def)

lemma answers_active: "answers E r x x' \<Longrightarrow> isActive x' \<Longrightarrow> isActive x"
proof (induction E r x x' rule: answers.induct)
  case (2 E a f g r x x')
  from 2(2) obtain x1 out where x1: "ProtocolContext_handleFrame E a f x = Inr x1" "ctx_io x = Some out"
    "ctx_io x1 = Some (out @ [g])" "answers E r x1 x'" by auto
  show ?case
  proof (rule ccontr)
    assume "\<not> isActive x"
    then have "x1 = x" using x1(1) by (simp add: isActive_def ProtocolContext_handleFrame_def)
    with x1(2,3) show False by simp
  qed
qed simp

lemma answers_serves:
  assumes "ProtocolContext_handleFrame E a f x = Inr x1" "ctx_io x = Some out" "ctx_io x1 = Some (out @ [g])" "isActive x1"
  shows "session_serves E a [f] (setIO (Some []) x) = Some ([g], setIO (Some []) x1)"
proof -
  let ?x = "setIO (Some []) x"
  have "x = shift_io out ?x"
    using assms(2) by (simp add: shift_io_def setIO_def)
  with handleFrame_shift [of E a f out ?x] assms(1)
  have "map_sum id (shift_io out) (ProtocolContext_handleFrame E a f ?x) = Inr x1" by simp
  then obtain y where y: "ProtocolContext_handleFrame E a f ?x = Inr y" "x1 = shift_io out y"
    by (cases "ProtocolContext_handleFrame E a f ?x") auto
  moreover have "ctx_io y = Some [g]" "isActive y"
    using assms(3,4) y(2) by (auto simp: isActive_def)
  ultimately show ?thesis
    by (simp add: setIO_def shift_io_def)
qed

lemma conversation_serves:
  assumes "answers E (map2 (\<lambda>f g. (srv_auth s, f, g)) fs gs) x x'" "length fs = length gs" "isActive x'"
    "serving s fd (setIO (Some []) x)" "list_all sound_frame fs" "list_all sound_frame gs"
    "list_all2 (\<lambda>ev f. delivers fd [f] ev) ins fs" "list_all2 (announces s) outs gs"
  shows "\<exists>s'. server_run E s (concat (map2 turn ins outs)) s' \<and> serving s' fd (setIO (Some []) x') \<and>
    k_sent s' fd = k_sent s fd @ wires gs \<and> srv_auth s' = srv_auth s \<and> eventFdOut s' = eventFdOut s \<and>
    srv_fd s' = srv_fd s"
  using assms
proof (induction fs arbitrary: s x gs ins outs)
  case Nil
  then show ?case by (auto intro: srv_nil)
next
  case (Cons f fs)
  from Cons.prems(2) obtain g gs' where gs: "gs = g # gs'" "length fs = length gs'" by (cases gs) auto
  from Cons.prems(7) obtain ev evs where ins: "ins = ev # evs" "delivers fd [f] ev"
    "list_all2 (\<lambda>ev f. delivers fd [f] ev) evs fs" by (auto simp: list_all2_Cons2)
  from Cons.prems(8) obtain o1 os where outs: "outs = o1 # os" "announces s o1 g" "list_all2 (announces s) os gs'"
    by (auto simp: gs(1) list_all2_Cons2)
  from Cons.prems(1) obtain x1 out where x1: "ProtocolContext_handleFrame E (srv_auth s) f x = Inr x1"
    "ctx_io x = Some out" "ctx_io x1 = Some (out @ [g])"
    "answers E (map2 (\<lambda>f g. (srv_auth s, f, g)) fs gs') x1 x'" by (auto simp: gs(1))
  have act: "isActive x1" by (rule answers_active [OF x1(4) Cons.prems(3)])
  have "isActive (setIO (Some []) x)"
    using answers_active [OF Cons.prems(1,3)] by simp
  moreover have "list_all frame_ok [f]" "list_all frame_wf [g]" "length [g] \<le> eventfd_max"
    using Cons.prems(5,6) gs(1) by (auto simp: sound_frame_def frame_ok_def frame_wf_def eventfd_max_def)
  moreover have "list_all2 (announces s) [o1] [g]" using outs(2) by simp
  ultimately obtain s1 where s1: "server_run E s (turn ev o1) s1" "serving s1 fd (setIO (Some []) x1)"
    "k_sent s1 = (k_sent s)(fd := k_sent s fd @ wires [g])" "srv_auth s1 = srv_auth s" "eventFdOut s1 = eventFdOut s"
    "srv_fd s1 = srv_fd s"
    using serves [OF Cons.prems(4) _ answers_serves [OF x1(1-3) act] _ _ ins(2), of "[o1]"]
    unfolding serve_actions_turn by blast
  have "\<exists>s'. server_run E s1 (concat (map2 turn evs os)) s' \<and> serving s' fd (setIO (Some []) x') \<and>
      k_sent s' fd = k_sent s1 fd @ wires gs' \<and> srv_auth s' = srv_auth s1 \<and> eventFdOut s' = eventFdOut s1 \<and>
      srv_fd s' = srv_fd s1"
    by (rule Cons.IH [OF _ gs(2) Cons.prems(3) s1(2)])
      (use x1(4) Cons.prems(5,6) gs(1) ins(3) outs(3) s1(4,5) in \<open>simp_all add: announces_def [abs_def]\<close>)
  then show ?case
    using server_run_append [OF s1(1)] s1(3-6) by (auto simp: gs(1) ins(1) outs(1))
qed

end
