(* ===== verification/EndToEnd.thy ===== *)
theory EndToEnd
  imports ServerServes
begin

text \<open>
  The two programs together: what a server in service does with the frames of one connection, and a
  client of \<open>ClientSessions\<close> whose frames go through the reader, the queues, the worker, the session and the
  writer of the server of \<open>Servers\<close>.
\<close>

lemma quiet_start:
  assumes "in_service s" "eventFdOut s \<noteq> srv_fd s"
  shows "quiet s"
  using in_service_start [OF assms(1)] assms(2)
  by (auto simp: quiet_def WorkQueue_init_def ServerWorker_start_def ServerWorker_new_def)

lemma reachable_session:
  assumes "in_service s0" "server_run E s0 as s" "list_all sane_action as"
  shows "fdInfoTable s fd = None \<longleftrightarrow> session s fd = None" "session s fd = Some x \<Longrightarrow> session_ok x"
proof -
  have t: "tables_ok (fdInfoTable s) (worker s)"
    using reachable_inv [OF assms] by (simp add: server_inv_def)
  then show "fdInfoTable s fd = None \<longleftrightarrow> session s fd = None"
    by (cases "worker s") (auto simp: tables_ok_def session_def)
  show "session_ok x" if "session s fd = Some x"
    using t that by (cases "worker s") (auto simp: tables_ok_def sessions_ok_def session_def)
qed

section \<open>Properties\<close>

text \<open>C4: A server in service serves frames as its session defines: when it is between two frames of a connection
  and nothing else is queued, whole frames that arrive in any chunks (length fields unsplit) go through
  the reader, the queue and the worker's thread into the session of this connection, and the frames this
  session answers, no others and in this order, are on the connection's socket after the notifications. No
  other connection or session has changed, and the server is ready for the next frame.\<close>

theorem frames_are_served:
  assumes "in_service s0" "server_run E s0 as s" "list_all sane_action as" "serving s fd x"
    "run_frames E (map (Pair (srv_auth s)) fs) x = Inr x'" "isActive x'" "ctx_io x' = Some ws"
    "list_all frame_ok fs" "list_all frame_wf ws" "length ws \<le> eventfd_max"
    "delivers fd fs ev" "list_all2 (announces s) outs ws"
  shows "\<exists>s'. server_run E s (LoopEvent ev # replicate (4 * length fs) WorkerStep @ map LoopEvent outs) s' \<and>
    k_sent s' = (k_sent s)(fd := k_sent s fd @ wires ws) \<and> serving s' fd (setIO (Some []) x') \<and>
    (\<forall>g. g \<noteq> fd \<longrightarrow> fdInfoTable s' g = fdInfoTable s g \<and> session s' g = session s g)"
proof -
  have x: "session s fd = Some x" using assms(4) by (simp add: serving_def)
  from reachable_session(2) [OF assms(1-3) x] have ok: "state_ok (ctx_state x)" "ctx_io x = Some []"
    by (simp_all add: session_ok_def)
  have "setIO (Some []) x = x" using ok(2) by (simp add: setIO_def)
  with session_serves_run [OF assms(5) ok(2,1) assms(6)] assms(7)
  have serve: "session_serves E (srv_auth s) fs x = Some (ws, setIO (Some []) x')" by simp
  have "isActive x"
  proof (rule ccontr)
    assume "\<not> isActive x"
    then have "ctx_state x = None" by (simp add: isActive_def)
    from inactive_run [OF this assms(5)] \<open>\<not> isActive x\<close> assms(6) show False by simp
  qed
  from serves [OF assms(4) this serve assms(8,9,11,12,10)] show ?thesis
    unfolding serve_actions_def by blast
qed

text \<open>C2: A client is served, from end to end: to a server in service with the test handler, in whatever state with
  nothing queued and with whatever other connections, a client connects, authenticates with a password the
  server knows and sends its text: \<open>connect\<close>, \<open>authenticate\<close> and \<open>fetchRequest\<close> return true and the response
  is the client's own text behind the server's prefix. The bytes the client writes are four frames; when
  they arrive in turn on the accepted connection, the bytes the server has put on its socket
  are exactly the four frames the client has read.\<close>

theorem client_is_served_by_server:
  assumes "env_ok E L" "dial_ok d" "d_tx d = [TxRoom n]" "VerifyUtf8 L u" "VerifyUtf8 L t" "VerifyUtf8 L (echo t)"
    "length u + length p \<le> 60000" "length t \<le> 60000" "length u + length p + length t + 350 \<le> n"
    "in_service s0" "server_run E s0 as s" "list_all sane_action as" "quiet s" "worker s = Some w"
    "worker_factory w = Some TestUserHandlerFactory" "srv_auth s = Some (addUser u (PasswordAuthentication p) a)"
    "ev_fd acc = srv_fd s" "ev_in acc" "\<not> ev_err acc" "ev_accept acc = AcceptOk ac" "ac_fd ac = fd"
    "fdInfoTable s fd = None" "fd \<noteq> srv_fd s" "fd \<noteq> eventFdOut s"
  shows "\<exists>f1 f2 f3 f4 g1 g2 g3 g4 c1 c2 c3 resp.
    Client_connect E (d\<lparr>d_rx := deliver g1 @ deliver g2\<rparr>) (Client_new ip port mem r) = (Inr True, c1) \<and>
    Client_authenticate E u p (receives g3 c1) = (Inr True, c2) \<and> hasAuthenticated c2 \<and>
    fetchRequest (gcm E) (lt_ureq E) (lt_uresp E) (UserRequest_set_msg t UserRequest_new) ServerResponse_new
      (receives g4 c2) = (Inr True, resp, c3) \<and> ServerResponse_msg resp = echo t \<and>
    client_out c3 = wires [f1, f2, f3, f4] \<and>
    (\<forall>ins outs. list_all2 (\<lambda>ev f. delivers fd [f] ev) ins [f1, f2, f3, f4] \<and>
        list_all2 (announces s) outs [g1, g2, g3, g4] \<longrightarrow>
      (\<exists>s'. server_run E s (LoopEvent acc # concat (map2 turn ins outs)) s' \<and>
         k_sent s' fd = wires [g1, g2, g3, g4]))"
proof -
  let ?x = "new_session (Some TestUserHandlerFactory) (ac_seed ac)"
  let ?a = "Some (addUser u (PasswordAuthentication p) a)"
  have "session s fd = None"
    using reachable_session(1) [OF assms(10-12)] assms(22) by blast
  from accepted_serving [OF assms(13,14,22) this assms(23,24,21,17-20)] obtain s1 where s1:
    "server_exec E (LoopEvent acc) s = Inr s1" "serving s1 fd ?x" "k_sent s1 fd = []" "srv_auth s1 = ?a"
    "eventFdOut s1 = eventFdOut s"
    using assms(15,16) by auto
  from client_served [OF assms(1-9), of ip port mem r ?a ?a a ?a "ac_seed ac"]
  obtain f1 f2 f3 f4 g1 g2 g3 g4 and c1 c2 c3 :: client and resp and cs :: proto_context where c:
    "Client_connect E (d\<lparr>d_rx := deliver g1 @ deliver g2\<rparr>) (Client_new ip port mem r) = (Inr True, c1)"
    "Client_authenticate E u p (receives g3 c1) = (Inr True, c2)" "isAuthenticated c2"
    "fetchRequest (gcm E) (lt_ureq E) (lt_uresp E) (UserRequest_set_msg t UserRequest_new) ServerResponse_new
      (receives g4 c2) = (Inr True, resp, c3)" "ServerResponse_msg resp = echo t"
    "client_out c3 = wire f1 @ wire f2 @ wire f3 @ wire f4"
    "answers E [(?a, f1, g1), (?a, f2, g2), (?a, f3, g3), (?a, f4, g4)] ?x cs" "isActive cs"
    "list_all sound_frame [f1, f2, f3, f4, g1, g2, g3, g4]" by blast
  have io: "setIO (Some []) ?x = ?x" by (simp add: new_session_def setIO_def)
  have "\<exists>s'. server_run E s (LoopEvent acc # concat (map2 turn ins outs)) s' \<and> k_sent s' fd = wires [g1, g2, g3, g4]"
    if evs: "list_all2 (\<lambda>ev f. delivers fd [f] ev) ins [f1, f2, f3, f4]"
      "list_all2 (announces s) outs [g1, g2, g3, g4]" for ins outs
  proof -
    have "\<exists>s'. server_run E s1 (concat (map2 turn ins outs)) s' \<and> serving s' fd (setIO (Some []) cs) \<and>
        k_sent s' fd = k_sent s1 fd @ wires [g1, g2, g3, g4] \<and> srv_auth s' = srv_auth s1 \<and>
        eventFdOut s' = eventFdOut s1 \<and> srv_fd s' = srv_fd s1"
      by (rule conversation_serves [where x = ?x, OF _ _ c(8) _ _ _ evs(1)])
        (use c(7,9) s1(2,4,5) io evs(2) in \<open>simp_all add: announces_def [abs_def]\<close>)
    with s1(3) srv_step [OF s1(1)] show ?thesis by auto
  qed
  moreover have "client_out c3 = wires [f1, f2, f3, f4]" "hasAuthenticated c2"
    using c(3,6) by (simp_all add: hasAuthenticated_def)
  ultimately show ?thesis
    using c(1,2,4,5) by blast
qed

end
