(* ===== verification/ServerRaces.thy ===== *)
theory ServerRaces
  imports ServerServes
begin

text \<open>
  Two races between the worker and the event loop over a session that has ended. The worker first
  handles the last frame, which queues the reply, and then calls \<open>closeClient\<close>; between the two the
  event loop may run or not (the state \<open>Closing\<close> of the worker).
\<close>

section \<open>The last frame of a session\<close>

text \<open>The worker holds a frame whose handling writes the reply \<open>g\<close> and ends the session of \<open>fd\<close>.\<close>

definition finishing :: "proto_env \<Rightarrow> server \<Rightarrow> int \<Rightarrow> frame \<Rightarrow> bool" where
  "finishing E s fd g \<longleftrightarrow>
     (\<exists>w f x x'. worker s = Some w \<and> runnerThread w = Some (Processing (fd, f)) \<and> handlerTable w fd = Some x \<and>
        isActive x \<and> ProtocolContext_handleFrame E (srv_auth s) f x = Inr x' \<and> ctx_io x' = Some [g] \<and>
        \<not> isActive x') \<and>
     wq_items (wqOut s) = [] \<and> itemLimit (wqOut s) = 0 \<and> k_count s = 0 \<and>
     (\<exists>c. fdInfoTable s fd = Some c \<and> conn_idle fd c) \<and> eventFdOut s \<noteq> srv_fd s \<and> frame_wf g"

lemma finishing_step:
  assumes "finishing E s fd g"
  obtains w q s1 where "worker_step E s = Inr s1" "worker s1 = Some w" "runnerThread w = Some (Closing fd)"
    "wqOut s1 = q" "wq_items q = [(fd, g)]" "k_count s1 = 1" "fdInfoTable s1 = fdInfoTable s"
    "eventFdOut s1 = eventFdOut s" "srv_fd s1 = srv_fd s" "k_sent s1 = k_sent s"
proof -
  from assms obtain w f x x' where w: "worker s = Some w" "runnerThread w = Some (Processing (fd, f))"
    "handlerTable w fd = Some x" "isActive x" "ProtocolContext_handleFrame E (srv_auth s) f x = Inr x'"
    "ctx_io x' = Some [g]" "\<not> isActive x'" and q: "wq_items (wqOut s) = []" "itemLimit (wqOut s) = 0" "k_count s = 0"
    by (auto simp: finishing_def)
  let ?q = "pushItem (fd, g) (wqOut s)"
  let ?w = "w\<lparr>handlerTable := (handlerTable w)(fd \<mapsto> setIO (Some []) x')\<rparr>"
  have "sink_frames fd [g] (wqOut s, k_count s) = (?q, 1)"
    using q(3) by (simp add: sink_frames_Cons eventfd_write_def eventfd_max_def)
  then have step: "worker_step E s = Inr (s\<lparr>wqOut := ?q, k_count := 1,
      worker := Some (?w\<lparr>runnerThread := Some (Closing fd)\<rparr>)\<rparr>)"
    using w q(3) by (simp add: worker_step_def worker_process_def set_pc_def getAuthenticator_def Let_def)
  have "wq_items ?q = [(fd, g)]"
    using q(1,2) by (simp add: pushItem_def)
  then show thesis by (intro that [OF step, where w = "?w\<lparr>runnerThread := Some (Closing fd)\<rparr>"]) simp_all
qed

text \<open>Such a frame comes up after a conversation that left the session active.\<close>

lemma last_frame_pending:
  assumes "serving s fd (setIO (Some []) x)" "ProtocolContext_handleFrame E (srv_auth s) f x = Inr x'"
    "ctx_io x = Some out" "ctx_io x' = Some (out @ [g])" "\<not> isActive x'" "sound_frame f" "sound_frame g" "delivers fd [f] ev"
  shows "\<exists>s'. server_run E s (LoopEvent ev # replicate 3 WorkerStep) s' \<and> finishing E s' fd g \<and>
    eventFdOut s' = eventFdOut s \<and> srv_fd s' = srv_fd s"
proof -
  let ?x = "setIO (Some []) x"
  from assms(1) obtain c w where s: "fdInfoTable s fd = Some c" "conn_idle fd c" "worker s = Some w"
    "runnerThread w = Some AtTest" "\<not> shouldStop w" "handlerTable w fd = Some ?x" "wq_items (wqIn s) = []"
    "itemLimit (wqIn s) = 0" "wq_items (wqOut s) = []" "itemLimit (wqOut s) = 0" "k_count s = 0"
    "eventFdOut s \<noteq> srv_fd s" "fd \<noteq> srv_fd s" "fd \<noteq> eventFdOut s"
    by (auto simp: serving_def quiet_def session_def)
  have x: "x = shift_io out ?x" using assms(3) by (simp add: shift_io_def setIO_def)
  with handleFrame_shift [of E "srv_auth s" f out ?x] assms(2)
  have "map_sum id (shift_io out) (ProtocolContext_handleFrame E (srv_auth s) f ?x) = Inr x'" by simp
  then obtain y where y: "ProtocolContext_handleFrame E (srv_auth s) f ?x = Inr y" "x' = shift_io out y"
    by (cases "ProtocolContext_handleFrame E (srv_auth s) f ?x") auto
  have y': "ctx_io y = Some [g]" "\<not> isActive y"
    using assms(4,5) y(2) by (auto simp: isActive_def)
  have "isActive ?x"
  proof (rule ccontr)
    assume "\<not> isActive ?x"
    then have "y = ?x" using y(1) by (simp add: isActive_def ProtocolContext_handleFrame_def)
    with y'(1) show False by (simp add: setIO_def)
  qed
  note act = this
  have ok: "list_all frame_ok [f]" "frame_wf g"
    using assms(6,7) by (auto simp: sound_frame_def frame_ok_def frame_wf_def)
  from event_queues_frames [OF s(1,2) ok(1) assms(8) s(13,14)] obtain c1 where c1: "conn_idle fd c1"
    "handle_event ev s = Inr (s\<lparr>wqIn := fold pushItem (map (Pair fd) [f]) (wqIn s), fdInfoTable := (fdInfoTable s)(fd \<mapsto> c1)\<rparr>)"
    by blast
  let ?s1 = "s\<lparr>wqIn := fold pushItem (map (Pair fd) [f]) (wqIn s), fdInfoTable := (fdInfoTable s)(fd \<mapsto> c1)\<rparr>"
  have "wq_items (wqIn ?s1) = [(fd, f)]"
    using s(7,8) by (simp add: pushItem_def)
  from worker_fetch [of ?s1 w, OF _ s(4,5) this] s(3)
  obtain q where 2: "server_run E ?s1 (replicate 3 WorkerStep)
      (?s1\<lparr>wqIn := q, worker := Some (w\<lparr>runnerThread := Some (Processing (fd, f))\<rparr>)\<rparr>)" (is "server_run _ _ _ ?s2")
    by auto
  have "server_run E s (LoopEvent ev # replicate 3 WorkerStep) ?s2"
    using c1(2) by (intro srv_step [OF _ 2]) simp
  moreover have "finishing E ?s2 fd g"
    using s c1(1) y(1) y' act ok(2) by (simp add: finishing_def)
  ultimately show ?thesis by (intro exI [of _ ?s2]) simp
qed

text \<open>An accepted login of a server whose users have no handler is such a frame.\<close>

lemma login_finishes:
  assumes "env_ok E L" "dial_ok d" "d_tx d = [TxRoom n]" "VerifyUtf8 L u" "length u + length p \<le> 60000"
    "length u + length p + 290 \<le> n" "serving s fd (new_session fac r')" "entry_phase fac = Closed"
    "srv_auth s = Some (addUser u (PasswordAuthentication p) a)"
  shows "\<exists>f1 f2 f3 g1 g2 g3 c1 c2.
    Client_connect E (d\<lparr>d_rx := deliver g1 @ deliver g2\<rparr>) (Client_new ip port mem r) = (Inr True, c1) \<and>
    Client_authenticate E u p (receives g3 c1) = (Inr True, c2) \<and>
    (\<forall>ins outs ev. list_all2 (\<lambda>ev f. delivers fd [f] ev) ins [f1, f2] \<and> list_all2 (announces s) outs [g1, g2] \<and>
        delivers fd [f3] ev \<longrightarrow>
      (\<exists>s'. server_run E s (concat (map2 turn ins outs) @ LoopEvent ev # replicate 3 WorkerStep) s' \<and>
         finishing E s' fd g3 \<and> eventFdOut s' = eventFdOut s \<and> srv_fd s' = srv_fd s))"
proof -
  let ?x = "new_session fac r'" and ?a = "Some (addUser u (PasswordAuthentication p) a)"
  from login [OF assms(1-6), of ip port mem r ?a ?a a fac r']
  obtain f1 f2 f3 g1 g2 g3 and c1 c2 :: client and cs :: proto_context where c:
    "Client_connect E (d\<lparr>d_rx := deliver g1 @ deliver g2\<rparr>) (Client_new ip port mem r) = (Inr True, c1)"
    "Client_authenticate E u p (receives g3 c1) = (Inr True, c2)"
    "answers E [(?a, f1, g1), (?a, f2, g2), (?a, f3, g3)] ?x cs" "phase_of (ctx_state cs) = entry_phase fac"
    "list_all sound_frame [f1, f2, f3, g1, g2, g3]" by blast
  have "\<not> isActive cs" using c(4) assms(8) by (simp add: isActive_def)
  from c(3) answers_append [of E "[(?a, f1, g1), (?a, f2, g2)]" "[(?a, f3, g3)]" ?x cs]
  obtain x2 out where x2: "answers E [(?a, f1, g1), (?a, f2, g2)] ?x x2"
    "ProtocolContext_handleFrame E ?a f3 x2 = Inr cs" "ctx_io x2 = Some out" "ctx_io cs = Some (out @ [g3])"
    by auto
  have act: "isActive x2"
  proof (rule ccontr)
    assume "\<not> isActive x2"
    then have "cs = x2" using x2(2) by (simp add: isActive_def ProtocolContext_handleFrame_def)
    with x2(3,4) show False by simp
  qed
  have io: "setIO (Some []) ?x = ?x" by (simp add: new_session_def setIO_def)
  have "\<exists>s'. server_run E s (concat (map2 turn ins outs) @ LoopEvent ev # replicate 3 WorkerStep) s' \<and>
      finishing E s' fd g3 \<and> eventFdOut s' = eventFdOut s \<and> srv_fd s' = srv_fd s"
    if evs: "list_all2 (\<lambda>ev f. delivers fd [f] ev) ins [f1, f2]" "list_all2 (announces s) outs [g1, g2]"
      "delivers fd [f3] ev" for ins outs ev
  proof -
    have "\<exists>s'. server_run E s (concat (map2 turn ins outs)) s' \<and> serving s' fd (setIO (Some []) x2) \<and>
        k_sent s' fd = k_sent s fd @ wires [g1, g2] \<and> srv_auth s' = srv_auth s \<and> eventFdOut s' = eventFdOut s \<and>
        srv_fd s' = srv_fd s"
      by (rule conversation_serves [where x = ?x, OF _ _ act _ _ _ evs(1,2)])
        (use x2(1) c(5) assms(7,9) io in simp_all)
    then obtain s1 where s1: "server_run E s (concat (map2 turn ins outs)) s1" "serving s1 fd (setIO (Some []) x2)"
      "srv_auth s1 = ?a" "eventFdOut s1 = eventFdOut s" "srv_fd s1 = srv_fd s" using assms(9) by auto
    have "sound_frame f3" "sound_frame g3" using c(5) by simp_all
    from last_frame_pending [OF s1(2) _ x2(3,4) \<open>\<not> isActive cs\<close> this evs(3), of E] x2(2) s1(3-5)
    obtain s2 where "server_run E s1 (LoopEvent ev # replicate 3 WorkerStep) s2" "finishing E s2 fd g3"
      "eventFdOut s2 = eventFdOut s" "srv_fd s2 = srv_fd s" by auto
    with server_run_append [OF s1(1)] show ?thesis by blast
  qed
  with c(1,2) show ?thesis by blast
qed

text \<open>The call of \<open>closeClient\<close> removes the connection and the session.\<close>

lemma closing_step:
  assumes "worker s = Some w" "runnerThread w = Some (Closing fd)" "fdInfoTable s fd = Some c" "cc_fd c = fd"
  obtains s' where "worker_step E s = Inr s'" "fdInfoTable s' = (fdInfoTable s)(fd := None)" "session s' fd = None"
    "fd \<notin> k_open s'" "wqOut s' = wqOut s" "k_count s' = k_count s" "k_sent s' = k_sent s"
    "eventFdOut s' = eventFdOut s" "srv_fd s' = srv_fd s"
proof -
  have step: "worker_step E s = Inr (set_pc AtTest (closeClient_fd fd s))"
    using assms(1,2) by (simp add: worker_step_def)
  from assms show thesis
    by (intro that [OF step])
      (auto simp: closeClient_fd_def destroyHandler_def destroyContext_def set_pc_def Let_def epollDelClient_def k_close_def
        session_def)
qed

text \<open>The event loop before \<open>closeClient\<close>, and after it.\<close>

lemma last_reply_sent:
  assumes "finishing E s fd g" "announces s out g"
  shows "\<exists>s'. server_run E s [WorkerStep, LoopEvent out, WorkerStep] s' \<and>
    k_sent s' fd = k_sent s fd @ wire g \<and> fdInfoTable s' fd = None \<and> session s' fd = None"
proof -
  from assms(1) obtain c where c: "fdInfoTable s fd = Some c" "conn_idle fd c" and e: "eventFdOut s \<noteq> srv_fd s" "frame_wf g"
    by (auto simp: finishing_def)
  then have cfd: "cc_fd c = fd" "\<not> writeInProgress (cc_deframer c)" by (simp_all add: conn_idle_def conn_ok_def)
  from assms(2) obtain n where n: "ev_fd out = eventFdOut s" "ev_tx out = [TxRoom n]" "length (wire g) \<le> n"
    by (auto simp: announces_def)
  from finishing_step [OF assms(1)] obtain w q s1 where s1: "worker_step E s = Inr s1" "worker s1 = Some w"
    "runnerThread w = Some (Closing fd)" "wqOut s1 = q" "wq_items q = [(fd, g)]" "k_count s1 = 1"
    "fdInfoTable s1 = fdInfoTable s" "eventFdOut s1 = eventFdOut s" "srv_fd s1 = srv_fd s" "k_sent s1 = k_sent s" .
  from handleDataOut_sends [of "s1\<lparr>k_count := 0\<rparr>" fd g "[]" c "ev_tx out" n] c cfd n e(2) s1(4-7)
  obtain c' where c': "handleDataOut (ev_tx out) (s1\<lparr>k_count := 0\<rparr>) =
      Inr (s1\<lparr>k_count := 0, wqOut := q\<lparr>wq_items := []\<rparr>, fdInfoTable := (fdInfoTable s)(fd \<mapsto> c'),
        k_sent := (k_sent s1)(fd := k_sent s1 fd @ wire g)\<rparr>)" "cc_fd c' = cc_fd c" by auto
  let ?s2 = "s1\<lparr>k_count := 0, wqOut := q\<lparr>wq_items := []\<rparr>, fdInfoTable := (fdInfoTable s)(fd \<mapsto> c'),
      k_sent := (k_sent s1)(fd := k_sent s1 fd @ wire g)\<rparr>"
  have "handle_event out s1 = Inr ?s2"
    using n(1) e(1) s1(6,8,9) c'(1) by (simp add: handle_event_def eventfd_read_def)
  moreover have "worker ?s2 = Some w" "fdInfoTable ?s2 fd = Some c'" "cc_fd c' = fd"
    using s1(2) c'(2) cfd by simp_all
  from closing_step [OF this(1) s1(3) this(2,3)] obtain s3 where "worker_step E ?s2 = Inr s3"
    "fdInfoTable s3 = (fdInfoTable ?s2)(fd := None)" "session s3 fd = None" "k_sent s3 = k_sent ?s2" .
  ultimately show ?thesis
    using s1(1,10) by (intro exI [of _ s3]) (auto intro!: server_run.intros)
qed

lemma last_reply_lost:
  assumes "finishing E s fd g" "announces s out g"
  shows "\<exists>s'. server_run E s [WorkerStep, WorkerStep, LoopEvent out] s' \<and> wq_items (wqOut s') = [] \<and>
    k_sent s' fd = k_sent s fd \<and> fdInfoTable s' fd = None \<and> session s' fd = None"
proof -
  from assms(1) obtain c where c: "fdInfoTable s fd = Some c" "conn_idle fd c" and e: "eventFdOut s \<noteq> srv_fd s" "frame_wf g"
    by (auto simp: finishing_def)
  then have cfd: "cc_fd c = fd" "\<not> writeInProgress (cc_deframer c)" by (simp_all add: conn_idle_def conn_ok_def)
  from assms(2) obtain n where n: "ev_fd out = eventFdOut s" "ev_tx out = [TxRoom n]" "length (wire g) \<le> n"
    by (auto simp: announces_def)
  from finishing_step [OF assms(1)] obtain w q s1 where s1: "worker_step E s = Inr s1" "worker s1 = Some w"
    "runnerThread w = Some (Closing fd)" "wqOut s1 = q" "wq_items q = [(fd, g)]" "k_count s1 = 1"
    "fdInfoTable s1 = fdInfoTable s" "eventFdOut s1 = eventFdOut s" "srv_fd s1 = srv_fd s" "k_sent s1 = k_sent s" .
  have "fdInfoTable s1 fd = Some c" using c(1) s1(7) by simp
  from closing_step [OF s1(2,3) this cfd(1)] obtain s2 where s2: "worker_step E s1 = Inr s2"
    "fdInfoTable s2 = (fdInfoTable s1)(fd := None)" "session s2 fd = None" "fd \<notin> k_open s2" "wqOut s2 = wqOut s1"
    "k_count s2 = k_count s1" "k_sent s2 = k_sent s1" "eventFdOut s2 = eventFdOut s1" "srv_fd s2 = srv_fd s1" .
  let ?s3 = "s2\<lparr>k_count := 0, wqOut := q\<lparr>wq_items := []\<rparr>\<rparr>"
  have "handle_event out s2 = Inr ?s3"
    using n(1) e(1) s1(4-6,8,9) s2(2,5,6,8,9)
    by (simp add: handle_event_def eventfd_read_def handleDataOut_def fetchItemNonBlocking_def)
  with s1(1,10) s2(1-3,7) show ?thesis
    by (intro exI [of _ ?s3]) (auto intro!: server_run.intros simp: session_def)
qed

section \<open>Properties\<close>

text \<open>C20: Whether the last reply of a session is sent depends on the order of two threads: when the frame in the
  worker's hands ends the session (the accepted login of a server without user handlers, the last rejected one),
  its reply is sent in full if the event loop runs between the worker's \<open>handleFrame\<close> and its call of
  \<open>closeClient\<close>, and is thrown away, with nothing sent, if the loop runs after both. Either way the connection is
  gone.\<close>

theorem last_reply_race:
  assumes "finishing E s fd g" "announces s out g"
  shows "(\<exists>s'. server_run E s [WorkerStep, LoopEvent out, WorkerStep] s' \<and>
      k_sent s' fd = k_sent s fd @ wire g \<and> fdInfoTable s' fd = None \<and> session s' fd = None) \<and>
    (\<exists>s'. server_run E s [WorkerStep, WorkerStep, LoopEvent out] s' \<and> wq_items (wqOut s') = [] \<and>
      k_sent s' fd = k_sent s fd \<and> fdInfoTable s' fd = None \<and> session s' fd = None)"
  using last_reply_sent [OF assms] last_reply_lost [OF assms] by (rule conjI)

text \<open>C25: The worker can close the wrong client: when it has handled the last frame of a session but not yet called
  \<open>closeClient\<close>, and in between the client hangs up and the kernel gives its descriptor to the next
  connection, the call closes the new client's socket and destroys its session, although the new client
  was just accepted and has sent nothing.\<close>

theorem closing_hits_new_client:
  assumes "in_service s0" "server_run E s0 as s" "list_all sane_action as"
    "worker s = Some w" "runnerThread w = Some (Closing fd)" "fdInfoTable s fd \<noteq> None"
    "fd \<noteq> srv_fd s" "fd \<noteq> eventFdOut s" "ev_fd hup = fd" "ev_hup hup" "ev_stale hup = fd"
    "ev_fd acc = srv_fd s" "ev_in acc" "\<not> ev_err acc" "ev_accept acc = AcceptOk a" "ac_fd a = fd" "ac_added a"
  shows "\<exists>s1 s2. server_run E s [LoopEvent hup, LoopEvent acc] s1 \<and> fd \<in> k_open s1 \<and>
    fdInfoTable s1 fd = Some (ConnectionContext_new fd (ac_addr a) (ac_fill a)) \<and>
    session s1 fd = Some (new_session (worker_factory w) (ac_seed a)) \<and>
    server_run E s1 [WorkerStep] s2 \<and> fd \<notin> k_open s2 \<and> fdInfoTable s2 fd = None \<and> session s2 fd = None"
proof -
  from reconnect [OF reachable_inv [OF assms(1-3)] assms(4,6-16)] obtain s1 s2 where
    s: "handle_event hup s = Inr s1" "handle_event acc s1 = Inr s2"
      "fdInfoTable s2 fd = Some (ConnectionContext_new fd (ac_addr a) (ac_fill a))"
      "session s2 fd = Some (new_session (worker_factory w) (ac_seed a))"
      "worker s2 = Some (createContext fd (ac_seed a) (destroyContext fd w))" "ac_added a \<longrightarrow> fd \<in> k_open s2"
    by blast
  have "runnerThread (createContext fd (ac_seed a) (destroyContext fd w)) = Some (Closing fd)"
    using assms(5) by (simp add: createContext_pc destroyContext_def)
  from closing_step [OF s(5) this s(3)] obtain s3 where "worker_step E s2 = Inr s3"
    "fdInfoTable s3 = (fdInfoTable s2)(fd := None)" "session s3 fd = None" "fd \<notin> k_open s3"
    by (auto simp: ConnectionContext_new_def)
  with s assms(17) show ?thesis
    by (intro exI [of _ s2] exI [of _ s3]) (auto intro!: server_run.intros)
qed

end
