(* ===== verification/ServerDemo.thy ===== *)
theory ServerDemo
  imports ServerRuns SessionDemo
begin

text \<open>
  A server run in the logic, for the witnesses of \<open>ServerRuns\<close>: descriptor 3 is the epoll instance, 4 the event
  descriptor, 5 the listening socket. A client is accepted as 6 and sends an undecodable frame, the worker
  answers it, and the answer waits in \<open>wqOut\<close>.
\<close>

definition demo_server :: server where
  "demo_server =
     Server_run_start (snd (bindSock 5 True True True True
       (setUserHandlerFactory (Some TestUserHandlerFactory) (projr (Server_new 3 4 EBADF)))))"

lemma demo_in_service: "in_service demo_server"
  unfolding in_service_def
proof (intro exI conjI)
  show "Server_new 3 4 EBADF = Inr (projr (Server_new 3 4 EBADF))"
    by (simp add: Server_new_def)
  show "bindSock 5 True True True True
      (setUserHandlerFactory (Some TestUserHandlerFactory) (projr (Server_new 3 4 EBADF))) =
      (True, snd (bindSock 5 True True True True
        (setUserHandlerFactory (Some TestUserHandlerFactory) (projr (Server_new 3 4 EBADF)))))"
    by (simp add: bindSock_defs setUserHandlerFactory_def Server_new_def)
qed (simp add: demo_server_def)

definition demo_event :: "int \<Rightarrow> epoll_event" where
  "demo_event fd =
     \<lparr>ev_fd = fd, ev_in = True, ev_out = False, ev_err = False, ev_hup = False, ev_rx = [], ev_tx = [],
      ev_accept = AcceptFail EAGAIN, ev_stale = fd\<rparr>"

definition demo_accept :: epoll_event where
  "demo_accept = (demo_event 5)\<lparr>ev_accept := AcceptOk \<lparr>ac_fd = 6, ac_addr = 0, ac_added = True, ac_seed = 7, ac_fill = 0\<rparr>\<rparr>"

definition demo_actions :: "action list" where
  "demo_actions =
     [LoopEvent demo_accept, LoopEvent ((demo_event 6)\<lparr>ev_rx := [RxData [0xF0, 0, 1, 0xFF]]\<rparr>),
      WorkerStep, WorkerStep, WorkerStep, WorkerStep]"

fun server_execs :: "proto_env \<Rightarrow> action list \<Rightarrow> server \<Rightarrow> fault + server" where
  "server_execs E [] s = Inr s"
| "server_execs E (a # as) s = (case server_exec E a s of Inl e \<Rightarrow> Inl e | Inr s' \<Rightarrow> server_execs E as s')"

lemma server_execs_run: "server_execs E as s = Inr s' \<Longrightarrow> server_run E s as s'"
  by (induction E as s rule: server_execs.induct) (auto split: sum.splits intro: server_run.intros)

definition demo_frame :: frame where
  "demo_frame = \<lparr>fr_header = 0xF0, fr_len = 2, fr_msg = [8, 4]\<rparr>"

definition demo_summary :: "server \<Rightarrow> work_item list \<times> (bool \<times> rx_state) option \<times> int \<times> int \<times> bool \<times>
    worker_pc option option" where
  "demo_summary s =
     (wq_items (wqOut s),
      map_option (\<lambda>c. (writeInProgress (cc_deframer c), fm_state (cc_framer c))) (fdInfoTable s 6),
      srv_fd s, eventFdOut s, running s, map_option runnerThread (worker s))"

lemma demo_evaluates:
  "(case server_execs demo_env demo_actions demo_server of Inl e \<Rightarrow> None | Inr s \<Rightarrow> Some (demo_summary s)) =
     Some ([(6, demo_frame)], Some (False, RX_HEADER), 5, 4, True, Some (Some AtTest))"
  by code_simp

lemma demo_state:
  obtains s c w where "server_run demo_env demo_server demo_actions s" "wq_items (wqOut s) = [(6, demo_frame)]"
    "fdInfoTable s 6 = Some c" "\<not> writeInProgress (cc_deframer c)" "fm_state (cc_framer c) = RX_HEADER"
    "srv_fd s = 5" "eventFdOut s = 4" "running s" "worker s = Some w" "runnerThread w = Some AtTest"
proof (cases "server_execs demo_env demo_actions demo_server")
  case (Inl e)
  with demo_evaluates show thesis by simp
next
  case (Inr s)
  with demo_evaluates have "demo_summary s = ([(6, demo_frame)], Some (False, RX_HEADER), 5, 4, True, Some (Some AtTest))"
    by simp
  with that server_execs_run [OF Inr] show thesis
    by (auto simp: demo_summary_def)
qed

lemma demo_actions_sane: "list_all sane_action demo_actions" "2 * length demo_actions \<le> eventfd_max"
  by (simp_all add: demo_actions_def demo_accept_def demo_event_def eventfd_max_def)

lemma demo_frame_wf: "frame_wf demo_frame" "length (wire demo_frame) \<le> 5"
  by (simp_all add: demo_frame_def frame_wf_def wire_def)

section \<open>Witnesses\<close>

theorem server_tables_in_step_witness:
  "\<exists>s c x. server_run demo_env demo_server demo_actions s \<and> fdInfoTable s 6 = Some c \<and> session s 6 = Some x \<and>
    fm_fd (cc_framer c) = 6 \<and> state_ok (ctx_state x) \<and> (fdInfoTable s 7 = None) = (session s 7 = None)"
proof -
  obtain s c where s: "server_run demo_env demo_server demo_actions s" "fdInfoTable s 6 = Some c"
    by (rule demo_state)
  note t = server_tables_in_step [OF demo_in_service s(1) demo_actions_sane(1)]
  from t [of 6] s(2) obtain x where "session s 6 = Some x" by auto
  with t [of 6 c x] t [of 7] s show ?thesis by auto
qed

theorem server_isolation_witness:
  "\<exists>s s'. server_run demo_env demo_server demo_actions s \<and> worker_step demo_env s = Inr s' \<and>
    session s' 6 = session s 6 \<and> k_sent s' 6 = k_sent s 6"
proof -
  obtain s w where s: "server_run demo_env demo_server demo_actions s" "worker s = Some w"
    "runnerThread w = Some AtTest" by (rule demo_state)
  then obtain s' where s': "server_exec demo_env WorkerStep s = Inr s'"
    by (auto simp: worker_step_def)
  have "6 \<notin> touches WorkerStep s" using s by simp
  from server_isolation [OF demo_in_service s(1) demo_actions_sane(1) _ s' this] s(1) s' show ?thesis
    by auto
qed

theorem responses_announced_witness:
  "\<exists>s. server_run demo_env demo_server demo_actions s \<and> fst (eventfd_read (k_count s))"
proof -
  obtain s where s: "server_run demo_env demo_server demo_actions s" "wq_items (wqOut s) = [(6, demo_frame)]"
    by (rule demo_state)
  with responses_announced [OF demo_in_service s(1) demo_actions_sane] show ?thesis by auto
qed

theorem response_sent_or_dropped_witness:
  "\<exists>s s'. server_run demo_env demo_server demo_actions s \<and>
    handle_event ((demo_event 4)\<lparr>ev_tx := [TxRoom 5]\<rparr>) s = Inr s' \<and> k_sent s' 6 = k_sent s 6 @ wire demo_frame"
proof -
  obtain s c where s: "server_run demo_env demo_server demo_actions s" "wq_items (wqOut s) = [(6, demo_frame)]"
    "fdInfoTable s 6 = Some c" "\<not> writeInProgress (cc_deframer c)" "srv_fd s = 5" "eventFdOut s = 4"
    by (rule demo_state)
  have "\<exists>s'. handle_event ((demo_event 4)\<lparr>ev_tx := [TxRoom 5]\<rparr>) s = Inr s' \<and> wq_items (wqOut s') = [] \<and>
      k_sent s' 6 = (if writeInProgress (cc_deframer c) then k_sent s 6 else k_sent s 6 @ wire demo_frame)"
    by (rule response_sent_or_dropped [OF demo_in_service s(1) demo_actions_sane _ _ s(2,3) demo_frame_wf(1) _
          demo_frame_wf(2)]) (simp_all add: s(5,6) demo_event_def)
  with s(1,4) show ?thesis by auto
qed

theorem stale_response_reaches_new_client_witness:
  "\<exists>s s'. server_run demo_env demo_server demo_actions s \<and>
    handle_events [(demo_event 6)\<lparr>ev_hup := True\<rparr>, demo_accept, (demo_event 4)\<lparr>ev_tx := [TxRoom 5]\<rparr>] s = Inr s' \<and>
    k_sent s' 6 = wire demo_frame"
proof -
  obtain s c w where s: "server_run demo_env demo_server demo_actions s" "wq_items (wqOut s) = [(6, demo_frame)]"
    "fdInfoTable s 6 = Some c" "srv_fd s = 5" "eventFdOut s = 4" "worker s = Some w"
    by (rule demo_state)
  have "\<exists>s'. handle_events [(demo_event 6)\<lparr>ev_hup := True\<rparr>, demo_accept, (demo_event 4)\<lparr>ev_tx := [TxRoom 5]\<rparr>] s = Inr s' \<and>
      k_sent s' 6 = wire demo_frame \<and>
      session s' 6 = Some (new_session (worker_factory w)
        (ac_seed \<lparr>ac_fd = 6, ac_addr = 0, ac_added = True, ac_seed = 7, ac_fill = 0\<rparr>))"
    by (rule stale_response_reaches_new_client [OF demo_in_service s(1) demo_actions_sane s(6,2) _ demo_frame_wf(1)
          _ _ _ _ _ _ _ _ _ _ _ _ _ demo_frame_wf(2)])
      (simp_all add: s demo_event_def demo_accept_def)
  with s(1) show ?thesis by blast
qed

end
