(* ===== verification/ClientDemo.thy ===== *)
theory ClientDemo
  imports ClientSessions SessionDemo
begin

text \<open>The client's properties at concrete inputs, in the environment \<open>demo_env\<close>.\<close>

definition demo_dial :: dial where
  "demo_dial =
     \<lparr>d_socket = 3, d_rcvtimeo = 0, d_sndtimeo = 0, d_connect = 0, d_read_eagain = True, d_write_eagain = False,
      d_rx = [], d_tx = [TxRoom 500]\<rparr>"

definition demo_client :: client where
  "demo_client = Client_new ''127.0.0.1'' 4000 False 5"

lemma demo_dial_ok: "dial_ok demo_dial" "d_tx demo_dial = [TxRoom 500]"
  by (simp_all add: dial_ok_def demo_dial_def)

lemma demo_client_new: "\<not> isConnected demo_client" "coder_key (cl_coder demo_client) = None"
  by (simp_all add: demo_client_def Client_new_def)

text \<open>A handshake with the session of \<open>SessionDemo\<close>.\<close>

lemma demo_handshake:
  obtains f1 f2 g1 g2 c cs h key k n where
    "Client_connect demo_env (demo_dial\<lparr>d_rx := deliver g1 @ deliver g2\<rparr>) demo_client = (Inr True, c)"
    "coder_key (cl_coder c) = Some key" "cl_io c = Some k" "conn_open k" "io_tx k = [TxRoom n]" "270 \<le> n"
    "run_frames demo_env [(None, f1), (None, f2)] demo_session = Inr cs" "ctx_io cs = Some [g1, g2]"
    "ctx_state cs = Some (HAuth h)" "coder_key (ah_coder h) = Some key" "session_wf cs"
    "finalStateFactory cs = Some TestUserHandlerFactory"
proof -
  have cs: "ctx_io demo_session = Some []" "finalStateFactory demo_session = Some TestUserHandlerFactory"
    "ctx_state demo_session = Some (HConnected ProtocolConnectedHandler_new)"
    "\<not> isKexComplete ProtocolConnectedHandler_new"
    by (simp_all add: new_session_def setIO_def ProtocolContext_new_def ProtocolConnectedHandler_new_def)
  have "230 \<le> (500 :: nat)" by simp
  from handshake [OF demo_env_ok demo_dial_ok this demo_client_new new_session_wf cs(1,3,4), of None None]
  obtain f1 f2 g1 g2 c cs' h key where h:
    "Client_connect demo_env (demo_dial\<lparr>d_rx := deliver g1 @ deliver g2\<rparr>) demo_client = (Inr True, c)"
    "coder_key (cl_coder c) = Some key" "channel_ready c [] (500 - length (wire f1) - length (wire f2))"
    "run_frames demo_env [(None, f1), (None, f2)] demo_session = Inr cs'" "ctx_io cs' = Some [g1, g2]"
    "ctx_state cs' = Some (HAuth h)" "coder_key (ah_coder h) = Some key" "session_wf cs'"
    "finalStateFactory cs' = finalStateFactory demo_session" "length (wire f1) + length (wire f2) \<le> 230"
    by auto
  from h(3,10) obtain k where "cl_io c = Some k" "conn_open k"
    "io_tx k = [TxRoom (500 - length (wire f1) - length (wire f2))]"
    by (auto simp: channel_ready_def io_ready_def tx_room_def)
  with h that cs(2) show thesis by simp
qed

section \<open>Witnesses\<close>

theorem handshake_completes_witness:
  "\<exists>f1 f2 g1 g2 c cs h key.
    Client_connect demo_env (demo_dial\<lparr>d_rx := deliver g1 @ deliver g2\<rparr>) (Client_new ''127.0.0.1'' 4000 False 5) =
      (Inr True, c) \<and>
    client_out c = wire f1 @ wire f2 \<and> coder_key (cl_coder c) = Some key \<and>
    run_frames demo_env [(None, f1), (None, f2)] (new_session (Some TestUserHandlerFactory) 7) = Inr cs \<and>
    ctx_io cs = Some [g1, g2] \<and> ctx_state cs = Some (HAuth h) \<and> remainingAttempts h = 5 \<and>
    coder_key (ah_coder h) = Some key \<and> session_wf cs"
  by (rule handshake_completes [OF demo_env_ok demo_dial_ok]) simp

definition demo_auth :: authenticator where
  "demo_auth = addUser [97] (PasswordAuthentication [98]) Authenticator_empty"

lemma demo_auth_accepts:
  assumes "ClientAuthRequest_view req = (t, Some [97], Some [98])"
  shows "lets_in (Some demo_auth) req"
  using assms
  by (auto simp: ClientAuthRequest_view_def lets_in_def authenticate_def demo_auth_def addUser_def Let_def
      Authenticator_empty_def ClientAuthRequest_username_def ClientAuthRequest_internal_username_def
      PasswordAuthentication_verify_def ClientAuthRequest_has_authcredential_def
      ClientAuthRequest_authcredential_def ClientAuthRequest_internal_authcredential_def split: if_splits)

theorem authenticate_verdict_witness:
  "\<exists>c c' f cs cs'. Client_authenticate demo_env [97] [98] c = (Inr True, c') \<and> hasAuthenticated c' \<and>
    ProtocolContext_handleFrame demo_env (Some demo_auth) f cs = Inr cs' \<and> phase_of (ctx_state cs') = Serving"
proof -
  obtain g1 g2 and c :: client and cs :: proto_context and h :: auth_handler and key and k :: io_socket and n where h: "cl_io c = Some k" "conn_open k" "io_tx k = [TxRoom n]"
    "coder_key (cl_coder c) = Some key" "270 \<le> n"
    "session_wf cs" "ctx_io cs = Some [g1, g2]" "ctx_state cs = Some (HAuth h)" "coder_key (ah_coder h) = Some key"
    "finalStateFactory cs = Some TestUserHandlerFactory"
    by (rule demo_handshake) blast
  have u: "VerifyUtf8 pb_lib [97]" by (simp add: pb_lib_def pb_utf8_def)
  have len: "length [97 :: byte] + length [98 :: byte] \<le> 60000" "length [97 :: byte] + length [98 :: byte] + 60 \<le> n"
    using h(5) by simp_all
  obtain f g req c' cs' where r: "Client_authenticate demo_env [97] [98] (c\<lparr>cl_io := Some (k\<lparr>io_rx := deliver g\<rparr>)\<rparr>) =
      (Inr (lets_in (Some demo_auth) req), c')"
    "hasAuthenticated c' = (lets_in (Some demo_auth) req \<or> hasAuthenticated c)"
    "ProtocolContext_handleFrame demo_env (Some demo_auth) f cs = Inr cs'"
    "ClientAuthRequest_view req = (ClientAuthRequest_RequestType_AUTH_SUPPLY, Some [97], Some [98])"
    "phase_of (ctx_state cs') = (if lets_in (Some demo_auth) req then entry_phase (finalStateFactory cs)
      else if 0 < remainingAttempts h then Authenticating (remainingAttempts h - 1) else Closed)"
    using authenticate_verdict [OF demo_env_ok h(1-4) u len h(6-9), of "Some demo_auth"] by blast
  have "lets_in (Some demo_auth) req" by (rule demo_auth_accepts [OF r(4)])
  with r h(10) show ?thesis
    by (intro exI [of _ "c\<lparr>cl_io := Some (k\<lparr>io_rx := deliver g\<rparr>)\<rparr>"] exI [of _ c'] exI [of _ f] exI [of _ cs] exI [of _ cs'])
      (simp only: if_True entry_phase.simps, simp)
qed

lemma demo_utf8: "VerifyUtf8 pb_lib [104, 105]" "VerifyUtf8 pb_lib (echo [104, 105])" "VerifyUtf8 pb_lib [97]"
  by (simp_all add: pb_lib_def pb_utf8_def echo_def ascii_def)

theorem connect_true_encrypts_witness:
  "\<exists>d c k0 resp s. Client_connect demo_env d demo_client = (Inr True, c) \<and>
    cl_io (snd (connect_sock d demo_client)) = Some k0 \<and> kex_answer demo_env k0 (cl_coder demo_client) resp \<and>
    Agree (dh demo_env) (fst (GenerateKeyPair (dh demo_env) (cl_rng demo_client)))
      (KexMsg_pkey (ServerConnectedStateResponse_kex resp)) = Some s \<and> is_encr (cl_coder c)"
proof -
  obtain g1 g2 c where c:
    "Client_connect demo_env (demo_dial\<lparr>d_rx := deliver g1 @ deliver g2\<rparr>) demo_client = (Inr True, c)"
    by (rule demo_handshake) blast
  from connect_true_encrypts [OF this] c show ?thesis by blast
qed

end
