(* ===== verification/EndToEndDemo.thy ===== *)
theory EndToEndDemo
  imports EndToEnd ServerRaces ServerDemo ClientDemo
begin

text \<open>The properties of \<open>EndToEnd\<close> and \<open>ServerRaces\<close> at concrete inputs: the server of \<open>ServerDemo\<close>, whose first client
  is descriptor 6, and the client of \<open>ClientDemo\<close>.\<close>

definition arrival :: "frame \<Rightarrow> epoll_event" where
  "arrival f = (demo_event 6)\<lparr>ev_rx := [RxData (wire f)]\<rparr>"

definition departure :: "frame \<Rightarrow> epoll_event" where
  "departure g = (demo_event 4)\<lparr>ev_tx := [TxRoom (length (wire g))]\<rparr>"

lemma arrival_delivers: "delivers 6 [f] (arrival f)"
  by (simp add: delivers_def arrival_def demo_event_def unsplit_def wire_def)

lemma departure_announces: "eventFdOut s = 4 \<Longrightarrow> announces s (departure g) g"
  by (auto simp: announces_def departure_def demo_event_def)

lemma demo_server_fields:
  "eventFdOut demo_server = 4" "srv_fd demo_server = 5" "fdInfoTable demo_server = Map.empty" "srv_auth demo_server = None"
  "worker demo_server = Some (ServerWorker_start (ServerWorker_new (Some TestUserHandlerFactory) 4))"
  by (simp_all add: demo_server_def Server_run_start_def bindSock_defs setUserHandlerFactory_def Server_new_def Let_def)

lemma demo_accept_fields:
  "ev_fd demo_accept = 5" "ev_in demo_accept" "\<not> ev_err demo_accept"
  "ev_accept demo_accept = AcceptOk \<lparr>ac_fd = 6, ac_addr = 0, ac_added = True, ac_seed = 7, ac_fill = 0\<rparr>"
  by (simp_all add: demo_accept_def demo_event_def)

text \<open>The accepted connection.\<close>

lemma demo_serving:
  assumes "quiet s" "worker s = Some w" "fdInfoTable s 6 = None" "session s 6 = None" "srv_fd s = 5" "eventFdOut s = 4"
  obtains s' where "server_run E s [LoopEvent demo_accept] s'" "serving s' 6 (new_session (worker_factory w) 7)"
    "srv_auth s' = srv_auth s" "eventFdOut s' = 4" "k_sent s' 6 = []" "srv_fd s' = 5"
proof -
  have "(6 :: int) \<noteq> srv_fd s" "(6 :: int) \<noteq> eventFdOut s" "ev_fd demo_accept = srv_fd s"
    using assms(5,6) demo_accept_fields(1) by simp_all
  from accepted_serving [OF assms(1-4) this(1,2) _ this(3) demo_accept_fields(2-4)]
  obtain s' where "handle_event demo_accept s = Inr s'" "serving s' 6 (new_session (worker_factory w) 7)"
    "srv_auth s' = srv_auth s" "eventFdOut s' = eventFdOut s"
    "k_sent s' 6 = []" "srv_fd s' = srv_fd s" by auto
  with that assms(5,6) server_run_one [of E "LoopEvent demo_accept" s s'] show thesis by simp
qed

lemma demo_quiet: "quiet demo_server"
  by (rule quiet_start [OF demo_in_service]) (simp add: demo_server_fields)

section \<open>Witnesses\<close>

definition demo_junk :: frame where
  "demo_junk = \<lparr>fr_header = 0xF0, fr_len = 1, fr_msg = [0xFF]\<rparr>"

lemma demo_junk_answer:
  "case run_frames demo_env (map (Pair None) [demo_junk]) demo_session of
     Inl e \<Rightarrow> False
   | Inr x \<Rightarrow> isActive x \<and> ctx_io x = Some [demo_frame]"
  by code_simp

theorem frames_are_served_witness:
  "\<exists>acts s'. server_run demo_env demo_server acts s' \<and> k_sent s' 6 = wires [demo_frame]"
proof -
  have none: "fdInfoTable demo_server 6 = None" "session demo_server 6 = None"
    by (simp_all add: demo_server_fields session_def ServerWorker_start_def ServerWorker_new_def)
  have fac: "worker_factory (ServerWorker_start (ServerWorker_new (Some TestUserHandlerFactory) 4)) =
      Some TestUserHandlerFactory"
    by (simp add: ServerWorker_start_def ServerWorker_new_def)
  obtain s where s: "server_run demo_env demo_server [LoopEvent demo_accept] s" "serving s 6 demo_session"
    "srv_auth s = None" "eventFdOut s = 4" "k_sent s 6 = []"
    using demo_serving [OF demo_quiet demo_server_fields(5) none demo_server_fields(2,1)] fac demo_server_fields(4)
    by metis
  from demo_junk_answer obtain x where x: "run_frames demo_env (map (Pair (srv_auth s)) [demo_junk]) demo_session = Inr x"
    "isActive x" "ctx_io x = Some [demo_frame]"
    unfolding s(3) by (auto split: sum.splits)
  have 1: "list_all sane_action [LoopEvent demo_accept]" "list_all frame_ok [demo_junk]" "list_all frame_wf [demo_frame]"
    "length [demo_frame] \<le> eventfd_max"
    using demo_frame_wf(1)
    by (simp_all add: demo_accept_def demo_event_def demo_junk_def frame_ok_def frame_wf_def header_ok_def eventfd_max_def)
  have 2: "list_all2 (announces s) [departure demo_frame] [demo_frame]"
    using departure_announces [OF s(4)] by simp
  from frames_are_served [OF demo_in_service s(1) 1(1) s(2) x 1(2-4) arrival_delivers 2] s(5)
  obtain acts s' where "server_run demo_env s acts s'" "k_sent s' = (k_sent s)(6 := [] @ wires [demo_frame])" by auto
  with server_run_append [OF s(1)] show ?thesis by fastforce
qed

text \<open>The server gets a user, a client connects, logs in and says \<open>hi\<close>.\<close>

definition demo_known :: server where
  "demo_known = setAuthenticator (Some demo_auth) demo_server"

lemma demo_known_run: "server_run demo_env demo_server [SetAuthenticator (Some demo_auth)] demo_known"
  by (rule server_run_one) (simp add: demo_known_def)

lemma demo_known_fields:
  "eventFdOut demo_known = 4" "srv_fd demo_known = 5" "fdInfoTable demo_known 6 = None" "session demo_known 6 = None"
  "worker demo_known = worker demo_server" "quiet demo_known"
  "srv_auth demo_known = Some (addUser [97] (PasswordAuthentication [98]) Authenticator_empty)"
  using demo_quiet demo_server_fields
  by (simp_all add: demo_known_def setAuthenticator_def session_def ServerWorker_start_def ServerWorker_new_def
      quiet_def demo_auth_def)

theorem client_is_served_by_server_witness:
  "\<exists>fs gs acts s' c2 c3 g resp. fetchRequest (gcm demo_env) (lt_ureq demo_env) (lt_uresp demo_env)
      (UserRequest_set_msg [104, 105] UserRequest_new) ServerResponse_new (receives g c2) = (Inr True, resp, c3) \<and>
    hasAuthenticated c2 \<and> ServerResponse_msg resp = ascii ''You said: hi'' \<and> client_out c3 = wires fs \<and> length fs = 4 \<and>
    server_run demo_env demo_server acts s' \<and> k_sent s' 6 = wires gs \<and> last gs = g \<and> length gs = 4"
proof -
  have echo: "ascii ''You said: hi'' = echo [104, 105]"
    by (simp add: echo_def ascii_def)
  have len: "length [97 :: byte] + length [98 :: byte] \<le> 60000" "length [104 :: byte, 105] \<le> 60000"
    "length [97 :: byte] + length [98 :: byte] + length [104 :: byte, 105] + 350 \<le> 500" by simp_all
  have sane: "list_all sane_action [SetAuthenticator (Some demo_auth)]" by simp
  have fac: "worker_factory (ServerWorker_start (ServerWorker_new (Some TestUserHandlerFactory) 4)) =
      Some TestUserHandlerFactory"
    by (simp add: ServerWorker_start_def ServerWorker_new_def)
  note w = demo_known_fields(5) [unfolded demo_server_fields(5)]
  have fds: "ev_fd demo_accept = srv_fd demo_known" "(6 :: int) \<noteq> srv_fd demo_known" "(6 :: int) \<noteq> eventFdOut demo_known"
    "ac_fd \<lparr>ac_fd = 6, ac_addr = 0, ac_added = True, ac_seed = 7, ac_fill = 0\<rparr> = 6"
    using demo_accept_fields(1) demo_known_fields(1,2) by simp_all
  from client_is_served_by_server [OF demo_env_ok demo_dial_ok demo_utf8(3,1,2) len demo_in_service demo_known_run sane
      demo_known_fields(6) w fac demo_known_fields(7) fds(1) demo_accept_fields(2-4) fds(4) demo_known_fields(3) fds(2,3),
      of "''127.0.0.1''" 4000 False 5]
  obtain f1 f2 f3 f4 g1 g2 g3 g4 and c2 c3 :: client and resp where c:
    "fetchRequest (gcm demo_env) (lt_ureq demo_env) (lt_uresp demo_env) (UserRequest_set_msg [104, 105] UserRequest_new)
      ServerResponse_new (receives g4 c2) = (Inr True, resp, c3)"
    "hasAuthenticated c2" "ServerResponse_msg resp = echo [104, 105]" "client_out c3 = wires [f1, f2, f3, f4]"
    "\<forall>ins outs. list_all2 (\<lambda>ev f. delivers 6 [f] ev) ins [f1, f2, f3, f4] \<and>
        list_all2 (announces demo_known) outs [g1, g2, g3, g4] \<longrightarrow>
      (\<exists>s'. server_run demo_env demo_known (LoopEvent demo_accept # concat (map2 turn ins outs)) s' \<and>
         k_sent s' 6 = wires [g1, g2, g3, g4])"
    by blast
  have "list_all2 (\<lambda>ev f. delivers 6 [f] ev) (map arrival [f1, f2, f3, f4]) [f1, f2, f3, f4]"
    "list_all2 (announces demo_known) (map departure [g1, g2, g3, g4]) [g1, g2, g3, g4]"
    using arrival_delivers departure_announces [OF demo_known_fields(1)] by simp_all
  with c(5) obtain acts s' where "server_run demo_env demo_known acts s'" "k_sent s' 6 = wires [g1, g2, g3, g4]"
    by blast
  with server_run_append [OF demo_known_run] c(1-4) echo show ?thesis
    by (intro exI [of _ "[f1, f2, f3, f4]"] exI [of _ "[g1, g2, g3, g4]"] exI [of _ "[SetAuthenticator (Some demo_auth)] @ acts"]
        exI [of _ s'] exI [of _ c2] exI [of _ c3] exI [of _ g4] exI [of _ resp]) simp
qed

text \<open>A server with the default factory: the accepted login ends the session.\<close>

definition demo_plain :: server where
  "demo_plain =
     Server_run_start (snd (bindSock 5 True True True True
       (setUserHandlerFactory (Some NullUserHandlerFactory) (projr (Server_new 3 4 EBADF)))))"

lemma demo_plain_fields:
  "eventFdOut demo_plain = 4" "srv_fd demo_plain = 5" "fdInfoTable demo_plain = Map.empty"
  "worker demo_plain = Some (ServerWorker_start (ServerWorker_new (Some NullUserHandlerFactory) 4))"
  by (simp_all add: demo_plain_def Server_run_start_def bindSock_defs setUserHandlerFactory_def Server_new_def Let_def)

lemma demo_plain_in_service: "in_service demo_plain"
  unfolding in_service_def
proof (intro exI conjI)
  show "Server_new 3 4 EBADF = Inr (projr (Server_new 3 4 EBADF))"
    by (simp add: Server_new_def)
  show "bindSock 5 True True True True
      (setUserHandlerFactory (Some NullUserHandlerFactory) (projr (Server_new 3 4 EBADF))) =
      (True, snd (bindSock 5 True True True True
        (setUserHandlerFactory (Some NullUserHandlerFactory) (projr (Server_new 3 4 EBADF)))))"
    by (simp add: bindSock_defs setUserHandlerFactory_def Server_new_def)
qed (simp add: demo_plain_def)

lemma demo_finishing:
  obtains acts s g where "server_run demo_env demo_plain acts s" "list_all sane_action acts" "finishing demo_env s 6 g"
    "eventFdOut s = 4" "srv_fd s = 5"
proof -
  let ?a = "Some (addUser [97] (PasswordAuthentication [98]) Authenticator_empty)"
  let ?s = "setAuthenticator ?a demo_plain"
  let ?w = "ServerWorker_start (ServerWorker_new (Some NullUserHandlerFactory) 4)"
  have q: "quiet ?s"
    using quiet_start [OF demo_plain_in_service] by (simp add: demo_plain_fields quiet_def setAuthenticator_def)
  have f: "worker ?s = Some ?w" "fdInfoTable ?s 6 = None" "session ?s 6 = None" "srv_fd ?s = 5" "eventFdOut ?s = 4"
    by (simp_all add: demo_plain_fields setAuthenticator_def session_def ServerWorker_start_def ServerWorker_new_def)
  have fac: "worker_factory ?w = Some NullUserHandlerFactory"
    by (simp add: ServerWorker_start_def ServerWorker_new_def)
  obtain s1 where s1: "server_run demo_env ?s [LoopEvent demo_accept] s1"
    "serving s1 6 (new_session (Some NullUserHandlerFactory) 7)" "srv_auth s1 = srv_auth ?s" "eventFdOut s1 = 4"
    "srv_fd s1 = 5"
    using demo_serving [OF q f] unfolding fac by metis
  have srv: "srv_auth s1 = ?a" using s1(3) by (simp add: setAuthenticator_def)
  have len: "length [97 :: byte] + length [98 :: byte] \<le> 60000" "length [97 :: byte] + length [98 :: byte] + 290 \<le> 500"
    by simp_all
  have "entry_phase (Some NullUserHandlerFactory) = Closed" by simp
  from login_finishes [OF demo_env_ok demo_dial_ok demo_utf8(3) len s1(2) this srv, of "''127.0.0.1''" 4000 False 5]
  obtain f1 f2 f3 g1 g2 g3 where
    run: "\<forall>ins outs ev. list_all2 (\<lambda>ev f. delivers 6 [f] ev) ins [f1, f2] \<and> list_all2 (announces s1) outs [g1, g2] \<and>
        delivers 6 [f3] ev \<longrightarrow>
      (\<exists>s'. server_run demo_env s1 (concat (map2 turn ins outs) @ LoopEvent ev # replicate 3 WorkerStep) s' \<and>
         finishing demo_env s' 6 g3 \<and> eventFdOut s' = eventFdOut s1 \<and> srv_fd s' = srv_fd s1)"
    by blast
  let ?ins = "map arrival [f1, f2]" and ?outs = "map departure [g1, g2]"
  let ?acts = "concat (map2 turn ?ins ?outs) @ LoopEvent (arrival f3) # replicate 3 WorkerStep"
  have evs: "list_all2 (\<lambda>ev f. delivers 6 [f] ev) ?ins [f1, f2]" "list_all2 (announces s1) ?outs [g1, g2]"
    using arrival_delivers departure_announces [OF s1(4)] by simp_all
  with run arrival_delivers obtain s2 where s2: "server_run demo_env s1 ?acts s2" "finishing demo_env s2 6 g3"
    "eventFdOut s2 = 4" "srv_fd s2 = srv_fd s1" using s1(4) by metis
  have "server_run demo_env demo_plain [SetAuthenticator ?a] ?s" by (rule server_run_one) simp
  from server_run_append [OF this server_run_append [OF s1(1) s2(1)]]
  have r: "server_run demo_env demo_plain ([SetAuthenticator ?a] @ [LoopEvent demo_accept] @ ?acts) s2" .
  have "list_all sane_action ([SetAuthenticator ?a] @ [LoopEvent demo_accept] @ ?acts)"
    by (simp add: demo_accept_def arrival_def departure_def demo_event_def turn_def numeral_eq_Suc)
  with that r s2 s1(5) show thesis by simp
qed

theorem last_reply_race_witness:
  "\<exists>s1 s2 acts g. server_run demo_env demo_plain (acts @ [WorkerStep, LoopEvent (departure g), WorkerStep]) s1 \<and>
    server_run demo_env demo_plain (acts @ [WorkerStep, WorkerStep, LoopEvent (departure g)]) s2 \<and>
    k_sent s1 6 = k_sent s2 6 @ wire g \<and> wq_items (wqOut s2) = []"
proof -
  obtain acts s g where s: "server_run demo_env demo_plain acts s" "list_all sane_action acts" "finishing demo_env s 6 g"
    "eventFdOut s = 4" "srv_fd s = 5" by (rule demo_finishing)
  from last_reply_race [OF s(3) departure_announces [OF s(4)]] server_run_append [OF s(1)] show ?thesis
    by metis
qed

theorem closing_hits_new_client_witness:
  "\<exists>s1 s2 acts. server_run demo_env demo_plain (acts @ [LoopEvent ((demo_event 6)\<lparr>ev_hup := True\<rparr>), LoopEvent demo_accept]) s1 \<and>
    session s1 6 \<noteq> None \<and> server_run demo_env s1 [WorkerStep] s2 \<and> session s2 6 = None \<and> 6 \<notin> k_open s2"
proof -
  obtain acts s g where s: "server_run demo_env demo_plain acts s" "list_all sane_action acts" "finishing demo_env s 6 g"
    "eventFdOut s = 4" "srv_fd s = 5" by (rule demo_finishing)
  from finishing_step [OF s(3)] obtain w q s1 where s1: "worker_step demo_env s = Inr s1" "worker s1 = Some w"
    "runnerThread w = Some (Closing 6)" "wqOut s1 = q" "wq_items q = [(6, g)]" "k_count s1 = 1"
    "fdInfoTable s1 = fdInfoTable s" "eventFdOut s1 = eventFdOut s" "srv_fd s1 = srv_fd s" "k_sent s1 = k_sent s" .
  have r: "server_run demo_env demo_plain (acts @ [WorkerStep]) s1" "list_all sane_action (acts @ [WorkerStep])"
    using server_run_append [OF s(1) server_run_one] s1(1) s(2) by auto
  have "fdInfoTable s1 6 \<noteq> None" using s(3) s1(7) by (auto simp: finishing_def)
  moreover have "(6 :: int) \<noteq> srv_fd s1" "(6 :: int) \<noteq> eventFdOut s1" "ev_fd demo_accept = srv_fd s1"
    using s(4,5) s1(8,9) demo_accept_fields(1) by simp_all
  ultimately obtain s2 s3 where
    "server_run demo_env s1 [LoopEvent ((demo_event 6)\<lparr>ev_hup := True\<rparr>), LoopEvent demo_accept] s2"
    "session s2 6 \<noteq> None" "server_run demo_env s2 [WorkerStep] s3" "session s3 6 = None" "6 \<notin> k_open s3"
    using closing_hits_new_client [OF demo_plain_in_service r s1(2,3), of "(demo_event 6)\<lparr>ev_hup := True\<rparr>" demo_accept,
        OF _ _ _ _ _ _ _ demo_accept_fields(2-4)]
    by (auto simp: demo_event_def)
  with server_run_append [OF r(1)] show ?thesis by (metis append.assoc)
qed

end
