(* ===== verification/FineWorkers.thy ===== *)
theory FineWorkers
  imports ServerRaces
begin

text \<open>
  The worker's thread (\<open>ServerWorker::run\<close>, \<open>Server::closeClient(int)\<close>) with every access to the shared tables a step
  of its own. In \<open>Servers\<close> the handling of one frame is one step, and so is the closing of a connection; here the event
  loop may run between the lookup of a session and each use of the iterator, and between the lookup of a
  connection, the closing of its socket, the removal from the epoll set and the removal from the tables. No lock
  is held at these points.

  \<open>run\<close> keeps an iterator into \<open>handlerTable\<close>, \<open>closeClient\<close> a reference into \<open>fdInfoTable\<close>. The flag that goes with
  them says whether the entry is still there: the event loop may erase it, and a use is then a use of freed memory. (A
  rehash by an insertion also invalidates the iterator in the sense of the standard; the node stays where it is, and
  this is not modelled.)
\<close>

section \<open>Points of the thread\<close>

text \<open>
  \<open>Outside\<close>: as the state of the worker says. In the body of the loop, with an iterator: before the first
  \<open>isActive\<close>, before \<open>handleFrame\<close>, before the second \<open>isActive\<close>. In \<open>closeClient\<close>, with a reference: before
  \<open>close\<close>, before \<open>epollDelClient\<close>, before \<open>destroyHandler\<close>.
\<close>

datatype fine_pc =
    Outside
  | Found work_item bool
  | Active work_item bool
  | Handled work_item bool
  | ClosingConn int bool
  | SocketClosed int bool
  | Unregistered int bool

record fine =
  fine_server :: server
  fine_pc :: fine_pc

definition fine_start :: "server \<Rightarrow> fine" where
  "fine_start s = \<lparr>fine_server = s, fine_pc = Outside\<rparr>"

fun stale :: "fine_pc \<Rightarrow> bool" where
  "stale Outside = False"
| "stale (Found itm valid) = (\<not> valid)"
| "stale (Active itm valid) = (\<not> valid)"
| "stale (Handled itm valid) = (\<not> valid)"
| "stale (ClosingConn fd valid) = (\<not> valid)"
| "stale (SocketClosed fd valid) = (\<not> valid)"
| "stale (Unregistered fd valid) = (\<not> valid)"

section \<open>Steps\<close>

text \<open>\<open>handleFrame\<close> through the iterator; its replies go to the sink.\<close>

definition fine_handle :: "proto_env \<Rightarrow> work_item \<Rightarrow> server \<Rightarrow> fault + server" where
  "fine_handle E msg s =
     (case worker s of
        None \<Rightarrow> Inl NullDereference
      | Some w \<Rightarrow>
          (case handlerTable w (fst msg) of
             None \<Rightarrow> Inl UseAfterFree
           | Some ctx \<Rightarrow>
               (case ProtocolContext_handleFrame E (getAuthenticator s) (snd msg) ctx of
                  Inl e \<Rightarrow> Inl e
                | Inr ctx' \<Rightarrow>
                    let (q, n) = sink_frames (fst msg) (case ctx_io ctx' of None \<Rightarrow> [] | Some ws \<Rightarrow> ws) (wqOut s, k_count s)
                    in Inr (s\<lparr>wqOut := q, k_count := n,
                         worker := Some (w\<lparr>handlerTable := (handlerTable w)(fst msg \<mapsto> setIO (Some []) ctx')\<rparr>)\<rparr>))))"

definition conn_fd :: "int \<Rightarrow> server \<Rightarrow> fault + int" where
  "conn_fd fd s = (case fdInfoTable s fd of None \<Rightarrow> Inl UseAfterFree | Some cctx \<Rightarrow> Inr (cc_fd cctx))"

text \<open>The lookups, which create the iterator and the reference; every other step of the thread is as before.\<close>

definition fine_outside :: "proto_env \<Rightarrow> server \<Rightarrow> fault + fine" where
  "fine_outside E s =
     (case map_option runnerThread (worker s) of
        Some (Some (Processing itm)) \<Rightarrow>
          (if session s (fst itm) = None then Inr \<lparr>fine_server = set_pc AtTest s, fine_pc = Outside\<rparr>
           else Inr \<lparr>fine_server = s, fine_pc = Found itm True\<rparr>)
      | Some (Some (Closing fd)) \<Rightarrow>
          (case fdInfoTable s fd of
             None \<Rightarrow> Inr \<lparr>fine_server = set_pc AtTest s, fine_pc = Outside\<rparr>
           | Some cctx \<Rightarrow> Inr \<lparr>fine_server = s, fine_pc = ClosingConn fd True\<rparr>)
      | _ \<Rightarrow> map_sum id fine_start (worker_step E s))"

definition fine_worker :: "proto_env \<Rightarrow> fine \<Rightarrow> fault + fine" where
  "fine_worker E f =
     (let s = fine_server f
      in if stale (fine_pc f) then Inl UseAfterFree
         else case fine_pc f of
           Outside \<Rightarrow> fine_outside E s
         | Found itm _ \<Rightarrow>
             (case session s (fst itm) of
                None \<Rightarrow> Inl UseAfterFree
              | Some ctx \<Rightarrow>
                  if isActive ctx then Inr \<lparr>fine_server = s, fine_pc = Active itm True\<rparr>
                  else Inr \<lparr>fine_server = set_pc AtTest (s\<lparr>worker := map_option (destroyContext (fst itm)) (worker s)\<rparr>),
                            fine_pc = Outside\<rparr>)
         | Active itm _ \<Rightarrow> map_sum id (\<lambda>s. \<lparr>fine_server = s, fine_pc = Handled itm True\<rparr>) (fine_handle E itm s)
         | Handled itm _ \<Rightarrow>
             (case session s (fst itm) of
                None \<Rightarrow> Inl UseAfterFree
              | Some ctx \<Rightarrow> Inr (fine_start (set_pc (if \<not> isActive ctx then Closing (fst itm) else AtTest) s)))
         | ClosingConn fd _ \<Rightarrow>
             map_sum id (\<lambda>g. \<lparr>fine_server = k_close g s, fine_pc = SocketClosed fd True\<rparr>) (conn_fd fd s)
         | SocketClosed fd _ \<Rightarrow>
             map_sum id (\<lambda>g. \<lparr>fine_server = snd (epollDelClient g s), fine_pc = Unregistered fd True\<rparr>) (conn_fd fd s)
         | Unregistered fd _ \<Rightarrow>
             map_sum id (\<lambda>g. fine_start (set_pc AtTest (destroyHandler g s))) (conn_fd fd s))"

text \<open>What an action of another thread does to the iterator and the reference.\<close>

fun fine_observe :: "server \<Rightarrow> fine_pc \<Rightarrow> fine_pc" where
  "fine_observe s Outside = Outside"
| "fine_observe s (Found itm valid) = Found itm (valid \<and> session s (fst itm) \<noteq> None)"
| "fine_observe s (Active itm valid) = Active itm (valid \<and> session s (fst itm) \<noteq> None)"
| "fine_observe s (Handled itm valid) = Handled itm (valid \<and> session s (fst itm) \<noteq> None)"
| "fine_observe s (ClosingConn fd valid) = ClosingConn fd (valid \<and> fdInfoTable s fd \<noteq> None)"
| "fine_observe s (SocketClosed fd valid) = SocketClosed fd (valid \<and> fdInfoTable s fd \<noteq> None)"
| "fine_observe s (Unregistered fd valid) = Unregistered fd (valid \<and> fdInfoTable s fd \<noteq> None)"

fun fine_exec :: "proto_env \<Rightarrow> action \<Rightarrow> fine \<Rightarrow> fault + fine" where
  "fine_exec E WorkerStep f = fine_worker E f"
| "fine_exec E a f = map_sum id (\<lambda>s. \<lparr>fine_server = s, fine_pc = fine_observe s (fine_pc f)\<rparr>) (server_exec E a (fine_server f))"

lemma fine_exec_other:
  "a \<noteq> WorkerStep \<Longrightarrow> fine_exec E a f =
     map_sum id (\<lambda>s. \<lparr>fine_server = s, fine_pc = fine_observe s (fine_pc f)\<rparr>) (server_exec E a (fine_server f))"
  by (cases a) simp_all

fun fine_runs :: "proto_env \<Rightarrow> action list \<Rightarrow> fine \<Rightarrow> fault + fine" where
  "fine_runs E [] f = Inr f"
| "fine_runs E (a # as) f = (case fine_exec E a f of Inl e \<Rightarrow> Inl e | Inr f' \<Rightarrow> fine_runs E as f')"

text \<open>An accepted client may get the number of a socket that \<open>closeClient\<close> has closed and not yet removed.\<close>

fun reuses :: "action \<Rightarrow> fine \<Rightarrow> bool" where
  "reuses (LoopEvent ev) f =
     (ev_fd ev = srv_fd (fine_server f) \<and>
      (case (ev_accept ev, fine_pc f) of
         (AcceptOk a, SocketClosed fd _) \<Rightarrow> ac_fd a = fd
       | (AcceptOk a, Unregistered fd _) \<Rightarrow> ac_fd a = fd
       | _ \<Rightarrow> False))"
| "reuses _ f = False"

section \<open>Updates the event loop does not see\<close>

text \<open>
  A step of the worker may come before or after an action of another thread when its effect is an update that
  the action neither reads nor overwrites.
\<close>

locale unseen_update =
  fixes u :: "server \<Rightarrow> server" and allowed :: "accept_result \<Rightarrow> bool"
  assumes fields: "srv_fd (u s) = srv_fd s" "eventFdOut (u s) = eventFdOut s" "fdInfoTable (u s) = fdInfoTable s"
      "wqIn (u s) = wqIn s" "wqOut (u s) = wqOut s" "k_count (u s) = k_count s" "k_sent (u s) = k_sent s"
    and table: "(u s)\<lparr>fdInfoTable := t\<rparr> = u (s\<lparr>fdInfoTable := t\<rparr>)"
    and queues: "(u s)\<lparr>wqIn := q\<rparr> = u (s\<lparr>wqIn := q\<rparr>)" "(u s)\<lparr>wqOut := q\<rparr> = u (s\<lparr>wqOut := q\<rparr>)"
    and kernel: "(u s)\<lparr>k_count := n\<rparr> = u (s\<lparr>k_count := n\<rparr>)" "(u s)\<lparr>k_sent := o'\<rparr> = u (s\<lparr>k_sent := o'\<rparr>)"
    and flags: "(u s)\<lparr>running := b\<rparr> = u (s\<lparr>running := b\<rparr>)" "(u s)\<lparr>srv_auth := a\<rparr> = u (s\<lparr>srv_auth := a\<rparr>)"
    and closes: "closeClient_ctx st c (u s) = u (closeClient_ctx st c s)"
    and accepts: "allowed r \<Longrightarrow> acceptClient r (u s) = u (acceptClient r s)"
    and stops: "Server_stop_begin (u s) = u (Server_stop_begin s)"
begin

lemmas unseen = fields table queues kernel flags closes accepts

lemma conn_writeAll_unseen: "conn_writeAll fd tx c (u s) = map_sum id u (conn_writeAll fd tx c s)"
  by (simp add: conn_writeAll_def unseen Let_def split: prod.split sum.split)

lemma handleDataOut_unseen: "handleDataOut tx (u s) = map_sum id u (handleDataOut tx s)"
  by (simp add: handleDataOut_def unseen conn_writeAll_unseen Let_def split: prod.split option.split bool.split)

lemma handleDataIn_unseen: "handleDataIn fd rx st c (u s) = map_sum id u (handleDataIn fd rx st c s)"
  by (simp add: handleDataIn_def unseen Let_def split: prod.split sum.split)

lemma client_ready_unseen: "client_ready ev c (u s) = map_sum id u (client_ready ev c s)"
  by (simp add: client_ready_def unseen conn_writeAll_unseen)

lemma client_event_unseen: "client_event ev c (u s) = map_sum id u (client_event ev c s)"
proof (cases "client_ready ev c s")
  case (Inl e)
  then show ?thesis by (simp add: client_event_def client_ready_unseen unseen)
next
  case (Inr s1)
  then show ?thesis
    by (simp add: client_event_def client_ready_unseen handleDataIn_unseen unseen split: option.split)
qed

lemma handle_event_unseen:
  assumes "ev_fd ev = srv_fd s \<Longrightarrow> allowed (ev_accept ev)"
  shows "handle_event ev (u s) = map_sum id u (handle_event ev s)"
  using assms by (simp add: handle_event_def unseen client_event_unseen handleDataOut_unseen
      split: prod.split bool.split option.split)

lemma server_exec_unseen:
  assumes "a \<noteq> WorkerStep" "\<And>ev. a = LoopEvent ev \<Longrightarrow> ev_fd ev = srv_fd s \<Longrightarrow> allowed (ev_accept ev)"
  shows "server_exec E a (u s) = map_sum id u (server_exec E a s)"
proof (cases a)
  case (LoopEvent ev)
  with assms(2) [of ev] handle_event_unseen [of ev s] show ?thesis by simp
qed (use assms(1) stops flags in \<open>simp_all add: setAuthenticator_def\<close>)

end

text \<open>The point of the thread, and the closing of a socket whose number is not given out again.\<close>

lemma set_pc_fields:
  "srv_fd (set_pc pc s) = srv_fd s" "eventFdOut (set_pc pc s) = eventFdOut s" "fdInfoTable (set_pc pc s) = fdInfoTable s"
  "wqIn (set_pc pc s) = wqIn s" "wqOut (set_pc pc s) = wqOut s" "k_count (set_pc pc s) = k_count s"
  "k_sent (set_pc pc s) = k_sent s" "k_open (set_pc pc s) = k_open s" "k_interest (set_pc pc s) = k_interest s"
  by (simp_all add: set_pc_def split: option.split)

lemma set_pc_updates:
  "(set_pc pc s)\<lparr>fdInfoTable := t\<rparr> = set_pc pc (s\<lparr>fdInfoTable := t\<rparr>)"
  "(set_pc pc s)\<lparr>wqIn := q\<rparr> = set_pc pc (s\<lparr>wqIn := q\<rparr>)"
  "(set_pc pc s)\<lparr>wqOut := q\<rparr> = set_pc pc (s\<lparr>wqOut := q\<rparr>)"
  "(set_pc pc s)\<lparr>k_count := n\<rparr> = set_pc pc (s\<lparr>k_count := n\<rparr>)"
  "(set_pc pc s)\<lparr>k_sent := out\<rparr> = set_pc pc (s\<lparr>k_sent := out\<rparr>)"
  "(set_pc pc s)\<lparr>running := b\<rparr> = set_pc pc (s\<lparr>running := b\<rparr>)"
  "(set_pc pc s)\<lparr>srv_auth := a\<rparr> = set_pc pc (s\<lparr>srv_auth := a\<rparr>)"
  "(set_pc pc s)\<lparr>k_open := A\<rparr> = set_pc pc (s\<lparr>k_open := A\<rparr>)"
  "(set_pc pc s)\<lparr>k_interest := A\<rparr> = set_pc pc (s\<lparr>k_interest := A\<rparr>)"
  by (simp_all add: set_pc_def split: option.split)

lemma set_pc_close: "k_close g (set_pc pc s) = set_pc pc (k_close g s)"
  by (simp add: k_close_def set_pc_fields set_pc_updates)

lemma set_pc_closeClient: "closeClient_ctx st c (set_pc pc s) = set_pc pc (closeClient_ctx st c s)"
  by (cases "worker s") (simp_all add: closeClient_ctx_def set_pc_def epollDelClient_def k_close_def destroyContext_def
      Let_def)

lemma set_pc_create: "snd (createHandler_conn a (set_pc pc s)) = set_pc pc (snd (createHandler_conn a s))"
  by (cases "worker s") (simp_all add: createHandler_conn_def set_pc_def createContext_def Let_def split: option.split)

lemma set_pc_accept: "acceptClient r (set_pc pc s) = set_pc pc (acceptClient r s)"
  by (cases r) (simp_all add: acceptClient_def epollAddClient_def set_pc_fields set_pc_updates set_pc_close set_pc_create Let_def)

lemma set_pc_stop: "Server_stop_begin (set_pc pc s) = set_pc pc (Server_stop_begin s)"
  by (cases "worker s") (simp_all add: Server_stop_begin_def set_pc_def k_notify_def ServerWorker_stop_begin_def)

interpretation pc_update: unseen_update "set_pc pc" "\<lambda>r. True" for pc
  by unfold_locales (simp_all add: set_pc_fields set_pc_updates set_pc_closeClient set_pc_accept set_pc_stop)

lemma close_closeClient: "closeClient_ctx st c (k_close fd s) = k_close fd (closeClient_ctx st c s)"
proof -
  have "snd (epollDelClient g (k_close fd s)) = k_close fd (snd (epollDelClient g s))" for g s
    by (rule server.equality) (auto simp: epollDelClient_def k_close_def)
  moreover have "k_close g (k_close fd s) = k_close fd (k_close g s)" for g s
    by (rule server.equality) (auto simp: k_close_def)
  ultimately show ?thesis
    by (simp add: closeClient_ctx_def Let_def kernel_simps split: option.split) (simp add: k_close_def)
qed

lemma close_create: "snd (createHandler_conn a (k_close fd s)) = k_close fd (snd (createHandler_conn a s))"
  by (rule server.equality) (simp_all add: createHandler_conn_def k_close_def Let_def split: option.split)

lemma close_accept:
  assumes "ac_fd a \<noteq> fd"
  shows "acceptClient (AcceptOk a) (k_close fd s) = k_close fd (acceptClient (AcceptOk a) s)"
proof -
  define open_fd where "open_fd s =
    s\<lparr>k_sent := (k_sent s)(ac_fd a := []), k_open := if ac_added a then insert (ac_fd a) (k_open s) else k_open s - {ac_fd a},
      k_interest := if ac_added a then insert (ac_fd a) (k_interest s) else k_interest s - {ac_fd a}\<rparr>" for s :: server
  have "open_fd (k_close fd s) = k_close fd (open_fd s)"
    using assms by (intro server.equality) (auto simp: open_fd_def k_close_def)
  moreover have "acceptClient (AcceptOk a) s = snd (createHandler_conn a (open_fd s))" for s
    by (auto simp: acceptClient_def epollAddClient_def k_close_def open_fd_def Let_def
        intro: arg_cong [of _ _ "\<lambda>t. snd (createHandler_conn a t)"])
  ultimately show ?thesis by (simp add: close_create)
qed

lemma close_stop: "Server_stop_begin (k_close fd s) = k_close fd (Server_stop_begin s)"
  by (cases "worker s") (simp_all add: Server_stop_begin_def k_close_def k_notify_def ServerWorker_stop_begin_def)

interpretation close_update: unseen_update "k_close fd" "\<lambda>r. \<forall>a. r = AcceptOk a \<longrightarrow> ac_fd a \<noteq> fd" for fd
proof
  show "acceptClient r (k_close fd s) = k_close fd (acceptClient r s)" if "\<forall>a. r = AcceptOk a \<longrightarrow> ac_fd a \<noteq> fd" for r s
    using that close_accept by (cases r) (simp_all add: acceptClient_def k_close_def)
qed (simp_all add: close_closeClient close_stop, simp_all add: k_close_def)

end
