(* ===== verification/FineRefines.thy ===== *)
theory FineRefines
  imports FineWorkers
begin

text \<open>
  The fine-grained worker of \<open>FineWorkers\<close> refines the worker of \<open>Servers\<close>: as long as its steps do not run into an
  erased entry, the server goes through the states of a run in which the handling of a frame and the closing of a
  connection are one step each. The handling takes effect at the call of \<open>handleFrame\<close>, the closing at the last access to
  the tables.
\<close>

section \<open>Simulation of runs\<close>

text \<open>
  One machine simulates another when each of its steps is matched by a run of the other with the same visible
  actions, under a condition on the actions.
\<close>

fun runs :: "('a \<Rightarrow> 's \<Rightarrow> 'e + 's) \<Rightarrow> 'a list \<Rightarrow> 's \<Rightarrow> 'e + 's" where
  "runs step [] s = Inr s"
| "runs step (a # as) s = (case step a s of Inl e \<Rightarrow> Inl e | Inr s' \<Rightarrow> runs step as s')"

fun always :: "('a \<Rightarrow> 's \<Rightarrow> 'e + 's) \<Rightarrow> ('a \<Rightarrow> 's \<Rightarrow> bool) \<Rightarrow> 'a list \<Rightarrow> 's \<Rightarrow> bool" where
  "always step ok [] s = True"
| "always step ok (a # as) s = (ok a s \<and> (case step a s of Inl e \<Rightarrow> True | Inr s' \<Rightarrow> always step ok as s'))"

lemma runs_append: "runs step (as @ bs) s = (case runs step as s of Inl e \<Rightarrow> Inl e | Inr s' \<Rightarrow> runs step bs s')"
  by (induction as arbitrary: s) (simp_all split: sum.split)

locale simulation =
  fixes step1 :: "'a \<Rightarrow> 's \<Rightarrow> 'e + 's" and step2 :: "'a \<Rightarrow> 't \<Rightarrow> 'e + 't"
    and rel :: "'s \<Rightarrow> 't \<Rightarrow> bool" and ok :: "'a \<Rightarrow> 's \<Rightarrow> bool" and visible :: "'a \<Rightarrow> bool"
  assumes match: "\<lbrakk>rel s t; ok a s; step1 a s = Inr s'\<rbrakk> \<Longrightarrow>
    \<exists>bs t'. runs step2 bs t = Inr t' \<and> filter visible bs = filter visible [a] \<and> rel s' t'"
begin

lemma simulates:
  "\<lbrakk>rel s t; always step1 ok as s; runs step1 as s = Inr s'\<rbrakk> \<Longrightarrow>
     \<exists>bs t'. runs step2 bs t = Inr t' \<and> filter visible bs = filter visible as \<and> rel s' t'"
proof (induction as arbitrary: s t)
  case (Cons a as)
  then obtain s1 where 1: "step1 a s = Inr s1" "ok a s" "always step1 ok as s1" "runs step1 as s1 = Inr s'"
    by (auto split: sum.splits)
  with match [OF Cons.prems(1)] obtain bs t1 where 2: "runs step2 bs t = Inr t1"
    "filter visible bs = filter visible [a]" "rel s1 t1" by blast
  from Cons.IH [OF this(3) 1(3,4)] obtain cs t' where "runs step2 cs t1 = Inr t'" "filter visible cs = filter visible as"
    "rel s' t'" by blast
  with 2 show ?case
    by (intro exI [of _ "bs @ cs"] exI [of _ t']) (simp add: runs_append)
qed (auto intro: exI [of _ "[]"])

end

lemma runs_fine: "runs (fine_exec E) as f = fine_runs E as f"
  by (induction as arbitrary: f) (simp_all split: sum.split)

lemma runs_server: "runs (server_exec E) as s = Inr s' \<Longrightarrow> server_run E s as s'"
  by (induction as arbitrary: s) (auto split: sum.splits intro: server_run.intros)

section \<open>The relation\<close>

definition fine_rel :: "fine \<Rightarrow> server \<Rightarrow> bool" where
  "fine_rel f s \<longleftrightarrow>
     (case fine_pc f of
        Outside \<Rightarrow> s = fine_server f
      | Found itm valid \<Rightarrow> s = fine_server f \<and> worker_at s (Processing itm) \<and> (valid \<longrightarrow> session s (fst itm) \<noteq> None)
      | Active itm valid \<Rightarrow> s = fine_server f \<and> worker_at s (Processing itm) \<and> (valid \<longrightarrow> session s (fst itm) \<noteq> None)
      | Handled itm valid \<Rightarrow> \<exists>pc. s = set_pc pc (fine_server f) \<and> (pc = AtTest \<or> pc = Closing (fst itm)) \<and>
          (valid \<longrightarrow> (\<exists>x. session s (fst itm) = Some x \<and> pc = (if \<not> isActive x then Closing (fst itm) else AtTest)))
      | ClosingConn fd valid \<Rightarrow> s = fine_server f \<and> worker_at s (Closing fd) \<and> (valid \<longrightarrow> fdInfoTable s fd \<noteq> None)
      | SocketClosed fd valid \<Rightarrow> fine_server f = k_close fd s \<and> worker_at s (Closing fd) \<and> (valid \<longrightarrow> fdInfoTable s fd \<noteq> None)
      | Unregistered fd valid \<Rightarrow>
          fine_server f = k_close fd s \<and> worker_at s (Closing fd) \<and> (valid \<longrightarrow> fdInfoTable s fd \<noteq> None))"

definition fine_sim :: "fine \<Rightarrow> server \<Rightarrow> bool" where
  "fine_sim f s \<longleftrightarrow> fine_rel f s \<and> server_inv s"

definition fine_ok :: "action \<Rightarrow> fine \<Rightarrow> bool" where
  "fine_ok a f \<longleftrightarrow> sane_action a \<and> \<not> reuses a f"

lemma fine_rel_Handled:
  "fine_pc f = Handled itm v \<Longrightarrow> fine_rel f s \<longleftrightarrow>
     (\<exists>pc. s = set_pc pc (fine_server f) \<and> (pc = AtTest \<or> pc = Closing (fst itm)) \<and>
        (v \<longrightarrow> (\<exists>x. session s (fst itm) = Some x \<and> pc = (if \<not> isActive x then Closing (fst itm) else AtTest))))"
  unfolding fine_rel_def by (simp only: fine_pc.case)

text \<open>What both machines agree on at every moment.\<close>

lemma session_set_pc [simp]: "session (set_pc pc s) g = session s g"
  by (simp add: session_def set_pc_def split: option.split)

lemma session_k_close [simp]: "session (k_close fd s) g = session s g"
  by (simp add: session_def kernel_simps)

lemma fine_rel_same:
  assumes "fine_rel f s"
  shows "fdInfoTable (fine_server f) = fdInfoTable s" "session (fine_server f) = session s" "wqIn (fine_server f) = wqIn s"
    "wqOut (fine_server f) = wqOut s" "k_count (fine_server f) = k_count s" "k_sent (fine_server f) = k_sent s"
proof -
  from assms have "(\<exists>pc. s = set_pc pc (fine_server f)) \<or> (\<exists>fd. fine_server f = k_close fd s) \<or> s = fine_server f"
    unfolding fine_rel_def by (cases "fine_pc f") auto
  then show "fdInfoTable (fine_server f) = fdInfoTable s" "session (fine_server f) = session s" "wqIn (fine_server f) = wqIn s"
    "wqOut (fine_server f) = wqOut s" "k_count (fine_server f) = k_count s" "k_sent (fine_server f) = k_sent s"
    by (elim disjE exE; simp add: set_pc_fields kernel_simps session_k_close fun_eq_iff)+
qed

section \<open>Steps of the other threads\<close>

text \<open>The actions of the other threads leave the point of the worker's thread alone.\<close>

lemma closeClient_ctx_pc:
  "map_option runnerThread (worker (closeClient_ctx st c s)) = map_option runnerThread (worker s)"
  by (simp add: closeClient_ctx_def kernel_simps destroyContext_def Let_def split: option.split)

lemma acceptClient_pc: "map_option runnerThread (worker (acceptClient r s)) = map_option runnerThread (worker s)"
  by (auto simp: acceptClient_def createHandler_conn_def createContext_pc epollAddClient_def k_close_def Let_def
      split: accept_result.split option.split)

lemma conn_writeAll_worker: "conn_writeAll fd tx c s = Inr s' \<Longrightarrow> worker s' = worker s"
  by (auto simp: conn_writeAll_def Let_def split: prod.splits sum.splits)

lemma handleDataOut_worker: "handleDataOut tx s = Inr s' \<Longrightarrow> worker s' = worker s"
  by (auto simp: handleDataOut_def Let_def dest!: conn_writeAll_worker split: prod.splits option.splits bool.splits)

lemma handleDataIn_pc:
  "handleDataIn fd rx st c s = Inr s' \<Longrightarrow> map_option runnerThread (worker s') = map_option runnerThread (worker s)"
  by (auto simp: handleDataIn_def closeClient_ctx_pc Let_def split: prod.splits sum.splits if_splits)

lemma client_event_pc:
  "client_event ev c s = Inr s' \<Longrightarrow> map_option runnerThread (worker s') = map_option runnerThread (worker s)"
  by (auto simp: client_event_def client_ready_def closeClient_ctx_pc dest!: handleDataIn_pc conn_writeAll_worker
      split: if_splits sum.splits option.splits)

lemma handle_event_pc:
  "handle_event ev s = Inr s' \<Longrightarrow> map_option runnerThread (worker s') = map_option runnerThread (worker s)"
  by (auto simp: handle_event_def acceptClient_pc dest!: client_event_pc handleDataOut_worker
      split: if_splits prod.splits bool.splits option.splits)

lemma server_exec_pc:
  assumes "server_exec E a s = Inr s'" "a \<noteq> WorkerStep" "worker_at s pc"
  shows "worker_at s' pc"
proof -
  have "map_option runnerThread (worker s') = map_option runnerThread (worker s)"
    using assms(1,2) handle_event_pc
    by (cases a) (auto simp: Server_stop_begin_def k_notify_def ServerWorker_stop_begin_def setAuthenticator_def Let_def
        split: option.splits)
  with assms(3) show ?thesis by (cases "worker s'") auto
qed

text \<open>They create sessions, for accepted clients only, and drop them, and change none.\<close>

fun created :: "action \<Rightarrow> int set" where
  "created (LoopEvent ev) = (case ev_accept ev of AcceptFail e \<Rightarrow> {} | AcceptOk a \<Rightarrow> {ac_fd a})"
| "created _ = {}"

definition session_moves :: "int set \<Rightarrow> server \<Rightarrow> server \<Rightarrow> bool" where
  "session_moves A s s' \<longleftrightarrow>
     (\<forall>g. session s' g = session s g \<or> session s' g = None \<or>
          g \<in> A \<and> session s g = None \<and> (\<exists>fac r. session s' g = Some (new_session fac r)))"

lemma session_moves_refl: "worker s' = worker s \<Longrightarrow> session_moves A s s'"
  by (simp add: session_moves_def session_def)

lemma session_moves_worker: "worker s = worker t \<Longrightarrow> session_moves A s s' = session_moves A t s'"
  by (simp add: session_moves_def session_def)

lemma session_moves_close: "session_moves A s (closeClient_ctx st c s)"
  by (simp add: session_moves_def session_def closeClient_ctx_def kernel_simps destroyContext_def Let_def split: option.split)

lemma session_moves_accept: "session_moves (created (LoopEvent ev)) s (acceptClient (ev_accept ev) s)"
  by (auto simp: session_moves_def session_def acceptClient_def createHandler_conn_def createContext_table
      epollAddClient_def k_close_def Let_def split: accept_result.split option.split)

lemma session_moves_in:
  assumes "handleDataIn fd rx st c s = Inr s'"
  shows "session_moves A s s'"
proof -
  have *: "session_moves A s (closeClient_ctx st c' (s\<lparr>wqIn := q, fdInfoTable := t\<rparr>))" for c' q t
    using session_moves_close [of A "s\<lparr>wqIn := q, fdInfoTable := t\<rparr>" st c']
      session_moves_worker [of s "s\<lparr>wqIn := q, fdInfoTable := t\<rparr>"] by simp
  with assms show ?thesis
    by (auto simp: handleDataIn_def Let_def session_moves_refl split: prod.splits sum.splits if_splits)
qed

lemma session_moves_client: 
  assumes "client_event ev c s = Inr s'"
  shows "session_moves A s s'"
proof (cases "ev_err ev \<or> ev_hup ev")
  case True
  with assms session_moves_close show ?thesis by (auto simp: client_event_def split: if_splits)
next
  case False
  with assms obtain s1 where s1: "client_ready ev c s = Inr s1"
    by (cases "client_ready ev c s") (auto simp: client_event_def)
  then have w: "worker s1 = worker s"
    by (auto simp: client_ready_def dest!: conn_writeAll_worker split: if_splits)
  then have "session_moves A s s' = session_moves A s1 s'" by (simp add: session_moves_worker [of s1 s])
  with assms False s1 w show ?thesis
    by (auto simp: client_event_def session_moves_refl dest!: session_moves_in split: if_splits option.splits)
qed

lemma server_exec_sessions:
  assumes "server_exec E a s = Inr s'" "a \<noteq> WorkerStep"
  shows "session_moves (created a) s s'"
proof (cases a)
  case (LoopEvent ev)
  with assms(1) show ?thesis
    by (auto simp: handle_event_def session_moves_accept [of ev, simplified] session_moves_refl dest!: session_moves_client handleDataOut_worker
        split: if_splits prod.splits bool.splits option.splits)
next
  case StopBegin
  with assms(1) show ?thesis
    by (auto simp: Server_stop_begin_def k_notify_def ServerWorker_stop_begin_def session_moves_def session_def Let_def
        split: option.splits)
next
  case (SetAuthenticator x)
  with assms(1) show ?thesis by (auto simp: setAuthenticator_def session_moves_refl)
qed (use assms(2) in simp)

lemma fine_sim_other:
  assumes "fine_sim f s" "fine_ok a f" "a \<noteq> WorkerStep" "fine_exec E a f = Inr f'"
  shows "\<exists>s'. server_exec E a s = Inr s' \<and> fine_sim f' s'"
proof -
  obtain t where t: "server_exec E a (fine_server f) = Inr t" "f' = \<lparr>fine_server = t, fine_pc = fine_observe t (fine_pc f)\<rparr>"
    using assms(3,4) by (cases "server_exec E a (fine_server f)") (auto simp: fine_exec_other)
  have inv: "server_inv s'" if "server_exec E a s = Inr s'" for s'
    using server_exec_keeps [of s a E] assms(1,2) that by (simp add: fine_sim_def fine_ok_def)
  note pc = server_exec_pc [OF _ assms(3)]
  have same: "\<exists>s'. server_exec E a s = Inr s' \<and> fine_sim f' s'" if "s = fine_server f" "fine_rel f' t"
    using t that inv by (auto simp: fine_sim_def)
  have closed: "\<exists>s'. server_exec E a s = Inr s' \<and> fine_sim f' s'"
    if "fine_server f = k_close fd s" "worker_at s (Closing fd)"
      "\<And>s'. t = k_close fd s' \<Longrightarrow> worker_at s' (Closing fd) \<Longrightarrow> fine_rel f' s'"
      "\<And>ev c. a = LoopEvent ev \<Longrightarrow> ev_fd ev = srv_fd s \<Longrightarrow> ev_accept ev = AcceptOk c \<Longrightarrow> ac_fd c \<noteq> fd" for fd
  proof -
    from t(1) that(1) close_update.server_exec_unseen [OF assms(3), of s fd E] that(4)
    obtain s' where "server_exec E a s = Inr s'" "t = k_close fd s'"
      by (cases "server_exec E a s") auto
    with that(2,3) inv pc show ?thesis by (auto simp: fine_sim_def)
  qed
  have rel: "fine_rel f s" using assms(1) by (simp add: fine_sim_def)
  show ?thesis
  proof (cases "fine_pc f")
    case (Handled itm v)
    with rel obtain p where p: "s = set_pc p (fine_server f)" "p = AtTest \<or> p = Closing (fst itm)"
      "v \<longrightarrow> (\<exists>x. session s (fst itm) = Some x \<and> p = (if \<not> isActive x then Closing (fst itm) else AtTest))"
      by (auto simp: fine_rel_def)
    from pc_update.server_exec_unseen [OF assms(3), of "fine_server f" E p] t(1) p(1)
    have s': "server_exec E a s = Inr (set_pc p t)" by simp
    have sess: "\<exists>x. session t (fst itm) = Some x \<and> p = (if \<not> isActive x then Closing (fst itm) else AtTest)"
      if "v" "session t (fst itm) \<noteq> None"
    proof -
      from p(1,3) that(1) obtain x where x: "session (fine_server f) (fst itm) = Some x"
        "p = (if \<not> isActive x then Closing (fst itm) else AtTest)" by auto
      have "session t (fst itm) = session (fine_server f) (fst itm) \<or> session t (fst itm) = None"
        using server_exec_sessions [OF t(1) assms(3)] x(1) unfolding session_moves_def by (metis option.distinct(1))
      with that(2) have "session t (fst itm) = Some x" using x(1) by (elim disjE) simp_all
      with x(2) show ?thesis by blast
    qed
    have f': "fine_pc f' = Handled itm (v \<and> session t (fst itm) \<noteq> None)" "fine_server f' = t"
      using t(2) Handled by simp_all
    have "fine_rel f' (set_pc p t)"
      unfolding fine_rel_Handled [OF f'(1)] f'(2) session_set_pc using sess p(2) by blast
    with s' inv [OF s'] show ?thesis unfolding fine_sim_def by blast
  next
    case Outside
    with rel t(2) show ?thesis by (intro same) (simp_all add: fine_rel_def)
  next
    case (Found itm v)
    with rel have s: "s = fine_server f" "worker_at s (Processing itm)" by (auto simp: fine_rel_def)
    then have "worker_at t (Processing itm)" using pc t(1) by blast
    with s(1) t(2) Found show ?thesis by (intro same) (simp_all add: fine_rel_def)
  next
    case (Active itm v)
    with rel have s: "s = fine_server f" "worker_at s (Processing itm)" by (auto simp: fine_rel_def)
    then have "worker_at t (Processing itm)" using pc t(1) by blast
    with s(1) t(2) Active show ?thesis by (intro same) (simp_all add: fine_rel_def)
  next
    case (ClosingConn fd v)
    with rel have s: "s = fine_server f" "worker_at s (Closing fd)" by (auto simp: fine_rel_def)
    then have "worker_at t (Closing fd)" using pc t(1) by blast
    with s(1) t(2) ClosingConn show ?thesis by (intro same) (simp_all add: fine_rel_def)
  next
    case (SocketClosed fd v)
    with rel have s: "fine_server f = k_close fd s" "worker_at s (Closing fd)" by (auto simp: fine_rel_def)
    then show ?thesis
    proof (rule closed)
      show "ac_fd c \<noteq> fd" if "a = LoopEvent ev" "ev_fd ev = srv_fd s" "ev_accept ev = AcceptOk c" for ev c
        using that SocketClosed assms(2) s(1) by (auto simp: fine_ok_def kernel_simps)
    qed (use SocketClosed t(2) in \<open>simp add: fine_rel_def kernel_simps\<close>)
  next
    case (Unregistered fd v)
    with rel have s: "fine_server f = k_close fd s" "worker_at s (Closing fd)" by (auto simp: fine_rel_def)
    then show ?thesis
    proof (rule closed)
      show "ac_fd c \<noteq> fd" if "a = LoopEvent ev" "ev_fd ev = srv_fd s" "ev_accept ev = AcceptOk c" for ev c
        using that Unregistered assms(2) s(1) by (auto simp: fine_ok_def kernel_simps)
    qed (use Unregistered t(2) in \<open>simp add: fine_rel_def kernel_simps\<close>)
  qed
qed

section \<open>Steps of the worker\<close>

text \<open>A session in the worker's hands has not ended.\<close>

lemma processing_active:
  assumes "server_inv s" "worker_at s (Processing itm)" "session s g = Some x"
  shows "isActive x" "session_ok x"
  using assms by (auto simp: server_inv_def tables_ok_def sessions_ok_def session_def)

lemma worker_step_handle:
  assumes "worker_at s (Processing itm)" "session s (fst itm) = Some x" "isActive x" "fine_handle E itm s = Inr t"
  obtains x' where "worker_step E s = Inr (set_pc (if \<not> isActive x' then Closing (fst itm) else AtTest) t)"
    "session t (fst itm) = Some x'"
proof -
  from assms(1,2) obtain w where w: "worker s = Some w" "runnerThread w = Some (Processing itm)"
    "handlerTable w (fst itm) = Some x" by (auto simp: session_def)
  with assms(4) obtain x' where x': "ProtocolContext_handleFrame E (getAuthenticator s) (snd itm) x = Inr x'"
    by (cases "ProtocolContext_handleFrame E (getAuthenticator s) (snd itm) x") (auto simp: fine_handle_def)
  from w x' assms(3,4) show thesis
    by (intro that [of "setIO (Some []) x'"])
      (auto simp: fine_handle_def worker_step_def worker_process_def session_def Let_def split: prod.splits)
qed

lemma fine_outside_step:
  assumes "fine_outside E s = Inr f'" "server_inv s"
  shows "worker_step E s = Inr (fine_server f') \<and> fine_pc f' = Outside \<or> fine_rel f' s"
proof (cases "map_option runnerThread (worker s)")
  case None
  with assms show ?thesis by (cases "worker_step E s") (auto simp: fine_outside_def fine_start_def)
next
  case (Some r)
  then obtain w where w: "worker s = Some w" "runnerThread w = r" by auto
  show ?thesis
  proof (cases "\<exists>itm fd. r = Some (Processing itm) \<or> r = Some (Closing fd)")
    case True
    then show ?thesis
      using assms w by (auto simp: fine_outside_def worker_step_def worker_process_def closeClient_fd_def session_def
          fine_rel_def split: option.splits if_splits)
  next
    case False
    with Some assms(1) have "map_sum id fine_start (worker_step E s) = Inr f'"
      by (auto simp: fine_outside_def split: option.splits worker_pc.splits)
    then show ?thesis by (cases "worker_step E s") (auto simp: fine_start_def)
  qed
qed

lemma closeClient_fd_steps:
  assumes "server_inv s" "worker_at s (Closing fd)" "fdInfoTable s fd \<noteq> None"
  shows "conn_fd fd s = Inr fd" "conn_fd fd (k_close fd s) = Inr fd"
    "snd (epollDelClient fd (k_close fd s)) = k_close fd s"
    "worker_step E s = Inr (set_pc AtTest (destroyHandler fd (k_close fd s)))"
proof -
  obtain c where c: "fdInfoTable s fd = Some c" "cc_fd c = fd"
    using assms(3) server_inv_connD [OF assms(1)] by (auto simp: conn_ok_def)
  then show "conn_fd fd s = Inr fd" "conn_fd fd (k_close fd s) = Inr fd"
    by (simp_all add: conn_fd_def kernel_simps)
  show e: "snd (epollDelClient fd (k_close fd s)) = k_close fd s"
    by (simp add: epollDelClient_def k_close_def)
  show "worker_step E s = Inr (set_pc AtTest (destroyHandler fd (k_close fd s)))"
    using assms(2) c e by (auto simp: worker_step_def closeClient_fd_def Let_def)
qed

lemma fine_sim_worker:
  assumes "fine_sim f s" "fine_worker E f = Inr f'"
  shows "(\<exists>s'. worker_step E s = Inr s' \<and> fine_sim f' s') \<or> fine_sim f' s"
proof -
  have rel: "fine_rel f s" and inv: "server_inv s" using assms(1) by (simp_all add: fine_sim_def)
  have inv': "server_inv s'" if "worker_step E s = Inr s'" for s'
    using worker_step_keeps [OF inv, of E] that by simp
  have ns: "\<not> stale (fine_pc f)" using assms(2) by (auto simp: fine_worker_def)
  show ?thesis
  proof (cases "fine_pc f")
    case Outside
    with rel assms(2) have "fine_outside E s = Inr f'" by (simp add: fine_worker_def fine_rel_def)
    from fine_outside_step [OF this inv] show ?thesis
    proof
      assume step: "worker_step E s = Inr (fine_server f') \<and> fine_pc f' = Outside"
      then have "fine_rel f' (fine_server f')" by (simp add: fine_rel_def)
      with step inv' show ?thesis unfolding fine_sim_def by blast
    qed (simp add: fine_sim_def inv)
  next
    case (Found itm v)
    with rel ns have s: "s = fine_server f" "worker_at s (Processing itm)" "session s (fst itm) \<noteq> None"
      by (auto simp: fine_rel_def)
    then obtain x where x: "session s (fst itm) = Some x" by blast
    with processing_active [OF inv s(2)] have "isActive x" by blast
    with x s Found ns assms(2) have "f' = \<lparr>fine_server = s, fine_pc = Active itm True\<rparr>"
      by (simp add: fine_worker_def)
    with s inv show ?thesis by (simp add: fine_sim_def fine_rel_def)
  next
    case (Active itm v)
    with rel ns have s: "s = fine_server f" "worker_at s (Processing itm)" "session s (fst itm) \<noteq> None"
      by (auto simp: fine_rel_def)
    then obtain x where x: "session s (fst itm) = Some x" by blast
    from s(1) Active ns assms(2) obtain t where t: "fine_handle E itm s = Inr t" "f' = \<lparr>fine_server = t, fine_pc = Handled itm True\<rparr>"
      by (cases "fine_handle E itm s") (auto simp: fine_worker_def)
    from worker_step_handle [OF s(2) x _ t(1)] processing_active [OF inv s(2) x] obtain x' where
      "worker_step E s = Inr (set_pc (if \<not> isActive x' then Closing (fst itm) else AtTest) t)" "session t (fst itm) = Some x'"
      by blast
    with inv' t(2) show ?thesis by (auto simp: fine_sim_def fine_rel_def)
  next
    case (Handled itm v)
    from Handled ns have v by simp
    from rel Handled obtain p where p: "s = set_pc p (fine_server f)"
      "v \<longrightarrow> (\<exists>x. session s (fst itm) = Some x \<and> p = (if \<not> isActive x then Closing (fst itm) else AtTest))"
      by (auto simp: fine_rel_def)
    with \<open>v\<close> obtain x where "session s (fst itm) = Some x" "p = (if \<not> isActive x then Closing (fst itm) else AtTest)"
      by blast
    with p(1) Handled ns assms(2) have "fine_server f' = s" "fine_pc f' = Outside"
      by (auto simp: fine_worker_def fine_start_def)
    with inv show ?thesis by (simp add: fine_sim_def fine_rel_def)
  next
    case (ClosingConn fd v)
    with rel ns have s: "s = fine_server f" "worker_at s (Closing fd)" "fdInfoTable s fd \<noteq> None"
      by (auto simp: fine_rel_def)
    from closeClient_fd_steps [OF inv s(2,3)] s ClosingConn ns assms(2) inv show ?thesis
      by (auto simp: fine_worker_def fine_sim_def fine_rel_def)
  next
    case (SocketClosed fd v)
    with rel ns have s: "fine_server f = k_close fd s" "worker_at s (Closing fd)" "fdInfoTable s fd \<noteq> None"
      by (auto simp: fine_rel_def)
    from closeClient_fd_steps [OF inv s(2,3)] s SocketClosed ns assms(2) inv show ?thesis
      by (auto simp: fine_worker_def fine_sim_def fine_rel_def)
  next
    case (Unregistered fd v)
    with rel ns have s: "fine_server f = k_close fd s" "worker_at s (Closing fd)" "fdInfoTable s fd \<noteq> None"
      by (auto simp: fine_rel_def)
    from closeClient_fd_steps [OF inv s(2,3)] s Unregistered ns assms(2) inv inv' show ?thesis
      by (auto simp: fine_worker_def fine_sim_def fine_rel_def fine_start_def)
  qed
qed

interpretation fine: simulation "fine_exec E" "server_exec E" fine_sim fine_ok "\<lambda>a. a \<noteq> WorkerStep" for E
proof
  fix f s a f'
  assume sim: "fine_sim f s" and ok: "fine_ok a f" and step: "fine_exec E a f = Inr f'"
  show "\<exists>bs t'. runs (server_exec E) bs s = Inr t' \<and>
      filter (\<lambda>a. a \<noteq> WorkerStep) bs = filter (\<lambda>a. a \<noteq> WorkerStep) [a] \<and> fine_sim f' t'"
  proof (cases "a = WorkerStep")
    case True
    with step fine_sim_worker [OF sim, of E f'] consider (step) s' where "worker_step E s = Inr s'" "fine_sim f' s'" | (stutter) "fine_sim f' s"
      by auto
    then show ?thesis
    proof cases
      case (step s')
      with True show ?thesis by (intro exI [of _ "[WorkerStep]"] exI [of _ s']) simp
    next
      case stutter
      with True show ?thesis by (intro exI [of _ "[]"] exI [of _ s]) simp
    qed
  next
    case False
    from fine_sim_other [OF sim ok False step] obtain s' where "server_exec E a s = Inr s'" "fine_sim f' s'" by blast
    then show ?thesis by (intro exI [of _ "[a]"] exI [of _ s']) simp
  qed
qed

end
