(* ===== verification/FineRaces.thy ===== *)
theory FineRaces
  imports FineRefines
begin

text \<open>
  The worker's thread never throws; at the fine grain it faults exactly when the event loop has erased the entry it
  holds, and the closing of a connection in several steps can leave a new client behind without a connection.
\<close>

section \<open>No exception in the worker\<close>

definition sessions_return :: "server \<Rightarrow> bool" where
  "sessions_return s \<longleftrightarrow> (\<forall>g x. session s g = Some x \<longrightarrow> resp_ok (ctx_state x))"

lemma resp_ok_new: "resp_ok (ctx_state (new_session fac r))"
  by (simp add: resp_ok_def new_session_state(4) ProtocolConnectedHandler_new_def pb_wf_defs
      ServerConnectedStateResponse_new_def)

lemma session_moves_return: "session_moves A s s' \<Longrightarrow> sessions_return s \<Longrightarrow> sessions_return s'"
  unfolding session_moves_def sessions_return_def by (metis option.distinct(1) option.inject resp_ok_new)

lemma session_update:
  "session (s\<lparr>wqOut := q, k_count := n, worker := Some (w\<lparr>handlerTable := t\<rparr>)\<rparr>) g = t g"
  by (simp add: session_def)

lemma session_ok_returns:
  assumes "env_ok E L" "session_ok x" "resp_ok (ctx_state x)"
  obtains x' where "ProtocolContext_handleFrame E auth f x = Inr x'" "resp_ok (ctx_state x')"
  using handleFrame_returns [OF assms(1,3), of auth f] assms(2)
  by (cases "ProtocolContext_handleFrame E auth f x") (auto simp: returns_def session_ok_def)

lemma worker_process_returns:
  assumes "env_ok E L" "server_inv s" "sessions_return s" "worker s = Some w" "runnerThread w = Some (Processing itm)"
  shows "\<exists>pc s'. worker_process E itm w s = Inr (pc, s') \<and> sessions_return s'"
proof (cases "session s (fst itm)")
  case None
  with assms(3,4) show ?thesis by (auto simp: worker_process_def session_def)
next
  case (Some x)
  then have x: "handlerTable w (fst itm) = Some x" using assms(4) by (simp add: session_def)
  have p: "worker_at s (Processing itm)" using assms(4,5) by blast
  from session_ok_returns [OF assms(1) processing_active(2) [OF assms(2) p Some]] assms(3) Some obtain x' where
    h: "ProtocolContext_handleFrame E (getAuthenticator s) (snd itm) x = Inr x'" "resp_ok (ctx_state x')"
    by (metis sessions_return_def)
  have g: "resp_ok (ctx_state y)" if "handlerTable w g = Some y" for g y
    using assms(3,4) that by (simp add: sessions_return_def session_def)
  from h x processing_active(1) [OF assms(2) p Some] show ?thesis
    by (auto simp: worker_process_def sessions_return_def session_update setIO_def Let_def dest!: g split: prod.split if_splits)
qed

lemma sessions_return_set_pc [simp]: "sessions_return (set_pc pc s) = sessions_return s"
  by (simp add: sessions_return_def)

lemma sessions_return_queue [simp]: "sessions_return (s\<lparr>wqIn := q\<rparr>) = sessions_return s"
  by (simp add: sessions_return_def session_def)

lemma closeClient_fd_return: "sessions_return s \<Longrightarrow> sessions_return (closeClient_fd fd s)"
  by (auto simp: closeClient_fd_def destroyHandler_def destroyContext_def sessions_return_def session_def kernel_simps Let_def
      split: option.splits if_splits)

lemma worker_step_returns:
  assumes "env_ok E L" "server_inv s" "sessions_return s"
  shows "\<exists>s'. worker_step E s = Inr s' \<and> sessions_return s'"
proof (cases "worker s")
  case (Some w)
  show ?thesis
  proof (cases "runnerThread w")
    case pc: (Some pc)
    show ?thesis
    proof (cases pc)
      case InWait
      with Some pc assms(3) show ?thesis
        by (auto simp: worker_step_def split: prod.split fetch_outcome.split)
    next
      case (Processing itm)
      with worker_process_returns [OF assms Some] pc obtain p s' where
        "worker_process E itm w s = Inr (p, s')" "sessions_return s'" by blast
      with Some pc Processing show ?thesis by (simp add: worker_step_def)
    qed (use Some pc assms(3) closeClient_fd_return in \<open>simp_all add: worker_step_def\<close>)
  qed (use Some assms(3) in \<open>simp add: worker_step_def\<close>)
qed (use assms(3) in \<open>simp add: worker_step_def\<close>)

lemma server_run_returns:
  "server_run E s as s' \<Longrightarrow> env_ok E L \<Longrightarrow> server_inv s \<Longrightarrow> sessions_return s \<Longrightarrow> list_all sane_action as \<Longrightarrow> sessions_return s'"
proof (induction rule: server_run.induct)
  case (srv_step a s s1 as s2)
  have "server_inv s1" using server_exec_keeps [of s a E] srv_step.prems(2,4) srv_step.hyps(1) by (simp add: keeps_def)
  moreover have "sessions_return s1"
  proof (cases "a = WorkerStep")
    case True
    with worker_step_returns [OF srv_step.prems(1,2,3)] srv_step.hyps(1) show ?thesis by auto
  next
    case False
    from session_moves_return [OF server_exec_sessions [OF srv_step.hyps(1) False]] srv_step.prems(3) show ?thesis .
  qed
  ultimately show ?case using srv_step.IH srv_step.prems by simp
qed simp

lemma in_service_returns: "in_service s \<Longrightarrow> sessions_return s"
  by (auto simp: in_service_def sessions_return_def session_def Server_run_start_def ServerWorker_start_def ServerWorker_new_def)

section \<open>States the fine-grained server reaches\<close>

lemma fine_simulated:
  assumes "in_service s0" "always (fine_exec E) fine_ok as (fine_start s0)" "fine_runs E as (fine_start s0) = Inr f"
  obtains bs s where "server_run E s0 bs s" "filter (\<lambda>a. a \<noteq> WorkerStep) bs = filter (\<lambda>a. a \<noteq> WorkerStep) as"
    "fine_rel f s" "server_inv s"
proof -
  have "fine_sim (fine_start s0) s0"
    using in_service_inv [OF assms(1)] by (simp add: fine_sim_def fine_rel_def fine_start_def)
  from fine.simulates [OF this assms(2)] assms(3) obtain bs s where "runs (server_exec E) bs s0 = Inr s"
    "filter (\<lambda>a. a \<noteq> WorkerStep) bs = filter (\<lambda>a. a \<noteq> WorkerStep) as" "fine_sim f s"
    unfolding runs_fine by blast
  with that runs_server show thesis unfolding fine_sim_def by blast
qed

text \<open>The connection the iterator or the reference is about.\<close>

fun held :: "fine_pc \<Rightarrow> int option" where
  "held Outside = None"
| "held (Found itm valid) = Some (fst itm)"
| "held (Active itm valid) = Some (fst itm)"
| "held (Handled itm valid) = Some (fst itm)"
| "held (ClosingConn fd valid) = Some fd"
| "held (SocketClosed fd valid) = Some fd"
| "held (Unregistered fd valid) = Some fd"

lemma inv_session_conn: "server_inv s \<Longrightarrow> (session s fd = None) = (fdInfoTable s fd = None)"
  by (cases "worker s") (auto simp: server_inv_def tables_ok_def session_def)

lemma held_present:
  assumes "fine_rel f s" "server_inv s" "held (fine_pc f) = Some fd" "\<not> stale (fine_pc f)"
  shows "fdInfoTable s fd \<noteq> None" "session s fd \<noteq> None"
proof -
  from assms(1,3,4) have "fdInfoTable s fd \<noteq> None \<or> session s fd \<noteq> None"
    by (cases "fine_pc f") (auto simp: fine_rel_def)
  with inv_session_conn [OF assms(2)] show "fdInfoTable s fd \<noteq> None" "session s fd \<noteq> None" by simp_all
qed

lemma fine_handle_returns:
  assumes "env_ok E L" "server_inv s" "sessions_return s" "worker_at s (Processing itm)" "session s (fst itm) \<noteq> None"
  shows "\<exists>t. fine_handle E itm s = Inr t"
proof -
  from assms(5) obtain x where x: "session s (fst itm) = Some x" by blast
  from session_ok_returns [OF assms(1) processing_active(2) [OF assms(2,4) x]] assms(3) x obtain x' where
    "ProtocolContext_handleFrame E (getAuthenticator s) (snd itm) x = Inr x'"
    by (metis sessions_return_def)
  with x show ?thesis
    by (auto simp: fine_handle_def session_def Let_def split: option.splits prod.split)
qed

lemma fine_outside_returns:
  assumes "env_ok E L" "server_inv s" "sessions_return s"
  shows "\<exists>f. fine_outside E s = Inr f"
  using worker_step_returns [OF assms]
  by (auto simp: fine_outside_def split: option.split worker_pc.split)

section \<open>Closing without the socket\<close>

text \<open>
  The closing of a socket is all that keeps a state in the middle of \<open>closeClient\<close> from being one of the coarse server,
  and when an accepted client gets the number of the socket, there is none. What the worker's next step does depends on
  the tables only, so for that question the worker may stay at the start of \<open>closeClient\<close>.
\<close>

fun calm_pc :: "fine_pc \<Rightarrow> fine_pc" where
  "calm_pc (SocketClosed fd valid) = ClosingConn fd valid"
| "calm_pc (Unregistered fd valid) = ClosingConn fd valid"
| "calm_pc pc = pc"

definition calm :: "fine \<Rightarrow> fine" where
  "calm f = f\<lparr>fine_pc := calm_pc (fine_pc f)\<rparr>"

text \<open>The invariant, with (\<open>b\<close>) or without the sessions from which no handler throws.\<close>

definition fine_safe :: "bool \<Rightarrow> fine \<Rightarrow> bool" where
  "fine_safe b f \<longleftrightarrow> (\<exists>s. fine_sim (calm f) s \<and> (b \<longrightarrow> sessions_return s))"

lemma calm_fields [simp]: "fine_server (calm f) = fine_server f" "fine_pc (calm f) = calm_pc (fine_pc f)"
  by (simp_all add: calm_def)

lemma stale_calm [simp]: "stale (calm_pc pc) = stale pc"
  by (cases pc) simp_all

lemma observe_calm: "fine_observe s (calm_pc pc) = calm_pc (fine_observe s pc)"
  by (cases pc) simp_all

lemma reuses_calm: "\<not> reuses a (calm f)"
  by (cases a; cases "fine_pc f") (auto split: accept_result.split)

lemma server_inv_cong:
  "fdInfoTable s' = fdInfoTable s \<Longrightarrow> worker s' = worker s \<Longrightarrow> wqIn s' = wqIn s \<Longrightarrow> wqOut s' = wqOut s \<Longrightarrow>
     server_inv s' = server_inv s"
  by (simp add: server_inv_def)

lemma sessions_return_cong: "worker s' = worker s \<Longrightarrow> sessions_return s' = sessions_return s"
  by (simp add: sessions_return_def session_def)

lemma fine_sim_calm:
  assumes "fine_sim f s" "b \<longrightarrow> sessions_return s"
  shows "fine_safe b f"
proof (cases "calm_pc (fine_pc f) = fine_pc f")
  case True
  then have "calm f = f" by (simp add: calm_def)
  with assms show ?thesis by (auto simp: fine_safe_def)
next
  case False
  then obtain fd v where pc: "fine_pc f = SocketClosed fd v \<or> fine_pc f = Unregistered fd v"
    by (cases "fine_pc f") simp_all
  then have r: "fine_server f = k_close fd s \<and> worker_at s (Closing fd) \<and> (v \<longrightarrow> fdInfoTable s fd \<noteq> None)"
    using assms(1) by (auto simp: fine_sim_def fine_rel_def)
  then have "fine_rel (calm f) (k_close fd s)"
    using pc by (auto simp: fine_rel_def kernel_simps)
  moreover have "server_inv (k_close fd s)" "b \<longrightarrow> sessions_return (k_close fd s)"
    using assms server_inv_cong [of "k_close fd s" s] sessions_return_cong [of "k_close fd s" s]
    by (simp_all add: fine_sim_def kernel_simps)
  ultimately show ?thesis by (auto simp: fine_safe_def fine_sim_def)
qed

text \<open>An action of another thread cannot tell the two apart.\<close>

lemma fine_safe_other:
  assumes "fine_safe b f" "sane_action a" "a \<noteq> WorkerStep" "fine_exec E a f = Inr f'"
  shows "fine_safe b f'"
proof -
  obtain t where t: "server_exec E a (fine_server f) = Inr t" "f' = \<lparr>fine_server = t, fine_pc = fine_observe t (fine_pc f)\<rparr>"
    using assms(3,4) by (cases "server_exec E a (fine_server f)") (auto simp: fine_exec_other)
  then have step: "fine_exec E a (calm f) = Inr (calm f')"
    using assms(3) by (simp add: fine_exec_other observe_calm calm_def)
  from assms(1) obtain s where s: "fine_sim (calm f) s" "b \<longrightarrow> sessions_return s" by (auto simp: fine_safe_def)
  have "fine_ok a (calm f)" using assms(2) reuses_calm by (simp add: fine_ok_def)
  from fine_sim_other [OF s(1) this assms(3) step] obtain s' where s': "server_exec E a s = Inr s'" "fine_sim (calm f') s'"
    by blast
  from session_moves_return [OF server_exec_sessions [OF s'(1) assms(3)]] s(2) s'(2) show ?thesis
    by (auto simp: fine_safe_def)
qed

text \<open>The steps of \<open>closeClient\<close> after the socket, as the calm state sees them.\<close>

lemma fine_safe_closing:
  assumes "fine_safe b f" "fine_pc f = SocketClosed fd v \<or> fine_pc f = Unregistered fd v" "fine_worker E f = Inr f'"
  shows "fine_safe b f'"
proof -
  let ?s = "fine_server f"
  have ns: "\<not> stale (fine_pc f)" using assms(3) by (auto simp: fine_worker_def)
  then have v: "v" using assms(2) by auto
  from assms(1,2) v have s: "server_inv ?s" "b \<longrightarrow> sessions_return ?s" "worker_at ?s (Closing fd)" "fdInfoTable ?s fd \<noteq> None"
    by (auto simp: fine_safe_def fine_sim_def fine_rel_def)
  note steps = closeClient_fd_steps [OF s(1,3,4)]
  from assms(2) show ?thesis
  proof
    assume "fine_pc f = SocketClosed fd v"
    with assms(3) v steps(1) have f': "fine_server f' = snd (epollDelClient fd ?s)" "fine_pc f' = Unregistered fd True"
      by (auto simp: fine_worker_def)
    let ?t = "snd (epollDelClient fd ?s)"
    have t: "fdInfoTable ?t = fdInfoTable ?s" "worker ?t = worker ?s" "wqIn ?t = wqIn ?s" "wqOut ?t = wqOut ?s"
      by (simp_all add: epollDelClient_def)
    have "fine_sim (calm f') ?t"
      using s t f' server_inv_cong [OF t] by (simp add: fine_sim_def fine_rel_def)
    with sessions_return_cong [OF t(2)] s(2) show ?thesis by (auto simp: fine_safe_def)
  next
    assume "fine_pc f = Unregistered fd v"
    with assms(3) v steps(1) have f': "f' = fine_start (set_pc AtTest (destroyHandler fd ?s))"
      by (auto simp: fine_worker_def)
    let ?t = "set_pc AtTest (destroyHandler fd ?s)" and ?u = "set_pc AtTest (destroyHandler fd (k_close fd ?s))"
    have tu: "fdInfoTable ?t = fdInfoTable ?u" "worker ?t = worker ?u" "wqIn ?t = wqIn ?u" "wqOut ?t = wqOut ?u"
      by (simp_all add: set_pc_def destroyHandler_def kernel_simps split: option.split)
    have u: "server_inv ?u" using worker_step_keeps [OF s(1), of E] steps(4) [of E] by simp
    have "closeClient_fd fd ?s = destroyHandler fd (k_close fd ?s)"
      using s(4) server_inv_connD [OF s(1)] steps(3)
      by (auto simp: closeClient_fd_def conn_ok_def)
    then have "b \<longrightarrow> sessions_return ?u" using closeClient_fd_return [of ?s fd] s(2) by simp
    with u tu have "server_inv ?t" "b \<longrightarrow> sessions_return ?t"
      using server_inv_cong [OF tu] sessions_return_cong [OF tu(2)] by simp_all
    moreover have "fine_rel f' ?t" using f' by (simp add: fine_rel_def fine_start_def)
    ultimately show ?thesis by (intro fine_sim_calm [of f' ?t]) (simp_all add: fine_sim_def)
  qed
qed

lemma fine_safe_worker:
  assumes "b \<longrightarrow> env_ok E L" "fine_safe b f" "fine_worker E f = Inr f'"
  shows "fine_safe b f'"
proof (cases "calm_pc (fine_pc f) = fine_pc f")
  case True
  then have "calm f = f" by (simp add: calm_def)
  with assms(2) obtain s where s: "fine_sim f s" "b \<longrightarrow> sessions_return s" by (auto simp: fine_safe_def)
  have "b \<longrightarrow> sessions_return s'" if "worker_step E s = Inr s'" for s'
    using worker_step_returns [of E L s] assms(1) s that by (auto simp: fine_sim_def)
  with fine_sim_worker [OF s(1) assms(3)] s(2) fine_sim_calm show ?thesis by blast
next
  case False
  then obtain fd v where "fine_pc f = SocketClosed fd v \<or> fine_pc f = Unregistered fd v"
    by (cases "fine_pc f") simp_all
  from fine_safe_closing [OF assms(2) this assms(3)] show ?thesis .
qed

lemma fine_runs_safe:
  "fine_runs E as f = Inr f' \<Longrightarrow> b \<longrightarrow> env_ok E L \<Longrightarrow> list_all sane_action as \<Longrightarrow> fine_safe b f \<Longrightarrow> fine_safe b f'"
proof (induction as arbitrary: f)
  case (Cons a as)
  then obtain f1 where f1: "fine_exec E a f = Inr f1" "fine_runs E as f1 = Inr f'" by (auto split: sum.splits)
  have "fine_safe b f1"
    using fine_safe_worker [OF Cons.prems(2,4)] fine_safe_other [OF Cons.prems(4) _ _ f1(1)] f1(1) Cons.prems(3)
    by (cases "a = WorkerStep") auto
  with Cons f1(2) show ?case by simp
qed simp

lemma fine_reachable_safe:
  assumes "in_service s0" "list_all sane_action as" "fine_runs E as (fine_start s0) = Inr f" "b \<longrightarrow> env_ok E L"
  shows "fine_safe b f"
proof (rule fine_runs_safe [OF assms(3,4,2)])
  show "fine_safe b (fine_start s0)"
    using in_service_inv [OF assms(1)] in_service_returns [OF assms(1)]
    by (intro fine_sim_calm [of _ s0]) (simp_all add: fine_sim_def fine_rel_def fine_start_def)
qed

lemma held_calm [simp]: "held (calm_pc pc) = held pc"
  by (cases pc) simp_all

lemma fine_worker_returns:
  assumes "env_ok E L" "fine_safe True f" "\<not> stale (fine_pc f)"
  shows "\<exists>f'. fine_worker E f = Inr f'"
proof -
  from assms(2) obtain s where s: "fine_rel (calm f) s" "server_inv s" "sessions_return s"
    by (auto simp: fine_safe_def fine_sim_def)
  show ?thesis
  proof (cases "held (fine_pc f)")
    case None
    then have "fine_pc f = Outside" by (cases "fine_pc f") simp_all
    with fine_outside_returns [OF assms(1) s(2,3)] s(1) show ?thesis by (simp add: fine_worker_def fine_rel_def)
  next
    case (Some fd)
    from held_present [OF s(1,2)] Some assms(3) fine_rel_same [OF s(1)] obtain c x where
      cx: "fdInfoTable (fine_server f) fd = Some c" "session (fine_server f) fd = Some x" by auto
    show ?thesis
    proof (cases "fine_pc f")
      case (Active itm v)
      with s(1) have "s = fine_server f" "worker_at s (Processing itm)" by (auto simp: fine_rel_def)
      with fine_handle_returns [OF assms(1) s(2,3), of itm] Active Some cx(2) obtain t where
        "fine_handle E itm (fine_server f) = Inr t" by auto
      with Active assms(3) show ?thesis by (simp add: fine_worker_def)
    qed (use Some cx assms(3) in \<open>auto simp: fine_worker_def conn_fd_def Let_def\<close>)
  qed
qed

section \<open>Properties\<close>

text \<open>C5: The worker at the grain of single accesses refines the worker of one step per frame: the event loop may run
  between the lookup of a session, the uses of the iterator, and the four steps of \<open>closeClient\<close>. As long as no access
  hits an erased entry and no accepted client gets the number of a socket that is being closed, there is a run of
  the coarse server with the same actions of the other threads, in the same order, that agrees with it on both tables,
  both queues, the notifications and everything sent, and on the whole state whenever the worker is between two items.\<close>

theorem fine_worker_refines:
  assumes "in_service s0" "always (fine_exec E) fine_ok as (fine_start s0)" "fine_runs E as (fine_start s0) = Inr f"
  shows "\<exists>bs s. server_run E s0 bs s \<and> filter (\<lambda>a. a \<noteq> WorkerStep) bs = filter (\<lambda>a. a \<noteq> WorkerStep) as \<and>
    fdInfoTable (fine_server f) = fdInfoTable s \<and> session (fine_server f) = session s \<and>
    wqIn (fine_server f) = wqIn s \<and> wqOut (fine_server f) = wqOut s \<and> k_count (fine_server f) = k_count s \<and>
    k_sent (fine_server f) = k_sent s \<and> (fine_pc f = Outside \<longrightarrow> fine_server f = s)"
proof -
  from fine_simulated [OF assms] obtain bs s where s: "server_run E s0 bs s"
    "filter (\<lambda>a. a \<noteq> WorkerStep) bs = filter (\<lambda>a. a \<noteq> WorkerStep) as" "fine_rel f s" .
  have "fine_pc f = Outside \<longrightarrow> fine_server f = s"
    using s(3) by (auto simp: fine_rel_def)
  with s fine_rel_same [OF s(3)] show ?thesis by blast
qed

text \<open>C11: The worker faults exactly on an erased entry: in every state that any interleaving of the threads reaches from a
  server in service, its next step fails if and only if the event loop has erased the session or the connection it
  holds an iterator or a reference to, and it then reads freed memory. In particular no frame, whatever it contains,
  makes the thread throw. This holds also when an accepted client gets the number of a socket that is being closed; what
  every action is asked for is only \<open>sane_action\<close>: the read of a destroyed context gives the descriptor of the event.\<close>

theorem worker_faults_iff_stale:
  assumes "in_service s0" "list_all sane_action as" "fine_runs E as (fine_start s0) = Inr f" "env_ok E L"
  shows "fine_exec E WorkerStep f = Inl e \<longleftrightarrow> stale (fine_pc f) \<and> e = UseAfterFree"
  using fine_worker_returns [OF assms(4) fine_reachable_safe [OF assms(1-3), of True L]] assms(4)
  by (cases "stale (fine_pc f)") (auto simp: fine_worker_def)

text \<open>C19: Any client can bring this about: whenever the worker holds an entry for a connection, in any state that the threads
  reach, a hang-up of that connection erases it, and the worker's next step reads freed memory.\<close>

theorem hangup_under_worker:
  assumes "in_service s0" "list_all sane_action as" "fine_runs E as (fine_start s0) = Inr f"
    "held (fine_pc f) = Some fd" "\<not> stale (fine_pc f)"
    "ev_fd hup = fd" "ev_hup hup" "ev_stale hup = fd" "fd \<noteq> srv_fd (fine_server f)" "fd \<noteq> eventFdOut (fine_server f)"
  shows "\<exists>f'. fine_runs E [LoopEvent hup] f = Inr f' \<and> fine_exec E WorkerStep f' = Inl UseAfterFree"
proof -
  have "fine_safe False f" by (rule fine_reachable_safe [OF assms(1-3)]) simp
  then obtain s where s: "fine_rel (calm f) s" "server_inv s" by (auto simp: fine_safe_def fine_sim_def)
  from held_present [OF this, of fd] assms(4,5) fine_rel_same [OF s(1)] obtain c where c: "fdInfoTable (fine_server f) fd = Some c"
    "cc_fd c = fd" using server_inv_connD [OF s(2)] by (auto simp: conn_ok_def)
  let ?s = "closeClient_ctx fd c (fine_server f)"
  have "handle_event hup (fine_server f) = Inr ?s"
    using assms(6-10) c by (simp add: handle_event_def client_event_def)
  moreover have "fdInfoTable ?s fd = None" "session ?s fd = None"
    using c(2) by (simp_all add: closeClient_ctx_def session_def destroyContext_def kernel_simps Let_def split: option.split)
  then have "stale (fine_observe ?s (fine_pc f))"
    using assms(4) by (cases "fine_pc f") simp_all
  ultimately show ?thesis by (simp add: fine_worker_def)
qed

text \<open>C26: Closing in several steps can strand a client: when the event loop accepts a client between the worker's
  \<open>close\<close> of an ended connection and the removal of its entries, and the kernel gives the client the same number, the
  old entries keep it out of the tables and are then removed. The socket stays open, is not watched by epoll and has no
  connection and no session: no event on it ever does anything, and nothing closes it.\<close>

theorem accept_while_closing_strands:
  assumes "in_service s0" "server_run E s0 as s" "list_all sane_action as"
    "worker_at s (Closing fd)" "fdInfoTable s fd \<noteq> None" "fd \<noteq> srv_fd s" "fd \<noteq> eventFdOut s"
    "ev_fd acc = srv_fd s" "ev_in acc" "\<not> ev_err acc" "ev_accept acc = AcceptOk a" "ac_fd a = fd" "ac_added a"
  shows "\<exists>f. fine_runs E [WorkerStep, WorkerStep, LoopEvent acc, WorkerStep, WorkerStep] (fine_start s) = Inr f \<and>
    fine_pc f = Outside \<and> fd \<in> k_open (fine_server f) \<and> fd \<notin> k_interest (fine_server f) \<and>
    fdInfoTable (fine_server f) fd = None \<and> session (fine_server f) fd = None \<and>
    (\<forall>ev. ev_fd ev = fd \<longrightarrow> handle_event ev (fine_server f) = Inr (fine_server f))"
proof -
  have inv: "server_inv s" by (rule reachable_inv [OF assms(1-3)])
  from assms(4) obtain w where w: "worker s = Some w" "runnerThread w = Some (Closing fd)" by blast
  from assms(5) obtain c where c: "fdInfoTable s fd = Some c" "cc_fd c = fd"
    using server_inv_connD [OF inv] by (auto simp: conn_ok_def)
  obtain x where x: "handlerTable w fd = Some x"
    using inv_session_conn [OF inv, of fd] w c by (auto simp: session_def)
  let ?s1 = "k_close fd s"
  let ?s2 = "?s1\<lparr>k_open := insert fd (k_open ?s1), k_sent := (k_sent s)(fd := []), k_interest := insert fd (k_interest ?s1)\<rparr>"
  have acc: "handle_event acc ?s1 = Inr ?s2"
    using assms(8-13) w c x
    by (auto simp: handle_event_def acceptClient_def epollAddClient_def createHandler_conn_def createContext_def kernel_simps
        Let_def intro: server.equality)
  let ?s3 = "snd (epollDelClient fd ?s2)" and ?acts = "[WorkerStep, WorkerStep, LoopEvent acc, WorkerStep, WorkerStep]"
  let ?f = "fine_start (set_pc AtTest (destroyHandler fd ?s3))"
  have "fine_runs E ?acts (fine_start s) = Inr ?f"
    using w c acc by (simp add: fine_worker_def fine_start_def fine_outside_def conn_fd_def kernel_simps)
  moreover have "fine_pc ?f = Outside" "fd \<in> k_open (fine_server ?f)" "fd \<notin> k_interest (fine_server ?f)"
      "fdInfoTable (fine_server ?f) fd = None" "session (fine_server ?f) fd = None"
    using w by (simp_all add: fine_start_def set_pc_fields destroyHandler_def destroyContext_def epollDelClient_def kernel_simps)
  moreover from this(4) have "handle_event ev (fine_server ?f) = Inr (fine_server ?f)" if "ev_fd ev = fd" for ev
    using that assms(6,7) w by (simp add: handle_event_def fine_start_def set_pc_fields destroyHandler_def kernel_simps)
  ultimately show ?thesis by blast
qed

end
