(* ===== verification/Locks.thy ===== *)
theory Locks
  imports ServerRuns
begin

text \<open>
  The mutexes of the server (\<open>fdTableMtx\<close>, \<open>htMutex\<close>, and \<open>queueMutex\<close> of both queues): which of them every action of
  \<open>Servers\<close> locks and unlocks, in the order of the code, and the absence of deadlocks between threads that perform
  such actions. A mutex is not recursive: a thread that locks one it owns waits for itself.

  A lock is taken by a \<open>lock_guard\<close> (released at the end of its block, also by an exception), or by the \<open>unique_lock\<close> of
  \<open>fetchItemBlocking\<close>, which the wait releases and takes again.
\<close>

section \<open>Mutexes and threads\<close>

datatype mutex = FdTableMtx | HtMutex | QueueMutexIn | QueueMutexOut

datatype lock_op = Lock mutex | Unlock mutex

text \<open>The owner of each mutex, and what every thread still has to do.\<close>

type_synonym lock_state = "(mutex \<Rightarrow> nat option) \<times> lock_op list list"

inductive lock_step :: "lock_state \<Rightarrow> lock_state \<Rightarrow> bool" where
  acquire: "\<lbrakk>i < length ps; ps ! i = Lock m # p; own m = None\<rbrakk> \<Longrightarrow>
    lock_step (own, ps) (own(m := Some i), ps[i := p])"
| release: "\<lbrakk>i < length ps; ps ! i = Unlock m # p; own m = Some i\<rbrakk> \<Longrightarrow>
    lock_step (own, ps) (own(m := None), ps[i := p])"

inductive_cases lock_stepE: "lock_step (own, ps) \<sigma>"

inductive lock_run :: "lock_state \<Rightarrow> lock_state \<Rightarrow> bool" for \<sigma> where
  lr_nil: "lock_run \<sigma> \<sigma>"
| lr_step: "lock_run \<sigma> \<tau> \<Longrightarrow> lock_step \<tau> \<tau>' \<Longrightarrow> lock_run \<sigma> \<tau>'"

section \<open>The locks of the code\<close>

text \<open>A block under a \<open>lock_guard\<close>.\<close>

definition guarded :: "mutex \<Rightarrow> lock_op list \<Rightarrow> lock_op list" where
  "guarded m p = Lock m # p @ [Unlock m]"

definition pushItem_locks :: "mutex \<Rightarrow> lock_op list" where
  "pushItem_locks q = guarded q []"

definition fetchItemNonBlocking_locks :: "mutex \<Rightarrow> lock_op list" where
  "fetchItemNonBlocking_locks q = guarded q []"

definition cancelFetch_locks :: "mutex \<Rightarrow> lock_op list" where
  "cancelFetch_locks q = guarded q []"

definition createContext_locks :: "lock_op list" where
  "createContext_locks = guarded HtMutex []"

definition destroyContext_locks :: "lock_op list" where
  "destroyContext_locks = guarded HtMutex []"

definition createHandler_locks :: "server \<Rightarrow> lock_op list" where
  "createHandler_locks s = (if worker s \<noteq> None then guarded FdTableMtx createContext_locks else [])"

definition destroyHandler_locks :: "server \<Rightarrow> lock_op list" where
  "destroyHandler_locks s = (if worker s \<noteq> None then guarded FdTableMtx destroyContext_locks else [])"

definition closeClient_ctx_locks :: "server \<Rightarrow> lock_op list" where
  "closeClient_ctx_locks s = (if worker s \<noteq> None then destroyContext_locks else [])"

definition closeClient_fd_locks :: "int \<Rightarrow> server \<Rightarrow> lock_op list" where
  "closeClient_fd_locks fd s = (if fdInfoTable s fd = None then [] else destroyHandler_locks s)"

definition acceptClient_locks :: "accept_result \<Rightarrow> server \<Rightarrow> lock_op list" where
  "acceptClient_locks r s = (case r of AcceptFail e \<Rightarrow> [] | AcceptOk a \<Rightarrow> createHandler_locks s)"

definition handleDataOut_locks :: "server \<Rightarrow> lock_op list" where
  "handleDataOut_locks s =
     fetchItemNonBlocking_locks QueueMutexOut @
     (case fetchItemNonBlocking (wqOut s) of (None, _) \<Rightarrow> [] | (Some itm, _) \<Rightarrow> guarded FdTableMtx [])"

text \<open>The frames that are read are the items that are pushed.\<close>

definition handleDataIn_locks :: "rx_event list \<Rightarrow> conn_ctx \<Rightarrow> server \<Rightarrow> lock_op list" where
  "handleDataIn_locks rx cctx s =
     (case PFramer_readAll (cc_framer cctx) (wqIn s) rx of
        (r, f, q, _) \<Rightarrow>
          concat (replicate (length (wq_items q) - length (wq_items (wqIn s))) (pushItem_locks QueueMutexIn)) @
          (case r of Inl e \<Rightarrow> [] | Inr _ \<Rightarrow> if isReadEof f then closeClient_ctx_locks s else []))"

definition client_event_locks :: "epoll_event \<Rightarrow> conn_ctx \<Rightarrow> server \<Rightarrow> lock_op list" where
  "client_event_locks ev cctx s =
     (if ev_err ev \<or> ev_hup ev then closeClient_ctx_locks s
      else case client_ready ev cctx s of
             Inl e \<Rightarrow> []
           | Inr s \<Rightarrow>
               if \<not> ev_in ev then []
               else case fdInfoTable s (ev_fd ev) of
                      None \<Rightarrow> []
                    | Some cctx \<Rightarrow> handleDataIn_locks (ev_rx ev) cctx s)"

definition handle_event_locks :: "epoll_event \<Rightarrow> server \<Rightarrow> lock_op list" where
  "handle_event_locks ev s =
     (if ev_fd ev = srv_fd s then (if ev_err ev \<or> \<not> ev_in ev then [] else acceptClient_locks (ev_accept ev) s)
      else if ev_fd ev = eventFdOut s then (if fst (eventfd_read (k_count s)) then handleDataOut_locks s else [])
      else guarded FdTableMtx
        (case fdInfoTable s (ev_fd ev) of None \<Rightarrow> [] | Some cctx \<Rightarrow> client_event_locks ev cctx s))"

text \<open>The worker: the entry of the blocking fetch until its wait, every wake-up of the wait, one push for each reply, \<open>closeClient\<close>.\<close>

definition worker_step_locks :: "proto_env \<Rightarrow> server \<Rightarrow> lock_op list" where
  "worker_step_locks E s =
     (case worker s of
        None \<Rightarrow> []
      | Some w \<Rightarrow>
          (case runnerThread w of
             Some AtFetch \<Rightarrow> guarded QueueMutexIn []
           | Some InWait \<Rightarrow> guarded QueueMutexIn []
           | Some (Processing itm) \<Rightarrow>
               (case worker_process E itm w s of
                  Inl e \<Rightarrow> []
                | Inr (_, s') \<Rightarrow>
                    concat (replicate (length (wq_items (wqOut s')) - length (wq_items (wqOut s))) (pushItem_locks QueueMutexOut)))
           | Some (Closing fd) \<Rightarrow> closeClient_fd_locks fd s
           | _ \<Rightarrow> []))"

fun action_locks :: "proto_env \<Rightarrow> action \<Rightarrow> server \<Rightarrow> lock_op list" where
  "action_locks E (LoopEvent ev) s = handle_event_locks ev s"
| "action_locks E WorkerStep s = worker_step_locks E s"
| "action_locks E StopBegin s = (if worker s = None then [] else cancelFetch_locks QueueMutexIn)"
| "action_locks E (SetAuthenticator a) s = []"

text \<open>What a thread locks that performs these actions, each in some state of the server.\<close>

definition thread_locks :: "proto_env \<Rightarrow> (action \<times> server) list \<Rightarrow> lock_op list" where
  "thread_locks E xs = concat (map (\<lambda>(a, s). action_locks E a s) xs)"

section \<open>The order of the mutexes\<close>

text \<open>\<open>fdTableMtx\<close> comes before the others; nothing is locked under \<open>htMutex\<close> or the mutex of a queue.\<close>

fun rank :: "mutex \<Rightarrow> nat" where
  "rank FdTableMtx = 0"
| "rank HtMutex = 1"
| "rank QueueMutexIn = 1"
| "rank QueueMutexOut = 1"

fun ordered :: "mutex list \<Rightarrow> lock_op list \<Rightarrow> bool" where
  "ordered held [] = (held = [])"
| "ordered held (Lock m # p) = ((\<forall>h\<in>set held. rank h < rank m) \<and> ordered (m # held) p)"
| "ordered held (Unlock m # p) = (held \<noteq> [] \<and> hd held = m \<and> ordered (tl held) p)"

text \<open>A part of a program that gives back what it takes, under the mutexes \<open>held\<close>.\<close>

definition nested :: "mutex list \<Rightarrow> lock_op list \<Rightarrow> bool" where
  "nested held p \<longleftrightarrow> (\<forall>q. ordered held (p @ q) = ordered held q)"

named_theorems nesting \<open>what every part of the code locks is nested and in order\<close>

lemma nested_Nil [nesting]: "nested held []"
  by (simp add: nested_def)

lemma nested_append [nesting]: "nested held p \<Longrightarrow> nested held q \<Longrightarrow> nested held (p @ q)"
  by (simp add: nested_def)

lemma nested_concat: "\<forall>p\<in>set ps. nested held p \<Longrightarrow> nested held (concat ps)"
  by (induction ps) (simp_all add: nesting)

lemma nested_replicate [nesting]: "nested held p \<Longrightarrow> nested held (concat (replicate n p))"
  by (rule nested_concat) simp

lemma nested_guarded [nesting]: "\<forall>h\<in>set held. rank h < rank m \<Longrightarrow> nested (m # held) p \<Longrightarrow> nested held (guarded m p)"
  by (simp add: nested_def guarded_def)

lemma nested_ordered: "nested [] p \<Longrightarrow> ordered [] p"
  unfolding nested_def by (metis append_Nil2 ordered.simps(1))

lemmas lock_defs = pushItem_locks_def fetchItemNonBlocking_locks_def cancelFetch_locks_def createContext_locks_def
  destroyContext_locks_def createHandler_locks_def destroyHandler_locks_def closeClient_ctx_locks_def closeClient_fd_locks_def
  acceptClient_locks_def

lemma handleDataIn_nested: "nested [FdTableMtx] (handleDataIn_locks rx c s)"
  by (auto simp: handleDataIn_locks_def lock_defs intro!: nesting split: prod.split sum.split)

lemma client_event_nested: "nested [FdTableMtx] (client_event_locks ev c s)"
  using handleDataIn_nested
  by (auto simp: client_event_locks_def lock_defs intro!: nesting split: sum.split option.split)

lemma handle_event_nested: "nested [] (handle_event_locks ev s)"
  using client_event_nested
  by (auto simp: handle_event_locks_def handleDataOut_locks_def lock_defs intro!: nesting
      split: accept_result.split option.split prod.split)

lemma worker_step_nested: "nested [] (worker_step_locks E s)"
  by (auto simp: worker_step_locks_def lock_defs intro!: nesting split: option.split worker_pc.split sum.split prod.split)

lemma action_nested: "nested [] (action_locks E a s)"
  using handle_event_nested worker_step_nested
  by (cases a) (auto simp: lock_defs intro!: nesting)

lemma thread_ordered: "ordered [] (thread_locks E xs)"
  by (auto simp: thread_locks_def intro!: nested_ordered nested_concat action_nested)

section \<open>Absence of deadlocks\<close>

text \<open>Every thread owns the mutexes it has locked and will unlock.\<close>

definition lock_inv :: "lock_state \<Rightarrow> bool" where
  "lock_inv \<sigma> \<longleftrightarrow>
     (\<exists>held. (\<forall>i < length (snd \<sigma>). ordered (held i) (snd \<sigma> ! i) \<and> distinct (held i)) \<and>
        (\<forall>m i. fst \<sigma> m = Some i \<longleftrightarrow> i < length (snd \<sigma>) \<and> m \<in> set (held i)))"

lemma lock_inv_start: "\<forall>p\<in>set ps. ordered [] p \<Longrightarrow> lock_inv (\<lambda>m. None, ps)"
  unfolding lock_inv_def by (intro exI [of _ "\<lambda>i. []"]) simp

lemma lock_inv_step:
  assumes "lock_step \<sigma> \<tau>" "lock_inv \<sigma>"
  shows "lock_inv \<tau>"
proof -
  from assms(2) obtain held where h: "\<And>i. i < length (snd \<sigma>) \<Longrightarrow> ordered (held i) (snd \<sigma> ! i) \<and> distinct (held i)"
    "\<And>m i. fst \<sigma> m = Some i \<longleftrightarrow> i < length (snd \<sigma>) \<and> m \<in> set (held i)"
    unfolding lock_inv_def by blast
  from assms(1) show ?thesis
  proof cases
    case (acquire i ps m p own)
    let ?held = "held(i := m # held i)"
    have "m \<notin> set (held i)" using h(2) [of m i] acquire by auto
    with acquire h(1) have "\<forall>j < length ps. ordered (?held j) (ps[i := p] ! j) \<and> distinct (?held j)"
      by (fastforce simp: nth_list_update)
    moreover have "(own(m := Some i)) m' = Some j \<longleftrightarrow> j < length (ps[i := p]) \<and> m' \<in> set (?held j)" for m' j
      using h(2) [of m' j] acquire by auto
    ultimately show ?thesis unfolding lock_inv_def acquire by (intro exI [of _ ?held]) simp
  next
    case (release i ps m p own)
    let ?held = "held(i := tl (held i))"
    from release h(1) [of i] obtain hs where hs: "held i = m # hs" "ordered hs p" "distinct (m # hs)"
      by (cases "held i") auto
    with release h(1) have "\<forall>j < length ps. ordered (?held j) (ps[i := p] ! j) \<and> distinct (?held j)"
      by (auto simp: nth_list_update)
    moreover have "(own(m := None)) m' = Some j \<longleftrightarrow> j < length (ps[i := p]) \<and> m' \<in> set (?held j)" for m' j
      using h(2) [of m' j] h(2) [of m i] release hs by auto
    ultimately show ?thesis unfolding lock_inv_def release by (intro exI [of _ ?held]) simp
  qed
qed

lemma lock_inv_run: "lock_run \<sigma> \<tau> \<Longrightarrow> lock_inv \<sigma> \<Longrightarrow> lock_inv \<tau>"
  by (induction rule: lock_run.induct) (blast intro: lock_inv_step)+

text \<open>The owner of a mutex of the highest rank that is owned can go on, and so can anybody when none is owned.\<close>

lemma lock_inv_progress:
  assumes "lock_inv (own, ps)" "\<exists>p\<in>set ps. p \<noteq> []"
  shows "\<exists>\<tau>. lock_step (own, ps) \<tau>"
proof -
  from assms(1) obtain held where h: "\<And>i. i < length ps \<Longrightarrow> ordered (held i) (ps ! i)"
    "\<And>m i. own m = Some i \<longleftrightarrow> i < length ps \<and> m \<in> set (held i)"
    unfolding lock_inv_def by auto
  have step: "\<exists>\<tau>. lock_step (own, ps) \<tau>"
    if i: "i < length ps" "ps ! i \<noteq> []" "\<And>m. own m \<noteq> None \<Longrightarrow> \<exists>h\<in>set (held i). rank m \<le> rank h" for i
  proof (cases "ps ! i")
    case (Cons o' p)
    show ?thesis
    proof (cases o')
      case (Lock m)
      with h(1) [OF i(1)] Cons have "\<forall>h\<in>set (held i). rank h < rank m" by simp
      with i(3) [of m] have "own m = None" by (metis leD)
      from acquire [where own = own, OF i(1) _ this] Cons Lock show ?thesis by blast
    next
      case (Unlock m)
      with h(1) [OF i(1)] Cons have "m \<in> set (held i)" by (auto intro: hd_in_set)
      with h(2) [of m i] i(1) have "own m = Some i" by simp
      from release [where own = own, OF i(1) _ this] Cons Unlock show ?thesis by blast
    qed
  qed (use i(2) in simp)
  show ?thesis
  proof (cases "\<exists>m. own m \<noteq> None")
    case True
    let ?R = "{rank m | m. own m \<noteq> None}"
    have "rank m \<le> 1" for m by (cases m) simp_all
    then have "?R \<subseteq> {..1}" by auto
    then have fin: "finite ?R" by (rule finite_subset) simp
    with True have "Max ?R \<in> ?R" by (intro Max_in) auto
    then obtain m i where m: "rank m = Max ?R" "own m = Some i" by auto
    then have i: "i < length ps" "m \<in> set (held i)" using h(2) by simp_all
    with h(1) [of i] have "ps ! i \<noteq> []" by auto
    moreover have "\<exists>h\<in>set (held i). rank m' \<le> rank h" if "own m' \<noteq> None" for m'
    proof -
      have "rank m' \<in> ?R" using that by blast
      from Max_ge [OF fin this] have "rank m' \<le> rank m" unfolding m(1) .
      with i(2) show ?thesis by blast
    qed
    ultimately show ?thesis by (rule step [OF i(1)])
  next
    case False
    from assms(2) obtain i where "i < length ps" "ps ! i \<noteq> []" by (metis in_set_conv_nth)
    with step [of i] False show ?thesis by blast
  qed
qed

section \<open>Property\<close>

text \<open>C12: The server has no deadlock on its mutexes: let any number of threads perform actions of the event loop, of the
  worker and of the application, each in whatever states of the server. From every state they reach, in any
  interleaving, some thread can go on unless all are through; in particular no thread locks a mutex it already owns.\<close>

theorem no_deadlock:
  assumes "lock_run (\<lambda>m. None, map (thread_locks E) xss) (own, ps)"
  shows "(\<exists>\<tau>. lock_step (own, ps) \<tau>) \<or> (\<forall>p\<in>set ps. p = []) \<and> (\<forall>m. own m = None)"
proof -
  have "lock_inv (own, ps)"
    using thread_ordered by (intro lock_inv_run [OF assms] lock_inv_start) auto
  moreover from this have "own m = None" if "\<forall>p\<in>set ps. p = []" for m
  proof (cases "own m")
    case (Some i)
    from \<open>lock_inv (own, ps)\<close> obtain held where "i < length ps \<longrightarrow> ordered (held i) (ps ! i)"
      "own m = Some i \<longleftrightarrow> i < length ps \<and> m \<in> set (held i)" unfolding lock_inv_def by auto
    moreover from this Some that have "ps ! i = []" by simp
    ultimately show ?thesis using Some by simp
  qed
  ultimately show ?thesis using lock_inv_progress [of own ps] by blast
qed

end
