(* ===== verification/Shutdowns.thy ===== *)
theory Shutdowns
  imports FineRaces
begin

text \<open>
  The end of a server and its second start. \<open>stop\<close> tells the worker's thread to end and joins it, which may wait for
  ever; it leaves the listening socket, the connections and the table of connections as they are, so that a second
  \<open>bindSock\<close> fails.
\<close>

section \<open>What the threads leave alone\<close>

text \<open>
  The server's own descriptors, and every other one that has no connection and that no accepted client gets. The event
  loop also leaves alone what \<open>stop\<close> tells the worker.
\<close>

definition same_fds :: "int set \<Rightarrow> server \<Rightarrow> server \<Rightarrow> bool" where
  "same_fds A s s' \<longleftrightarrow>
     srv_fd s' = srv_fd s \<and> eventFdOut s' = eventFdOut s \<and> epollFd s' = epollFd s \<and> (running s' \<longrightarrow> running s) \<and>
     (\<forall>fd. fd \<notin> A \<longrightarrow> fdInfoTable s fd = None \<longrightarrow>
        fdInfoTable s' fd = None \<and> (fd \<in> k_open s' \<longleftrightarrow> fd \<in> k_open s) \<and> (fd \<in> k_interest s' \<longleftrightarrow> fd \<in> k_interest s))"

definition same_stop :: "server \<Rightarrow> server \<Rightarrow> bool" where
  "same_stop s s' \<longleftrightarrow>
     map_option shouldStop (worker s') = map_option shouldStop (worker s) \<and> fetchCancelled (wqIn s') = fetchCancelled (wqIn s)"

definition undisturbed :: "int set \<Rightarrow> server \<Rightarrow> server \<Rightarrow> bool" where
  "undisturbed A s s' \<longleftrightarrow> same_fds A s s' \<and> same_stop s s'"

lemmas undisturbed_defs = undisturbed_def same_fds_def same_stop_def

lemma same_fds_refl [simp]: "same_fds A s s"
  by (simp add: same_fds_def)

lemma same_fds_trans: "same_fds A s s1 \<Longrightarrow> same_fds B s1 s' \<Longrightarrow> same_fds (A \<union> B) s s'"
  by (simp add: same_fds_def)

lemma undisturbed_refl [simp]: "undisturbed A s s"
  by (simp add: undisturbed_defs)

lemma undisturbed_trans: "undisturbed A s s1 \<Longrightarrow> undisturbed A s1 s' \<Longrightarrow> undisturbed A s s'"
  using same_fds_trans [of A s s1 A s'] by (simp add: undisturbed_def same_stop_def)

lemma fold_pushItem_cancelled [simp]: "fetchCancelled (fold pushItem its q) = fetchCancelled q"
  by (induction its arbitrary: q) simp_all

lemma k_close_more:
  "epollFd (k_close fd s) = epollFd s" "running (k_close fd s) = running s"
  "k_open (k_close fd s) = k_open s - {fd}" "k_interest (k_close fd s) = k_interest s - {fd}"
  by (simp_all add: k_close_def)

lemma closeClient_ctx_undisturbed: "fdInfoTable s (cc_fd c) \<noteq> None \<Longrightarrow> undisturbed A s (closeClient_ctx st c s)"
  by (auto simp: undisturbed_defs closeClient_ctx_def epollDelClient_def k_close_def destroyContext_def Let_def split: option.split)

lemma conn_writeAll_undisturbed: "conn_writeAll fd tx c s = Inr s' \<Longrightarrow> fdInfoTable s fd \<noteq> None \<Longrightarrow> undisturbed A s s'"
  by (auto simp: conn_writeAll_def undisturbed_defs Let_def split: prod.splits sum.splits)

lemma handleDataIn_undisturbed:
  assumes "handleDataIn fd rx st c s = Inr s'" "conn_ok fd c" "fdInfoTable s fd \<noteq> None"
  shows "undisturbed A s s'"
proof -
  from handleDataIn_spec [OF assms(1,2)] obtain f its s1 where s1: "conn_ok fd (c\<lparr>cc_framer := f\<rparr>)"
    "s1 = s\<lparr>wqIn := fold pushItem its (wqIn s), fdInfoTable := (fdInfoTable s)(fd \<mapsto> c\<lparr>cc_framer := f\<rparr>)\<rparr>"
    "s' = (if isReadEof f then closeClient_ctx st (c\<lparr>cc_framer := f\<rparr>) s1 else s1)" by blast
  have "undisturbed A s s1" using assms(3) by (auto simp: s1(2) undisturbed_defs)
  moreover have "undisturbed A s1 (closeClient_ctx st (c\<lparr>cc_framer := f\<rparr>) s1)"
    using s1(1) by (intro closeClient_ctx_undisturbed) (simp add: s1(2) conn_ok_def)
  ultimately show ?thesis using s1(3) undisturbed_trans by simp
qed

lemma client_ready_undisturbed:
  "client_ready ev c s = Inr s' \<Longrightarrow> fdInfoTable s (ev_fd ev) \<noteq> None \<Longrightarrow> undisturbed A s s'"
  by (auto simp: client_ready_def undisturbed_defs dest: conn_writeAll_undisturbed [where A = A, unfolded undisturbed_defs] split: if_splits)

lemma client_event_undisturbed:
  assumes "client_event ev c s = Inr s'" "server_inv s" "fdInfoTable s (ev_fd ev) = Some c"
  shows "undisturbed A s s'"
proof (cases "ev_err ev \<or> ev_hup ev")
  case True
  have "cc_fd c = ev_fd ev" using server_inv_connD [OF assms(2,3)] by (simp add: conn_ok_def)
  with True assms(1,3) closeClient_ctx_undisturbed [of s c A] show ?thesis by (auto simp: client_event_def split: if_splits)
next
  case False
  with assms(1) obtain s1 where s1: "client_ready ev c s = Inr s1"
    by (cases "client_ready ev c s") (auto simp: client_event_def)
  from client_ready_undisturbed [OF s1] assms(3) have q: "undisturbed A s s1" by simp
  from client_ready_keeps [OF assms(2,3)] s1 have i: "server_inv s1" by simp
  from False s1 assms(1) consider "s' = s1"
    | c1 where "fdInfoTable s1 (ev_fd ev) = Some c1" "handleDataIn (ev_fd ev) (ev_rx ev) (ev_stale ev) c1 s1 = Inr s'"
    by (auto simp: client_event_def split: if_splits option.splits)
  then show ?thesis
  proof cases
    case (2 c1)
    with handleDataIn_undisturbed [OF 2(2) server_inv_connD [OF i 2(1)], of A] undisturbed_trans [OF q] show ?thesis by simp
  qed (use q in simp)
qed

lemma handleDataOut_undisturbed:
  assumes "handleDataOut tx s = Inr s'"
  shows "undisturbed A s s'"
proof -
  obtain r q where f: "fetchItemNonBlocking (wqOut s) = (r, q)" by fastforce
  have q: "undisturbed A s (s\<lparr>wqOut := q\<rparr>)" by (simp add: undisturbed_defs)
  from assms f consider "s' = s\<lparr>wqOut := q\<rparr>"
    | fd c where "fdInfoTable s fd \<noteq> None" "conn_writeAll fd tx c (s\<lparr>wqOut := q\<rparr>) = Inr s'"
    by (auto simp: handleDataOut_def Let_def split: option.splits prod.splits bool.splits)
  then show ?thesis
  proof cases
    case (2 fd c)
    with conn_writeAll_undisturbed [OF 2(2), of A] undisturbed_trans [OF q] show ?thesis by simp
  qed (use q in simp)
qed

lemma acceptClient_undisturbed: "undisturbed (created (LoopEvent ev)) s (acceptClient (ev_accept ev) s)"
  by (auto simp: undisturbed_defs acceptClient_def createHandler_conn_def createContext_def epollAddClient_def k_close_def Let_def
      split: accept_result.split option.split)

lemma handle_event_undisturbed:
  assumes "handle_event ev s = Inr s'" "server_inv s"
  shows "undisturbed (created (LoopEvent ev)) s s'"
proof -
  consider (srv) "ev_fd ev = srv_fd s" | (out) "ev_fd ev \<noteq> srv_fd s" "ev_fd ev = eventFdOut s"
    | (client) "ev_fd ev \<noteq> srv_fd s" "ev_fd ev \<noteq> eventFdOut s" by blast
  then show ?thesis
  proof cases
    case srv
    with assms(1) acceptClient_undisturbed [of ev s] show ?thesis
      by (auto simp: handle_event_def undisturbed_defs simp del: created.simps split: if_splits)
  next
    case out
    then have "s' = s \<or> (\<exists>n. handleDataOut (ev_tx ev) (s\<lparr>k_count := n\<rparr>) = Inr s')"
      using assms(1) by (auto simp: handle_event_def split: prod.splits bool.splits)
    moreover have "undisturbed A s (s\<lparr>k_count := n\<rparr>)" for A n by (simp add: undisturbed_defs)
    ultimately show ?thesis using undisturbed_trans handleDataOut_undisturbed by (metis undisturbed_refl)
  next
    case client
    with assms client_event_undisturbed show ?thesis by (auto simp: handle_event_def split: option.splits)
  qed
qed

lemma set_pc_same_fds [simp]: "same_fds A s (set_pc pc s') = same_fds A s s'"
  by (simp add: same_fds_def set_pc_fields) (simp add: set_pc_def split: option.split)




section \<open>Ending the worker's thread\<close>

text \<open>The fetch waits for a frame although it has been cancelled: the worker is about to enter it, which resets the
  cancellation, or has done so.\<close>

definition waits_in_vain :: "server \<Rightarrow> bool" where
  "waits_in_vain s \<longleftrightarrow>
     wq_items (wqIn s) = [] \<and> (worker_at s AtFetch \<or> worker_at s InWait \<and> \<not> fetchCancelled (wqIn s))"

definition exits :: "proto_env \<Rightarrow> server \<Rightarrow> bool" where
  "exits E s \<longleftrightarrow> (\<exists>n s'. worker_steps E n s = Inr s' \<and> Server_stop_end s' \<noteq> None)"

lemma exits_step: "worker_step E s = Inr s1 \<Longrightarrow> exits E s1 \<Longrightarrow> exits E s"
  unfolding exits_def by (metis sum.simps(6) worker_steps.simps(2))

lemma exits_now: "worker_at s Exited \<Longrightarrow> exits E s"
  unfolding exits_def by (intro exI [of _ 0] exI [of _ s]) (auto simp: Server_stop_end_def ServerWorker_join_def)

text \<open>A worker that has been told to end and stays so.\<close>

abbreviation stopping :: "server \<Rightarrow> worker_pc \<Rightarrow> bool" where
  "stopping s pc \<equiv> (\<exists>w. worker s = Some w \<and> runnerThread w = Some pc \<and> shouldStop w)"

lemma stopping_set_pc: "stopping s p \<Longrightarrow> stopping (set_pc pc s) pc"
  by (auto simp: set_pc_def)

lemma exits_AtTest: "stopping s AtTest \<Longrightarrow> exits E s"
  by (rule exits_step [of E s "set_pc Exited s"]) (auto simp: worker_step_def set_pc_def intro!: exits_now)

lemma exits_Closing:
  assumes "stopping s (Closing fd)"
  shows "exits E s"
proof (rule exits_step)
  show "worker_step E s = Inr (set_pc AtTest (closeClient_fd fd s))" using assms by (auto simp: worker_step_def)
  have "stopping (closeClient_fd fd s) (Closing fd)"
    using assms by (auto simp: closeClient_fd_def destroyHandler_def destroyContext_def kernel_simps Let_def split: option.split)
  from stopping_set_pc [OF this] show "exits E (set_pc AtTest (closeClient_fd fd s))" by (rule exits_AtTest)
qed

lemma exits_Processing:
  assumes "env_ok E L" "server_inv s" "sessions_return s" "stopping s (Processing itm)"
  shows "exits E s"
proof -
  from assms(4) obtain w where w: "worker s = Some w" "runnerThread w = Some (Processing itm)" "shouldStop w" by blast
  from worker_process_returns [OF assms(1-3) w(1,2)] obtain pc s1 where p: "worker_process E itm w s = Inr (pc, s1)" by blast
  have "stopping s1 (Processing itm)" "pc = AtTest \<or> pc = Closing (fst itm)"
    using p w by (auto simp: worker_process_def Let_def split: option.splits if_splits sum.splits prod.splits)
  then have "exits E (set_pc pc s1)"
    using exits_AtTest exits_Closing stopping_set_pc [of s1 "Processing itm"] by blast
  moreover have "worker_step E s = Inr (set_pc pc s1)" using w p by (simp add: worker_step_def)
  ultimately show ?thesis by (rule exits_step [rotated])
qed

lemma exits_InWait:
  assumes "env_ok E L" "server_inv s" "sessions_return s" "stopping s InWait" "wq_items (wqIn s) \<noteq> [] \<or> fetchCancelled (wqIn s)"
  shows "exits E s"
proof -
  from assms(4) obtain w where w: "worker s = Some w" "runnerThread w = Some InWait" "shouldStop w" by blast
  from worker_step_returns [OF assms(1-3)] obtain s1 where s1: "worker_step E s = Inr s1" "sessions_return s1" by blast
  with worker_step_keeps [OF assms(2), of E] have inv: "server_inv s1" by simp
  from s1(1) w assms(5) have "stopping s1 AtTest \<or> (\<exists>itm. stopping s1 (Processing itm))"
    by (auto simp: worker_step_def fetchBlocking_wake_def set_pc_def split: list.splits if_splits)
  with exits_AtTest exits_Processing [OF assms(1) inv s1(2)] exits_step [OF s1(1)] show ?thesis by blast
qed

lemma exits_AtFetch:
  assumes "env_ok E L" "server_inv s" "sessions_return s" "stopping s AtFetch" "wq_items (wqIn s) \<noteq> []"
  shows "exits E s"
proof -
  from worker_step_returns [OF assms(1-3)] obtain s1 where s1: "worker_step E s = Inr s1" "sessions_return s1" by blast
  with worker_step_keeps [OF assms(2), of E] have inv: "server_inv s1" by simp
  from s1(1) assms(4,5) have "stopping s1 InWait" "wq_items (wqIn s1) \<noteq> []"
    by (auto simp: worker_step_def fetchBlocking_enter_def set_pc_def)
  with exits_InWait [OF assms(1) inv s1(2)] exits_step [OF s1(1)] show ?thesis by blast
qed

lemma stopping_exits:
  assumes "env_ok E L" "server_inv s" "sessions_return s" "stopping s pc" "\<not> waits_in_vain s"
  shows "exits E s"
  using assms exits_now exits_AtTest exits_Closing exits_Processing [OF assms(1-3)] exits_InWait [OF assms(1-3)]
    exits_AtFetch [OF assms(1-3)]
  by (cases pc) (auto simp: waits_in_vain_def)

lemma vain_stays:
  assumes "worker_steps E n s = Inr s'" "waits_in_vain s"
  shows "Server_stop_end s' = None"
proof -
  have join: "Server_stop_end s = None" if "worker_at s AtFetch \<or> worker_at s InWait" for s
    using that by (auto simp: Server_stop_end_def ServerWorker_join_def)
  have wait: "Server_stop_end s' = None"
    if "worker_at s InWait" "wq_items (wqIn s) = []" "\<not> fetchCancelled (wqIn s)" "worker_steps E n s = Inr s'" for n s
    using that worker_waits [OF _ _ that(2,3)] join by auto
  show ?thesis
  proof (cases "worker_at s AtFetch")
    case True
    let ?s1 = "set_pc InWait (s\<lparr>wqIn := fetchBlocking_enter (wqIn s)\<rparr>)"
    have "worker_step E s = Inr ?s1" using True by (auto simp: worker_step_def)
    moreover have "worker_at ?s1 InWait" "wq_items (wqIn ?s1) = []" "\<not> fetchCancelled (wqIn ?s1)"
      using True assms(2) by (auto simp: set_pc_def fetchBlocking_enter_def waits_in_vain_def)
    ultimately show ?thesis using assms(1) join [of s] True wait by (cases n) auto
  next
    case False
    with assms wait show ?thesis by (auto simp: waits_in_vain_def)
  qed
qed

text \<open>What is left of the point \<open>pc\<close> at which \<open>stop\<close> caught the worker.\<close>

definition caught :: "worker_pc \<Rightarrow> server \<Rightarrow> bool" where
  "caught pc s \<longleftrightarrow> (\<exists>p. stopping s p \<and> (p = AtFetch \<longrightarrow> pc = AtFetch) \<and> (p = InWait \<longrightarrow> fetchCancelled (wqIn s) \<or> pc = AtFetch))"

lemma caught_begin: "worker_at s pc \<Longrightarrow> caught pc (Server_stop_begin s)"
  by (auto simp: caught_def Server_stop_begin_def ServerWorker_stop_begin_def cancelFetch_def k_notify_def Let_def)

lemma caught_worker:
  assumes "worker_step E s = Inr s'" "caught pc s"
  shows "caught pc s'"
proof -
  from assms(2) obtain p where p: "stopping s p" "p = AtFetch \<longrightarrow> pc = AtFetch" "p = InWait \<longrightarrow> fetchCancelled (wqIn s) \<or> pc = AtFetch"
    by (auto simp: caught_def)
  show ?thesis
  proof (cases p)
    case (Processing itm)
    then obtain w pc' s1 where "worker s = Some w" "shouldStop w" "worker_process E itm w s = Inr (pc', s1)" "s' = set_pc pc' s1"
      using p(1) assms(1) by (auto simp: worker_step_def split: sum.splits)
    then show ?thesis
      by (auto simp: caught_def worker_process_def set_pc_def Let_def split: option.splits if_splits sum.splits prod.splits)
  next
    case (Closing fd)
    with p(1) assms(1) have "s' = set_pc AtTest (closeClient_fd fd s)" by (auto simp: worker_step_def)
    moreover have "stopping (closeClient_fd fd s) (Closing fd)"
      using p(1) Closing by (auto simp: closeClient_fd_def destroyHandler_def destroyContext_def kernel_simps Let_def split: option.split)
    ultimately show ?thesis using stopping_set_pc unfolding caught_def by blast
  next
    case InWait
    with p assms(1) show ?thesis
      by (auto simp: caught_def worker_step_def fetchBlocking_wake_def set_pc_def split: list.splits if_splits)
  qed (use p assms(1) in \<open>auto simp: caught_def worker_step_def set_pc_def\<close>)
qed

lemma caught_exec:
  assumes "server_exec E a s = Inr s'" "server_inv s" "caught pc s"
  shows "caught pc s'"
proof (cases "a = WorkerStep")
  case True
  with assms(1,3) caught_worker show ?thesis by auto
next
  case False
  from assms(3) obtain p where p: "stopping s p" "p = AtFetch \<longrightarrow> pc = AtFetch" "p = InWait \<longrightarrow> fetchCancelled (wqIn s) \<or> pc = AtFetch"
    by (auto simp: caught_def)
  then have "worker_at s' p" using server_exec_pc [OF assms(1) False] by blast
  moreover have "same_stop s s' \<or> (\<forall>w. worker s' = Some w \<longrightarrow> shouldStop w) \<and> fetchCancelled (wqIn s')"
    using assms(1,2) False handle_event_undisturbed
    by (cases a) (auto simp: undisturbed_def same_stop_def Server_stop_begin_def ServerWorker_stop_begin_def cancelFetch_def
        k_notify_def setAuthenticator_def Let_def split: option.splits)
  ultimately show ?thesis using p by (auto simp: caught_def same_stop_def)
qed

lemma caught_run:
  "server_run E s bs t \<Longrightarrow> server_inv s \<Longrightarrow> list_all sane_action bs \<Longrightarrow> caught pc s \<Longrightarrow> caught pc t"
proof (induction rule: server_run.induct)
  case (srv_step a s s1 as s')
  have "server_inv s1" using server_exec_keeps [of s a E] srv_step.prems srv_step.hyps(1) by (simp add: keeps_def)
  with srv_step caught_exec [OF srv_step.hyps(1)] show ?case by simp
qed simp

text \<open>With no frame in the queue the worker gets no further than the wait.\<close>

lemma vain_run:
  "\<lbrakk>server_run E s bs t; waits_in_vain s; StopBegin \<notin> set bs; server_inv s; list_all sane_action bs;
    \<And>as1 as2 u. bs = as1 @ as2 \<Longrightarrow> server_run E s as1 u \<Longrightarrow> wq_items (wqIn u) = []\<rbrakk> \<Longrightarrow> waits_in_vain t"
proof (induction rule: server_run.induct)
  case (srv_step a s s1 as t)
  have empty: "wq_items (wqIn s1) = []"
    using srv_step.prems(5) [of "[a]" as s1] srv_step.hyps(1) by (auto intro: server_run.intros)
  have "waits_in_vain s1"
  proof (cases "a = WorkerStep")
    case True
    with srv_step.hyps(1) srv_step.prems(1) show ?thesis
      by (auto simp: waits_in_vain_def worker_step_def fetchBlocking_enter_def fetchBlocking_wake_def set_pc_def)
  next
    case False
    have "fetchCancelled (wqIn s1) = fetchCancelled (wqIn s)"
      using srv_step.hyps(1) srv_step.prems(2,3) False handle_event_undisturbed
      by (cases a) (auto simp: undisturbed_def same_stop_def setAuthenticator_def)
    with empty server_exec_pc [OF srv_step.hyps(1) False] srv_step.prems(1) show ?thesis
      unfolding waits_in_vain_def by metis
  qed
  moreover have "server_inv s1"
    using server_exec_keeps [of s a E] srv_step.prems(3,4) srv_step.hyps(1) by (simp add: keeps_def)
  moreover have "wq_items (wqIn u) = []" if "as = as1 @ as2" "server_run E s1 as1 u" for as1 as2 u
    using srv_step.prems(5) [of "a # as1" as2 u] that srv_step.hyps(1) by (auto intro: server_run.intros)
  ultimately show ?case using srv_step.IH srv_step.prems(2,4) by simp
qed simp

section \<open>Properties\<close>

text \<open>C29: Whether \<open>stop\<close> returns depends on where it catches the worker. Take any state \<open>s\<close> of a server in service, the
  beginning of \<open>stop\<close> there, and any state \<open>t\<close> the threads reach from it while \<open>stop\<close> joins the worker's thread. From \<open>t\<close> the
  thread, left to itself, comes to its end and the join succeeds, unless it waits in vain in \<open>t\<close>: it is at or in the
  fetch, whose entry resets the cancellation, with no frame queued. That can only be when \<open>stop\<close> caught it between the test
  of its loop and its fetch; and if it did, and no frame comes, it is so: then \<open>stop\<close> never returns.\<close>

theorem stop_returns_iff:
  assumes "in_service s0" "server_run E s0 as s" "list_all sane_action as" "env_ok E L" "worker_at s pc"
    "server_run E (Server_stop_begin s) bs t" "list_all sane_action bs"
  shows "((\<exists>n t'. worker_steps E n t = Inr t' \<and> Server_stop_end t' \<noteq> None) \<longleftrightarrow> \<not> waits_in_vain t) \<and>
    (waits_in_vain t \<longrightarrow> pc = AtFetch) \<and>
    (pc = AtFetch \<and> StopBegin \<notin> set bs \<and>
     (\<forall>as1 as2 u. bs = as1 @ as2 \<longrightarrow> server_run E (Server_stop_begin s) as1 u \<longrightarrow> wq_items (wqIn u) = []) \<longrightarrow>
     waits_in_vain t)"
proof -
  let ?s = "Server_stop_begin s"
  have s: "server_inv s" "sessions_return s"
    using reachable_inv [OF assms(1-3)]
      server_run_returns [OF assms(2,4) in_service_inv [OF assms(1)] in_service_returns [OF assms(1)] assms(3)] by simp_all
  have "server_run E s [StopBegin] ?s" by (auto intro: server_run.intros)
  then have b: "server_inv ?s" "sessions_return ?s"
    using server_run_inv [of E s "[StopBegin]" ?s] server_run_returns [of E s "[StopBegin]" ?s] s assms(4) by simp_all
  have t: "server_inv t" "sessions_return t"
    using server_run_inv [OF assms(6) b(1) assms(7)] server_run_returns [OF assms(6,4) b assms(7)] by simp_all
  have c: "caught pc t" by (rule caught_run [OF assms(6) b(1) assms(7) caught_begin [OF assms(5)]])
  then obtain p where p: "stopping t p" by (auto simp: caught_def)
  have "(\<exists>n t'. worker_steps E n t = Inr t' \<and> Server_stop_end t' \<noteq> None) \<longleftrightarrow> \<not> waits_in_vain t"
    using vain_stays stopping_exits [OF assms(4) t p] unfolding exits_def by metis
  moreover have "waits_in_vain t \<longrightarrow> pc = AtFetch"
    using c by (auto simp: waits_in_vain_def caught_def)
  moreover have "waits_in_vain t" if "pc = AtFetch" "StopBegin \<notin> set bs"
    "\<forall>as1 as2 u. bs = as1 @ as2 \<longrightarrow> server_run E ?s as1 u \<longrightarrow> wq_items (wqIn u) = []"
  proof (rule vain_run [OF assms(6) _ that(2) b(1) assms(7)])
    have "wq_items (wqIn ?s) = []" using that(3) [rule_format, of "[]" bs ?s] by (auto intro: server_run.intros)
    then show "waits_in_vain ?s"
      using that(1) assms(5) by (auto simp: waits_in_vain_def Server_stop_begin_def ServerWorker_stop_begin_def k_notify_def Let_def)
  qed (use that(3) in blast)
  ultimately show ?thesis by blast
qed


end
