(* ===== verification/FineDemo.thy ===== *)
theory FineDemo
  imports FineRaces Locks Shutdowns EndToEndDemo
begin

text \<open>The properties of \<open>FineRaces\<close> at the server of \<open>ServerDemo\<close>: a client is accepted as descriptor 6 and sends a
  frame, and the worker's thread takes it in single steps.\<close>

definition fine_actions :: "nat \<Rightarrow> action list" where
  "fine_actions n =
     [LoopEvent demo_accept, LoopEvent ((demo_event 6)\<lparr>ev_rx := [RxData [0xF0, 0, 1, 0xFF]]\<rparr>)] @ replicate n WorkerStep"

definition fine_summary :: "nat \<Rightarrow> (fine_pc \<times> work_item list \<times> int \<times> int) option \<times> bool" where
  "fine_summary n =
     (case fine_runs demo_env (fine_actions n) (fine_start demo_server) of
        Inl e \<Rightarrow> None
      | Inr f \<Rightarrow> Some (fine_pc f, wq_items (wqOut (fine_server f)), srv_fd (fine_server f), eventFdOut (fine_server f)),
      always (fine_exec demo_env) fine_ok (fine_actions n) (fine_start demo_server))"

definition received :: frame where
  "received = \<lparr>fr_header = 0xF0, fr_len = 1, fr_msg = [0xFF]\<rparr>"

lemma fine_evaluates:
  "fine_summary 4 = (Some (Found (6, received) True, [], 5, 4), True)"
  "fine_summary 7 = (Some (Outside, [(6, demo_frame)], 5, 4), True)"
  by code_simp+

lemma fine_state:
  assumes "fine_summary n = (Some (pc, out, 5, 4), True)"
  obtains f where "fine_runs demo_env (fine_actions n) (fine_start demo_server) = Inr f"
    "always (fine_exec demo_env) fine_ok (fine_actions n) (fine_start demo_server)"
    "fine_pc f = pc" "wq_items (wqOut (fine_server f)) = out" "srv_fd (fine_server f) = 5" "eventFdOut (fine_server f) = 4"
proof (cases "fine_runs demo_env (fine_actions n) (fine_start demo_server)")
  case (Inr f)
  with that [OF Inr] assms show thesis by (simp add: fine_summary_def)
qed (use assms in \<open>simp add: fine_summary_def\<close>)

lemma fine_actions_sane: "list_all sane_action (fine_actions n)"
  by (simp add: fine_actions_def demo_accept_def demo_event_def list_all_iff)

theorem fine_worker_refines_witness:
  "\<exists>f bs. fine_runs demo_env (fine_actions 7) (fine_start demo_server) = Inr f \<and>
     server_run demo_env demo_server bs (fine_server f) \<and> wq_items (wqOut (fine_server f)) = [(6, demo_frame)]"
proof -
  obtain f where f: "fine_runs demo_env (fine_actions 7) (fine_start demo_server) = Inr f"
    "always (fine_exec demo_env) fine_ok (fine_actions 7) (fine_start demo_server)" "fine_pc f = Outside"
    "wq_items (wqOut (fine_server f)) = [(6, demo_frame)]" by (rule fine_state [OF fine_evaluates(2)])
  from fine_worker_refines [OF demo_in_service f(2,1)] f(1,3,4) show ?thesis by auto
qed

theorem worker_faults_iff_stale_witness:
  "\<exists>f. fine_runs demo_env (fine_actions 4) (fine_start demo_server) = Inr f \<and>
     fine_pc f = Found (6, received) True \<and> (\<forall>e. fine_exec demo_env WorkerStep f \<noteq> Inl e)"
proof -
  obtain f where f: "fine_runs demo_env (fine_actions 4) (fine_start demo_server) = Inr f" "fine_pc f = Found (6, received) True"
    by (rule fine_state [OF fine_evaluates(1)])
  from worker_faults_iff_stale [OF demo_in_service fine_actions_sane f(1) demo_env_ok] f show ?thesis by auto
qed

theorem hangup_under_worker_witness:
  "\<exists>f. fine_runs demo_env (fine_actions 4 @ [LoopEvent ((demo_event 6)\<lparr>ev_hup := True\<rparr>)]) (fine_start demo_server) = Inr f \<and>
     fine_exec demo_env WorkerStep f = Inl UseAfterFree"
proof -
  obtain f where f: "fine_runs demo_env (fine_actions 4) (fine_start demo_server) = Inr f" "fine_pc f = Found (6, received) True"
    "srv_fd (fine_server f) = 5" "eventFdOut (fine_server f) = 4" by (rule fine_state [OF fine_evaluates(1)])
  have "held (fine_pc f) = Some 6" "\<not> stale (fine_pc f)" using f(2) by simp_all
  from hangup_under_worker [OF demo_in_service fine_actions_sane f(1) this, of "(demo_event 6)\<lparr>ev_hup := True\<rparr>"] f(3,4) obtain f' where
    "fine_runs demo_env [LoopEvent ((demo_event 6)\<lparr>ev_hup := True\<rparr>)] f = Inr f'" "fine_exec demo_env WorkerStep f' = Inl UseAfterFree"
    by (auto simp: demo_event_def)
  with f(1) show ?thesis by (intro exI [of _ f']) (simp add: runs_append runs_fine [symmetric])
qed

theorem accept_while_closing_strands_witness:
  "\<exists>acts s f. server_run demo_env demo_plain acts s \<and>
     fine_runs demo_env [WorkerStep, WorkerStep, LoopEvent demo_accept, WorkerStep, WorkerStep] (fine_start s) = Inr f \<and>
     6 \<in> k_open (fine_server f) \<and> 6 \<notin> k_interest (fine_server f) \<and> fdInfoTable (fine_server f) 6 = None"
proof -
  obtain acts s g where s: "server_run demo_env demo_plain acts s" "list_all sane_action acts" "finishing demo_env s 6 g"
    "eventFdOut s = 4" "srv_fd s = 5" by (rule demo_finishing)
  from finishing_step [OF s(3)] obtain w s1 where s1: "worker_step demo_env s = Inr s1" "worker s1 = Some w"
    "runnerThread w = Some (Closing 6)" "fdInfoTable s1 = fdInfoTable s" "eventFdOut s1 = eventFdOut s" "srv_fd s1 = srv_fd s"
    by metis
  have r: "server_run demo_env demo_plain (acts @ [WorkerStep]) s1" "list_all sane_action (acts @ [WorkerStep])"
    using server_run_append [OF s(1) server_run_one] s1(1) s(2) by auto
  have "fdInfoTable s1 6 \<noteq> None" using s(3) s1(4) by (auto simp: finishing_def)
  moreover have "(6 :: int) \<noteq> srv_fd s1" "(6 :: int) \<noteq> eventFdOut s1" "ev_fd demo_accept = srv_fd s1"
    using s(4,5) s1(5,6) demo_accept_fields(1) by simp_all
  moreover have "worker_at s1 (Closing 6)" using s1(2,3) by blast
  ultimately obtain f where "fine_runs demo_env [WorkerStep, WorkerStep, LoopEvent demo_accept, WorkerStep, WorkerStep] (fine_start s1) = Inr f"
    "6 \<in> k_open (fine_server f)" "6 \<notin> k_interest (fine_server f)" "fdInfoTable (fine_server f) 6 = None"
    using accept_while_closing_strands [OF demo_plain_in_service r, of 6 demo_accept, OF _ _ _ _ _ demo_accept_fields(2-4)]
    by auto
  with r(1) show ?thesis by blast
qed

text \<open>Two threads: the event loop with an event of the unknown descriptor 6, and the application with \<open>stop\<close>. The loop
  holds \<open>fdTableMtx\<close>.\<close>

definition two_threads :: "(action \<times> server) list list" where
  "two_threads = [[(LoopEvent (demo_event 6), demo_server)], [(StopBegin, demo_server)]]"

theorem no_deadlock_witness:
  "\<exists>own ps. lock_run (\<lambda>m. None, map (thread_locks demo_env) two_threads) (own, ps) \<and> own FdTableMtx = Some 0 \<and>
     ((\<exists>\<tau>. lock_step (own, ps) \<tau>) \<or> (\<forall>p\<in>set ps. p = []) \<and> (\<forall>m. own m = None))"
proof -
  let ?ps = "map (thread_locks demo_env) two_threads"
  have ps: "?ps = [[Lock FdTableMtx, Unlock FdTableMtx], [Lock QueueMutexIn, Unlock QueueMutexIn]]"
    by (simp add: two_threads_def thread_locks_def handle_event_locks_def guarded_def cancelFetch_locks_def demo_server_fields
        demo_event_def)
  have "lock_step (\<lambda>m. None, ?ps) ((\<lambda>m. None)(FdTableMtx := Some 0), ?ps[0 := [Unlock FdTableMtx]])"
    by (rule acquire) (simp_all add: ps)
  from lr_step [OF lr_nil this] no_deadlock [OF lr_step [OF lr_nil this]] show ?thesis
    by (intro exI conjI) (assumption | simp)+
qed

text \<open>The worker has made its first test when \<open>stop\<close> comes, and nobody sends a frame.\<close>

theorem stop_returns_iff_witness:
  "\<not> (\<exists>n t'. worker_steps demo_env n (Server_stop_begin (set_pc AtFetch demo_server)) = Inr t' \<and> Server_stop_end t' \<noteq> None)"
proof -
  let ?s = "set_pc AtFetch demo_server" and ?t = "Server_stop_begin (set_pc AtFetch demo_server)"
  obtain fac g where w: "worker demo_server = Some (ServerWorker_start (ServerWorker_new fac g))"
    using in_service_start(5) [OF demo_in_service] by blast
  have q: "wq_items (wqIn ?t) = []"
    using in_service_start(2) [OF demo_in_service] w
    by (simp add: set_pc_def Server_stop_begin_def ServerWorker_stop_begin_def cancelFetch_def k_notify_def WorkQueue_init_def Let_def)
  have r: "server_run demo_env demo_server [WorkerStep] ?s"
    using w by (intro server_run_one) (simp add: worker_step_def ServerWorker_start_def ServerWorker_new_def)
  have pc: "worker_at ?s AtFetch" using w by (simp add: set_pc_def)
  have "list_all sane_action [WorkerStep]" "list_all sane_action []" by simp_all
  note st = stop_returns_iff [OF demo_in_service r this(1) demo_env_ok pc srv_nil this(2)]
  have "waits_in_vain ?t"
    using st [THEN conjunct2, THEN conjunct2] q by (auto elim: server_run_NilE)
  with st [THEN conjunct1] show ?thesis by blast
qed





end
