(* ===== verification/SessionObjects.thy ===== *)
theory SessionObjects
  imports Sessions
begin

text \<open>
  The objects behind a session: \<open>ProtocolContext\<close>, its sink, its state handler and the message coder the handlers pass
  on, as addresses in a store with \<open>new\<close> and \<open>delete\<close> (\<open>ProtocolContext.cpp\<close>, \<open>ProtocolConnectedHandler.cpp\<close>,
  \<open>ProtocolAuthenticationHandler.cpp\<close>, \<open>ProtocolUserHandler.h\<close>, \<open>ServerWorker::createContext\<close>). In \<open>Handlers\<close> these are
  values; here every method reads its own members, so a method that runs after its object was deleted, or a second
  \<open>delete\<close>, is a fault. What a method decides from the contents of a frame is the \<open>event\<close> of \<open>Sessions\<close>.

  The protobuf messages live in arenas, the key exchange object on the stack; both end with their owner and are left out.
\<close>

section \<open>The store\<close>

type_synonym ptr = nat

text \<open>Objects with the members that matter here: a handler has its coder, a context its sink and its state.\<close>

datatype object =
    PlainCoderObj
  | EncrCoderObj
  | SinkObj
  | ConnectedObj ptr bool
  | AuthObj ptr int
  | UserObj ptr
  | ContextObj "ptr option" "ptr option" "user_factory option"

record store =
  objects :: "ptr \<Rightarrow> object option"
  fresh :: ptr

definition and_then :: "fault + 'a \<Rightarrow> ('a \<Rightarrow> fault + 'b) \<Rightarrow> fault + 'b" where
  "and_then r f = (case r of Inl e \<Rightarrow> Inl e | Inr x \<Rightarrow> f x)"

lemma and_then_simps [simp]: "and_then (Inl e) f = Inl e" "and_then (Inr x) f = f x"
  by (simp_all add: and_then_def)

definition new_obj :: "object \<Rightarrow> store \<Rightarrow> ptr \<times> store" where
  "new_obj x s = (fresh s, s\<lparr>objects := (objects s)(fresh s \<mapsto> x), fresh := Suc (fresh s)\<rparr>)"

definition get_obj :: "ptr \<Rightarrow> store \<Rightarrow> fault + object" where
  "get_obj p s = (case objects s p of None \<Rightarrow> Inl UseAfterFree | Some x \<Rightarrow> Inr x)"

definition set_obj :: "ptr \<Rightarrow> object \<Rightarrow> store \<Rightarrow> fault + store" where
  "set_obj p x s = and_then (get_obj p s) (\<lambda>_. Inr (s\<lparr>objects := (objects s)(p \<mapsto> x)\<rparr>))"

definition free_obj :: "ptr \<Rightarrow> store \<Rightarrow> store" where
  "free_obj p s = s\<lparr>objects := (objects s)(p := None)\<rparr>"

text \<open>\<open>MessageCoder\<close> has no virtual destructor: \<open>delete\<close> through a \<open>MessageCoder*\<close> is defined for a plain coder only.\<close>

definition delete_coder :: "ptr \<Rightarrow> store \<Rightarrow> fault + store" where
  "delete_coder p s =
     and_then (get_obj p s) (\<lambda>x. if x = PlainCoderObj then Inr (free_obj p s) else Inl MismatchedDelete)"

text \<open>The destructors of the handlers, which are virtual: only that of \<open>ProtocolUserHandler\<close> does something.\<close>

definition delete_handler :: "ptr option \<Rightarrow> store \<Rightarrow> fault + store" where
  "delete_handler r s =
     (case r of
        None \<Rightarrow> Inr s
      | Some p \<Rightarrow>
          and_then (get_obj p s) (\<lambda>x.
            case x of
              ConnectedObj k b \<Rightarrow> Inr (free_obj p s)
            | AuthObj k n \<Rightarrow> Inr (free_obj p s)
            | UserObj k \<Rightarrow> and_then (delete_coder k s) (\<lambda>s. Inr (free_obj p s))
            | _ \<Rightarrow> Inl MismatchedDelete))"

definition delete_sink :: "ptr option \<Rightarrow> store \<Rightarrow> fault + store" where
  "delete_sink r s =
     (case r of
        None \<Rightarrow> Inr s
      | Some p \<Rightarrow> and_then (get_obj p s) (\<lambda>x. if x = SinkObj then Inr (free_obj p s) else Inl MismatchedDelete))"

section \<open>The context\<close>

text \<open>A member of an object; the last branch is never reached, the type of the pointer excludes it.\<close>

definition get_context :: "ptr \<Rightarrow> store \<Rightarrow> fault + (ptr option \<times> ptr option \<times> user_factory option)" where
  "get_context c s =
     and_then (get_obj c s) (\<lambda>x. case x of ContextObj io st fac \<Rightarrow> Inr (io, st, fac) | _ \<Rightarrow> Inl UseAfterFree)"

definition Context_construct :: "user_factory option \<Rightarrow> store \<Rightarrow> ptr \<times> store" where
  "Context_construct fac s =
     (let (c, s) = new_obj (ContextObj None None fac) s;
          (h, s) = new_obj (ConnectedObj 0 False) s;
          (k, s) = new_obj PlainCoderObj s
      in (c, s\<lparr>objects := (objects s)(h \<mapsto> ConnectedObj k False, c \<mapsto> ContextObj None (Some h) fac)\<rparr>))"

definition Context_setIO :: "ptr option \<Rightarrow> ptr \<Rightarrow> store \<Rightarrow> fault + store" where
  "Context_setIO io c s = and_then (get_context c s) (\<lambda>(_, st, fac). set_obj c (ContextObj io st fac) s)"

definition Context_setState :: "ptr option \<Rightarrow> ptr \<Rightarrow> store \<Rightarrow> fault + store" where
  "Context_setState new c s =
     and_then (get_context c s) (\<lambda>(io, st, fac).
       and_then (delete_handler st s) (\<lambda>s. set_obj c (ContextObj io new fac) s))"

definition Context_destroy :: "ptr \<Rightarrow> store \<Rightarrow> fault + store" where
  "Context_destroy c s =
     and_then (get_context c s) (\<lambda>(io, st, fac).
       and_then (delete_sink io s) (\<lambda>s. and_then (delete_handler st s) (\<lambda>s. Inr (free_obj c s))))"

text \<open>\<open>ServerWorker::createContext\<close>; the table of the worker gets the address.\<close>

definition Worker_createContext :: "user_factory option \<Rightarrow> store \<Rightarrow> fault + (ptr \<times> store)" where
  "Worker_createContext fac s =
     (let (c, s) = Context_construct fac s;
          (io, s) = new_obj SinkObj s
      in and_then (Context_setIO (Some io) c s) (\<lambda>s. Inr (c, s)))"

section \<open>The handlers\<close>

fun coder_ptr :: "object \<Rightarrow> ptr option" where
  "coder_ptr (ConnectedObj k b) = Some k"
| "coder_ptr (AuthObj k n) = Some k"
| "coder_ptr (UserObj k) = Some k"
| "coder_ptr _ = None"

definition get_coder :: "ptr \<Rightarrow> store \<Rightarrow> fault + ptr" where
  "get_coder h s =
     and_then (get_obj h s) (\<lambda>x. case coder_ptr x of None \<Rightarrow> Inl UseAfterFree | Some k \<Rightarrow> Inr k)"

text \<open>A call of \<open>decode\<close> or \<open>encode\<close> on the handler's coder.\<close>

definition use_coder :: "ptr \<Rightarrow> store \<Rightarrow> fault + store" where
  "use_coder h s = and_then (get_coder h s) (\<lambda>k. and_then (get_obj k s) (\<lambda>_. Inr s))"

text \<open>\<open>respWithStatus\<close> and \<open>sendResp\<close>.\<close>

definition send_reply :: "ptr \<Rightarrow> ptr \<Rightarrow> store \<Rightarrow> fault + store" where
  "send_reply h c s =
     and_then (use_coder h s) (\<lambda>s.
       and_then (get_context c s) (\<lambda>(io, _).
         case io of
           None \<Rightarrow> Inl (RuntimeError ''IO is null'')
         | Some p \<Rightarrow> and_then (get_obj p s) (\<lambda>_. Inr s)))"

definition Obj_handleKex :: "bool \<Rightarrow> ptr \<Rightarrow> ptr \<Rightarrow> bool \<Rightarrow> ptr \<Rightarrow> store \<Rightarrow> fault + store" where
  "Obj_handleKex good h k keyed c s =
     (if keyed \<or> \<not> good then send_reply h c s
      else and_then (set_obj h (ConnectedObj k True) s) (\<lambda>s.
             let (mcoder, s) = new_obj EncrCoderObj s
             in and_then (send_reply h c s) (\<lambda>s.
                  and_then (delete_coder k s) (\<lambda>s. set_obj h (ConnectedObj mcoder True) s))))"

definition Obj_handleAuthRequest :: "ptr \<Rightarrow> bool \<Rightarrow> ptr \<Rightarrow> store \<Rightarrow> fault + store" where
  "Obj_handleAuthRequest h keyed c s =
     (if \<not> keyed then send_reply h c s
      else and_then (send_reply h c s) (\<lambda>s.
             and_then (get_coder h s) (\<lambda>k.
               let (a, s) = new_obj (AuthObj k 5) s in Context_setState (Some a) c s)))"

definition Obj_connected :: "event \<Rightarrow> ptr \<Rightarrow> ptr \<Rightarrow> bool \<Rightarrow> ptr \<Rightarrow> store \<Rightarrow> fault + store" where
  "Obj_connected ev h k keyed c s =
     and_then (use_coder h s) (\<lambda>s.
       case ev of
         Undecodable \<Rightarrow> send_reply h c s
       | KexGood \<Rightarrow> Obj_handleKex True h k keyed c s
       | KexBad \<Rightarrow> Obj_handleKex False h k keyed c s
       | AuthRequest \<Rightarrow> Obj_handleAuthRequest h keyed c s
       | _ \<Rightarrow> Inr s)"

fun Factory_createHandler :: "user_factory \<Rightarrow> ptr \<Rightarrow> store \<Rightarrow> ptr option \<times> store" where
  "Factory_createHandler NullUserHandlerFactory k s = (None, s)"
| "Factory_createHandler TestUserHandlerFactory k s = (let (u, s) = new_obj (UserObj k) s in (Some u, s))"

definition Obj_proceedAuth :: "ptr \<Rightarrow> ptr \<Rightarrow> store \<Rightarrow> fault + store" where
  "Obj_proceedAuth h c s =
     and_then (send_reply h c s) (\<lambda>s.
       and_then (get_context c s) (\<lambda>(_, _, fac).
         case fac of
           None \<Rightarrow> Context_setState None c s
         | Some f \<Rightarrow>
             and_then (get_coder h s) (\<lambda>k. let (u, s) = Factory_createHandler f k s in Context_setState u c s)))"

definition Obj_doAuth :: "bool \<Rightarrow> ptr \<Rightarrow> ptr \<Rightarrow> int \<Rightarrow> ptr \<Rightarrow> store \<Rightarrow> fault + store" where
  "Obj_doAuth accepted h k remaining c s =
     (if accepted then Obj_proceedAuth h c s
      else if 0 < remaining
      then and_then (set_obj h (AuthObj k (remaining - 1)) s) (send_reply h c)
      else and_then (send_reply h c s) (Context_setState None c))"

definition Obj_auth :: "event \<Rightarrow> ptr \<Rightarrow> ptr \<Rightarrow> int \<Rightarrow> ptr \<Rightarrow> store \<Rightarrow> fault + store" where
  "Obj_auth ev h k remaining c s =
     (case ev of
        AuthFrame ok v \<Rightarrow>
          and_then (use_coder h s) (\<lambda>s.
            and_then (if ok then Inr s else send_reply h c s) (\<lambda>s.
              if v = NoSupply then send_reply h c s else Obj_doAuth (v = Accepted) h k remaining c s))
      | _ \<Rightarrow> Inr s)"

definition Obj_user :: "ptr \<Rightarrow> ptr \<Rightarrow> store \<Rightarrow> fault + store" where
  "Obj_user h c s = and_then (use_coder h s) (send_reply h c)"

text \<open>The virtual call of \<open>ProtocolContext::handleFrame\<close>.\<close>

definition Context_handleFrame :: "event \<Rightarrow> ptr \<Rightarrow> store \<Rightarrow> fault + store" where
  "Context_handleFrame ev c s =
     and_then (get_context c s) (\<lambda>(_, st, _).
       case st of
         None \<Rightarrow> Inr s
       | Some h \<Rightarrow>
           and_then (get_obj h s) (\<lambda>x.
             case x of
               ConnectedObj k keyed \<Rightarrow> Obj_connected ev h k keyed c s
             | AuthObj k remaining \<Rightarrow> Obj_auth ev h k remaining c s
             | UserObj k \<Rightarrow> Obj_user h c s
             | _ \<Rightarrow> Inl UseAfterFree))"

fun Context_handleFrames :: "event list \<Rightarrow> ptr \<Rightarrow> store \<Rightarrow> fault + store" where
  "Context_handleFrames [] c s = Inr s"
| "Context_handleFrames (ev # evs) c s = and_then (Context_handleFrame ev c s) (Context_handleFrames evs c)"

section \<open>The objects of a session\<close>

text \<open>The handler and the coder that a phase needs. In a closed session the coder has no owner any more.\<close>

fun handler_obj :: "phase \<Rightarrow> ptr \<Rightarrow> object option" where
  "handler_obj Connected k = Some (ConnectedObj k False)"
| "handler_obj Keyed k = Some (ConnectedObj k True)"
| "handler_obj (Authenticating n) k = Some (AuthObj k n)"
| "handler_obj Serving k = Some (UserObj k)"
| "handler_obj Closed k = None"

fun coder_obj :: "phase \<Rightarrow> object" where
  "coder_obj Connected = PlainCoderObj"
| "coder_obj _ = EncrCoderObj"

definition store_ok :: "store \<Rightarrow> bool" where
  "store_ok s \<longleftrightarrow> (\<forall>p\<ge>fresh s. objects s p = None)"

text \<open>The store is that of before, \<open>base\<close>, and the objects of the session at new addresses.\<close>

definition session_store :: "store \<Rightarrow> user_factory option \<Rightarrow> phase \<Rightarrow> ptr \<Rightarrow> ptr \<Rightarrow> ptr \<Rightarrow> ptr \<Rightarrow> store \<Rightarrow> bool" where
  "session_store base fac p c io h k s \<longleftrightarrow>
     distinct [c, io, h, k] \<and> (\<forall>a\<in>{c, io, h, k}. fresh base \<le> a \<and> a < fresh s) \<and>
     objects s = (objects base)(c \<mapsto> ContextObj (Some io) (if p = Closed then None else Some h) fac,
       io \<mapsto> SinkObj, k \<mapsto> coder_obj p, h := handler_obj p k)"

lemmas store_defs = new_obj_def get_obj_def set_obj_def free_obj_def delete_coder_def delete_handler_def delete_sink_def
  get_context_def get_coder_def use_coder_def send_reply_def Context_setState_def

lemmas handler_defs = Obj_handleKex_def Obj_handleAuthRequest_def Obj_connected_def Obj_proceedAuth_def Obj_doAuth_def
  Obj_auth_def Obj_user_def Context_handleFrame_def

text \<open>What the methods of a session find at its addresses.\<close>

lemma session_storeD:
  assumes "session_store base fac p c io h k s" "store_ok base"
  shows "objects s = (objects base)(c \<mapsto> ContextObj (Some io) (if p = Closed then None else Some h) fac,
      io \<mapsto> SinkObj, k \<mapsto> coder_obj p, h := handler_obj p k)"
    "objects s c = Some (ContextObj (Some io) (if p = Closed then None else Some h) fac)" "objects s io = Some SinkObj"
    "objects s k = Some (coder_obj p)" "objects s h = handler_obj p k"
    "c \<noteq> io" "c \<noteq> h" "c \<noteq> k" "io \<noteq> h" "io \<noteq> k" "h \<noteq> k" "io \<noteq> c" "h \<noteq> c" "k \<noteq> c" "h \<noteq> io" "k \<noteq> io" "k \<noteq> h"
    "fresh s \<noteq> c" "fresh s \<noteq> io" "fresh s \<noteq> h" "fresh s \<noteq> k" "c \<noteq> fresh s" "io \<noteq> fresh s" "h \<noteq> fresh s" "k \<noteq> fresh s"
    "c < fresh s" "io < fresh s" "h < fresh s" "k < fresh s" "fresh base \<le> c" "fresh base \<le> io" "fresh base \<le> h"
    "fresh base \<le> k" "fresh base \<le> fresh s" "objects base h = None" "objects base k = None"
  using assms by (auto simp: session_store_def store_ok_def)

lemma session_calls:
  assumes "session_store base fac p c io h k s" "store_ok base" "p \<noteq> Closed"
  shows "get_obj h s = Inr (the (handler_obj p k))" "get_context c s = Inr (Some io, Some h, fac)" "get_coder h s = Inr k"
    "use_coder h s = Inr s" "send_reply h c s = Inr s"
  using assms(3) session_storeD(2-5) [OF assms(1,2)] by (cases p; simp add: store_defs)+

lemma createContext_store:
  assumes "store_ok base"
  obtains c io h k s where "Worker_createContext fac base = Inr (c, s)" "session_store base fac Connected c io h k s"
proof -
  define n where "n = fresh base"
  show thesis
    by (rule that [of n "base\<lparr>objects := (objects base)(n \<mapsto> ContextObj (Some (n + 3)) (Some (n + 1)) fac,
          n + 3 \<mapsto> SinkObj, n + 2 \<mapsto> PlainCoderObj, n + 1 \<mapsto> ConnectedObj (n + 2) False), fresh := n + 4\<rparr>" "n + 3" "n + 1" "n + 2"])
      (simp_all add: Worker_createContext_def Context_construct_def Context_setIO_def store_defs session_store_def n_def
        Let_def fun_eq_iff numeral_eq_Suc)
qed

text \<open>The ways in which the objects of a session change.\<close>

lemma handler_changes:
  assumes "session_store base fac p c io h k s" "store_ok base" "handler_obj q k = Some x" "coder_obj q = coder_obj p" "p \<noteq> Closed"
  shows "\<exists>s'. set_obj h x s = Inr s' \<and> session_store base fac q c io h k s'"
proof -
  note at = session_storeD [OF assms(1,2)]
  have "session_store base fac q c io h k (s\<lparr>objects := (objects s)(h \<mapsto> x)\<rparr>)"
    using assms(3-5) by (cases "q = Closed") (auto simp: session_store_def at(1,6-) at(26-29) [THEN less_SucI] fun_eq_iff)
  with session_calls(1) [OF assms(1,2,5)] show ?thesis by (simp add: set_obj_def)
qed

lemma handler_succeeds:
  assumes "session_store base fac p c io h k s" "store_ok base" "handler_obj q k = Some x" "coder_obj q = coder_obj p"
    "p \<noteq> Closed" "p \<noteq> Serving"
  shows "\<exists>s' h'. (let (a, s) = new_obj x s in Context_setState (Some a) c s) = Inr s' \<and> session_store base fac q c io h' k s'"
proof -
  note at = session_storeD [OF assms(1,2)]
  let ?s = "s\<lparr>objects := (objects s)(fresh s \<mapsto> x, h := None, c \<mapsto> ContextObj (Some io) (Some (fresh s)) fac), fresh := Suc (fresh s)\<rparr>"
  have "(let (a, s) = new_obj x s in Context_setState (Some a) c s) = Inr ?s"
    using assms(5,6) by (cases p) (simp_all add: store_defs at(2-25))
  moreover have "session_store base fac q c io (fresh s) k ?s"
    using assms(3-5) by (cases "q = Closed") (auto simp: session_store_def at(1,6-) at(26-29) [THEN less_SucI] fun_eq_iff)
  ultimately show ?thesis by blast
qed

lemma handler_ends:
  assumes "session_store base fac p c io h k s" "store_ok base" "coder_obj p = EncrCoderObj" "p \<noteq> Closed" "p \<noteq> Serving"
  shows "\<exists>s'. Context_setState None c s = Inr s' \<and> session_store base fac Closed c io h k s'"
proof -
  note at = session_storeD [OF assms(1,2)]
  let ?s = "s\<lparr>objects := (objects s)(h := None, c \<mapsto> ContextObj (Some io) None fac)\<rparr>"
  have "Context_setState None c s = Inr ?s"
    using assms(4,5) by (cases p) (simp_all add: store_defs at(2-25))
  moreover have "session_store base fac Closed c io h k ?s"
    using assms(3,4) by (auto simp: session_store_def at(1,6-) at(26-29) [THEN less_SucI] fun_eq_iff)
  ultimately show ?thesis by blast
qed

text \<open>The key exchange: the answer is still encoded by the plain coder, which is then deleted.\<close>

lemma coder_changes:
  assumes "session_store base fac Connected c io h k s" "store_ok base"
  shows "\<exists>s' k'. Obj_handleKex True h k False c s = Inr s' \<and> session_store base fac Keyed c io h k' s'"
proof -
  note at = session_storeD [OF assms]
  let ?s = "s\<lparr>objects := (objects s)(fresh s \<mapsto> EncrCoderObj, k := None, h \<mapsto> ConnectedObj (fresh s) True), fresh := Suc (fresh s)\<rparr>"
  have "Obj_handleKex True h k False c s = Inr ?s"
    by (simp add: Obj_handleKex_def store_defs at(2-25) fun_upd_twist)
  moreover have "session_store base fac Keyed c io h (fresh s) ?s"
    by (auto simp: session_store_def at(1,6-) at(26-29) [THEN less_SucI] fun_eq_iff)
  ultimately show ?thesis by blast
qed

lemma phase_step_objects:
  assumes "phase_step fac p ev hs q" "session_store base fac p c io h k s" "store_ok base"
  shows "\<exists>s' h' k'. Context_handleFrame ev c s = Inr s' \<and> session_store base fac q c io h' k' s'"
proof -
  note calls = session_calls [OF assms(2,3)]
  from assms(1) show ?thesis
  proof cases
    case closed
    with assms(2) session_storeD(2) [OF assms(2,3)] show ?thesis
      by (auto simp: Context_handleFrame_def get_context_def get_obj_def)
  next
    case kex_good
    with coder_changes [OF _ assms(3)] assms(2) calls show ?thesis
      by (simp add: handler_defs(3,8)) blast
  next
    case begin_auth
    with handler_succeeds [OF assms(2,3), of q "AuthObj k 5"] calls show ?thesis
      by (auto simp: handler_defs)
  next
    case (accept n good)
    show ?thesis
    proof (cases "q = Serving")
      case True
      with handler_succeeds [OF assms(2,3), of q "UserObj k"] accept calls show ?thesis
        by (cases fac rule: entry_phase.cases) (auto simp: handler_defs split: prod.splits)
    next
      case False
      with handler_ends [OF assms(2,3)] accept calls show ?thesis
        by (cases fac rule: entry_phase.cases) (auto simp: handler_defs)
    qed
  next
    case (retry n good)
    with handler_changes [OF assms(2,3), of q "AuthObj k (n - 1)"] obtain s' where
      s': "set_obj h (AuthObj k (n - 1)) s = Inr s'" "session_store base fac q c io h k s'" by auto
    with retry calls session_calls(5) [OF s'(2) assms(3)] show ?thesis by (auto simp: handler_defs)
  next
    case (reject n good)
    with handler_ends [OF assms(2,3)] calls show ?thesis by (auto simp: handler_defs)
  qed (use assms(2) calls in \<open>fastforce simp: handler_defs\<close>)+
qed

lemma phase_run_objects:
  assumes "phase_run fac p evs hs q" "session_store base fac p c io h k s" "store_ok base"
  shows "\<exists>s' h' k'. Context_handleFrames evs c s = Inr s' \<and> session_store base fac q c io h' k' s'"
  using assms
proof (induction arbitrary: h k s rule: phase_run.induct)
  case (run_step p ev hs q evs hs' r)
  from phase_step_objects [OF run_step.hyps(1) run_step.prems] obtain s1 h1 k1 where
    "Context_handleFrame ev c s = Inr s1" "session_store base fac q c io h1 k1 s1" by blast
  with run_step.IH [OF _ run_step.prems(2)] show ?case by simp
qed auto

lemma session_run_objects:
  assumes "store_ok base" "run_frames E fs (new_session fac r) = Inr cs"
  obtains c io h k s0 s where "Worker_createContext fac base = Inr (c, s0)"
    "Context_handleFrames (frame_events E fs (new_session fac r)) c s0 = Inr s"
    "session_store base fac (phase_of (ctx_state cs)) c io h k s"
proof -
  from createContext_store [OF assms(1)] obtain c io h k s0 where s0: "Worker_createContext fac base = Inr (c, s0)"
    "session_store base fac Connected c io h k s0" .
  from session_phase [OF assms(2)] obtain hs where
    "phase_run fac Connected (frame_events E fs (new_session fac r)) hs (phase_of (ctx_state cs))" by metis
  from phase_run_objects [OF this s0(2) assms(1)] s0(1) that show thesis by blast
qed

lemma destroy_store:
  assumes "session_store base fac p c io h k s" "store_ok base"
  shows "Context_destroy c s =
    (if p = Serving then Inl MismatchedDelete else Inr (s\<lparr>objects := (objects base)(k \<mapsto> coder_obj p)\<rparr>))"
proof -
  note at = session_storeD [OF assms]
  have base: "objects base c = None" "objects base io = None"
    using assms(2) at(30,31) by (simp_all add: store_ok_def)
  have left: "(objects s)(io := None, h := None, c := None) = (objects base)(k \<mapsto> coder_obj p)"
    using base by (auto simp: at(1,6-) fun_eq_iff)
  have closed: "(objects s)(io := None, c := None) = (objects base)(k \<mapsto> coder_obj p)" if "p = Closed"
    using base that by (auto simp: at(1,6-) fun_eq_iff)
  show ?thesis
    using left closed by (cases p) (simp_all add: Context_destroy_def store_defs at(2-25))
qed

section \<open>Properties\<close>

text \<open>C22: The handlers manage their objects as the values of \<open>Handlers\<close> say: whatever frames a session handles, no method
  runs on a deleted object, nothing is deleted twice or through the wrong type, and the store then holds, beside what
  it held before, exactly the context, its sink, the handler of the session's phase and one message coder: the plain
  one until the key exchange, the encrypting one from then on. When the session closes the coder stays behind without
  an owner.\<close>

theorem session_objects:
  assumes "store_ok base" "run_frames E fs (new_session fac r) = Inr cs"
  shows "\<exists>c io h k s0 s. Worker_createContext fac base = Inr (c, s0) \<and>
    Context_handleFrames (frame_events E fs (new_session fac r)) c s0 = Inr s \<and>
    distinct [c, io, h, k] \<and> (\<forall>a\<in>{c, io, h, k}. fresh base \<le> a) \<and>
    objects s = (objects base)(c \<mapsto> ContextObj (Some io) (if isActive cs then Some h else None) fac, io \<mapsto> SinkObj,
      k \<mapsto> coder_obj (phase_of (ctx_state cs)), h := handler_obj (phase_of (ctx_state cs)) k)"
proof -
  from session_run_objects [OF assms] obtain c io h k s0 s where s:
    "Worker_createContext fac base = Inr (c, s0)"
    "Context_handleFrames (frame_events E fs (new_session fac r)) c s0 = Inr s"
    "session_store base fac (phase_of (ctx_state cs)) c io h k s" .
  have "(if phase_of (ctx_state cs) = Closed then None else Some h) = (if isActive cs then Some h else None)"
    by (simp add: isActive_def)
  with s(3) have "distinct [c, io, h, k]" "\<forall>a\<in>{c, io, h, k}. fresh base \<le> a"
    "objects s = (objects base)(c \<mapsto> ContextObj (Some io) (if isActive cs then Some h else None) fac, io \<mapsto> SinkObj,
      k \<mapsto> coder_obj (phase_of (ctx_state cs)), h := handler_obj (phase_of (ctx_state cs)) k)"
    unfolding session_store_def by (simp_all only:) blast
  with s(1,2) show ?thesis
    by (intro exI [of _ c] exI [of _ io] exI [of _ h] exI [of _ k] exI [of _ s0] exI [of _ s] conjI)
qed

text \<open>C32: Contexts cannot simply be deleted: the destructor of a context, which the program never runs (the worker only
  erases the pointer), is undefined behaviour in the user state, where \<open>~ProtocolUserHandler\<close> deletes the encrypting coder
  through \<open>MessageCoder*\<close>; in every other state it returns and leaves exactly the coder behind.\<close>

theorem destroying_a_context:
  assumes "store_ok base" "run_frames E fs (new_session fac r) = Inr cs" "Worker_createContext fac base = Inr (c, s0)"
    "Context_handleFrames (frame_events E fs (new_session fac r)) c s0 = Inr s"
  shows "if \<exists>u. ctx_state cs = Some (HUser u) then Context_destroy c s = Inl MismatchedDelete
    else \<exists>s' k. Context_destroy c s = Inr s' \<and> fresh base \<le> k \<and>
      objects s' = (objects base)(k \<mapsto> coder_obj (phase_of (ctx_state cs)))"
proof -
  from session_run_objects [OF assms(1,2)] obtain c' io h k s0' s' where s:
    "Worker_createContext fac base = Inr (c', s0')"
    "Context_handleFrames (frame_events E fs (new_session fac r)) c' s0' = Inr s'"
    "session_store base fac (phase_of (ctx_state cs)) c' io h k s'" .
  with assms(3,4) have "session_store base fac (phase_of (ctx_state cs)) c io h k s" by simp
  from destroy_store [OF this assms(1)] session_storeD(33) [OF this assms(1)] show ?thesis
    by (auto simp flip: phase_of_Serving)
qed

end
