(* ===== verification/ObjectDemo.thy ===== *)
theory ObjectDemo
  imports SessionObjects SessionDemo
begin

text \<open>The objects of the session of \<open>SessionDemo\<close>, in an empty store.\<close>

definition empty_store :: store where
  "empty_store = \<lparr>objects = (\<lambda>p. None), fresh = 0\<rparr>"

lemma empty_store_ok: "store_ok empty_store"
  by (simp add: store_ok_def empty_store_def)

theorem session_objects_witness:
  "\<exists>c io h k s0 s. Worker_createContext (Some TestUserHandlerFactory) empty_store = Inr (c, s0) \<and>
    Context_handleFrames (frame_events demo_env demo_frames demo_session) c s0 = Inr s \<and>
    objects s = [c \<mapsto> ContextObj (Some io) (Some h) (Some TestUserHandlerFactory), io \<mapsto> SinkObj, k \<mapsto> EncrCoderObj,
      h \<mapsto> UserObj k]"
proof -
  obtain cs where cs: "run_frames demo_env (take 4 demo_frames) demo_session = Inr cs" "phase_of (ctx_state cs) = Serving"
    by (rule demo_run [of 4]) simp_all
  then have run: "run_frames demo_env demo_frames demo_session = Inr cs"
    by (simp add: demo_length)
  from cs(2) have "isActive cs" by (auto simp: isActive_def)
  with session_objects [OF empty_store_ok run] show ?thesis
    unfolding cs(2) by (simp add: empty_store_def) blast
qed

theorem destroying_a_context_witness:
  "\<exists>c s0 s. Worker_createContext (Some TestUserHandlerFactory) empty_store = Inr (c, s0) \<and>
    Context_handleFrames (frame_events demo_env demo_frames demo_session) c s0 = Inr s \<and>
    Context_destroy c s = Inl MismatchedDelete"
proof -
  obtain cs where cs: "run_frames demo_env (take 4 demo_frames) demo_session = Inr cs" "phase_of (ctx_state cs) = Serving"
    by (rule demo_run [of 4]) simp_all
  then have run: "run_frames demo_env demo_frames demo_session = Inr cs"
    by (simp add: demo_length)
  obtain c s0 s where s: "Worker_createContext (Some TestUserHandlerFactory) empty_store = Inr (c, s0)"
    "Context_handleFrames (frame_events demo_env demo_frames demo_session) c s0 = Inr s"
    by (rule session_run_objects [OF empty_store_ok run])
  from destroying_a_context [OF empty_store_ok run this] cs(2) s show ?thesis
    by auto
qed

end
