(* ===== verification/Strangers.thy ===== *)
theory Strangers
  imports ClientSessions
begin

text \<open>
  A client that sends the user's requests without logging in, as the program's own test client does. The session is
  still in the authentication state and reads the request as an authentication request: the two
  messages have their field 1 in common, with different types, so the text ends up among the unknown fields and the
  request counts as one of type \<open>UNKNOWN\<close>. The reply, a status, is read by the client as a response without text.
\<close>

section \<open>Sealed bytes\<close>

text \<open>The frame that encrypts \<open>bs\<close>. It depends on the key, the randomness and the bytes only.\<close>

definition seal :: "gcm_lib \<Rightarrow> bytes \<Rightarrow> nat \<Rightarrow> bytes \<Rightarrow> frame" where
  "seal G key r bs =
     (case gcm_encrypt G key (random_block G r ivsize) bs of
        GcmOut c \<Rightarrow>
          (let buf = random_block G r ivsize @ c
           in \<lparr>fr_header = 0xF1, fr_len = word_of_nat (length buf), fr_msg = buf\<rparr>)
      | _ \<Rightarrow> no_frame)"

context aead
begin

lemma seal_cipher:
  assumes "length bs \<le> 65503"
  obtains c where "seal G key r bs =
      \<lparr>fr_header = 0xF1, fr_len = word_of_nat (length bs + 32), fr_msg = random_block G r ivsize @ c\<rparr>"
    "gcm_encrypt G key (random_block G r ivsize) bs = GcmOut c" "length c = length bs + 16"
    "gcm_decrypt G key (random_block G r ivsize) c = GcmOut bs"
    "unat (word_of_nat (length bs + 32) :: u16) = length bs + 32"
proof -
  from gcm [OF random_length [of r ivsize], of key bs] obtain c where c:
    "gcm_encrypt G key (random_block G r ivsize) bs = GcmOut c" "length c = length bs + 16"
    "gcm_decrypt G key (random_block G r ivsize) c = GcmOut bs" by blast
  have "length (random_block G r ivsize @ c) = length bs + 32"
    using c(2) random_length [of r ivsize] by (simp add: ivsize_def)
  moreover have "unat (word_of_nat (length bs + 32) :: u16) = length bs + 32"
    using assms by (simp only: unat_of_nat) simp
  ultimately show thesis
    using that c by (simp add: seal_def Let_def)
qed

lemma seal_sound:
  assumes "length bs \<le> 65503"
  shows "sound_frame (seal G key r bs)" "length (wire (seal G key r bs)) = length bs + 35"
proof -
  from seal_cipher [OF assms, of key r] obtain c where c: "seal G key r bs =
      \<lparr>fr_header = 0xF1, fr_len = word_of_nat (length bs + 32), fr_msg = random_block G r ivsize @ c\<rparr>"
    "length c = length bs + 16" "unat (word_of_nat (length bs + 32) :: u16) = length bs + 32" by blast
  with random_length [of r ivsize]
  show "sound_frame (seal G key r bs)" "length (wire (seal G key r bs)) = length bs + 35"
    by (auto simp: sound_frame_def frame_wf_def header_ok_cases wire_def ivsize_def)
qed

text \<open>What a coder with this key makes of it: the message class only sees the bytes.\<close>

lemma seal_decode:
  assumes "length bs \<le> 65503" "coder_key k = Some key" "lt_ParseFromArray T bs m = (b, m')"
  shows "\<exists>k'. coder_decode G T (seal G key r bs) m k = (b, m', k') \<and> coder_key k' = Some key"
proof -
  from seal_cipher [OF assms(1), of key r] obtain c where c: "seal G key r bs =
      \<lparr>fr_header = 0xF1, fr_len = word_of_nat (length bs + 32), fr_msg = random_block G r ivsize @ c\<rparr>"
    "length c = length bs + 16" "gcm_decrypt G key (random_block G r ivsize) c = GcmOut bs"
    "unat (word_of_nat (length bs + 32) :: u16) = length bs + 32" by blast
  from assms(2) obtain e where e: "k = Encr e" "ec_key e = key" by (auto simp: coder_key_Some)
  have "frame_content (seal G key r bs) = random_block G r ivsize @ c"
    using c random_length [of r ivsize] by (simp add: frame_content_def ivsize_def)
  moreover have "unat (word_of_nat (length bs) :: u16) = length bs"
    using assms(1) by (simp add: unat_of_nat)
  ultimately show ?thesis
    using c e assms(3) random_length [of r ivsize]
    by (simp add: coder_decode_def EncrMessageCoder_decode_def MessageCoder_decode_def frame_content_def ivsize_def)
qed

text \<open>Encoding a message of a generated class seals its serialization.\<close>

lemma seal_encode:
  assumes "sz m = (n, m1)" "sz m1 = (n, m1)" "cached m1 = int n" "length (ser m1 []) = n" "n \<le> 65503"
    "coder_key k = Some key"
  shows "\<exists>k'. coder_encode G (lite_of clear parse sz cached ser) f m r k = (True, seal G key r (ser m1 []), m1, k') \<and>
    coder_key k' = Some key"
proof -
  let ?T = "lite_of clear parse sz cached ser" and ?bs = "ser m1 []"
  from assms(6) obtain e where e: "k = Encr e" "ec_key e = key" by (auto simp: coder_key_Some)
  have le: "length ?bs \<le> 65503" using assms(4,5) by simp
  have n: "unat (word_of_nat n :: u16) = n" using assms(5) by (simp add: unat_of_nat)
  have "MessageCoder_encode ?T \<lparr>fr_header = 0, fr_len = 0, fr_msg = []\<rparr> m (frame_bytes e) =
      (True, \<lparr>fr_header = 0xF0, fr_len = word_of_nat n, fr_msg = ?bs\<rparr>, m1, ?bs)"
    using assms(1-5) n by (simp add: MessageCoder_encode_def lite_of_def write_at_whole)
  moreover from seal_cipher [OF le, of key r] obtain c where c: "seal G key r ?bs =
      \<lparr>fr_header = 0xF1, fr_len = word_of_nat (length ?bs + 32), fr_msg = random_block G r ivsize @ c\<rparr>"
    "gcm_encrypt G key (random_block G r ivsize) ?bs = GcmOut c" "length c = length ?bs + 16"
    "unat (word_of_nat (length ?bs + 32) :: u16) = length ?bs + 32" by blast
  moreover have buf: "length (random_block G r ivsize @ c) = length ?bs + 32"
    using c(3) random_length [of r ivsize] by (simp add: ivsize_def)
  moreover have "take (unat (word_of_nat (length (random_block G r ivsize @ c)) :: u16)) (random_block G r ivsize @ c) =
      random_block G r ivsize @ c"
    unfolding buf c(4) by (rule take_all) (simp only: buf)
  ultimately show ?thesis
    using e assms(4) n
    by (simp add: coder_encode_def EncrMessageCoder_encode_def frame_content_def Let_def del: take_append length_append)
qed

end

section \<open>One message read as the other\<close>

text \<open>A request of a user with the text \<open>s\<close>, and a status of the authentication handler, as bytes.\<close>

definition user_text :: "wire_lib \<Rightarrow> bytes \<Rightarrow> bytes" where
  "user_text L s = WriteStringMaybeAliased L 1 s"

definition auth_status :: "wire_lib \<Rightarrow> i32 \<Rightarrow> bytes" where
  "auth_status L v = WriteEnumToArray L 1 v"

context wire_runtime
begin

lemma user_text_length: "length s \<le> 60000 \<Longrightarrow> length (user_text L s) \<le> length s + 6"
  using length_string [of 1 s] size_string_le [of s] by (simp add: user_text_def wire_max_def)

lemma auth_status_length: "length (auth_status L v) \<le> 11"
  using length_enum [of 1 v] size_enum_le [of v] by (simp add: auth_status_def)

lemma careq_reads_user_text:
  assumes "length s \<le> 60000"
  shows "lt_ParseFromArray (careq_lite L) (user_text L s) m =
    (True, (ClientAuthRequest_Clear m)\<lparr>ca_unknown := user_text L s\<rparr>)"
proof -
  have "kind_of ClientAuthRequest_table 1 = Some OpenEnum" "length s \<le> wire_max"
    using assms by (simp_all add: kind_of_def ClientAuthRequest_table_def wire_max_def)
  from parse_not_enum [OF _ _ this, of "[]"] show ?thesis
    by (simp add: careq_lite_def lite_of_def ClientAuthRequest_InternalParse_def user_text_def parse_Nil
        ClientAuthRequest_store_def ClientAuthRequest_Clear_def Let_def)
qed

lemma uresp_reads_status:
  "lt_ParseFromArray (uresp_lite L) (auth_status L v) m =
    (True, (ServerResponse_Clear m)\<lparr>sr_unknown := auth_status L v\<rparr>)"
proof -
  have "kind_of ServerResponse_table 1 = Some Utf8String"
    by (simp add: kind_of_def ServerResponse_table_def)
  from parse_not_string [OF _ _ this, of v "[]"] show ?thesis
    by (simp add: uresp_lite_def lite_of_def ServerResponse_InternalParse_def auth_status_def parse_Nil
        ServerResponse_store_def ServerResponse_Clear_def Let_def)
qed

lemma saresp_reads_status:
  "lt_ParseFromArray (saresp_lite L) (auth_status L v) m =
    (True, (ServerAuthResponse_Clear m)\<lparr>sa_status := v\<rparr>)"
proof -
  have "kind_of ServerAuthResponse_table 1 = Some OpenEnum"
    by (simp add: kind_of_def ServerAuthResponse_table_def)
  from parse_enum [OF _ _ this, of v "[]"] show ?thesis
    by (simp add: saresp_lite_def lite_of_def ServerAuthResponse_InternalParse_def auth_status_def parse_Nil
        ServerAuthResponse_store_def)
qed

lemma ureq_seals:
  assumes "ur_msg m = s" "ur_unknown m = []" "s \<noteq> []" "length s \<le> 60000" "aead G" "coder_key k = Some key"
  shows "\<exists>m' k'. coder_encode G (ureq_lite L) f m r k = (True, seal G key r (user_text L s), m', k') \<and>
    coder_key k' = Some key"
proof -
  obtain n m1 where n: "UserRequest_ByteSizeLong L m = (n, m1)" by fastforce
  note w = UserRequest_wire [of L m, unfolded n, simplified]
  have "n \<le> length s + 6"
    using UserRequest_size_le [of m] assms(1,2,4) n by (simp add: wire_max_def)
  then have le: "n \<le> 65503" using assms(4) by simp
  then have len: "length (UserRequest_InternalSerialize L m1 []) = n"
    using UserRequest_length [of m] n w(3) by (simp add: wire_max_def)
  have c: "UserRequest_GetCachedSize m1 = int n"
    using w(5) le by (simp add: UserRequest_GetCachedSize_def sint_ToCachedSize)
  have again: "UserRequest_ByteSizeLong L m1 = (n, m1)"
    using w(4) n by simp
  have "UserRequest_InternalSerialize L m1 [] = user_text L s"
    using w(3) assms(1-3) by (simp add: UserRequest_InternalSerialize_def user_text_def)
  with aead.seal_encode [OF assms(5) n again, where cached = UserRequest_GetCachedSize and ser = "UserRequest_InternalSerialize L", OF c len le assms(6)]
  show ?thesis unfolding ureq_lite_def by metis
qed

lemma saresp_seals:
  assumes "saresp_small m" "sa_status m = v" "v \<noteq> 0" "aead G" "coder_key k = Some key"
  shows "\<exists>m' k'. coder_encode G (saresp_lite L) f m r k = (True, seal G key r (auth_status L v), m', k') \<and>
    coder_key k' = Some key"
proof -
  obtain n m1 where n: "ServerAuthResponse_ByteSizeLong L m = (n, m1)" by fastforce
  have m: "sa_has_bits m = 0" "sa_unknown m = []" using assms(1) by (simp_all add: saresp_small_def)
  have m1: "m1 = m\<lparr>sa_cached_size := ToCachedSize n\<rparr>" "n = 1 + EnumSize L v"
    using n m assms(2,3) by (auto simp: ServerAuthResponse_ByteSizeLong_def Let_def)
  have le: "n \<le> 65503" using size_enum_le [of v] m1(2) by simp
  have ser: "ServerAuthResponse_InternalSerialize L m1 [] = auth_status L v"
    using m m1(1) assms(2,3) by (simp add: ServerAuthResponse_InternalSerialize_def auth_status_def)
  then have len: "length (ServerAuthResponse_InternalSerialize L m1 []) = n"
    using length_enum [of 1 v] m1(2) by (simp add: auth_status_def)
  have c: "ServerAuthResponse_GetCachedSize m1 = int n"
    using m1(1) le by (simp add: ServerAuthResponse_GetCachedSize_def sint_ToCachedSize)
  have again: "ServerAuthResponse_ByteSizeLong L m1 = (n, m1)"
    using n m1(1) m assms(2,3) by (auto simp: ServerAuthResponse_ByteSizeLong_def Let_def)
  from aead.seal_encode [OF assms(4) n again, where cached = ServerAuthResponse_GetCachedSize and ser = "ServerAuthResponse_InternalSerialize L", OF c len le assms(5)]
  show ?thesis unfolding saresp_lite_def ser by metis
qed

end

text \<open>Whoever has the key reads a sealed status as that status.\<close>

lemma sealed_status:
  assumes E: "env_ok E L"
  shows "carries_saresp E (Some key) (v, None) (seal (gcm E) key r (auth_status L v))"
proof -
  have w: "wire_runtime L" and a: "aead (gcm E)" and T: "lt_saresp E = saresp_lite L"
    using E by (simp_all add: env_ok_def)
  have len: "length (auth_status L v) \<le> 65503"
    using wire_runtime.auth_status_length [OF w, of v] by simp
  have "\<exists>m k'. coder_decode (gcm E) (lt_saresp E) (seal (gcm E) key r (auth_status L v)) m0 k = (True, m, k') \<and>
      ServerAuthResponse_view m = (v, None) \<and> ServerAuthResponse_wf m \<and> coder_key k' = Some key"
    if "coder_key k = Some key" "ServerAuthResponse_wf m0" for k m0
  proof -
    have "saresp_small ((ServerAuthResponse_Clear m0)\<lparr>sa_status := v\<rparr>)"
      using saresp_small_Clear [OF that(2)] by (simp add: saresp_small_def)
    then have "ServerAuthResponse_wf ((ServerAuthResponse_Clear m0)\<lparr>sa_status := v\<rparr>)"
      "ServerAuthResponse_view ((ServerAuthResponse_Clear m0)\<lparr>sa_status := v\<rparr>) = (v, None)"
      by (rule saresp_small_wf, simp add: saresp_small_def ServerAuthResponse_view_def)
    with aead.seal_decode [OF a len that(1) wire_runtime.saresp_reads_status [OF w, of v m0], of r] T
    show ?thesis by auto
  qed
  with aead.seal_sound(1) [OF a len, of key r] show ?thesis
    by (simp add: carries_def sound_frame_def)
qed

section \<open>The session's answer\<close>

lemma session_answers_stranger:
  assumes E: "env_ok E L" and wf: "session_wf c" and io: "ctx_io c = Some out"
    and st: "ctx_state c = Some (HAuth h)" "coder_key (ah_coder h) = Some key" and s: "length s \<le> 60000"
  shows "\<exists>h' c'. ProtocolContext_handleFrame E auth (seal (gcm E) key r (user_text L s)) c = Inr c' \<and>
    ctx_state c' = Some (HAuth h') \<and> coder_key (ah_coder h') = Some key \<and>
    remainingAttempts h' = remainingAttempts h \<and> session_wf c' \<and> ctx_rng c' = Suc (ctx_rng c) \<and>
    ctx_io c' = Some (out @ [seal (gcm E) key (ctx_rng c)
      (auth_status L ServerAuthResponse_ResponseStatus_INVALID_REQUEST)])"
proof -
  have w: "wire_runtime L" and a: "aead (gcm E)" and T: "lt_careq E = careq_lite L" "lt_saresp E = saresp_lite L"
    using E by (simp_all add: env_ok_def)
  have h: "ClientAuthRequest_wf (ah_request h)" "ServerAuthResponse_wf (ah_response h)"
    using wf st(1) by (simp_all add: session_wf_def)
  have len: "length (user_text L s) \<le> 65503"
    using wire_runtime.user_text_length [OF w s] s by simp
  let ?req = "(ClientAuthRequest_Clear (ah_request h))\<lparr>ca_unknown := user_text L s\<rparr>"
  from aead.seal_decode [OF a len st(2) wire_runtime.careq_reads_user_text [OF w s, of "ah_request h"], of r]
  obtain k where d: "coder_decode (gcm E) (careq_lite L) (seal (gcm E) key r (user_text L s)) (ah_request h) (ah_coder h) =
      (True, ?req, k)" "coder_key k = Some key" by blast
  have req: "ClientAuthRequest_request ?req = 0" "ClientAuthRequest_wf ?req"
    using h(1) by (simp_all add: ClientAuthRequest_request_def ClientAuthRequest_internal_request_def
        ClientAuthRequest_Clear_def ClientAuthRequest_wf_def Let_def has_bit)
  define m where "m = ServerAuthResponse_set_status ServerAuthResponse_ResponseStatus_INVALID_REQUEST
    (ServerAuthResponse_set_status ServerAuthResponse_ResponseStatus_INVALID_REQUEST
      (ServerAuthResponse_Clear (ah_response h)))"
  have m: "saresp_small m" "sa_status m = ServerAuthResponse_ResponseStatus_INVALID_REQUEST"
    using saresp_small_Clear [OF h(2)]
    by (simp_all add: m_def ServerAuthResponse_set_status_def ServerAuthResponse_internal_set_status_def saresp_small_def)
  from wire_runtime.saresp_seals [OF w m _ a d(2), of no_frame "ctx_rng c"] obtain m' k' where e:
    "coder_encode (gcm E) (saresp_lite L) no_frame m (ctx_rng c) k =
       (True, seal (gcm E) key (ctx_rng c) (auth_status L ServerAuthResponse_ResponseStatus_INVALID_REQUEST), m', k')"
    "coder_key k' = Some key" by auto
  have "ServerAuthResponse_wf m'"
    using saresp_encode_small [OF e(1) m(1)] by (rule saresp_small_wf)
  with st(1) d e io req T show ?thesis
    by (simp add: ProtocolContext_handleFrame_def Auth_handleFrame_def Auth_dispatch_def Let_def keep_auth_def
        Auth_respWithStatus_def encode_and_write_def io_writeFrame_def getIO_def m_def [symmetric] session_wf_def
        del: ServerAuthResponse_ResponseStatus_INVALID_REQUEST_def)
qed

section \<open>The client's round\<close>

lemma stranger_round:
  assumes E: "env_ok E L" and c: "coder_key (cl_coder c) = Some key"
    "channel_ready c (seal (gcm E) key q (auth_status L v) # gs) n"
    and m: "ur_msg m = s" "ur_unknown m = []" "s \<noteq> []" "length s \<le> 60000"
    and n: "length (user_text L s) + 35 \<le> n"
  shows "\<exists>resp c'. fetchRequest (gcm E) (lt_ureq E) (lt_uresp E) m m0 c = (Inr True, resp, c') \<and>
    ServerResponse_msg resp = [] \<and> coder_key (cl_coder c') = Some key \<and> cl_rng c' = Suc (cl_rng c) \<and>
    channel_ready c' gs (n - (length (user_text L s) + 35)) \<and> isAuthenticated c' = isAuthenticated c \<and>
    client_out c' = client_out c @ wire (seal (gcm E) key (cl_rng c) (user_text L s))"
proof -
  have w: "wire_runtime L" and a: "aead (gcm E)" and T: "lt_ureq E = ureq_lite L" "lt_uresp E = uresp_lite L"
    using E by (simp_all add: env_ok_def)
  have len: "length (user_text L s) \<le> 65503" "length (auth_status L v) \<le> 65503"
    using wire_runtime.user_text_length [OF w m(4)] m(4) wire_runtime.auth_status_length [OF w, of v] by simp_all
  let ?f = "seal (gcm E) key (cl_rng c) (user_text L s)"
  from wire_runtime.ureq_seals [OF w m(1-4) a c(1), of no_frame "cl_rng c"] obtain m' k1 where e:
    "coder_encode (gcm E) (ureq_lite L) no_frame m (cl_rng c) (cl_coder c) = (True, ?f, m', k1)"
    "coder_key k1 = Some key" by blast
  note f = aead.seal_sound [OF a len(1), of key "cl_rng c"]
  from c(2) obtain io where io: "cl_io c = Some io"
    "io_ready io (seal (gcm E) key q (auth_status L v) # gs) n" by (auto simp: channel_ready_def)
  have wf: "frame_wf ?f" "length (wire ?f) \<le> n" using f n by (simp_all add: sound_frame_def)
  from lio.request_reply [OF io(2) wf, of no_frame] obtain io1 io2 where io':
    "writeFrame ?f io = (Inr True, io1)"
    "readFrame no_frame io1 = (Inr True, seal (gcm E) key q (auth_status L v), io2)"
    "io_ready io2 gs (n - length (wire ?f))" "io_out io2 = io_out io @ wire ?f" .
  let ?resp = "(ServerResponse_Clear m0)\<lparr>sr_unknown := auth_status L v\<rparr>"
  from aead.seal_decode [OF a len(2) e(2) wire_runtime.uresp_reads_status [OF w, of v m0], of q] obtain k2 where d:
    "coder_decode (gcm E) (uresp_lite L) (seal (gcm E) key q (auth_status L v)) m0 k1 = (True, ?resp, k2)"
    "coder_key k2 = Some key" by blast
  have "ServerResponse_msg ?resp = []"
    by (simp add: ServerResponse_msg_def ServerResponse_internal_msg_def ServerResponse_Clear_def)
  with e(1) d io(1) io'(1,2,4) io'(3) [unfolded f(2)] T show ?thesis
    by (simp add: fetchRequest_def sendMsg_def fetchMsg_def channel_ready_def client_out_def)
qed

end
