(* ===== verification/MainClient.thy ===== *)
theory MainClient
  imports Strangers PFramers
begin

text \<open>
  \<open>runClientTest\<close> of \<open>main.cpp\<close>: the program run as a client. It connects, and sends a hundred user requests
  without \<open>authenticate\<close>. What it prints is modelled as values, and the clock is the argument \<open>clock\<close>, the
  milliseconds the i-th request takes.
\<close>

datatype printed =
    Line string
  | Hex bytes
  | ResponseIn nat
  | Answer bytes

text \<open>The loop; one element of the list for each round. \<open>req\<close> is sent as it is, \<open>resp\<close> is reused.\<close>

fun client_test_loop ::
    "proto_env \<Rightarrow> nat list \<Rightarrow> UserRequest \<Rightarrow> ServerResponse \<Rightarrow> client \<Rightarrow> fault + (printed list \<times> client)" where
  "client_test_loop E [] req resp c = Inr ([], c)"
| "client_test_loop E (t # ts) req resp c =
     (case fetchRequest (gcm E) (lt_ureq E) (lt_uresp E) req resp c of
        (Inl e, _, _) \<Rightarrow> Inl e
      | (Inr False, _, c) \<Rightarrow> Inr ([Line ''User request failed!!!''], c)
      | (Inr True, resp, c) \<Rightarrow>
          (case client_test_loop E ts req resp c of
             Inl e \<Rightarrow> Inl e
           | Inr (out, c) \<Rightarrow> Inr (ResponseIn t # Answer (ServerResponse_msg resp) # out, c)))"

definition runClientTest ::
    "proto_env \<Rightarrow> dial \<Rightarrow> (nat \<Rightarrow> nat) \<Rightarrow> bool \<Rightarrow> nat \<Rightarrow> fault + (printed list \<times> client)" where
  "runClientTest E d clock memory rng =
     (let c = Client_new ''127.0.0.1'' 4444 memory rng
      in case Client_connect E d c of
           (Inl e, _) \<Rightarrow> Inl e
         | (Inr False, c) \<Rightarrow> Inr ([Line ''Connection failed!!!''], c)
         | (Inr True, c) \<Rightarrow>
             let req = UserRequest_set_msg (ascii ''Hello there'') UserRequest_new
             in case client_test_loop E (map clock [0..<100]) req ServerResponse_new c of
                  Inl e \<Rightarrow> Inl e
                | Inr (out, c) \<Rightarrow> Inr (Line ''Connected!!'' # out, c))"

section \<open>Rounds of a client that has not logged in\<close>

primrec seals :: "gcm_lib \<Rightarrow> bytes \<Rightarrow> bytes \<Rightarrow> nat \<Rightarrow> nat \<Rightarrow> frame list" where
  "seals G key bs r 0 = []"
| "seals G key bs r (Suc k) = seal G key r bs # seals G key bs (Suc r) k"

lemma seals_length [simp]: "length (seals G key bs r k) = k"
  by (induction k arbitrary: r) simp_all

lemma seals_sound: "aead G \<Longrightarrow> length bs \<le> 65503 \<Longrightarrow> list_all sound_frame (seals G key bs r k)"
  by (induction k arbitrary: r) (simp_all add: aead.seal_sound)

lemma seals_carry:
  "env_ok E L \<Longrightarrow> list_all (carries_saresp E (Some key) (v, None)) (seals (gcm E) key (auth_status L v) r k)"
  by (induction k arbitrary: r) (simp_all add: sealed_status)

lemma session_answers_strangers:
  assumes "env_ok E L" "length s \<le> 60000"
  shows "\<lbrakk>session_wf c; ctx_io c = Some out; ctx_state c = Some (HAuth h); coder_key (ah_coder h) = Some key\<rbrakk> \<Longrightarrow>
    \<exists>h' c'. run_frames E (map (Pair auth) (seals (gcm E) key (user_text L s) r k)) c = Inr c' \<and>
      ctx_state c' = Some (HAuth h') \<and> remainingAttempts h' = remainingAttempts h \<and>
      coder_key (ah_coder h') = Some key \<and> ctx_io c' = Some (out @ seals (gcm E) key
        (auth_status L ServerAuthResponse_ResponseStatus_INVALID_REQUEST) (ctx_rng c) k)"
proof (induction k arbitrary: c out h r)
  case (Suc k)
  from session_answers_stranger [OF assms(1) Suc.prems assms(2), of auth r] obtain h1 c1 where 1:
    "ProtocolContext_handleFrame E auth (seal (gcm E) key r (user_text L s)) c = Inr c1"
    "ctx_state c1 = Some (HAuth h1)" "coder_key (ah_coder h1) = Some key" "remainingAttempts h1 = remainingAttempts h"
    "session_wf c1" "ctx_rng c1 = Suc (ctx_rng c)"
    "ctx_io c1 = Some (out @ [seal (gcm E) key (ctx_rng c)
       (auth_status L ServerAuthResponse_ResponseStatus_INVALID_REQUEST)])" by blast
  from Suc.IH [OF 1(5,7,2,3), of "Suc r"] 1 show ?case by auto
qed simp

lemma client_test_rounds:
  assumes "env_ok E L" "ur_msg m = s" "ur_unknown m = []" "s \<noteq> []" "length s \<le> 60000"
  shows "\<lbrakk>coder_key (cl_coder c) = Some key;
      channel_ready c (seals (gcm E) key (auth_status L v) q (length ts)) n;
      length ts * (length (user_text L s) + 35) \<le> n\<rbrakk> \<Longrightarrow>
    \<exists>c'. client_test_loop E ts m m0 c = Inr (concat (map (\<lambda>t. [ResponseIn t, Answer []]) ts), c') \<and>
      isAuthenticated c' = isAuthenticated c \<and>
      client_out c' = client_out c @ wires (seals (gcm E) key (user_text L s) (cl_rng c) (length ts))"
proof (induction ts arbitrary: c q n m0)
  case (Cons t ts)
  have "length (user_text L s) + 35 \<le> n" using Cons.prems(3) by simp
  have "channel_ready c (seal (gcm E) key q (auth_status L v) # seals (gcm E) key (auth_status L v) (Suc q) (length ts)) n"
    using Cons.prems(2) by simp
  from stranger_round [OF assms(1) Cons.prems(1) this assms(2-5) \<open>length (user_text L s) + 35 \<le> n\<close>, of m0]
  obtain resp c1 where 1: "fetchRequest (gcm E) (lt_ureq E) (lt_uresp E) m m0 c = (Inr True, resp, c1)"
    "ServerResponse_msg resp = []" "coder_key (cl_coder c1) = Some key" "cl_rng c1 = Suc (cl_rng c)"
    "channel_ready c1 (seals (gcm E) key (auth_status L v) (Suc q) (length ts)) (n - (length (user_text L s) + 35))"
    "isAuthenticated c1 = isAuthenticated c"
    "client_out c1 = client_out c @ wire (seal (gcm E) key (cl_rng c) (user_text L s))" by blast
  have "length ts * (length (user_text L s) + 35) \<le> n - (length (user_text L s) + 35)"
    using Cons.prems(3) by simp
  from Cons.IH [OF 1(3,5) this, of resp] 1 show ?case by auto
qed simp

text \<open>The handshake of the test client, before it knows which frames come after it.\<close>

lemma client_test_starts:
  assumes "env_ok E L" "dial_ok d" "d_tx d = [TxRoom n]" "5430 \<le> n"
  obtains f1 f2 g1 g2 cs h key where
    "run_frames E [(auth, f1), (auth, f2)] (new_session (Some TestUserHandlerFactory) r') = Inr cs"
    "ctx_io cs = Some [g1, g2]" "ctx_state cs = Some (HAuth h)" "remainingAttempts h = 5"
    "coder_key (ah_coder h) = Some key" "session_wf cs" "length (wire f1) + length (wire f2) \<le> 230"
    "\<And>gs. list_all sound_frame gs \<Longrightarrow>
      \<exists>c'. Client_connect E (d\<lparr>d_rx := concat (map deliver (g1 # g2 # gs))\<rparr>) (Client_new ''127.0.0.1'' 4444 memory r) = (Inr True, c') \<and>
        client_out c' = wire f1 @ wire f2 \<and> coder_key (cl_coder c') = Some key \<and>
        channel_ready c' gs (n - length (wire f1) - length (wire f2)) \<and> isAuthenticated c' = memory"
proof -
  let ?c0 = "Client_new ''127.0.0.1'' 4444 memory r" and ?cs0 = "new_session (Some TestUserHandlerFactory) r'"
  have c0: "\<not> isConnected ?c0" "coder_key (cl_coder ?c0) = None" "isAuthenticated ?c0 = memory"
    by (simp_all add: Client_new_def)
  have "\<not> isKexComplete ProtocolConnectedHandler_new" by (simp add: ProtocolConnectedHandler_new_def)
  moreover have "230 \<le> n" using assms(4) by simp
  ultimately show thesis
    using handshake_on [OF assms(1-3) _ c0(1,2) new_session_wf [of "Some TestUserHandlerFactory" r'] new_session_state(5,1),
        where ?a1.0 = auth and ?a2.0 = auth] that
    unfolding new_session_state(4) append_Nil c0(3) by blast
qed

section \<open>Property\<close>

text \<open>C30: The test client only seems to work: against a server with the test handler, whatever its authenticator,
  \<open>runClientTest\<close> connects and every one of its hundred requests returns true, but each answer it prints
  is empty. The session has answered two frames of the handshake and then each request with the status
  \<open>INVALID_REQUEST\<close> of the authentication state, under the session's key; it still waits for authentication with all its
  attempts, and never came to its user handler.\<close>

theorem client_test_answers_empty:
  assumes "env_ok E L" "dial_ok d" "d_tx d = [TxRoom n]" "5430 \<le> n"
  shows "\<exists>fs gs c cs h.
    runClientTest E (d\<lparr>d_rx := concat (map deliver gs)\<rparr>) clock memory r =
      Inr (Line ''Connected!!'' # concat (map (\<lambda>i. [ResponseIn (clock i), Answer []]) [0..<100]), c) \<and>
    hasAuthenticated c = memory \<and> client_out c = wires fs \<and> length fs = 102 \<and>
    run_frames E (map (Pair auth) fs) (new_session (Some TestUserHandlerFactory) r') = Inr cs \<and>
    ctx_io cs = Some gs \<and> length gs = 102 \<and> ctx_state cs = Some (HAuth h) \<and> remainingAttempts h = 5 \<and>
    (\<exists>key. coder_key (ah_coder h) = Some key \<and>
       list_all (carries_saresp E (Some key) (ServerAuthResponse_ResponseStatus_INVALID_REQUEST, None)) (drop 2 gs))"
proof -
  let ?c0 = "Client_new ''127.0.0.1'' 4444 memory r" and ?cs0 = "new_session (Some TestUserHandlerFactory) r'"
  let ?s = "ascii ''Hello there''"
  let ?m = "UserRequest_set_msg ?s UserRequest_new" and ?v = "ServerAuthResponse_ResponseStatus_INVALID_REQUEST"
  have w: "wire_runtime L" and a: "aead (gcm E)" using assms(1) by (simp_all add: env_ok_def)
  have s: "length ?s = 11" "?s \<noteq> []" by (simp_all add: ascii_def)
  have m: "ur_msg ?m = ?s" "ur_unknown ?m = []" by (simp_all add: UserRequest_set_msg_def UserRequest_new_def)
  have len: "length (user_text L ?s) \<le> 17" "length (auth_status L ?v) \<le> 11"
    using wire_runtime.user_text_length [OF w, of ?s] wire_runtime.auth_status_length [OF w, of ?v] s(1) by simp_all
  obtain f1 f2 g1 g2 and cs1 :: proto_context and h1 :: auth_handler and key where h:
    "run_frames E [(auth, f1), (auth, f2)] ?cs0 = Inr cs1" "ctx_io cs1 = Some [g1, g2]"
    "ctx_state cs1 = Some (HAuth h1)" "remainingAttempts h1 = 5" "coder_key (ah_coder h1) = Some key" "session_wf cs1"
    "length (wire f1) + length (wire f2) \<le> 230"
    and c: "\<And>gs. list_all sound_frame gs \<Longrightarrow>
      \<exists>c'. Client_connect E (d\<lparr>d_rx := concat (map deliver (g1 # g2 # gs))\<rparr>) ?c0 = (Inr True, c') \<and>
        client_out c' = wire f1 @ wire f2 \<and> coder_key (cl_coder c') = Some key \<and>
        channel_ready c' gs (n - length (wire f1) - length (wire f2)) \<and> isAuthenticated c' = memory"
    using client_test_starts [OF assms] by metis
  let ?gs = "seals (gcm E) key (auth_status L ?v) (ctx_rng cs1) 100"
  have "list_all sound_frame ?gs" using len(2) by (intro seals_sound [OF a]) simp
  from c [OF this] obtain c1 where c1:
    "Client_connect E (d\<lparr>d_rx := concat (map deliver (g1 # g2 # ?gs))\<rparr>) ?c0 = (Inr True, c1)"
    "client_out c1 = wire f1 @ wire f2" "coder_key (cl_coder c1) = Some key"
    "channel_ready c1 ?gs (n - length (wire f1) - length (wire f2))" "isAuthenticated c1 = memory"
    by blast
  let ?fs = "seals (gcm E) key (user_text L ?s) (cl_rng c1) 100"
  have ts: "length (map clock [0..<100]) = 100" by simp
  have "length (map clock [0..<100]) * (length (user_text L ?s) + 35) \<le> n - length (wire f1) - length (wire f2)"
    using len(1) h(7) assms(4) by simp
  from client_test_rounds [OF assms(1) m s(2) _ c1(3) _ this, of ?v "ctx_rng cs1" ServerResponse_new] c1(4) s(1)
  obtain c2 where c2: "client_test_loop E (map clock [0..<100]) ?m ServerResponse_new c1 =
      Inr (concat (map (\<lambda>t. [ResponseIn t, Answer []]) (map clock [0..<100])), c2)"
    "isAuthenticated c2 = isAuthenticated c1" "client_out c2 = client_out c1 @ wires ?fs"
    unfolding ts by auto
  from session_answers_strangers [OF assms(1), of ?s, OF _ h(6,2,3,5), of auth "cl_rng c1" 100] s(1)
  obtain h2 cs2 where s2: "run_frames E (map (Pair auth) ?fs) cs1 = Inr cs2" "ctx_state cs2 = Some (HAuth h2)"
    "remainingAttempts h2 = remainingAttempts h1" "ctx_io cs2 = Some ([g1, g2] @ ?gs)" "coder_key (ah_coder h2) = Some key"
    by auto
  show ?thesis
  proof (intro exI conjI)
    show "runClientTest E (d\<lparr>d_rx := concat (map deliver (g1 # g2 # ?gs))\<rparr>) clock memory r =
      Inr (Line ''Connected!!'' # concat (map (\<lambda>i. [ResponseIn (clock i), Answer []]) [0..<100]), c2)"
      using c1(1) c2(1) by (simp add: runClientTest_def comp_def del: upt_Suc upt_conv_Cons upt_rec_numeral)
    show "hasAuthenticated c2 = memory" using c1(5) c2(2) by (simp add: hasAuthenticated_def)
    show "client_out c2 = wires (f1 # f2 # ?fs)" using c1(2) c2(3) by simp
    show "length (f1 # f2 # ?fs) = 102" by simp
    show "run_frames E (map (Pair auth) (f1 # f2 # ?fs)) ?cs0 = Inr cs2"
      using h(1) s2(1) by (auto split: sum.splits)
    show "ctx_io cs2 = Some (g1 # g2 # ?gs)" "ctx_state cs2 = Some (HAuth h2)" "remainingAttempts h2 = 5"
      using s2(2-4) h(4) by simp_all
    show "length (g1 # g2 # ?gs) = 102" by simp
    show "coder_key (ah_coder h2) = Some key" by (rule s2(5))
    show "list_all (carries_saresp E (Some key) (?v, None)) (drop 2 (g1 # g2 # ?gs))"
      using seals_carry [OF assms(1)] by (simp add: numeral_2_eq_2)
  qed
qed

end
