(* ===== verification/PbTest.thy ===== *)
theory PbTest
  imports Coders
begin

text \<open>
  \<open>Test\<close> (\<open>host_files/msg.pb.cc\<close>, \<open>protocom/msg.pb.h\<close>), the message of the self-test in \<open>main.cpp\<close>. Its file is of
  the older syntax with presence for every field and a required one: a message without its \<open>id\<close> is not
  initialized, and \<open>ParseFromArray\<close> of such a message fails. The runtime writes an \<open>int32\<close> as it writes an enum (the
  varint of the sign extension) and does not check the encoding of a string of this syntax.
\<close>

record Test =
  tt_has_bits :: i32
  tt_cached_size :: i32
  tt_id :: i32
  tt_str :: bytes
  tt_unknown :: bytes

definition Test_new :: Test where
  "Test_new = \<lparr>tt_has_bits = 0, tt_cached_size = 0, tt_id = 0, tt_str = [], tt_unknown = []\<rparr>"

definition Test_copy :: "Test \<Rightarrow> Test" where
  "Test_copy from =
     \<lparr>tt_has_bits = tt_has_bits from, tt_cached_size = 0, tt_id = tt_id from, tt_str = tt_str from,
      tt_unknown = tt_unknown from\<rparr>"

definition Test_Clear :: "Test \<Rightarrow> Test" where
  "Test_Clear m =
     (let cached_has_bits = tt_has_bits m;
          m = (if cached_has_bits AND 1 \<noteq> 0 then m\<lparr>tt_str := []\<rparr> else m)
      in m\<lparr>tt_id := 0, tt_has_bits := 0, tt_unknown := []\<rparr>)"

definition Test_table :: parse_table where
  "Test_table =
     [\<lparr>te_number = 1, te_hasbit = Some 1, te_kind = OpenEnum\<rparr>,
      \<lparr>te_number = 2, te_hasbit = Some 0, te_kind = BytesField\<rparr>]"

definition Test_store :: "wire_event \<Rightarrow> Test \<Rightarrow> bool \<times> Test" where
  "Test_store e m =
     (case e of
        EvEnum n v \<Rightarrow> (True, if n = 1 then m\<lparr>tt_id := v, tt_has_bits := tt_has_bits m OR 2\<rparr> else m)
      | EvBytes n s \<Rightarrow> (True, if n = 2 then m\<lparr>tt_str := s, tt_has_bits := tt_has_bits m OR 1\<rparr> else m)
      | EvMessage n s \<Rightarrow> (True, m)
      | EvUnknown raw \<Rightarrow> (True, m\<lparr>tt_unknown := tt_unknown m @ raw\<rparr>))"

definition Test_InternalParse :: "wire_lib \<Rightarrow> bytes \<Rightarrow> Test \<Rightarrow> bool \<times> Test" where
  "Test_InternalParse L bs m = run_events Test_store (ParseLoop L Test_table bs) m"

definition Test_GetCachedSize :: "Test \<Rightarrow> int" where
  "Test_GetCachedSize m = sint (tt_cached_size m)"

definition Test_InternalSerialize :: "wire_lib \<Rightarrow> Test \<Rightarrow> bytes \<Rightarrow> bytes" where
  "Test_InternalSerialize L m target =
     (let cached_has_bits = tt_has_bits m;
          target = (if cached_has_bits AND 2 \<noteq> 0 then target @ WriteEnumToArray L 1 (tt_id m) else target);
          target = (if cached_has_bits AND 1 \<noteq> 0 then target @ WriteStringMaybeAliased L 2 (tt_str m) else target)
      in target @ tt_unknown m)"

definition Test_ByteSizeLong :: "wire_lib \<Rightarrow> Test \<Rightarrow> nat \<times> Test" where
  "Test_ByteSizeLong L m =
     (let total_size = 0;
          cached_has_bits = tt_has_bits m;
          total_size = (if cached_has_bits AND 1 \<noteq> 0 then total_size + 1 + StringSize L (tt_str m) else total_size);
          total_size = (if cached_has_bits AND 2 \<noteq> 0 then total_size + 1 + EnumSize L (tt_id m) else total_size);
          total_size = total_size + length (tt_unknown m)
      in (total_size, m\<lparr>tt_cached_size := ToCachedSize total_size\<rparr>))"

definition Test_MissingRequiredFields :: "i32 \<Rightarrow> bool" where
  "Test_MissingRequiredFields has_bits \<longleftrightarrow> (has_bits AND 2) XOR 2 \<noteq> 0"

definition Test_IsInitialized :: "Test \<Rightarrow> bool" where
  "Test_IsInitialized m \<longleftrightarrow> \<not> Test_MissingRequiredFields (tt_has_bits m)"

definition Test_has_id :: "Test \<Rightarrow> bool" where
  "Test_has_id m \<longleftrightarrow> tt_has_bits m AND 2 \<noteq> 0"

definition Test_clear_id :: "Test \<Rightarrow> Test" where
  "Test_clear_id m = m\<lparr>tt_id := 0, tt_has_bits := tt_has_bits m AND NOT 2\<rparr>"

definition Test_internal_id :: "Test \<Rightarrow> i32" where
  "Test_internal_id m = tt_id m"

definition Test_id :: "Test \<Rightarrow> i32" where
  "Test_id m = Test_internal_id m"

definition Test_internal_set_id :: "i32 \<Rightarrow> Test \<Rightarrow> Test" where
  "Test_internal_set_id value m = m\<lparr>tt_id := value\<rparr>"

definition Test_set_id :: "i32 \<Rightarrow> Test \<Rightarrow> Test" where
  "Test_set_id value m =
     (let m = Test_internal_set_id value m in m\<lparr>tt_has_bits := tt_has_bits m OR 2\<rparr>)"

definition Test_has_str :: "Test \<Rightarrow> bool" where
  "Test_has_str m \<longleftrightarrow> tt_has_bits m AND 1 \<noteq> 0"

definition Test_clear_str :: "Test \<Rightarrow> Test" where
  "Test_clear_str m = m\<lparr>tt_str := [], tt_has_bits := tt_has_bits m AND NOT 1\<rparr>"

definition Test_internal_str :: "Test \<Rightarrow> bytes" where
  "Test_internal_str m = tt_str m"

definition Test_str :: "Test \<Rightarrow> bytes" where
  "Test_str m = Test_internal_str m"

definition Test_set_str :: "bytes \<Rightarrow> Test \<Rightarrow> Test" where
  "Test_set_str arg m = m\<lparr>tt_has_bits := tt_has_bits m OR 1, tt_str := arg\<rparr>"

definition Test_internal_set_str :: "bytes \<Rightarrow> Test \<Rightarrow> Test" where
  "Test_internal_set_str value m = m\<lparr>tt_has_bits := tt_has_bits m OR 1, tt_str := value\<rparr>"

definition Test_internal_mutable_str :: "(bytes \<Rightarrow> bytes) \<Rightarrow> Test \<Rightarrow> Test" where
  "Test_internal_mutable_str f m = m\<lparr>tt_has_bits := tt_has_bits m OR 1, tt_str := f (tt_str m)\<rparr>"

definition Test_mutable_str :: "(bytes \<Rightarrow> bytes) \<Rightarrow> Test \<Rightarrow> Test" where
  "Test_mutable_str f m = Test_internal_mutable_str f m"

definition Test_release_str :: "Test \<Rightarrow> bytes option \<times> Test" where
  "Test_release_str m =
     (if tt_has_bits m AND 1 = 0 then (None, m)
      else (Some (tt_str m), m\<lparr>tt_has_bits := tt_has_bits m AND NOT 1, tt_str := []\<rparr>))"

definition Test_set_allocated_str :: "bytes option \<Rightarrow> Test \<Rightarrow> Test" where
  "Test_set_allocated_str value m =
     (case value of
        Some s \<Rightarrow> m\<lparr>tt_has_bits := tt_has_bits m OR 1, tt_str := s\<rparr>
      | None \<Rightarrow> m\<lparr>tt_has_bits := tt_has_bits m AND NOT 1, tt_str := []\<rparr>)"

definition Test_MergeImpl :: "Test \<Rightarrow> Test \<Rightarrow> Test" where
  "Test_MergeImpl m from =
     (let cached_has_bits = tt_has_bits from;
          m = (if cached_has_bits AND 3 \<noteq> 0 then
                 (let m = (if cached_has_bits AND 1 \<noteq> 0 then Test_internal_set_str (Test_internal_str from) m else m)
                  in if cached_has_bits AND 2 \<noteq> 0 then m\<lparr>tt_id := tt_id from\<rparr> else m)
               else m)
      in m\<lparr>tt_has_bits := tt_has_bits m OR cached_has_bits, tt_unknown := tt_unknown m @ tt_unknown from\<rparr>)"

definition Test_CopyFrom :: "Test \<Rightarrow> Test \<Rightarrow> Test" where
  "Test_CopyFrom m from = Test_MergeImpl (Test_Clear m) from"

definition Test_InternalSwap :: "Test \<Rightarrow> Test \<Rightarrow> Test \<times> Test" where
  "Test_InternalSwap this other =
     (this\<lparr>tt_has_bits := tt_has_bits other, tt_id := tt_id other, tt_str := tt_str other,
           tt_unknown := tt_unknown other\<rparr>,
      other\<lparr>tt_has_bits := tt_has_bits this, tt_id := tt_id this, tt_str := tt_str this,
           tt_unknown := tt_unknown this\<rparr>)"

definition Test_assign :: "Test \<Rightarrow> Test \<Rightarrow> Test" where
  "Test_assign m from = Test_CopyFrom m from"

definition Test_assign_move :: "Test \<Rightarrow> Test \<Rightarrow> Test \<times> Test" where
  "Test_assign_move m from = Test_InternalSwap m from"

definition Test_move :: "Test \<Rightarrow> Test \<times> Test" where
  "Test_move from = Test_assign_move Test_new from"

definition Test_Swap :: "Test \<Rightarrow> Test \<Rightarrow> Test \<times> Test" where
  "Test_Swap this other = Test_InternalSwap this other"

definition Test_UnsafeArenaSwap :: "Test \<Rightarrow> Test \<Rightarrow> Test \<times> Test" where
  "Test_UnsafeArenaSwap this other = Test_InternalSwap this other"

definition Test_unknown_fields :: "Test \<Rightarrow> bytes" where
  "Test_unknown_fields m = tt_unknown m"

definition Test_mutable_unknown_fields :: "(bytes \<Rightarrow> bytes) \<Rightarrow> Test \<Rightarrow> Test" where
  "Test_mutable_unknown_fields f m = m\<lparr>tt_unknown := f (tt_unknown m)\<rparr>"

section \<open>The message class\<close>

text \<open>What \<open>MessageLite\<close> makes of it: parsing also checks the required field.\<close>

definition test_lite :: "wire_lib \<Rightarrow> Test lite" where
  "test_lite L = lite_of Test_Clear
     (\<lambda>bs m. let (ok, m) = Test_InternalParse L bs m in (ok \<and> Test_IsInitialized m, m))
     (Test_ByteSizeLong L) Test_GetCachedSize (Test_InternalSerialize L)"

definition Test_view :: "Test \<Rightarrow> i32 option \<times> bytes option" where
  "Test_view m = (if Test_has_id m then Some (Test_id m) else None, if Test_has_str m then Some (Test_str m) else None)"

definition test_ok :: "Test \<Rightarrow> bool" where
  "test_ok m \<longleftrightarrow> Test_IsInitialized m \<and> tt_unknown m = []"

lemma Test_initialized: "Test_IsInitialized m \<longleftrightarrow> bit (tt_has_bits m) 1"
proof (cases "bit (tt_has_bits m) 1")
  case True
  then have "tt_has_bits m AND 2 = 2" by (intro bit_word_eqI) (auto simp: bit_simps)
  with True show ?thesis by (simp add: Test_IsInitialized_def Test_MissingRequiredFields_def)
next
  case False
  then have "tt_has_bits m AND 2 = 0" by (simp add: has_bit)
  with False show ?thesis by (simp add: Test_IsInitialized_def Test_MissingRequiredFields_def)
qed

lemmas test_fields = Test_has_id_def Test_has_str_def Test_id_def Test_internal_id_def Test_str_def
  Test_internal_str_def Test_initialized has_bit

context wire_runtime
begin

lemma Test_parse_serialize:
  assumes "test_ok m" "Test_has_str m \<Longrightarrow> length (tt_str m) \<le> wire_max"
  shows "\<exists>r. Test_InternalParse L (Test_InternalSerialize L m []) (Test_Clear m0) = (True, r) \<and>
    Test_view r = Test_view m \<and> Test_IsInitialized r"
proof -
  have k: "kind_of Test_table 1 = Some OpenEnum" "kind_of Test_table 2 = Some BytesField"
    by (simp_all add: kind_of_def Test_table_def)
  have m: "bit (tt_has_bits m) 1" "tt_unknown m = []"
    using assms(1) by (simp_all add: test_ok_def Test_initialized)
  note enum = parse_enum [OF _ _ k(1)] parse_enum [OF _ _ k(1), of _ "[]"]
  show ?thesis
  proof (cases "bit (tt_has_bits m) 0")
    case True
    then have "length (tt_str m) \<le> wire_max" using assms(2) by (simp add: test_fields)
    from enum parse_raw_string [OF _ _ k(2) this, of "[]"] True m show ?thesis
      by (simp add: Test_InternalParse_def Test_InternalSerialize_def Test_Clear_def Test_store_def Test_view_def
          test_fields parse_Nil Let_def)
  next
    case False
    with enum m show ?thesis
      by (simp add: Test_InternalParse_def Test_InternalSerialize_def Test_Clear_def Test_store_def Test_view_def
          test_fields parse_Nil Let_def)
  qed
qed

lemma Test_size:
  assumes "Test_ByteSizeLong L m = (n, m')" "n \<le> 65535"
  shows "Test_has_str m \<Longrightarrow> length (tt_str m) \<le> wire_max"
    "length (Test_InternalSerialize L m' []) = n" "Test_InternalSerialize L m' [] = Test_InternalSerialize L m []"
proof -
  have str: "length (tt_str m) \<le> wire_max" if "Test_has_str m"
    using assms that size_string [of "tt_str m"]
    by (auto simp: Test_ByteSizeLong_def Let_def test_fields wire_max_def split: if_splits)
  then show "Test_has_str m \<Longrightarrow> length (tt_str m) \<le> wire_max" .
  have m': "m' = m\<lparr>tt_cached_size := ToCachedSize n\<rparr>"
    using assms(1) by (auto simp: Test_ByteSizeLong_def Let_def)
  then show "Test_InternalSerialize L m' [] = Test_InternalSerialize L m []"
    by (simp add: Test_InternalSerialize_def Let_def)
  then show "length (Test_InternalSerialize L m' []) = n"
    using assms(1) str by (auto simp: Test_InternalSerialize_def Test_ByteSizeLong_def Let_def test_fields wire_length)
qed

end

sublocale wire_runtime \<subseteq> test: lite_message "test_lite L" Test_view test_ok "\<lambda>m. True"
  unfolding test_lite_def
proof (rule lite_ofI, goal_cases)
  case (5 m n m')
  then show ?case by (rule Test_size(2))
next
  case (6 m n m' m0)
  with Test_parse_serialize [OF 6(1) Test_size(1) [OF 6(2,3)], of m0] Test_size(3) [OF 6(2,3)]
  show ?case by auto
qed (auto simp: Test_ByteSizeLong_def Test_GetCachedSize_def sint_ToCachedSize Test_view_def test_fields Let_def)

lemma test_sized:
  "lt_ByteSizeLong (test_lite L) m = (n, m') \<Longrightarrow> m' = m\<lparr>tt_cached_size := ToCachedSize n\<rparr>"
  "lt_SerializeToArray (test_lite L) m buf = (b, bs, m') \<Longrightarrow>
     m' = m\<lparr>tt_cached_size := ToCachedSize (fst (lt_ByteSizeLong (test_lite L) m))\<rparr>"
  "lt_ByteSizeLong (test_lite L) (m\<lparr>tt_cached_size := c\<rparr>) =
     (fst (lt_ByteSizeLong (test_lite L) m), snd (lt_ByteSizeLong (test_lite L) m))"
  by (auto simp: test_lite_def lite_of_def Test_ByteSizeLong_def Let_def split: if_splits)

context wire_runtime
begin

lemmas test_message = test.lite_message_axioms

end

end
