(* ===== verification/Mains.thy ===== *)
theory Mains
  imports MainClient PbTest ServerRuns
begin

text \<open>
  \<open>main\<close> of \<open>main.cpp\<close>: with the argument \<open>clientTest\<close> the test client of \<open>MainClient\<close>; otherwise a self-test of the
  encrypting coder and of the key exchange, and then the server, with the test handler and no authenticator. What
  the operating system and the generators answer is the record \<open>main_world\<close>. What \<open>DebugString\<close> prints is left out.
\<close>

section \<open>The self-tests\<close>

text \<open>The result of \<open>decode\<close>, and what was printed and decoded.\<close>

definition coding_test :: "gcm_lib \<Rightarrow> wire_lib \<Rightarrow> nat \<Rightarrow> bool \<times> printed list \<times> Test" where
  "coding_test G L rng =
     (let t = Test_set_str (ascii ''A string'') (Test_set_id 324 Test_new);
          (bsize, t) = lt_ByteSizeLong (test_lite L) t;
          (_, buf, t) = lt_SerializeToArray (test_lite L) t (replicate bsize 0);
          testkey = random_block G rng 16;
          coder = EncrMessageCoder_new G testkey (rng + 1);
          (_, testframe, t, coder) = EncrMessageCoder_encode G (test_lite L) no_frame t (rng + 2) coder;
          out = [Line ''Encoded message hex dump'', Hex buf, Line ''Encrypted frame hex dump'',
                 Hex (fr_header testframe # hi_byte (fr_len testframe) # lo_byte (fr_len testframe) #
                      frame_content testframe),
                 Line ''Message coding test complete!''];
          (decoded, decrt, coder) = EncrMessageCoder_decode G (test_lite L) testframe Test_new coder
      in (decoded, if decoded then out else out @ [Line ''Decode failed!''], decrt))"

text \<open>Both keys, or none when \<open>main\<close> returns. The flags are those the constructor does not initialise.\<close>

definition kex_test ::
    "dh_lib \<Rightarrow> nat \<Rightarrow> bool \<Rightarrow> bool \<Rightarrow> fault + (printed list \<times> (bytes \<times> bytes) option)" where
  "kex_test D rng flagA flagB =
     (let protoA = x25519_init D rng (x25519_new 0 flagA);
          protoB = x25519_init D (rng + 1) (x25519_new 0 flagB);
          protoB = loadOtherKey (getPubKey protoA) protoB;
          protoA = loadOtherKey (getPubKey protoB) protoA
      in case agree D protoA of
           Inl e \<Rightarrow> Inl e
         | Inr (False, _) \<Rightarrow> Inr ([Line ''kex agreement failed!''], None)
         | Inr (True, protoA) \<Rightarrow>
             (case agree D protoB of
                Inl e \<Rightarrow> Inl e
              | Inr (False, _) \<Rightarrow> Inr ([Line ''kex agreement failed!''], None)
              | Inr (True, protoB) \<Rightarrow>
                  (case getKey256 D (replicate 32 0) protoA of
                     (False, _) \<Rightarrow> Inr ([Line ''kdf failed''], None)
                   | (True, keya) \<Rightarrow>
                       (case getKey256 D (replicate 32 0) protoB of
                          (False, _) \<Rightarrow> Inr ([Line ''kdf failed''], None)
                        | (True, keyb) \<Rightarrow>
                            Inr ([Line ''shared(A): '', Hex keya, Line ''shared(B): '', Hex keyb,
                                  Line ''Key agreement test complete!''], Some (keya, keyb))))))"

section \<open>The server\<close>

record main_world =
  mw_dial :: dial
  mw_clock :: "nat \<Rightarrow> nat"
  mw_memory :: bool
  mw_flags :: "bool \<times> bool"
  mw_rng :: nat
  mw_epoll :: int
  mw_eventfd :: int
  mw_errno :: errno
  mw_socket :: int
  mw_bound :: bool
  mw_listening :: bool
  mw_added :: "bool \<times> bool"

text \<open>The server as \<open>run\<close> enters its loop; the result of \<open>bindSock\<close> is not looked at.\<close>

definition main_server :: "main_world \<Rightarrow> fault + server" where
  "main_server W =
     (case Server_new (mw_epoll W) (mw_eventfd W) (mw_errno W) of
        Inl e \<Rightarrow> Inl e
      | Inr srv \<Rightarrow>
          let srv = setUserHandlerFactory (Some TestUserHandlerFactory) srv;
              (_, srv) = bindSock (mw_socket W) (mw_bound W) (mw_listening W) (fst (mw_added W)) (snd (mw_added W)) srv
          in Inr (Server_run_start srv))"

text \<open>\<open>cleanup\<close>: what it prints, and the destructor up to the join of the worker's thread (\<open>Server_destroy_end\<close> is
  the rest; \<open>exit\<close> follows). \<open>main\<close> calls it when \<open>run\<close> has returned, and so does the handler of \<open>SIGINT\<close>.\<close>

definition cleanup :: "server \<Rightarrow> printed list \<times> server" where
  "cleanup srv =
     ([Line ''Server exiting''],
      case worker srv of
        None \<Rightarrow> srv
      | Some w \<Rightarrow> let (w, q) = ServerWorker_stop_begin w (wqIn srv) in srv\<lparr>worker := Some w, wqIn := q\<rparr>)"

section \<open>The program\<close>

datatype main_end = Returns int | Serves server

definition main_program ::
    "proto_env \<Rightarrow> wire_lib \<Rightarrow> main_world \<Rightarrow> string list \<Rightarrow> fault + (printed list \<times> main_end)" where
  "main_program E L W argv =
     (if 1 < length argv \<and> argv ! 1 = ''clientTest''
      then (case runClientTest E (mw_dial W) (mw_clock W) (mw_memory W) (mw_rng W) of
              Inl e \<Rightarrow> Inl e
            | Inr (out, _) \<Rightarrow> Inr (out, Returns 0))
      else let (decoded, out, decrt) = coding_test (gcm E) L (mw_rng W)
           in if \<not> decoded then Inr (out, Returns (- 1))
              else case kex_test (dh E) (mw_rng W + 3) (fst (mw_flags W)) (snd (mw_flags W)) of
                     Inl e \<Rightarrow> Inl e
                   | Inr (out', None) \<Rightarrow> Inr (out @ out', Returns (- 1))
                   | Inr (out', Some _) \<Rightarrow>
                       (case main_server W of
                          Inl e \<Rightarrow> Inl e
                        | Inr srv \<Rightarrow> Inr (out @ out', Serves srv)))"

section \<open>Facts\<close>

lemma coding_test_passes:
  assumes "wire_runtime L" "aead G"
  shows "\<exists>buf fr decrt. coding_test G L r = (True, [Line ''Encoded message hex dump'', Hex buf,
      Line ''Encrypted frame hex dump'', Hex fr, Line ''Message coding test complete!''], decrt) \<and>
    length fr = length buf + 35 \<and> Test_view decrt = (Some 324, Some (ascii ''A string''))"
proof -
  let ?t = "Test_set_str (ascii ''A string'') (Test_set_id 324 Test_new)"
  note T = wire_runtime.test_message [OF assms(1)]
  obtain n t1 where n: "lt_ByteSizeLong (test_lite L) ?t = (n, t1)" by fastforce
  have t: "test_ok ?t" "Test_view ?t = (Some 324, Some (ascii ''A string''))"
    by (simp_all add: test_ok_def Test_view_def test_fields Test_set_str_def Test_set_id_def Test_internal_set_id_def
        Test_new_def Let_def)
  have s: "length (ascii ''A string'') = 8" by (simp add: ascii_def)
  have "n \<le> 40"
    using n wire_runtime.size_string_le [OF assms(1), of "ascii ''A string''"]
      wire_runtime.size_enum_le [OF assms(1), of 324] s
    by (auto simp: test_lite_def lite_of_def Test_ByteSizeLong_def Test_set_str_def Test_set_id_def
        Test_internal_set_id_def Test_new_def wire_max_def has_bit Let_def)
  then have le: "n \<le> 65535" "length (replicate n (0 :: byte)) = n" by simp_all
  from lite_message.serialize [OF T t(1) n le] obtain buf t2 where b:
    "lt_SerializeToArray (test_lite L) t1 (replicate n 0) = (True, buf, t2)" "length buf = n" "Test_view t2 = Test_view ?t"
    by blast
  have "t2 = ?t\<lparr>tt_cached_size := ToCachedSize (fst (lt_ByteSizeLong (test_lite L) t1))\<rparr>"
    using test_sized(2) [OF b(1)] test_sized(1) [OF n] by simp
  with t(1) n test_sized(3) [where L = L and m = ?t] have t2: "test_ok t2" "fst (lt_ByteSizeLong (test_lite L) t2) = n"
    by (simp_all add: test_ok_def test_fields)
  let ?c = "EncrMessageCoder_new G (random_block G r 16) (r + 1)"
  have "fst (lt_ByteSizeLong (test_lite L) t2) \<le> 65503" using t2(2) \<open>n \<le> 40\<close> by simp
  from aead.encr_roundtrip [OF assms(2) T t2(1) this TrueI refl, of no_frame "r + 2" ?c Test_new]
  obtain g m' e where g: "EncrMessageCoder_encode G (test_lite L) no_frame t2 (r + 2) ?c = (True, g, m', e)"
    "frame_wf g" "unat (fr_len g) = n + 32" "ec_key e = ec_key ?c" using t2(2) by auto
  from aead.encr_roundtrip [OF assms(2) T t2(1) \<open>fst (lt_ByteSizeLong (test_lite L) t2) \<le> 65503\<close> TrueI g(4),
      of no_frame "r + 2" Test_new] g(1)
  obtain decrt e' where d: "EncrMessageCoder_decode G (test_lite L) g Test_new e = (True, decrt, e')"
    "Test_view decrt = Test_view t2" by auto
  have "length (frame_content g) = n + 32"
    using g(2,3) by (simp add: frame_content_def frame_wf_def)
  with n b g(1) d t(2) show ?thesis
    by (simp add: coding_test_def Let_def)
qed

lemma kex_test_passes:
  assumes "key_agreement D"
  shows "\<exists>k. kex_test D r fa fb = Inr ([Line ''shared(A): '', Hex k, Line ''shared(B): '', Hex k,
    Line ''Key agreement test complete!''], Some (k, k))"
proof -
  from key_agreement.agreement [OF assms, of r "r + 1"] obtain s where
    "Agree D (fst (GenerateKeyPair D r)) (snd (GenerateKeyPair D (r + 1))) = Some s"
    "Agree D (fst (GenerateKeyPair D (r + 1))) (snd (GenerateKeyPair D r)) = Some s" by blast
  then show ?thesis
    by (simp add: kex_test_def kex_defs key_agreement.public_length [OF assms] Let_def)
qed

lemma main_server_starts:
  assumes "0 < mw_epoll W" "0 < mw_eventfd W" "mw_socket W \<noteq> mw_eventfd W"
  shows "\<exists>srv w. main_server W = Inr srv \<and> srv_auth srv = None \<and> worker srv = Some w \<and>
    worker_factory w = Some TestUserHandlerFactory \<and> runnerThread w = Some AtTest \<and>
    (if mw_socket W \<noteq> - 1 \<and> mw_bound W \<and> mw_listening W \<and> fst (mw_added W) \<and> snd (mw_added W)
     then in_service srv else \<forall>rs. Server_run_loop rs srv = Inr srv)"
proof -
  obtain s0 where s0: "Server_new (mw_epoll W) (mw_eventfd W) (mw_errno W) = Inr s0" "running s0 = False" "srv_auth s0 = None"
    "k_interest s0 = {}" "eventFdOut s0 = mw_eventfd W"
    using assms(1,2) by (auto simp: Server_new_def)
  let ?f = "setUserHandlerFactory (Some TestUserHandlerFactory) s0"
  obtain b s1 where b: "bindSock (mw_socket W) (mw_bound W) (mw_listening W) (fst (mw_added W)) (snd (mw_added W)) ?f = (b, s1)"
    by fastforce
  have s1: "srv_auth s1 = None" "b \<longleftrightarrow> mw_socket W \<noteq> - 1 \<and> mw_bound W \<and> mw_listening W \<and> fst (mw_added W) \<and> snd (mw_added W)"
    "\<not> b \<Longrightarrow> \<not> running s1" "userHandlerFactory s1 = Some TestUserHandlerFactory"
    using b s0(2-5) assms(3) by (auto simp: bindSock_defs setUserHandlerFactory_def split: if_splits)
  have "in_service (Server_run_start s1)" if b
    unfolding in_service_def using s0(1) b [unfolded eqTrueI [OF that]] by (intro exI conjI) (assumption | rule refl)+
  moreover have "Server_run_loop rs (Server_run_start s1) = Inr (Server_run_start s1)" if "\<not> b" for rs
    using s1(3) [OF that] by (cases rs) (simp_all add: Server_run_start_def)
  ultimately show ?thesis
    using s0(1) b s1(1,4) unfolding s1(2)
    by (simp add: main_server_def Server_run_start_def ServerWorker_start_def ServerWorker_new_def)
qed

section \<open>Property\<close>

text \<open>C35: The self-tests of the program pass and the server starts: without the argument \<open>clientTest\<close>, and when the
  descriptors can be made and are different ones, \<open>main\<close> neither faults nor returns: the message is decoded to the one encoded, with its number
  and its text, both sides derive the same key, and \<open>run\<close> is entered with a worker that gives every session the test
  handler. If \<open>bindSock\<close> succeeded, the server is in service, without an authenticator, so that any credential is
  accepted; if it failed, \<open>main\<close> goes on all the same and \<open>run\<close> ends without handling an event.\<close>

theorem main_reaches_server:
  assumes "wire_runtime L" "aead (gcm E)" "key_agreement (dh E)" "length argv \<le> 1 \<or> argv ! 1 \<noteq> ''clientTest''"
    "0 < mw_epoll W" "0 < mw_eventfd W" "mw_socket W \<noteq> mw_eventfd W"
  shows "\<exists>srv buf fr decrt k w. main_program E L W argv = Inr ([Line ''Encoded message hex dump'', Hex buf,
      Line ''Encrypted frame hex dump'', Hex fr, Line ''Message coding test complete!'', Line ''shared(A): '', Hex k,
      Line ''shared(B): '', Hex k, Line ''Key agreement test complete!''], Serves srv) \<and>
    snd (snd (coding_test (gcm E) L (mw_rng W))) = decrt \<and> Test_view decrt = (Some 324, Some (ascii ''A string'')) \<and>
    length fr = length buf + 35 \<and> getAuthenticator srv = None \<and>
    worker srv = Some w \<and> worker_factory w = Some TestUserHandlerFactory \<and> runnerThread w = Some AtTest \<and>
    (if mw_socket W \<noteq> - 1 \<and> mw_bound W \<and> mw_listening W \<and> fst (mw_added W) \<and> snd (mw_added W)
     then in_service srv else \<forall>rs. Server_run_loop rs srv = Inr srv)"
proof -
  from main_server_starts [OF assms(5-7)] obtain srv w where srv: "main_server W = Inr srv" "srv_auth srv = None"
    "worker srv = Some w" "worker_factory w = Some TestUserHandlerFactory" "runnerThread w = Some AtTest"
    "if mw_socket W \<noteq> - 1 \<and> mw_bound W \<and> mw_listening W \<and> fst (mw_added W) \<and> snd (mw_added W)
     then in_service srv else \<forall>rs. Server_run_loop rs srv = Inr srv" by blast
  from coding_test_passes [OF assms(1,2), of "mw_rng W"] kex_test_passes [OF assms(3), of "mw_rng W + 3"
      "fst (mw_flags W)" "snd (mw_flags W)"]
  obtain buf fr decrt k where t: "coding_test (gcm E) L (mw_rng W) = (True, [Line ''Encoded message hex dump'', Hex buf,
      Line ''Encrypted frame hex dump'', Hex fr, Line ''Message coding test complete!''], decrt)"
    "length fr = length buf + 35"
    "kex_test (dh E) (mw_rng W + 3) (fst (mw_flags W)) (snd (mw_flags W)) = Inr ([Line ''shared(A): '', Hex k,
      Line ''shared(B): '', Hex k, Line ''Key agreement test complete!''], Some (k, k))"
    "Test_view decrt = (Some 324, Some (ascii ''A string''))" by blast
  have argv: "\<not> (1 < length argv \<and> argv ! 1 = ''clientTest'')" using assms(4) by auto
  have "main_program E L W argv = Inr ([Line ''Encoded message hex dump'', Hex buf,
      Line ''Encrypted frame hex dump'', Hex fr, Line ''Message coding test complete!'', Line ''shared(A): '', Hex k,
      Line ''shared(B): '', Hex k, Line ''Key agreement test complete!''], Serves srv)"
    unfolding main_program_def if_not_P [OF argv] using t(1,3) srv(1) by simp
  moreover have "snd (snd (coding_test (gcm E) L (mw_rng W))) = decrt" using t(1) by simp
  moreover have "getAuthenticator srv = None" using srv(2) by (simp add: getAuthenticator_def)
  ultimately show ?thesis
    using srv(3-6) t(2,4) by blast
qed

end
