(* ===== verification/MainDemo.thy ===== *)
theory MainDemo
  imports Mains
begin

text \<open>The properties of \<open>main.cpp\<close> at concrete inputs, in the environment \<open>demo_env\<close>.\<close>

definition demo_world :: main_world where
  "demo_world =
     \<lparr>mw_dial = \<lparr>d_socket = 3, d_rcvtimeo = 0, d_sndtimeo = 0, d_connect = 0, d_read_eagain = False,
        d_write_eagain = False, d_rx = [], d_tx = [TxRoom 6000]\<rparr>,
      mw_clock = (\<lambda>i. 1), mw_memory = False, mw_flags = (True, False), mw_rng = 7, mw_epoll = 3, mw_eventfd = 4,
      mw_errno = EBADF, mw_socket = 5, mw_bound = True, mw_listening = True, mw_added = (True, True)\<rparr>"

section \<open>Witnesses\<close>

theorem client_test_answers_empty_witness:
  "\<exists>d out c (h :: auth_handler) key gs. runClientTest demo_env d (\<lambda>i. 1) False 5 = Inr (Line ''Connected!!'' # ResponseIn 1 # Answer [] # out, c) \<and>
    \<not> hasAuthenticated c \<and> coder_key (ah_coder h) = Some key \<and> length gs = 102 \<and>
    list_all (carries_saresp demo_env (Some key) (ServerAuthResponse_ResponseStatus_INVALID_REQUEST, None)) (drop 2 gs)"
proof -
  let ?d = "mw_dial demo_world"
  have d: "dial_ok ?d" "d_tx ?d = [TxRoom 6000]" "(5430 :: nat) \<le> 6000"
    by (simp_all add: dial_ok_def demo_world_def)
  from client_test_answers_empty [OF demo_env_ok d, of "\<lambda>i. 1" False 5 None 7]
  obtain gs and c :: client and h :: auth_handler where r: "runClientTest demo_env (?d\<lparr>d_rx := concat (map deliver gs)\<rparr>) (\<lambda>i. 1) False 5 =
      Inr (Line ''Connected!!'' # concat (map (\<lambda>i. [ResponseIn 1, Answer []]) [0..<100]), c)" "hasAuthenticated c = False"
    "length gs = 102" "\<exists>key. coder_key (ah_coder h) = Some key \<and>
       list_all (carries_saresp demo_env (Some key) (ServerAuthResponse_ResponseStatus_INVALID_REQUEST, None)) (drop 2 gs)"
    by (elim exE conjE) (rule that; assumption | blast)
  from r(4) obtain key where key: "coder_key (ah_coder h) = Some key"
    "list_all (carries_saresp demo_env (Some key) (ServerAuthResponse_ResponseStatus_INVALID_REQUEST, None)) (drop 2 gs)" by blast
  have "[0..<100] = 0 # [1..<100]" by (simp add: upt_conv_Cons)
  with r(1-3) key show ?thesis
    by (intro exI [of _ "?d\<lparr>d_rx := concat (map deliver gs)\<rparr>"] exI [of _ "concat (map (\<lambda>i. [ResponseIn 1, Answer []]) [1..<100])"]
      exI [of _ c] exI [of _ h] exI [of _ key] exI [of _ gs]) simp
qed

theorem main_reaches_server_witness:
  "\<exists>out srv. main_program demo_env pb_lib demo_world [''protocom_test''] = Inr (out, Serves srv) \<and> in_service srv \<and>
    getAuthenticator srv = None \<and> map_option worker_factory (worker srv) = Some (Some TestUserHandlerFactory)"
proof -
  have E: "wire_runtime pb_lib" "aead (gcm demo_env)" "key_agreement (dh demo_env)"
    using demo_env_ok by (simp_all add: env_ok_def)
  have W: "length [''protocom_test''] \<le> 1 \<or> [''protocom_test''] ! 1 \<noteq> ''clientTest''" "0 < mw_epoll demo_world" "0 < mw_eventfd demo_world"
    "mw_socket demo_world \<noteq> mw_eventfd demo_world"
    "mw_socket demo_world \<noteq> - 1 \<and> mw_bound demo_world \<and> mw_listening demo_world \<and> fst (mw_added demo_world) \<and>
     snd (mw_added demo_world)"
    by (simp_all add: demo_world_def)
  from main_reaches_server [OF E W(1-4)] W(5) show ?thesis by auto
qed

end
