(* ===== verification/Spec2Isabelle.thy ===== *)
theory Spec2Isabelle
  imports PFrames SessionDemo SessionSinks EndToEndDemo FineDemo ObjectDemo MainDemo
begin

text \<open>
  Verification of protocom, a C++ library for framed client/server protocols: a server with an event loop
  and a worker thread, a blocking client, protobuf messages in length-prefixed frames, an X25519 key
  exchange, AES-GCM encryption and user authentication. This theory imports the whole development.

  \<^bold>\<open>How the program works.\<close> A frame is a header byte (\<open>0xF0\<close> plain, \<open>0xF1\<close> encrypted), a 16-bit length in
  network order and the message. The server's loop (\<open>Server::run\<close>) waits on epoll. Each connection has a
  \<open>PFramer\<close>, which puts complete frames with their descriptor into \<open>wqIn\<close>, and a \<open>PDeframer\<close>, which writes one
  frame from \<open>wqOut\<close>. The worker thread (\<open>ServerWorker::run\<close>) takes frames from \<open>wqIn\<close> and gives each to the
  \<open>ProtocolContext\<close> of its descriptor, whose current state handler (connected, authentication, user) decodes
  it with a \<open>MessageCoder\<close>, answers through a \<open>FrameSink\<close> (\<open>wqOut\<close> and a count on an eventfd) and may install
  the next handler. The client (\<open>Client\<close>) speaks the same protocol over an \<open>IOFrameSocket\<close>. \<open>main.cpp\<close> is a
  program around both: a test client, or self-tests and then a server.

  \<^bold>\<open>Theories and sources\<close> (all under \<open>src/\<close>), in the order of their imports:
  \<^item> \<open>Base\<close>: bytes, 16-bit words and their byte order, the value of a frame, faults, list lemmas (the prelude).
  \<^item> \<open>PFrames\<close> (\<open>IFrameIO.cpp\<close>, \<open>protocom/IFrameIO.h\<close>): \<open>PFrame\<close> with its pointer, on a heap with allocation,
    \<open>delete\<close> and \<open>delete[]\<close>: constructors, assignments, destructor, \<open>allocMsg\<close>, \<open>erase\<close>. Ownership invariant,
    refinement of value semantics, the operations the program performs on frames are free of undefined behaviour.
  \<^item> \<open>WorkQueues\<close> (\<open>WorkQueue.cpp\<close>): the queue as a monitor; the two halves of the blocking fetch are separate steps.
    Locale \<open>fifo\<close>, conservation and order of items, the limit.
  \<^item> \<open>Sockets\<close>: what \<open>recv\<close> and \<open>send\<close> answer, as scripts. \<open>PFramers\<close> (\<open>PFramer.cpp\<close>), \<open>PDeframers\<close>
    (\<open>PDeframer.cpp\<close>), \<open>IOFrameSockets\<close> (\<open>IOFrameSocket.cpp\<close>): the three frame readers and writers.
  \<^item> \<open>WireRuntime\<close>: the protobuf runtime as a parameter, with the contract \<open>wire_runtime\<close> and an instance.
    \<open>PbKex\<close>, \<open>PbConnected\<close>, \<open>PbAuth\<close> (\<open>pcomserver.pb.cc\<close>, \<open>pcomserver.pb.h\<close>): the generated classes of the
    protocol's messages; class invariants, sizes, parsing of what was serialised, merging. \<open>PbUser\<close>
    (\<open>testuserprotocol.pb.cc\<close>): the messages of the test user. \<open>PbTest\<close> (\<open>msg.pb.h\<close>): the message of \<open>main.cpp\<close>.
  \<^item> \<open>Coders\<close> (\<open>MessageCoder.cpp\<close>, \<open>EncrMessageCoder.cpp\<close>): locales \<open>lite_message\<close> (a message class, a consequence
    of \<open>wire_runtime\<close> for the four protocol messages, the two of the test user and \<open>Test\<close>) and \<open>aead\<close> (AES-GCM); round trips and the length limit.
  \<^item> \<open>Kex\<close> (\<open>x25519KexProtocol.cpp\<close>): the key agreement, with locale \<open>key_agreement\<close>. \<open>Authenticators\<close>
    (\<open>Authenticator.cpp\<close>): the user table and its strategies.
  \<^item> \<open>Handlers\<close> (\<open>ProtocolContext.cpp\<close>, \<open>ProtocolConnectedHandler.cpp\<close>, \<open>ProtocolAuthenticationHandler.cpp\<close>,
    \<open>ProtocolUserHandler.h\<close>, \<open>TestUserHandler.cpp\<close>, the factories): every branch of every handler.
    \<open>HandlerFacts\<close>: their invariant and absence of exceptions. \<open>Sessions\<close>: the abstract state machine
    (\<open>phase_step\<close>), the proof that \<open>handleFrame\<close> refines it, and the properties of whole sessions. \<open>SessionSinks\<close>:
    a session does not depend on the frames already in its sink. \<open>SessionObjects\<close>: the same handlers as objects in a store with
    \<open>new\<close> and \<open>delete\<close>; their lifetimes, and what the destructor of a context would do.
  \<^item> \<open>Workers\<close> (\<open>ServerWorker.cpp\<close>), \<open>Servers\<close> (\<open>Server.cpp\<close>): the tables of connections and sessions, the kernel
    objects, the loop, the worker as a program counter, \<open>stop\<close>; runs as sequences of actions (\<open>server_run\<close>).
    \<open>ServerFacts\<close>: the invariant \<open>server_inv\<close> and the frame condition \<open>only\<close>. \<open>ServerRuns\<close>: the properties of runs.
    \<open>ServerServes\<close>: arrival of frames, their rounds through the worker, and the sending of the replies, as one run.
    \<open>ServerRaces\<close>: the two races over a session that has ended.
  \<^item> \<open>FineWorkers\<close> (\<open>ServerWorker::run\<close>, \<open>Server::closeClient(int)\<close>): the worker with every access to the shared tables a
    step of its own, its iterator and its reference; locale \<open>unseen_update\<close> (a step of the worker commutes with
    actions of the loop). \<open>FineRefines\<close>: locale \<open>simulation\<close>, interpreted on the two workers. \<open>FineRaces\<close>: the properties:
    refinement of the worker of \<open>Servers\<close>, the exact condition of a fault in every run, the two races it leaves.
  \<^item> \<open>Locks\<close>: the mutexes every action locks, their order, absence of deadlocks. \<open>Shutdowns\<close>: when \<open>stop\<close>
    returns, and why a stopped server cannot be started again.
  \<^item> \<open>Exchanges\<close>: which frames carry a message for a key, the server's replies. \<open>Clients\<close> (\<open>Client.cpp\<close>): the client.
    \<open>ClientRuns\<close>: locale \<open>frame_io\<close> (the interface \<open>IFrameIO\<close>, interpreted on \<open>IOFrameSocket\<close>), handshake and
    authentication from both ends. \<open>ClientSessions\<close>: a client's conversation with a session, up to the echo of a
    user message. \<open>EndToEnd\<close>: the same conversation with the whole server in place of the session.
  \<^item> \<open>Strangers\<close>: user requests to a session that waits for authentication. \<open>MainClient\<close>, \<open>Mains\<close> (\<open>main.cpp\<close>): the
    test client, the self-tests and the start of the server.
  \<^item> \<open>DemoEnv\<close>, \<open>SessionDemo\<close>, \<open>ServerDemo\<close>, \<open>ClientDemo\<close>, \<open>EndToEndDemo\<close>, \<open>FineDemo\<close>, \<open>ObjectDemo\<close>, \<open>MainDemo\<close>: concrete runs, evaluated in
    the logic, at which the properties of the protocol, the server, the client and the program are applied.

  \<^bold>\<open>State and effects.\<close> A class is a record with the names of its members, an operation a function on it;
  an exception or an undefined access is a value of \<open>fault\<close>. Machine integers are words where the code
  relies on their width (frame lengths, has-bits, cached sizes). Memory the code leaves uninitialised is an
  argument. Handlers of one context and the steps of the loop are sequential; the two threads interleave in
  \<open>server_run\<close> at the grain of one epoll event and one step of the worker's loop (test, entry of the wait,
  wake-up, one frame up to its replies, the closing of an ended session), so every order of events, frames,
  closings and \<open>stop\<close> is a run. That this grain loses nothing is a theorem: in \<open>FineWorkers\<close> the thread stops between
  the lookup of a session, each use of it and each call of \<open>closeClient\<close>, and its runs that read no freed
  entry (and in which no client gets the number of a socket that is being closed) are runs of \<open>Servers\<close>;
  the runs that do are described there.

  \<^bold>\<open>What is assumed.\<close> Every theorem quantifies over the scripts of the sockets, the results of system
  calls and the random numbers. The parameters are the protobuf runtime (\<open>wire_runtime\<close>: the encoding of a field
  and the parse loop), AES-GCM (\<open>aead\<close>: decryption inverts encryption under one key and IV; the tag has 16
  bytes) and X25519 (\<open>key_agreement\<close>: both ends get the same secret, public keys have 32 bytes). They are
  contracts of function, not of security: that a third party cannot forge or read is not stated. Each has
  an instance. \<open>sane_action\<close> says of a close in the event loop that the read of the erased entry's
  descriptor (\<open>Server.cpp:311\<close>) still finds the old value.

  \<^bold>\<open>Bounds.\<close> The event counter holds \<open>2^64 - 2\<close>; theorems on notifications ask for runs of at most half as
  many actions. Loops are total functions: the read loops because every round consumes from the script or
  ends, the receive loop because every round receives something. A plaintext of at most 65503 bytes fits a
  frame with IV and tag; names and passwords together are bounded by 60000 bytes, user
  messages too. A room of 230 bytes in the client's send buffer is enough for the two frames of a handshake, of
  5430 bytes for the whole test client. Four steps of the worker serve one frame. No definition uses fuel.

  \<^bold>\<open>Not modelled.\<close> Descriptors and reflection of the generated classes, and their copies under
  \<open>host_files/\<close> by another version of the generator; what the client prints and \<open>DebugString\<close>; the delivery of
  signals; the delay before a rejection; the destruction of strategies and messages; the memory of contexts other
  than in \<open>SessionObjects\<close> (the program leaks them). Of the memory shared by the two threads: the replies of one \<open>handleFrame\<close> and their notifications are
  one step, an unsynchronised access to a hash table happens before or after the other thread's, an
  insertion does not invalidate an iterator, \<open>shouldStop\<close> is read as it was last written, and an authenticator
  is not deleted while the worker asks it.
\<close>

end
